(* ===== verification/Prelude.thy ===== *)
theory Prelude
  imports Main "HOL-Library.List_Lexorder" "HOL-Library.Char_ord"
begin

text \<open>
  Shared vocabulary of the development: the machine arithmetic the code uses on times and
  sizes, the string order, list helpers that stand for the iterator idioms of the source
  (\<open>iter().find\<close>, \<open>iter_mut().find\<close>, \<open>HashSet\<close>-guarded loops, \<open>position\<close>), and the
  collections of facts the component theories add to.

  Rust strings are byte sequences; they are modelled as HOL strings (lists of 8-bit
  characters), compared bytewise as \<open>Ord for str\<close> does (List_Lexorder over Char_ord).
\<close>

named_theorems engine_defs "operations of the turn engine"
named_theorems ledger_defs "operations of the undo ledger"
named_theorems view_defs "operations of the read views"

type_synonym hash = string

subsection \<open>Unsigned 64-bit arithmetic\<close>

text \<open>
  Times and byte counts are \<open>u64\<close>. They are kept as naturals: \<open>saturating_sub\<close> is
  subtraction on \<open>nat\<close>, and a plain \<open>+\<close> is \<open>u64_add\<close>, which wraps as release builds do.
\<close>

definition u64_max :: nat where
  "u64_max = 2 ^ 64 - 1"

definition u64_add :: "nat \<Rightarrow> nat \<Rightarrow> nat" where
  "u64_add a b = (a + b) mod 2 ^ 64"

lemma u64_add_exact [simp]: "a + b < 2 ^ 64 \<Longrightarrow> u64_add a b = a + b"
  by (simp add: u64_add_def)

lemma u64_add_le: "u64_add a b \<le> a + b"
  by (simp add: u64_add_def)

subsection \<open>Lists\<close>

text \<open>Index of the first element that satisfies a predicate (\<open>Iterator::position\<close>).\<close>

fun position :: "('a \<Rightarrow> bool) \<Rightarrow> 'a list \<Rightarrow> nat option" where
  "position P [] = None"
| "position P (x # xs) = (if P x then Some 0 else map_option Suc (position P xs))"

lemma position_None_iff: "position P xs = None \<longleftrightarrow> (\<forall>x \<in> set xs. \<not> P x)"
  by (induction xs) auto

lemma position_SomeD:
  "position P xs = Some i \<Longrightarrow> i < length xs \<and> P (xs ! i) \<and> (\<forall>j < i. \<not> P (xs ! j))"
proof (induction xs arbitrary: i)
  case Nil
  then show ?case by simp
next
  case (Cons x xs)
  show ?case
  proof (cases "P x")
    case True
    with Cons.prems show ?thesis by simp
  next
    case False
    with Cons.prems obtain j where j: "position P xs = Some j" "i = Suc j" by auto
    from Cons.IH[OF j(1)] False j(2) show ?thesis
      by (auto simp: less_Suc_eq_0_disj)
  qed
qed

lemma position_nth: "distinct xs \<Longrightarrow> n < length xs \<Longrightarrow> position (\<lambda>d. d = xs ! n) xs = Some n"
proof (induction xs arbitrary: n)
  case (Cons x xs)
  then show ?case by (cases n) auto
qed simp

lemma find_Some_set: "List.find P xs = Some x \<Longrightarrow> x \<in> set xs \<and> P x"
  by (induction xs) (auto split: if_splits)

lemma find_None_set: "List.find P xs = None \<longleftrightarrow> (\<forall>x \<in> set xs. \<not> P x)"
  by (induction xs) auto

text \<open>Keep the first occurrence of every element (a loop guarded by \<open>HashSet::insert\<close>).\<close>

definition dedup :: "'a list \<Rightarrow> 'a list" where
  "dedup xs = rev (remdups (rev xs))"

lemma set_dedup [simp]: "set (dedup xs) = set xs"
  by (simp add: dedup_def)

lemma distinct_dedup [simp]: "distinct (dedup xs)"
  by (simp add: dedup_def)

lemma dedup_Nil [simp]: "dedup [] = []"
  by (simp add: dedup_def)

lemma dedup_snoc [simp]: "dedup (xs @ [x]) = (if x \<in> set xs then dedup xs else dedup xs @ [x])"
  by (simp add: dedup_def)

lemma foldl_inv:
  assumes "P s" and "\<And>s x. P s \<Longrightarrow> x \<in> set xs \<Longrightarrow> P (f s x)"
  shows "P (foldl f s xs)"
  using assms by (induction xs arbitrary: s) auto

lemma sorted_map_nth_le: "sorted (map f xs) \<Longrightarrow> i \<le> j \<Longrightarrow> j < length xs \<Longrightarrow> f (xs ! i) \<le> f (xs ! j)"
  by (auto simp: sorted_iff_nth_mono)

text \<open>\<open>str::starts_with\<close>, \<open>ends_with\<close> and \<open>contains\<close> on byte strings.\<close>

fun starts_with :: "'a list \<Rightarrow> 'a list \<Rightarrow> bool" where
  "starts_with s [] = True"
| "starts_with [] (p # ps) = False"
| "starts_with (c # cs) (p # ps) = (c = p \<and> starts_with cs ps)"

lemma starts_with_iff: "starts_with s p \<longleftrightarrow> (\<exists>r. s = p @ r)"
  by (induction s p rule: starts_with.induct) auto

lemma starts_with_refl [simp]: "starts_with s s"
  by (simp add: starts_with_iff)

definition ends_with :: "'a list \<Rightarrow> 'a list \<Rightarrow> bool" where
  "ends_with s p \<longleftrightarrow> starts_with (rev s) (rev p)"

lemma ends_with_iff: "ends_with s p \<longleftrightarrow> (\<exists>r. s = r @ p)"
  by (metis ends_with_def rev_append rev_rev_ident starts_with_iff)

text \<open>The dash of the source's messages, as its three bytes.\<close>

definition em_dash :: string where
  "em_dash = [CHR 0xE2, CHR 0x80, CHR 0x94]"

subsection \<open>Machines driven by events\<close>

text \<open>
  A component is driven by a sequence of events; each step returns the next state and what
  it emits. \<open>run_machine\<close> collects the emissions in order.
\<close>

fun run_machine :: "('s \<Rightarrow> 'e \<Rightarrow> 's \<times> 'o list) \<Rightarrow> 's \<Rightarrow> 'o list \<Rightarrow> 'e list \<Rightarrow> 's \<times> 'o list" where
  "run_machine step s out [] = (s, out)"
| "run_machine step s out (e # es) =
     (case step s e of (s', new) \<Rightarrow> run_machine step s' (out @ new) es)"

lemma run_machine_append:
  "run_machine step s out (es @ fs) =
     (case run_machine step s out es of (s', out') \<Rightarrow> run_machine step s' out' fs)"
  by (induction es arbitrary: s out) (auto split: prod.splits)

text \<open>
  The interface of an inductive invariant: it relates the state, what was emitted and the
  events seen so far, holds at the start and is kept by every step whose event is allowed.
\<close>

locale machine_invariant =
  fixes init :: 's
    and step :: "'s \<Rightarrow> 'e \<Rightarrow> 's \<times> 'o list"
    and allowed :: "'e list \<Rightarrow> 'e \<Rightarrow> bool"
    and inv :: "'s \<Rightarrow> 'o list \<Rightarrow> 'e list \<Rightarrow> bool"
  assumes inv_init: "inv init [] []"
    and inv_step: "inv s out past \<Longrightarrow> allowed past e \<Longrightarrow> step s e = (s', new)
      \<Longrightarrow> inv s' (out @ new) (past @ [e])"
begin

lemma run_inv_from:
  assumes "inv s out past"
    and "\<And>i. i < length es \<Longrightarrow> allowed (past @ take i es) (es ! i)"
    and "run_machine step s out es = (s', out')"
  shows "inv s' out' (past @ es)"
  using assms
proof (induction es arbitrary: s out past)
  case Nil
  then show ?case by simp
next
  case (Cons e es)
  obtain s1 new where st: "step s e = (s1, new)" by fastforce
  have "allowed past e" using Cons.prems(2)[of 0] by simp
  then have "inv s1 (out @ new) (past @ [e])"
    using Cons.prems(1) st inv_step by blast
  moreover have "allowed ((past @ [e]) @ take i es) (es ! i)" if "i < length es" for i
    using Cons.prems(2)[of "Suc i"] that by simp
  moreover have "run_machine step s1 (out @ new) es = (s', out')"
    using Cons.prems(3) st by simp
  ultimately have "inv s' out' ((past @ [e]) @ es)" by (rule Cons.IH)
  then show ?case by simp
qed

lemma run_inv:
  assumes "\<And>i. i < length es \<Longrightarrow> allowed (take i es) (es ! i)"
  shows "inv (fst (run_machine step init [] es)) (snd (run_machine step init [] es)) es"
proof -
  obtain s' out' where r: "run_machine step init [] es = (s', out')" by fastforce
  have "inv s' out' ([] @ es)"
    by (rule run_inv_from[OF inv_init _ r]) (use assms in simp)
  with r show ?thesis by simp
qed

end

subsection \<open>Folding events into a map of entries\<close>

text \<open>
  A log folded into one entry per key (\<open>BTreeMap::entry(key).or_insert_with(..)\<close> in a loop):
  the entry of a key depends on the events of that key only.
\<close>

definition keyed_step :: "('e \<Rightarrow> 'k) \<Rightarrow> ('v option \<Rightarrow> 'e \<Rightarrow> 'v) \<Rightarrow> ('k \<rightharpoonup> 'v) \<Rightarrow> 'e \<Rightarrow> ('k \<rightharpoonup> 'v)" where
  "keyed_step key upd m e = m(key e \<mapsto> upd (m (key e)) e)"

definition entry_fold :: "('v option \<Rightarrow> 'e \<Rightarrow> 'v) \<Rightarrow> 'v option \<Rightarrow> 'e list \<Rightarrow> 'v option" where
  "entry_fold upd s es = foldl (\<lambda>s e. Some (upd s e)) s es"

lemma entry_fold_simps [simp]:
  "entry_fold upd s [] = s"
  "entry_fold upd s (e # es) = entry_fold upd (Some (upd s e)) es"
  "entry_fold upd s (es @ fs) = entry_fold upd (entry_fold upd s es) fs"
  by (simp_all add: entry_fold_def)

lemma keyed_fold_entry:
  "foldl (keyed_step key upd) m es k = entry_fold upd (m k) (filter (\<lambda>e. key e = k) es)"
  by (induction es arbitrary: m) (auto simp: keyed_step_def)

lemma entry_fold_Some: "es \<noteq> [] \<Longrightarrow> \<exists>v. entry_fold upd s es = Some v"
  by (induction es rule: rev_induct) auto

text \<open>The last element that yields a value (\<open>iter().rev().find_map(..)\<close>).\<close>

definition last_map :: "('a \<Rightarrow> 'b option) \<Rightarrow> 'a list \<Rightarrow> 'b option" where
  "last_map f xs = foldl (\<lambda>acc x. case f x of None \<Rightarrow> acc | Some y \<Rightarrow> Some y) None xs"

lemma last_map_simps [simp]:
  "last_map f [] = None"
  "last_map f (xs @ [x]) = (case f x of None \<Rightarrow> last_map f xs | Some y \<Rightarrow> Some y)"
  unfolding last_map_def by simp_all

end
