(* ===== verification/Engine.thy ===== *)
theory Engine
  imports Prelude
begin

text \<open>
  The turn-boundary engine (agentrec-core/src/engine.rs): the state \<open>TurnEngine\<close>, its
  operations \<open>observe_changes\<close>, \<open>observe_git_change\<close>, \<open>observe_start\<close>, \<open>observe_stop\<close>,
  \<open>tick\<close> and \<open>force_close\<close>, and the retroactive merge \<open>fold_recent_bares\<close>.
  Times are unix milliseconds (\<open>u64\<close>) as naturals; the id generator \<open>id_gen\<close>, which reads
  the clock and system entropy, is the argument \<open>gid\<close>: the id it returns if it is called.
\<close>

subsection \<open>Constants (lib.rs)\<close>

definition QUIET_MS :: nat where "QUIET_MS = 10000"
definition GIT_SETTLE_MS :: nat where "GIT_SETTLE_MS = 2000"
definition MAX_BRACKET_MS :: nat where "MAX_BRACKET_MS = 2 * 60 * 60 * 1000"
definition FOLD_WINDOW_MS :: nat where "FOLD_WINDOW_MS = 15 * 60 * 1000"

subsection \<open>Data\<close>

record change_obs =
  co_path :: string
  co_before_hash :: "hash option"
  co_snapshotted :: bool
  co_withheld :: bool
  co_baseline_unknown :: bool
  co_deleted :: bool
  co_skip_reason :: "string option"

datatype source = Bracket | Git | Quiet

record open_turn =
  ot_source :: source
  ot_tool :: "string option"
  ot_prompt :: "string option"
  ot_session :: "string option"
  ot_opened_at :: nat
  ot_files :: "change_obs list"
  ot_id :: string
  ot_emitter_turn :: "string option"

record closed_turn =
  ct_id :: string
  ct_grade :: string
  ct_boundary :: string
  ct_truncated :: bool
  ct_tool :: "string option"
  ct_prompt :: "string option"
  ct_session :: "string option"
  ct_opened_at :: nat
  ct_closed_at :: nat
  ct_files :: "change_obs list"
  ct_merges :: "string list"

record open_snapshot =
  os_source :: string
  os_tool :: "string option"
  os_prompt :: "string option"
  os_session :: "string option"
  os_opened_at :: nat
  os_last_change_at :: nat
  os_files :: "change_obs list"
  os_id :: string

record turn_engine =
  te_open :: "open_turn option"
  te_last_change_at :: "nat option"
  te_git_window_until :: nat
  te_recent_bare :: "closed_turn list"
  te_last_rich_closed_at :: nat
  te_pending_closed :: "closed_turn list"

definition new_engine :: turn_engine where
  "new_engine = \<lparr>te_open = None, te_last_change_at = None, te_git_window_until = 0,
     te_recent_bare = [], te_last_rich_closed_at = 0, te_pending_closed = []\<rparr>"

definition has_open_turn :: "turn_engine \<Rightarrow> bool" where
  "has_open_turn e \<longleftrightarrow> te_open e \<noteq> None"

definition open_turn_id :: "turn_engine \<Rightarrow> string option" where
  "open_turn_id e = map_option ot_id (te_open e)"

fun source_name :: "source \<Rightarrow> string" where
  "source_name Bracket = ''bracket''"
| "source_name Git = ''git''"
| "source_name Quiet = ''quiet''"

definition snapshot_open :: "turn_engine \<Rightarrow> open_snapshot option" where
  "snapshot_open e = (case te_open e of
     None \<Rightarrow> None
   | Some o' \<Rightarrow> Some \<lparr>os_source = source_name (ot_source o'), os_tool = ot_tool o',
       os_prompt = ot_prompt o', os_session = ot_session o', os_opened_at = ot_opened_at o',
       os_last_change_at = (case te_last_change_at e of None \<Rightarrow> ot_opened_at o' | Some t \<Rightarrow> t),
       os_files = ot_files o', os_id = ot_id o'\<rparr>)"

subsection \<open>Closing a turn\<close>

definition finish :: "turn_engine \<Rightarrow> open_turn \<Rightarrow> nat \<Rightarrow> string \<Rightarrow> string \<Rightarrow> bool
    \<Rightarrow> turn_engine \<times> closed_turn" where
  "finish e o' now boundary grade truncated =
     (e\<lparr>te_last_change_at := None\<rparr>,
      \<lparr>ct_id = ot_id o', ct_grade = grade, ct_boundary = boundary, ct_truncated = truncated,
       ct_tool = ot_tool o', ct_prompt = ot_prompt o', ct_session = ot_session o',
       ct_opened_at = ot_opened_at o', ct_closed_at = max now (ot_opened_at o'),
       ct_files = ot_files o', ct_merges = []\<rparr>)"

subsection \<open>Retroactive merge\<close>

text \<open>The filter over \<open>recent_bare\<close>: both window bounds, the last rich close, the bracket start.\<close>

definition fold_eligible :: "nat \<Rightarrow> closed_turn \<Rightarrow> closed_turn \<Rightarrow> bool" where
  "fold_eligible last_rich turn b \<longleftrightarrow>
     (let cutoff = ct_closed_at turn - FOLD_WINDOW_MS in
      ct_closed_at b \<ge> cutoff \<and> ct_opened_at b \<ge> cutoff \<and> ct_closed_at b \<ge> last_rich \<and>
      (ct_boundary turn \<noteq> ''bracket'' \<or> ct_closed_at b \<ge> ct_opened_at turn))"

text \<open>One file of a fragment into the rich turn's list: append, or take over the original state.\<close>

fun merge_before :: "change_obs list \<Rightarrow> change_obs \<Rightarrow> change_obs list" where
  "merge_before [] file = [file]"
| "merge_before (f # fs) file =
     (if co_path f = co_path file
      then f\<lparr>co_before_hash := co_before_hash file,
             co_baseline_unknown := co_baseline_unknown file\<rparr> # fs
      else f # merge_before fs file)"

definition fold_file :: "closed_turn \<times> string set \<Rightarrow> change_obs \<Rightarrow> closed_turn \<times> string set" where
  "fold_file s file = (case s of (turn, claimed) \<Rightarrow>
     if co_path file \<in> claimed then (turn, claimed)
     else (turn\<lparr>ct_files := merge_before (ct_files turn) file\<rparr>, insert (co_path file) claimed))"

definition fold_bare :: "closed_turn \<times> string set \<Rightarrow> closed_turn \<Rightarrow> closed_turn \<times> string set" where
  "fold_bare s bare = (case s of (turn, claimed) \<Rightarrow>
     foldl fold_file
       (turn\<lparr>ct_merges := ct_merges turn @ [ct_id bare],
             ct_opened_at := min (ct_opened_at turn) (ct_opened_at bare)\<rparr>, claimed)
       (ct_files bare))"

definition eligible_bares :: "turn_engine \<Rightarrow> closed_turn \<Rightarrow> closed_turn list" where
  "eligible_bares e turn =
     sort_key ct_opened_at (filter (fold_eligible (te_last_rich_closed_at e) turn) (te_recent_bare e))"

definition fold_recent_bares :: "turn_engine \<Rightarrow> closed_turn \<Rightarrow> turn_engine \<times> closed_turn" where
  "fold_recent_bares e turn =
     (e\<lparr>te_recent_bare := []\<rparr>, fst (foldl fold_bare (turn, {}) (eligible_bares e turn)))"

subsection \<open>Observed file changes\<close>

text \<open>
  The first observation of a path appends it; a later one updates the terminal state only
  (the code refreshes \<open>deleted\<close>, \<open>snapshotted\<close> and \<open>withheld\<close>, and not \<open>skip_reason\<close>).
\<close>

fun upsert_obs :: "change_obs list \<Rightarrow> change_obs \<Rightarrow> change_obs list" where
  "upsert_obs [] c = [c]"
| "upsert_obs (f # fs) c =
     (if co_path f = co_path c
      then f\<lparr>co_deleted := co_deleted c, co_snapshotted := co_snapshotted c,
             co_withheld := co_withheld c\<rparr> # fs
      else f # upsert_obs fs c)"

definition open_unbracketed :: "turn_engine \<Rightarrow> nat \<Rightarrow> string \<Rightarrow> open_turn" where
  "open_unbracketed e now gid =
     (let git = te_git_window_until e > 0 \<and> now \<le> te_git_window_until e in
      \<lparr>ot_source = (if git then Git else Quiet),
       ot_tool = (if git then Some ''git'' else None),
       ot_prompt = None, ot_session = None, ot_opened_at = now, ot_files = [],
       ot_id = gid, ot_emitter_turn = None\<rparr>)"

definition observe_changes :: "turn_engine \<Rightarrow> string \<Rightarrow> nat \<Rightarrow> change_obs list \<Rightarrow> turn_engine" where
  "observe_changes e gid now changes =
     (if changes = [] then e
      else let o' = (case te_open e of Some o' \<Rightarrow> o' | None \<Rightarrow> open_unbracketed e now gid) in
        e\<lparr>te_last_change_at := Some now,
          te_open := Some (o'\<lparr>ot_files := foldl upsert_obs (ot_files o') changes\<rparr>)\<rparr>)"

subsection \<open>Git transitions and signals\<close>

definition observe_git_change :: "turn_engine \<Rightarrow> nat \<Rightarrow> turn_engine" where
  "observe_git_change e now =
     (let e1 = e\<lparr>te_git_window_until := u64_add now GIT_SETTLE_MS\<rparr> in
      case te_open e1 of
        None \<Rightarrow> e1
      | Some o' \<Rightarrow>
          if ot_source o' \<noteq> Quiet then e1
          else if now - ot_opened_at o' \<le> GIT_SETTLE_MS + QUIET_MS
          then e1\<lparr>te_open := Some (o'\<lparr>ot_source := Git, ot_tool := Some ''git''\<rparr>)\<rparr>
          else
            (let close_at = (case te_last_change_at e1 of None \<Rightarrow> ot_opened_at o' | Some t \<Rightarrow> t);
                 (e2, turn) = finish (e1\<lparr>te_open := None\<rparr>) o' close_at ''quiet'' ''bare'' False
             in e2\<lparr>te_recent_bare := te_recent_bare e2 @ [turn],
                   te_pending_closed := te_pending_closed e2 @ [turn]\<rparr>))"

text \<open>Closing what is open on its own terms (shared by \<open>observe_start\<close> and \<open>force_close\<close>).\<close>

definition close_own_terms :: "turn_engine \<Rightarrow> open_turn \<Rightarrow> nat \<Rightarrow> turn_engine \<times> closed_turn" where
  "close_own_terms e o' now = (case ot_source o' of
     Quiet \<Rightarrow> finish e o' now ''quiet'' ''bare'' False
   | Git \<Rightarrow> finish e o' now ''git'' ''rich'' False
   | Bracket \<Rightarrow> finish e o' now ''timeout'' ''rich'' True)"

definition observe_start :: "turn_engine \<Rightarrow> string \<Rightarrow> nat \<Rightarrow> string \<Rightarrow> string option \<Rightarrow> string option
    \<Rightarrow> string option \<Rightarrow> turn_engine \<times> closed_turn list" where
  "observe_start e gid now tool prompt session emitter_turn =
     (let (e1, closed) = (case te_open e of
            None \<Rightarrow> (e, [])
          | Some o' \<Rightarrow> (let (e', turn) = close_own_terms (e\<lparr>te_open := None\<rparr>) o' now in (e', [turn])))
      in (e1\<lparr>te_open := Some \<lparr>ot_source = Bracket, ot_tool = Some tool, ot_prompt = prompt,
             ot_session = session, ot_opened_at = now, ot_files = [], ot_id = gid,
             ot_emitter_turn = emitter_turn\<rparr>\<rparr>, closed))"

definition stop_mismatches_open_bracket :: "turn_engine \<Rightarrow> string \<Rightarrow> string option \<Rightarrow> bool" where
  "stop_mismatches_open_bracket e tool emitter_turn = (case te_open e of
     None \<Rightarrow> False
   | Some o' \<Rightarrow>
       if ot_source o' \<noteq> Bracket \<or> ot_tool o' \<noteq> Some tool then False
       else (case (ot_emitter_turn o', emitter_turn) of
               (Some a, Some b) \<Rightarrow> a \<noteq> b
             | _ \<Rightarrow> False))"

text \<open>The rich turn a stop records when no open unattributed work becomes that turn.\<close>

definition stop_only_turn :: "string \<Rightarrow> nat \<Rightarrow> string \<Rightarrow> string option \<Rightarrow> string option \<Rightarrow> closed_turn" where
  "stop_only_turn gid now tool prompt session =
     \<lparr>ct_id = gid, ct_grade = ''rich'', ct_boundary = ''stop-only'', ct_truncated = False,
      ct_tool = Some tool, ct_prompt = prompt, ct_session = session,
      ct_opened_at = now, ct_closed_at = now, ct_files = [], ct_merges = []\<rparr>"

text \<open>Fold into a rich turn, remember its close, and append it to what is returned.\<close>

definition emit_rich :: "turn_engine \<Rightarrow> closed_turn \<Rightarrow> nat \<Rightarrow> closed_turn list
    \<Rightarrow> turn_engine \<times> closed_turn list" where
  "emit_rich e turn now closed =
     (let (e', turn') = fold_recent_bares e turn
      in (e'\<lparr>te_last_rich_closed_at := now\<rparr>, closed @ [turn']))"

definition observe_stop :: "turn_engine \<Rightarrow> string \<Rightarrow> nat \<Rightarrow> string \<Rightarrow> string option \<Rightarrow> string option
    \<Rightarrow> turn_engine \<times> closed_turn list" where
  "observe_stop e gid now tool prompt_fallback session =
     (let e0 = e\<lparr>te_open := None\<rparr> in
      case te_open e of
        None \<Rightarrow> emit_rich e0 (stop_only_turn gid now tool prompt_fallback session) now []
      | Some o' \<Rightarrow>
          if ot_source o' = Bracket \<and> ot_tool o' = Some tool then
            (let (e1, turn) = finish e0 o' now ''bracket'' ''rich'' False;
                 turn1 = (if ct_prompt turn = None then turn\<lparr>ct_prompt := prompt_fallback\<rparr> else turn);
                 turn2 = (if ct_session turn1 = None then turn1\<lparr>ct_session := session\<rparr> else turn1)
             in emit_rich e1 turn2 now [])
          else if ot_source o' = Quiet \<and> now - ot_opened_at o' \<le> FOLD_WINDOW_MS then
            (let (e1, turn) = finish e0 o' now ''stop-only'' ''rich'' False
             in emit_rich e1 (turn\<lparr>ct_tool := Some tool, ct_prompt := prompt_fallback,
                                   ct_session := session\<rparr>) now [])
          else
            (let (e1, turn) = close_own_terms e0 o' now
             in emit_rich e1 (stop_only_turn gid now tool prompt_fallback session) now [turn]))"

subsection \<open>Clock\<close>

definition tick :: "turn_engine \<Rightarrow> nat \<Rightarrow> turn_engine \<times> closed_turn list" where
  "tick e now =
     (let out = te_pending_closed e;
          e1 = e\<lparr>te_recent_bare := filter (\<lambda>t. now - ct_closed_at t \<le> FOLD_WINDOW_MS) (te_recent_bare e),
                 te_pending_closed := []\<rparr> in
      case te_open e1 of
        None \<Rightarrow> (e1, out)
      | Some o' \<Rightarrow>
          (let last_change = (case te_last_change_at e1 of None \<Rightarrow> ot_opened_at o' | Some t \<Rightarrow> t);
               close = (case ot_source o' of
                          Quiet \<Rightarrow> now - last_change > QUIET_MS
                        | Git \<Rightarrow> now - last_change > GIT_SETTLE_MS
                        | Bracket \<Rightarrow> now - ot_opened_at o' > MAX_BRACKET_MS) in
           if \<not> close then (e1, out)
           else (let e2 = e1\<lparr>te_open := None\<rparr> in
             case ot_source o' of
               Quiet \<Rightarrow> (let (e3, turn) = finish e2 o' now ''quiet'' ''bare'' False
                         in (e3\<lparr>te_recent_bare := te_recent_bare e3 @ [turn]\<rparr>, out @ [turn]))
             | Git \<Rightarrow> (let (e3, turn) = finish e2 o' now ''git'' ''rich'' False in (e3, out @ [turn]))
             | Bracket \<Rightarrow> (let (e3, turn) = finish e2 o' last_change ''timeout'' ''rich'' True
                           in (e3, out @ [turn])))))"

definition force_close :: "turn_engine \<Rightarrow> nat \<Rightarrow> turn_engine \<times> closed_turn list" where
  "force_close e now = (case te_open e of
     None \<Rightarrow> (e, [])
   | Some o' \<Rightarrow> (let (e', turn) = close_own_terms (e\<lparr>te_open := None\<rparr>) o' now in (e', [turn])))"

end
