(* ===== verification/Engine_Runs.thy ===== *)
theory Engine_Runs
  imports Engine
begin

text \<open>
  Facts about the turn engine: functional specifications of the observation list and of the
  retroactive merge, the invariants of whole recordings (sequences of engine calls), and
  the properties they give.
\<close>

subsection \<open>The entry of a path\<close>

text \<open>What \<open>files.iter().find(|f| f.path == p)\<close> returns.\<close>

definition obs_at :: "string \<Rightarrow> change_obs list \<Rightarrow> change_obs option" where
  "obs_at p fs = List.find (\<lambda>f. co_path f = p) fs"

lemma obs_at_Nil [simp]: "obs_at p [] = None"
  by (simp add: obs_at_def)

lemma obs_at_Cons [simp]: "obs_at p (f # fs) = (if co_path f = p then Some f else obs_at p fs)"
  by (simp add: obs_at_def)

lemma obs_at_append: "obs_at p (xs @ ys) = (case obs_at p xs of None \<Rightarrow> obs_at p ys | Some f \<Rightarrow> Some f)"
  by (induction xs) auto

lemma obs_at_path: "obs_at p fs = Some f \<Longrightarrow> co_path f = p"
  by (induction fs) (auto split: if_splits)

lemma obs_at_None: "obs_at p fs = None \<longleftrightarrow> p \<notin> co_path ` set fs"
  by (induction fs) auto

subsection \<open>Observations within one turn\<close>

definition refresh :: "change_obs \<Rightarrow> change_obs \<Rightarrow> change_obs" where
  "refresh f c = f\<lparr>co_deleted := co_deleted c, co_snapshotted := co_snapshotted c,
     co_withheld := co_withheld c\<rparr>"

lemma refresh_path [simp]: "co_path (refresh f c) = co_path f"
  by (simp add: refresh_def)

lemma refresh_refresh [simp]: "refresh (refresh f c) d = refresh f d"
  by (simp add: refresh_def)

lemma refresh_self [simp]: "refresh f f = f"
  by (simp add: refresh_def)

lemma obs_at_upsert:
  "obs_at p (upsert_obs fs c) =
     (if co_path c = p
      then Some (case obs_at p fs of None \<Rightarrow> c | Some f \<Rightarrow> refresh f c)
      else obs_at p fs)"
  by (induction fs) (auto simp: refresh_def)

lemma paths_upsert: "co_path ` set (upsert_obs fs c) = insert (co_path c) (co_path ` set fs)"
  by (induction fs) auto

lemma paths_foldl_upsert:
  "co_path ` set (foldl upsert_obs fs cs) = co_path ` set fs \<union> co_path ` set cs"
  by (induction cs arbitrary: fs) (auto simp: paths_upsert)

lemma distinct_upsert:
  "distinct (map co_path fs) \<Longrightarrow> distinct (map co_path (upsert_obs fs c))"
proof (induction fs)
  case (Cons f fs)
  then show ?case using paths_upsert[of fs c] by (auto simp del: set_map simp: set_map[symmetric])
qed simp

lemma obs_at_foldl_upsert:
  "obs_at p (foldl upsert_obs fs cs) =
     (let ms = filter (\<lambda>c. co_path c = p) cs in
      if ms = [] then obs_at p fs
      else Some (refresh (case obs_at p fs of None \<Rightarrow> hd ms | Some f \<Rightarrow> f) (last ms)))"
proof (induction cs arbitrary: fs)
  case Nil
  then show ?case by simp
next
  case (Cons c cs)
  show ?case
    unfolding foldl_Cons Cons.IH
    by (auto simp: Let_def obs_at_upsert split: option.splits)
qed

subsection \<open>The retroactive merge\<close>

definition take_before :: "change_obs \<Rightarrow> change_obs \<Rightarrow> change_obs" where
  "take_before f file = f\<lparr>co_before_hash := co_before_hash file,
     co_baseline_unknown := co_baseline_unknown file\<rparr>"

lemma take_before_path [simp]: "co_path (take_before f g) = co_path f"
  by (simp add: take_before_def)

lemma take_before_self [simp]: "take_before f f = f"
  by (simp add: take_before_def)

lemma obs_at_merge_before:
  "obs_at p (merge_before fs file) =
     (if co_path file = p
      then Some (case obs_at p fs of None \<Rightarrow> file | Some f \<Rightarrow> take_before f file)
      else obs_at p fs)"
  by (induction fs) (auto simp: take_before_def)

lemma paths_merge_before: "co_path ` set (merge_before fs f) = insert (co_path f) (co_path ` set fs)"
  by (induction fs) auto

lemma fold_file_pair:
  "fold_file (turn, claimed) file =
     (if co_path file \<in> claimed then (turn, claimed)
      else (turn\<lparr>ct_files := merge_before (ct_files turn) file\<rparr>, insert (co_path file) claimed))"
  by (simp add: fold_file_def)

lemma fst_fold_file_frame:
  "ct_id (fst (fold_file s f)) = ct_id (fst s) \<and> ct_merges (fst (fold_file s f)) = ct_merges (fst s)
   \<and> ct_opened_at (fst (fold_file s f)) = ct_opened_at (fst s)
   \<and> ct_closed_at (fst (fold_file s f)) = ct_closed_at (fst s)
   \<and> ct_grade (fst (fold_file s f)) = ct_grade (fst s)
   \<and> ct_boundary (fst (fold_file s f)) = ct_boundary (fst s)
   \<and> ct_truncated (fst (fold_file s f)) = ct_truncated (fst s)
   \<and> ct_tool (fst (fold_file s f)) = ct_tool (fst s)
   \<and> ct_prompt (fst (fold_file s f)) = ct_prompt (fst s)
   \<and> ct_session (fst (fold_file s f)) = ct_session (fst s)"
  by (cases s) (simp add: fold_file_def)

lemma foldl_fold_file_frame:
  "ct_id (fst (foldl fold_file s fs)) = ct_id (fst s)
   \<and> ct_merges (fst (foldl fold_file s fs)) = ct_merges (fst s)
   \<and> ct_opened_at (fst (foldl fold_file s fs)) = ct_opened_at (fst s)
   \<and> ct_closed_at (fst (foldl fold_file s fs)) = ct_closed_at (fst s)
   \<and> ct_grade (fst (foldl fold_file s fs)) = ct_grade (fst s)
   \<and> ct_boundary (fst (foldl fold_file s fs)) = ct_boundary (fst s)
   \<and> ct_truncated (fst (foldl fold_file s fs)) = ct_truncated (fst s)
   \<and> ct_tool (fst (foldl fold_file s fs)) = ct_tool (fst s)
   \<and> ct_prompt (fst (foldl fold_file s fs)) = ct_prompt (fst s)
   \<and> ct_session (fst (foldl fold_file s fs)) = ct_session (fst s)"
  by (induction fs arbitrary: s) (simp_all add: fst_fold_file_frame)

text \<open>The files and the claimed set of the inner loop depend on the files only.\<close>

definition claim_file :: "change_obs list \<times> string set \<Rightarrow> change_obs \<Rightarrow> change_obs list \<times> string set" where
  "claim_file s file = (case s of (fs, claimed) \<Rightarrow>
     if co_path file \<in> claimed then (fs, claimed)
     else (merge_before fs file, insert (co_path file) claimed))"

lemma claim_file_pair:
  "claim_file (fs, claimed) file =
     (if co_path file \<in> claimed then (fs, claimed)
      else (merge_before fs file, insert (co_path file) claimed))"
  by (simp add: claim_file_def)

lemma fold_file_files:
  "(ct_files (fst (foldl fold_file (t, cl) fs)), snd (foldl fold_file (t, cl) fs))
     = foldl claim_file (ct_files t, cl) fs"
proof (induction fs arbitrary: t cl)
  case (Cons f fs)
  show ?case
    unfolding foldl_Cons
    by (cases "co_path f \<in> cl") (simp_all add: fold_file_pair claim_file_pair Cons.IH)
qed simp

lemma fold_bare_pair:
  "fold_bare (turn, claimed) bare =
     foldl fold_file
       (turn\<lparr>ct_merges := ct_merges turn @ [ct_id bare],
             ct_opened_at := min (ct_opened_at turn) (ct_opened_at bare)\<rparr>, claimed)
       (ct_files bare)"
  by (simp add: fold_bare_def)

lemma fold_bare_frame:
  "ct_id (fst (fold_bare s b)) = ct_id (fst s)
   \<and> ct_merges (fst (fold_bare s b)) = ct_merges (fst s) @ [ct_id b]
   \<and> ct_opened_at (fst (fold_bare s b)) = min (ct_opened_at (fst s)) (ct_opened_at b)
   \<and> ct_closed_at (fst (fold_bare s b)) = ct_closed_at (fst s)
   \<and> ct_grade (fst (fold_bare s b)) = ct_grade (fst s)
   \<and> ct_boundary (fst (fold_bare s b)) = ct_boundary (fst s)
   \<and> ct_truncated (fst (fold_bare s b)) = ct_truncated (fst s)
   \<and> ct_tool (fst (fold_bare s b)) = ct_tool (fst s)
   \<and> ct_prompt (fst (fold_bare s b)) = ct_prompt (fst s)
   \<and> ct_session (fst (fold_bare s b)) = ct_session (fst s)"
  by (cases s) (simp add: fold_bare_pair foldl_fold_file_frame)

lemma fold_bare_files:
  "(ct_files (fst (foldl fold_bare (t, cl) bs)), snd (foldl fold_bare (t, cl) bs))
     = foldl claim_file (ct_files t, cl) (concat (map ct_files bs))"
proof (induction bs arbitrary: t cl)
  case (Cons b bs)
  obtain t1 cl1 where r: "fold_bare (t, cl) b = (t1, cl1)" by fastforce
  have "(ct_files t1, cl1) = foldl claim_file (ct_files t, cl) (ct_files b)"
    using r fold_file_files[of "t\<lparr>ct_merges := ct_merges t @ [ct_id b],
             ct_opened_at := min (ct_opened_at t) (ct_opened_at b)\<rparr>" cl "ct_files b"]
    by (simp add: fold_bare_pair)
  with Cons.IH[of t1 cl1] r show ?case by simp
qed simp

lemma foldl_claim_file:
  "obs_at p (fst (foldl claim_file (fs, cl) gs)) =
     (if p \<in> cl then obs_at p fs
      else case obs_at p gs of
             None \<Rightarrow> obs_at p fs
           | Some g \<Rightarrow> Some (case obs_at p fs of None \<Rightarrow> g | Some f \<Rightarrow> take_before f g))"
proof (induction gs arbitrary: fs cl)
  case (Cons g gs)
  show ?case
    unfolding foldl_Cons
    by (cases "co_path g \<in> cl")
      (auto simp: claim_file_pair Cons.IH obs_at_merge_before split: option.splits)
qed simp

lemma paths_claim_files:
  "co_path ` set (fst (foldl claim_file (fs, {}) gs)) = co_path ` set fs \<union> co_path ` set gs"
proof (rule set_eqI)
  fix p
  have "obs_at p (fst (foldl claim_file (fs, {}) gs)) = None \<longleftrightarrow> obs_at p fs = None \<and> obs_at p gs = None"
    by (simp add: foldl_claim_file split: option.splits)
  then show "p \<in> co_path ` set (fst (foldl claim_file (fs, {}) gs))
      \<longleftrightarrow> p \<in> co_path ` set fs \<union> co_path ` set gs"
    unfolding obs_at_None by blast
qed

lemma foldl_fold_bare_frame:
  "ct_id (fst (foldl fold_bare s bs)) = ct_id (fst s)
   \<and> ct_closed_at (fst (foldl fold_bare s bs)) = ct_closed_at (fst s)
   \<and> ct_grade (fst (foldl fold_bare s bs)) = ct_grade (fst s)
   \<and> ct_boundary (fst (foldl fold_bare s bs)) = ct_boundary (fst s)
   \<and> ct_truncated (fst (foldl fold_bare s bs)) = ct_truncated (fst s)
   \<and> ct_tool (fst (foldl fold_bare s bs)) = ct_tool (fst s)
   \<and> ct_prompt (fst (foldl fold_bare s bs)) = ct_prompt (fst s)
   \<and> ct_session (fst (foldl fold_bare s bs)) = ct_session (fst s)
   \<and> ct_merges (fst (foldl fold_bare s bs)) = ct_merges (fst s) @ map ct_id bs
   \<and> ct_opened_at (fst (foldl fold_bare s bs)) = foldl min (ct_opened_at (fst s)) (map ct_opened_at bs)"
  by (induction bs arbitrary: s) (simp_all add: fold_bare_frame)

lemma foldl_min_le: "foldl min (a::nat) xs \<le> a"
  by (induction xs arbitrary: a) (auto intro: order_trans min.cobounded1)

lemma fold_recent_frame:
  assumes "fold_recent_bares e turn = (e', t)"
  shows "ct_id t = ct_id turn" "ct_closed_at t = ct_closed_at turn" "ct_grade t = ct_grade turn"
    "ct_boundary t = ct_boundary turn" "ct_truncated t = ct_truncated turn" "ct_tool t = ct_tool turn"
    "ct_prompt t = ct_prompt turn" "ct_session t = ct_session turn"
    "ct_merges t = ct_merges turn @ map ct_id (eligible_bares e turn)"
    "ct_opened_at t \<le> ct_opened_at turn"
    "co_path ` set (ct_files t) = co_path ` set (ct_files turn)
       \<union> co_path ` (\<Union>b \<in> set (eligible_bares e turn). set (ct_files b))"
    "e' = e\<lparr>te_recent_bare := []\<rparr>"
proof -
  have t: "t = fst (foldl fold_bare (turn, {}) (eligible_bares e turn))"
    and e': "e' = e\<lparr>te_recent_bare := []\<rparr>"
    using assms by (simp_all add: fold_recent_bares_def)
  note fr = foldl_fold_bare_frame[of "(turn, {})" "eligible_bares e turn"]
  show "ct_id t = ct_id turn" "ct_closed_at t = ct_closed_at turn" "ct_grade t = ct_grade turn"
    "ct_boundary t = ct_boundary turn" "ct_truncated t = ct_truncated turn" "ct_tool t = ct_tool turn"
    "ct_prompt t = ct_prompt turn" "ct_session t = ct_session turn"
    "ct_merges t = ct_merges turn @ map ct_id (eligible_bares e turn)"
    using fr by (simp_all add: t)
  show "ct_opened_at t \<le> ct_opened_at turn"
    using fr by (simp add: t foldl_min_le)
  have "ct_files t = fst (foldl claim_file (ct_files turn, {}) (concat (map ct_files (eligible_bares e turn))))"
    using fold_bare_files[of turn "{}" "eligible_bares e turn"] by (metis fst_conv t)
  then show "co_path ` set (ct_files t) = co_path ` set (ct_files turn)
       \<union> co_path ` (\<Union>b \<in> set (eligible_bares e turn). set (ct_files b))"
    using paths_claim_files[of "ct_files turn" "concat (map ct_files (eligible_bares e turn))"]
    by simp
  show "e' = e\<lparr>te_recent_bare := []\<rparr>" by (fact e')
qed

lemma set_eligible: "b \<in> set (eligible_bares e turn) \<longleftrightarrow>
    b \<in> set (te_recent_bare e) \<and> fold_eligible (te_last_rich_closed_at e) turn b"
  by (auto simp: eligible_bares_def)

subsection \<open>Recordings: sequences of engine calls\<close>

text \<open>The calls the daemon makes; the first argument of the calls that may reserve an id is that id.\<close>

datatype engine_event =
    ObserveChanges string nat "change_obs list"
  | ObserveGit nat
  | ObserveStart string nat string "string option" "string option" "string option"
  | ObserveStop string nat string "string option" "string option"
  | Tick nat
  | ForceClose nat

fun engine_step :: "turn_engine \<Rightarrow> engine_event \<Rightarrow> turn_engine \<times> closed_turn list" where
  "engine_step e (ObserveChanges gid now cs) = (observe_changes e gid now cs, [])"
| "engine_step e (ObserveGit now) = (observe_git_change e now, [])"
| "engine_step e (ObserveStart gid now tool prompt session et) =
     observe_start e gid now tool prompt session et"
| "engine_step e (ObserveStop gid now tool prompt session) =
     observe_stop e gid now tool prompt session"
| "engine_step e (Tick now) = tick e now"
| "engine_step e (ForceClose now) = force_close e now"

abbreviation engine_run :: "engine_event list \<Rightarrow> turn_engine \<times> closed_turn list" where
  "engine_run \<equiv> run_machine engine_step new_engine []"

abbreviation emitted :: "engine_event list \<Rightarrow> closed_turn list" where
  "emitted evs \<equiv> snd (engine_run evs)"

declare finish_def [engine_defs] close_own_terms_def [engine_defs] observe_git_change_def [engine_defs]
  observe_start_def [engine_defs] force_close_def [engine_defs] stop_only_turn_def [engine_defs]

text \<open>
  A step in one of five shapes. Every invariant below is proved for the shapes, so that the
  operations are unfolded once.
\<close>

inductive engine_move :: "turn_engine \<Rightarrow> engine_event \<Rightarrow> turn_engine \<Rightarrow> closed_turn list \<Rightarrow> bool" where
  skip: "engine_move e (ObserveChanges gid now []) e []"
| observe: "cs \<noteq> [] \<Longrightarrow> te_open e = Some o' \<Longrightarrow>
    engine_move e (ObserveChanges gid now cs)
      (e\<lparr>te_last_change_at := Some now,
         te_open := Some (o'\<lparr>ot_files := foldl upsert_obs (ot_files o') cs\<rparr>)\<rparr>) []"
| observe_open: "cs \<noteq> [] \<Longrightarrow> te_open e = None \<Longrightarrow>
    engine_move e (ObserveChanges gid now cs)
      (e\<lparr>te_last_change_at := Some now,
         te_open := Some ((open_unbracketed e now gid)\<lparr>ot_files := foldl upsert_obs [] cs\<rparr>)\<rparr>) []"
| git_window: "te_open e = None \<or> (\<exists>o'. te_open e = Some o' \<and> ot_source o' \<noteq> Quiet) \<Longrightarrow>
    engine_move e (ObserveGit now) (e\<lparr>te_git_window_until := u64_add now GIT_SETTLE_MS\<rparr>) []"
| git_convert: "te_open e = Some o' \<Longrightarrow> ot_source o' = Quiet \<Longrightarrow>
    engine_move e (ObserveGit now)
      (e\<lparr>te_git_window_until := u64_add now GIT_SETTLE_MS,
         te_open := Some (o'\<lparr>ot_source := Git, ot_tool := Some ''git''\<rparr>)\<rparr>) []"
| git_close: "te_open e = Some o' \<Longrightarrow> ot_source o' = Quiet \<Longrightarrow>
    turn = snd (finish e o' at ''quiet'' ''bare'' False) \<Longrightarrow>
    at = (case te_last_change_at e of None \<Rightarrow> ot_opened_at o' | Some t \<Rightarrow> t) \<Longrightarrow>
    engine_move e (ObserveGit now)
      (e\<lparr>te_open := None, te_last_change_at := None,
         te_git_window_until := u64_add now GIT_SETTLE_MS,
         te_recent_bare := te_recent_bare e @ [turn],
         te_pending_closed := te_pending_closed e @ [turn]\<rparr>) []"
| start_idle: "te_open e = None \<Longrightarrow>
    engine_move e (ObserveStart gid now tool prompt session et)
      (e\<lparr>te_open := Some \<lparr>ot_source = Bracket, ot_tool = Some tool, ot_prompt = prompt,
         ot_session = session, ot_opened_at = now, ot_files = [], ot_id = gid,
         ot_emitter_turn = et\<rparr>\<rparr>) []"
| start_close: "te_open e = Some o' \<Longrightarrow> turn = snd (close_own_terms e o' now) \<Longrightarrow>
    engine_move e (ObserveStart gid now tool prompt session et)
      (e\<lparr>te_last_change_at := None, te_open := Some \<lparr>ot_source = Bracket, ot_tool = Some tool,
         ot_prompt = prompt, ot_session = session, ot_opened_at = now, ot_files = [], ot_id = gid,
         ot_emitter_turn = et\<rparr>\<rparr>) [turn]"
| stop_idle: "te_open e = None \<Longrightarrow>
    turn = snd (fold_recent_bares e (stop_only_turn gid now tool prompt session)) \<Longrightarrow>
    engine_move e (ObserveStop gid now tool prompt session)
      (e\<lparr>te_recent_bare := [], te_last_rich_closed_at := now\<rparr>) [turn]"
| stop_bracket: "te_open e = Some o' \<Longrightarrow> ot_source o' = Bracket \<Longrightarrow> ot_tool o' = Some tool \<Longrightarrow>
    base = (snd (finish e o' now ''bracket'' ''rich'' False))
      \<lparr>ct_prompt := (case ot_prompt o' of None \<Rightarrow> prompt | Some p \<Rightarrow> Some p),
       ct_session := (case ot_session o' of None \<Rightarrow> session | Some p \<Rightarrow> Some p)\<rparr> \<Longrightarrow>
    turn = snd (fold_recent_bares e base) \<Longrightarrow>
    engine_move e (ObserveStop gid now tool prompt session)
      (e\<lparr>te_open := None, te_last_change_at := None, te_recent_bare := [],
         te_last_rich_closed_at := now\<rparr>) [turn]"
| stop_convert: "te_open e = Some o' \<Longrightarrow> ot_source o' = Quiet \<Longrightarrow>
    base = (snd (finish e o' now ''stop-only'' ''rich'' False))
      \<lparr>ct_tool := Some tool, ct_prompt := prompt, ct_session := session\<rparr> \<Longrightarrow>
    turn = snd (fold_recent_bares e base) \<Longrightarrow>
    engine_move e (ObserveStop gid now tool prompt session)
      (e\<lparr>te_open := None, te_last_change_at := None, te_recent_bare := [],
         te_last_rich_closed_at := now\<rparr>) [turn]"
| stop_other: "te_open e = Some o' \<Longrightarrow> prior = snd (close_own_terms e o' now) \<Longrightarrow>
    turn = snd (fold_recent_bares e (stop_only_turn gid now tool prompt session)) \<Longrightarrow>
    engine_move e (ObserveStop gid now tool prompt session)
      (e\<lparr>te_open := None, te_last_change_at := None, te_recent_bare := [],
         te_last_rich_closed_at := now\<rparr>) [prior, turn]"
| tick_keep: "recent = filter (\<lambda>t. now - ct_closed_at t \<le> FOLD_WINDOW_MS) (te_recent_bare e) \<Longrightarrow>
    (\<And>o'. te_open e = Some o' \<Longrightarrow>
       (case ot_source o' of
          Quiet \<Rightarrow> now - (case te_last_change_at e of None \<Rightarrow> ot_opened_at o' | Some t \<Rightarrow> t) \<le> QUIET_MS
        | Git \<Rightarrow> now - (case te_last_change_at e of None \<Rightarrow> ot_opened_at o' | Some t \<Rightarrow> t) \<le> GIT_SETTLE_MS
        | Bracket \<Rightarrow> now - ot_opened_at o' \<le> MAX_BRACKET_MS)) \<Longrightarrow>
    engine_move e (Tick now) (e\<lparr>te_recent_bare := recent, te_pending_closed := []\<rparr>) (te_pending_closed e)"
| tick_quiet: "recent = filter (\<lambda>t. now - ct_closed_at t \<le> FOLD_WINDOW_MS) (te_recent_bare e) \<Longrightarrow>
    te_open e = Some o' \<Longrightarrow> ot_source o' = Quiet \<Longrightarrow>
    turn = snd (finish e o' now ''quiet'' ''bare'' False) \<Longrightarrow>
    engine_move e (Tick now)
      (e\<lparr>te_recent_bare := recent @ [turn], te_pending_closed := [], te_open := None,
         te_last_change_at := None\<rparr>) (te_pending_closed e @ [turn])"
| tick_rich: "recent = filter (\<lambda>t. now - ct_closed_at t \<le> FOLD_WINDOW_MS) (te_recent_bare e) \<Longrightarrow>
    te_open e = Some o' \<Longrightarrow> ot_source o' \<noteq> Quiet \<Longrightarrow>
    turn = snd (close_own_terms e o' at) \<Longrightarrow>
    at \<in> {now, (case te_last_change_at e of None \<Rightarrow> ot_opened_at o' | Some t \<Rightarrow> t)} \<Longrightarrow>
    engine_move e (Tick now)
      (e\<lparr>te_recent_bare := recent, te_pending_closed := [], te_open := None,
         te_last_change_at := None\<rparr>) (te_pending_closed e @ [turn])"
| force_idle: "te_open e = None \<Longrightarrow> engine_move e (ForceClose now) e []"
| force: "te_open e = Some o' \<Longrightarrow> turn = snd (close_own_terms e o' now) \<Longrightarrow>
    engine_move e (ForceClose now) (e\<lparr>te_open := None, te_last_change_at := None\<rparr>) [turn]"

lemma fold_recent_eq:
  assumes "te_recent_bare e = te_recent_bare e'" "te_last_rich_closed_at e = te_last_rich_closed_at e'"
  shows "snd (fold_recent_bares e t) = snd (fold_recent_bares e' t)"
  using assms by (simp add: fold_recent_bares_def eligible_bares_def)

lemma snd_finish_eq [simp]: "snd (finish (e\<lparr>te_open := x\<rparr>) o' now b g tr) = snd (finish e o' now b g tr)"
  by (simp add: finish_def)

lemma snd_close_eq [simp]: "snd (close_own_terms (e\<lparr>te_open := x\<rparr>) o' now) = snd (close_own_terms e o' now)"
  by (simp add: close_own_terms_def split: source.splits)

lemma fst_close [simp]: "fst (close_own_terms e o' now) = e\<lparr>te_last_change_at := None\<rparr>"
  by (simp add: close_own_terms_def finish_def split: source.splits)

lemma fst_finish [simp]: "fst (finish e o' now b g tr) = e\<lparr>te_last_change_at := None\<rparr>"
  by (simp add: finish_def)

lemma emit_rich_eq: "emit_rich e turn now closed =
    (e\<lparr>te_recent_bare := [], te_last_rich_closed_at := now\<rparr>, closed @ [snd (fold_recent_bares e turn)])"
  by (simp add: emit_rich_def fold_recent_bares_def)

lemma open_unbracketed_files [simp]: "ot_files (open_unbracketed e now gid) = []"
  by (simp add: open_unbracketed_def Let_def)

lemma observe_changes_move: "engine_move e (ObserveChanges gid now cs) (observe_changes e gid now cs) []"
proof (cases "te_open e"; cases "cs = []")
  assume "te_open e = None" "cs \<noteq> []"
  then show ?thesis
    using engine_move.observe_open[of cs e gid now] by (simp add: observe_changes_def Let_def)
next
  fix o' assume "te_open e = Some o'" "cs \<noteq> []"
  then show ?thesis
    using engine_move.observe[of cs e o' gid now] by (simp add: observe_changes_def Let_def)
qed (simp_all add: observe_changes_def engine_move.skip)

lemma observe_git_move: "engine_move e (ObserveGit now) (observe_git_change e now) []"
proof (cases "te_open e")
  case None
  then show ?thesis by (auto simp: observe_git_change_def intro: engine_move.git_window)
next
  case (Some o')
  show ?thesis
  proof (cases "ot_source o' = Quiet")
    case False
    with Some show ?thesis by (auto simp: observe_git_change_def intro: engine_move.git_window)
  next
    case True
    show ?thesis
    proof (cases "now - ot_opened_at o' \<le> GIT_SETTLE_MS + QUIET_MS")
      case c: True
      then have "observe_git_change e now = e\<lparr>te_git_window_until := u64_add now GIT_SETTLE_MS,
          te_open := Some (o'\<lparr>ot_source := Git, ot_tool := Some ''git''\<rparr>)\<rparr>"
        using Some True by (simp add: observe_git_change_def Let_def)
      then show ?thesis using engine_move.git_convert[OF Some True] by simp
    next
      case c: False
      let ?turn = "snd (finish e o' (case te_last_change_at e of None \<Rightarrow> ot_opened_at o' | Some t \<Rightarrow> t)
          ''quiet'' ''bare'' False)"
      have "observe_git_change e now = e\<lparr>te_open := None, te_last_change_at := None,
         te_git_window_until := u64_add now GIT_SETTLE_MS,
         te_recent_bare := te_recent_bare e @ [?turn],
         te_pending_closed := te_pending_closed e @ [?turn]\<rparr>"
        using Some True c by (simp add: observe_git_change_def Let_def finish_def)
      then show ?thesis
        using engine_move.git_close[OF Some True refl refl, of now] by simp
    qed
  qed
qed

lemma observe_start_move:
  assumes "observe_start e gid now tool prompt session et = (e', out)"
  shows "engine_move e (ObserveStart gid now tool prompt session et) e' out"
proof (cases "te_open e")
  case None
  then show ?thesis using assms engine_move.start_idle[OF None] by (auto simp: observe_start_def)
next
  case (Some o')
  then have "e' = e\<lparr>te_last_change_at := None, te_open := Some \<lparr>ot_source = Bracket,
         ot_tool = Some tool, ot_prompt = prompt, ot_session = session, ot_opened_at = now,
         ot_files = [], ot_id = gid, ot_emitter_turn = et\<rparr>\<rparr>"
    and "out = [snd (close_own_terms e o' now)]"
    using assms by (auto simp: observe_start_def split_beta)
  then show ?thesis using engine_move.start_close[OF Some refl] by simp
qed

lemma observe_stop_move:
  assumes "observe_stop e gid now tool prompt session = (e', out)"
  shows "engine_move e (ObserveStop gid now tool prompt session) e' out"
proof (cases "te_open e")
  case None
  then have "e' = e\<lparr>te_recent_bare := [], te_last_rich_closed_at := now\<rparr>"
    and "out = [snd (fold_recent_bares e (stop_only_turn gid now tool prompt session))]"
    using assms by (auto simp: observe_stop_def emit_rich_eq fold_recent_bares_def eligible_bares_def)
  then show ?thesis using engine_move.stop_idle[OF None refl] by simp
next
  case (Some o')
  let ?e' = "e\<lparr>te_open := None, te_last_change_at := None, te_recent_bare := [],
         te_last_rich_closed_at := now\<rparr>"
  have fold: "snd (fold_recent_bares (e\<lparr>te_open := None, te_last_change_at := None\<rparr>) t)
      = snd (fold_recent_bares e t)" for t
    by (rule fold_recent_eq) simp_all
  consider (bracket) "ot_source o' = Bracket" "ot_tool o' = Some tool"
    | (convert) "ot_source o' = Quiet" "now - ot_opened_at o' \<le> FOLD_WINDOW_MS"
    | (other) "\<not> (ot_source o' = Bracket \<and> ot_tool o' = Some tool)"
        "\<not> (ot_source o' = Quiet \<and> now - ot_opened_at o' \<le> FOLD_WINDOW_MS)"
    by blast
  then show ?thesis
  proof cases
    case bracket
    define base where "base = (snd (finish e o' now ''bracket'' ''rich'' False))
      \<lparr>ct_prompt := (case ot_prompt o' of None \<Rightarrow> prompt | Some p \<Rightarrow> Some p),
       ct_session := (case ot_session o' of None \<Rightarrow> session | Some p \<Rightarrow> Some p)\<rparr>"
    have "e' = ?e'" "out = [snd (fold_recent_bares e base)]"
      using assms Some bracket
      by (auto simp: observe_stop_def split_beta emit_rich_eq base_def fold Let_def finish_def
          split: option.splits)
    then show ?thesis using engine_move.stop_bracket[OF Some bracket base_def refl] by simp
  next
    case convert
    define base where "base = (snd (finish e o' now ''stop-only'' ''rich'' False))
      \<lparr>ct_tool := Some tool, ct_prompt := prompt, ct_session := session\<rparr>"
    have "e' = ?e'" "out = [snd (fold_recent_bares e base)]"
      using assms Some convert
      by (auto simp: observe_stop_def split_beta emit_rich_eq base_def fold Let_def)
    then show ?thesis using engine_move.stop_convert[OF Some convert(1) base_def refl] by simp
  next
    case other
    then have "e' = ?e'" "out = [snd (close_own_terms e o' now),
        snd (fold_recent_bares e (stop_only_turn gid now tool prompt session))]"
      using assms Some
      by (auto simp: observe_stop_def split_beta emit_rich_eq fold Let_def)
    then show ?thesis using engine_move.stop_other[OF Some refl refl] by simp
  qed
qed

lemma tick_move:
  assumes "tick e now = (e', out)"
  shows "engine_move e (Tick now) e' out"
proof (cases "te_open e")
  case None
  then show ?thesis
    using assms engine_move.tick_keep[OF refl, of e now] by (auto simp: tick_def Let_def)
next
  case (Some o')
  let ?lc = "case te_last_change_at e of None \<Rightarrow> ot_opened_at o' | Some t \<Rightarrow> t"
  let ?r = "filter (\<lambda>t. now - ct_closed_at t \<le> FOLD_WINDOW_MS) (te_recent_bare e)"
  let ?due = "case ot_source o' of Quiet \<Rightarrow> now - ?lc > QUIET_MS | Git \<Rightarrow> now - ?lc > GIT_SETTLE_MS
      | Bracket \<Rightarrow> now - ot_opened_at o' > MAX_BRACKET_MS"
  show ?thesis
  proof (cases ?due)
    case False
    then have "e' = e\<lparr>te_recent_bare := ?r, te_pending_closed := []\<rparr>" "out = te_pending_closed e"
      using assms Some by (auto simp: tick_def Let_def split: source.splits)
    moreover have "case ot_source o' of Quiet \<Rightarrow> now - ?lc \<le> QUIET_MS
        | Git \<Rightarrow> now - ?lc \<le> GIT_SETTLE_MS | Bracket \<Rightarrow> now - ot_opened_at o' \<le> MAX_BRACKET_MS"
      using False by (cases "ot_source o'") auto
    ultimately show ?thesis using engine_move.tick_keep[OF refl, of e now] Some by simp
  next
    case due: True
    show ?thesis
    proof (cases "ot_source o'")
      case Quiet
      have "e' = e\<lparr>te_recent_bare := ?r @ [snd (finish e o' now ''quiet'' ''bare'' False)],
          te_pending_closed := [], te_open := None, te_last_change_at := None\<rparr>"
        "out = te_pending_closed e @ [snd (finish e o' now ''quiet'' ''bare'' False)]"
        using assms Some due Quiet by (auto simp: tick_def Let_def finish_def)
      then show ?thesis using engine_move.tick_quiet[OF refl Some Quiet refl] by simp
    next
      case Git
      have "e' = e\<lparr>te_recent_bare := ?r, te_pending_closed := [], te_open := None,
          te_last_change_at := None\<rparr>"
        "out = te_pending_closed e @ [snd (close_own_terms e o' now)]"
        using assms Some due Git by (auto simp: tick_def Let_def finish_def close_own_terms_def)
      then show ?thesis using engine_move.tick_rich[OF refl Some _ refl, of now] Git by simp
    next
      case Bracket
      have "e' = e\<lparr>te_recent_bare := ?r, te_pending_closed := [], te_open := None,
          te_last_change_at := None\<rparr>"
        "out = te_pending_closed e @ [snd (close_own_terms e o' ?lc)]"
        using assms Some due Bracket by (auto simp: tick_def Let_def finish_def close_own_terms_def)
      then show ?thesis using engine_move.tick_rich[OF refl Some _ refl, of ?lc now] Bracket by simp
    qed
  qed
qed

lemma force_move:
  assumes "force_close e now = (e', out)"
  shows "engine_move e (ForceClose now) e' out"
  using assms
  by (cases "te_open e")
    (auto simp: force_close_def split_beta intro: engine_move.force_idle engine_move.force[OF _ refl])

lemma engine_step_move:
  assumes "engine_step e ev = (e', out)"
  shows "engine_move e ev e' out"
  using assms
  by (cases ev) (auto intro: observe_changes_move observe_git_move observe_start_move
      observe_stop_move tick_move force_move)

end
