(* ===== verification/Engine_Props.thy ===== *)
theory Engine_Props
  imports Engine_Runs
begin

text \<open>
  Invariants of recordings and the properties of the turn engine: attribution is never
  fabricated, no observed path is lost, a bare turn is absorbed at most once, and every turn
  is eventually closed.
\<close>

subsection \<open>Attribution\<close>

definition bare_turn :: "closed_turn \<Rightarrow> bool" where
  "bare_turn t \<longleftrightarrow> ct_grade t = ''bare'' \<and> ct_boundary t = ''quiet'' \<and> \<not> ct_truncated t
     \<and> ct_tool t = None \<and> ct_prompt t = None \<and> ct_session t = None \<and> ct_merges t = []"

definition rich_turn :: "closed_turn \<Rightarrow> bool" where
  "rich_turn t \<longleftrightarrow> ct_grade t = ''rich'' \<and> ct_tool t \<noteq> None
     \<and> ct_boundary t \<in> {''bracket'', ''stop-only'', ''git'', ''timeout''}
     \<and> (ct_truncated t \<longleftrightarrow> ct_boundary t = ''timeout'')
     \<and> (ct_boundary t = ''git'' \<longrightarrow> ct_tool t = Some ''git'' \<and> ct_prompt t = None)
     \<and> (ct_boundary t \<in> {''git'', ''timeout''} \<longrightarrow> ct_merges t = [])"

definition honest_turn :: "closed_turn \<Rightarrow> bool" where
  "honest_turn t \<longleftrightarrow> (bare_turn t \<or> rich_turn t) \<and> ct_opened_at t \<le> ct_closed_at t"

definition open_honest :: "open_turn \<Rightarrow> bool" where
  "open_honest o' \<longleftrightarrow> (case ot_source o' of
     Quiet \<Rightarrow> ot_tool o' = None \<and> ot_prompt o' = None \<and> ot_session o' = None
   | Git \<Rightarrow> ot_tool o' = Some ''git'' \<and> ot_prompt o' = None \<and> ot_session o' = None
   | Bracket \<Rightarrow> ot_tool o' \<noteq> None)"

definition inv_attr :: "turn_engine \<Rightarrow> closed_turn list \<Rightarrow> engine_event list \<Rightarrow> bool" where
  "inv_attr e out past \<longleftrightarrow> list_all honest_turn out
     \<and> list_all (\<lambda>t. bare_turn t \<and> ct_opened_at t \<le> ct_closed_at t) (te_recent_bare e)
     \<and> list_all (\<lambda>t. bare_turn t \<and> ct_opened_at t \<le> ct_closed_at t) (te_pending_closed e)
     \<and> pred_option open_honest (te_open e)"

lemma open_honest_files [simp]: "open_honest (o'\<lparr>ot_files := fs\<rparr>) = open_honest o'"
  by (auto simp: open_honest_def split: source.splits)

lemma open_honest_unbracketed [simp]: "open_honest (open_unbracketed e now gid)"
  by (simp add: open_honest_def open_unbracketed_def Let_def)

lemma open_unbracketed_id [simp]: "ot_id (open_unbracketed e now gid) = gid"
  by (simp add: open_unbracketed_def Let_def)

lemma open_honest_bracket [simp]:
  "open_honest \<lparr>ot_source = Bracket, ot_tool = Some tool, ot_prompt = p, ot_session = s,
     ot_opened_at = t, ot_files = fs, ot_id = i, ot_emitter_turn = et\<rparr>"
  by (simp add: open_honest_def)

lemma open_honest_git [simp]:
  "open_honest o' \<Longrightarrow> ot_source o' = Quiet \<Longrightarrow>
    open_honest (o'\<lparr>ot_source := Git, ot_tool := Some ''git''\<rparr>)"
  by (simp add: open_honest_def)

lemma close_own_honest: "open_honest o' \<Longrightarrow> honest_turn (snd (close_own_terms e o' now))"
  by (auto simp: open_honest_def honest_turn_def bare_turn_def rich_turn_def close_own_terms_def
      finish_def split: source.splits)

lemma close_own_fields [simp]:
  "ct_id (snd (close_own_terms e o' now)) = ot_id o'"
  "ct_files (snd (close_own_terms e o' now)) = ot_files o'"
  "ct_merges (snd (close_own_terms e o' now)) = []"
  by (simp_all add: close_own_terms_def finish_def split: source.splits)

lemma finish_fields [simp]:
  "ct_id (snd (finish e o' now b g tr)) = ot_id o'"
  "ct_files (snd (finish e o' now b g tr)) = ot_files o'"
  "ct_merges (snd (finish e o' now b g tr)) = []"
  "ct_tool (snd (finish e o' now b g tr)) = ot_tool o'"
  "ct_prompt (snd (finish e o' now b g tr)) = ot_prompt o'"
  "ct_session (snd (finish e o' now b g tr)) = ot_session o'"
  "ct_grade (snd (finish e o' now b g tr)) = g"
  "ct_boundary (snd (finish e o' now b g tr)) = b"
  "ct_truncated (snd (finish e o' now b g tr)) = tr"
  "ct_opened_at (snd (finish e o' now b g tr)) = ot_opened_at o'"
  "ct_closed_at (snd (finish e o' now b g tr)) = max now (ot_opened_at o')"
  by (simp_all add: finish_def)

lemma finish_bare:
  "open_honest o' \<Longrightarrow> ot_source o' = Quiet \<Longrightarrow> t = snd (finish e o' now ''quiet'' ''bare'' False)
    \<Longrightarrow> bare_turn t \<and> ct_opened_at t \<le> ct_closed_at t"
  by (simp add: bare_turn_def open_honest_def)

lemma fold_honest:
  assumes "ct_grade base = ''rich''" "ct_tool base \<noteq> None" "\<not> ct_truncated base"
    "ct_boundary base \<in> {''bracket'', ''stop-only''}" "ct_opened_at base \<le> ct_closed_at base"
  shows "honest_turn (snd (fold_recent_bares e base))"
proof -
  obtain e' t where r: "fold_recent_bares e base = (e', t)" by fastforce
  note f = fold_recent_frame[OF r]
  have "rich_turn t" using assms f by (auto simp: rich_turn_def)
  moreover have "ct_opened_at t \<le> ct_closed_at t" using assms(5) f(2,10) by simp
  ultimately show ?thesis using r by (simp add: honest_turn_def)
qed

lemma stop_only_honest: "honest_turn (snd (fold_recent_bares e (stop_only_turn gid now tool p s)))"
  by (rule fold_honest) (simp_all add: stop_only_turn_def)

lemma bare_honest: "bare_turn t \<and> ct_opened_at t \<le> ct_closed_at t \<Longrightarrow> honest_turn t"
  by (simp add: honest_turn_def)

lemma inv_attr_move:
  assumes "engine_move e ev e' new" and inv: "inv_attr e out past"
  shows "inv_attr e' (out @ new) (past @ [ev])"
  using assms(1) inv
proof (cases rule: engine_move.cases)
  case (observe_open cs gid now)
  then show ?thesis using inv by (auto simp: inv_attr_def)
next
  case (observe cs o' gid now)
  then show ?thesis using inv by (auto simp: inv_attr_def)
next
  case (git_convert o' now)
  then show ?thesis using inv by (auto simp: inv_attr_def)
next
  case (git_close o' turn at' now)
  then show ?thesis using inv finish_bare[OF _ _ git_close(6)]
    by (auto simp: inv_attr_def)
next
  case (start_close o' turn now)
  then show ?thesis using inv close_own_honest by (auto simp: inv_attr_def)
next
  case (stop_bracket o' tool base session prompt now turn gid)
  have "honest_turn turn"
    unfolding stop_bracket(8) stop_bracket(7) by (rule fold_honest) (use stop_bracket in simp_all)
  then show ?thesis using inv stop_bracket by (auto simp: inv_attr_def)
next
  case (stop_convert o' base session prompt tool now turn gid)
  have "honest_turn turn"
    unfolding stop_convert(7) stop_convert(6) by (rule fold_honest) (use stop_convert in simp_all)
  then show ?thesis using inv stop_convert by (auto simp: inv_attr_def)
next
  case (stop_other o' prior now turn gid tool prompt session)
  then show ?thesis using inv close_own_honest stop_only_honest by (auto simp: inv_attr_def)
next
  case (tick_quiet recent now o' turn)
  then show ?thesis using inv finish_bare[OF _ _ tick_quiet(7)] bare_honest
    by (auto simp: inv_attr_def list_all_iff)
next
  case (tick_rich recent now o' turn at')
  then show ?thesis using inv close_own_honest bare_honest
    by (auto simp: inv_attr_def list_all_iff)
next
  case (tick_keep recent now)
  then show ?thesis using inv bare_honest by (auto simp: inv_attr_def list_all_iff)
next
  case (force o' turn now)
  then show ?thesis using inv close_own_honest by (auto simp: inv_attr_def)
qed (auto simp: inv_attr_def stop_only_honest)

interpretation attribution: machine_invariant new_engine engine_step "\<lambda>_ _. True" inv_attr
  by unfold_locales
    (simp add: inv_attr_def new_engine_def, rule inv_attr_move[OF engine_step_move])

text \<open>
  In every recording, each turn the engine emits is either a bare turn with no tool, no
  prompt, no session and nothing absorbed, or a rich turn of a named tool, and it closes no
  earlier than it opens. Attribution is never fabricated for an unattributed window.
\<close>

theorem emitted_turns_honest: "list_all honest_turn (emitted evs)"
  using attribution.run_inv[of evs] by (simp add: inv_attr_def)

subsection \<open>No observed path is lost\<close>

definition turn_paths :: "closed_turn list \<Rightarrow> string set" where
  "turn_paths ts = (\<Union>t \<in> set ts. co_path ` set (ct_files t))"

lemma turn_paths_simps [simp]:
  "turn_paths [] = {}"
  "turn_paths (t # ts) = co_path ` set (ct_files t) \<union> turn_paths ts"
  "turn_paths (ts @ us) = turn_paths ts \<union> turn_paths us"
  by (auto simp: turn_paths_def)

lemma turn_paths_mono: "set ts \<subseteq> set us \<Longrightarrow> turn_paths ts \<subseteq> turn_paths us"
  by (auto simp: turn_paths_def)

definition open_paths :: "turn_engine \<Rightarrow> string set" where
  "open_paths e = (case te_open e of None \<Rightarrow> {} | Some o' \<Rightarrow> co_path ` set (ot_files o'))"

fun observed :: "engine_event list \<Rightarrow> string set" where
  "observed [] = {}"
| "observed (ObserveChanges gid now cs # evs) = co_path ` set cs \<union> observed evs"
| "observed (ev # evs) = observed evs"

lemma observed_append [simp]: "observed (xs @ ys) = observed xs \<union> observed ys"
  by (induction xs rule: observed.induct) auto

definition inv_paths :: "turn_engine \<Rightarrow> closed_turn list \<Rightarrow> engine_event list \<Rightarrow> bool" where
  "inv_paths e out past \<longleftrightarrow>
     turn_paths out \<union> turn_paths (te_pending_closed e) \<union> open_paths e = observed past
     \<and> set (te_recent_bare e) \<subseteq> set out \<union> set (te_pending_closed e)"

lemma fold_paths:
  "co_path ` set (ct_files base) \<subseteq> co_path ` set (ct_files (snd (fold_recent_bares e base)))"
  "co_path ` set (ct_files (snd (fold_recent_bares e base)))
     \<subseteq> co_path ` set (ct_files base) \<union> turn_paths (te_recent_bare e)"
proof -
  obtain e' t where r: "fold_recent_bares e base = (e', t)" by fastforce
  from fold_recent_frame(11)[OF r]
  show "co_path ` set (ct_files base) \<subseteq> co_path ` set (ct_files (snd (fold_recent_bares e base)))"
    "co_path ` set (ct_files (snd (fold_recent_bares e base)))
       \<subseteq> co_path ` set (ct_files base) \<union> turn_paths (te_recent_bare e)"
    using r by (auto simp: turn_paths_def set_eligible)
qed

lemma recent_paths: "inv_paths e out past \<Longrightarrow> turn_paths (te_recent_bare e) \<subseteq> observed past"
  using turn_paths_mono[of "te_recent_bare e" "out @ te_pending_closed e"]
  by (auto simp: inv_paths_def)

lemma stop_only_files [simp]: "ct_files (stop_only_turn gid now tool p s) = []"
  by (simp add: stop_only_turn_def)

lemma cover_between:
  "A \<union> B = U \<Longrightarrow> B \<subseteq> F \<Longrightarrow> F \<subseteq> B \<union> R \<Longrightarrow> R \<subseteq> U \<Longrightarrow> A \<union> F = U"
  by blast

lemma inv_paths_fold:
  assumes "inv_paths e out past" "te_open e = Some o'" "set (ct_files base) = set (ot_files o')"
  shows "turn_paths out \<union> turn_paths (te_pending_closed e)
      \<union> co_path ` set (ct_files (snd (fold_recent_bares e base))) = observed past"
proof -
  have "turn_paths out \<union> turn_paths (te_pending_closed e) \<union> co_path ` set (ct_files base) = observed past"
    using assms by (simp add: inv_paths_def open_paths_def)
  then show ?thesis
    using fold_paths[where base = base and e = e] recent_paths[OF assms(1)] by (rule cover_between)
qed

lemma inv_paths_move:
  assumes "engine_move e ev e' new" and inv: "inv_paths e out past"
  shows "inv_paths e' (out @ new) (past @ [ev])"
  using assms(1) inv
proof (cases rule: engine_move.cases)
  case (stop_idle turn gid now tool prompt session)
  then show ?thesis
    using inv fold_paths(2)[where base = "stop_only_turn gid now tool prompt session" and e = e] recent_paths[OF inv]
    by (auto simp: inv_paths_def open_paths_def)
next
  case (stop_bracket o' tool base session prompt now turn gid)
  have "set (ct_files base) = set (ot_files o')" using stop_bracket(7) by simp
  note inv_paths_fold[OF inv stop_bracket(4) this]
  with inv show ?thesis unfolding stop_bracket(1-3) inv_paths_def by (simp add: open_paths_def stop_bracket(8) Un_ac)
next
  case (stop_convert o' base session prompt tool now turn gid)
  have "set (ct_files base) = set (ot_files o')" using stop_convert(6) by simp
  note inv_paths_fold[OF inv stop_convert(4) this]
  with inv show ?thesis unfolding stop_convert(1-3) inv_paths_def by (simp add: open_paths_def stop_convert(7) Un_ac)
next
  case (stop_other o' prior now turn gid tool prompt session)
  then show ?thesis
    using inv fold_paths(2)[where base = "stop_only_turn gid now tool prompt session" and e = e] recent_paths[OF inv]
    by (auto simp: inv_paths_def open_paths_def)
qed (auto simp: inv_paths_def open_paths_def paths_foldl_upsert)

interpretation paths: machine_invariant new_engine engine_step "\<lambda>_ _. True" inv_paths
  by unfold_locales
    (simp add: inv_paths_def new_engine_def open_paths_def, rule inv_paths_move[OF engine_step_move])

text \<open>
  In every recording, the paths of the emitted turns, of the turns queued for the next
  tick and of the open turn are together exactly the paths that were observed: no observed
  change is dropped, and no turn lists a path nobody observed.
\<close>

theorem observed_paths_kept:
  "turn_paths (emitted evs) \<union> turn_paths (te_pending_closed (fst (engine_run evs)))
     \<union> open_paths (fst (engine_run evs)) = observed evs"
  using paths.run_inv[of evs] by (simp add: inv_paths_def)

subsection \<open>Absorption\<close>

fun event_gid :: "engine_event \<Rightarrow> string list" where
  "event_gid (ObserveChanges gid _ _) = [gid]"
| "event_gid (ObserveStart gid _ _ _ _ _) = [gid]"
| "event_gid (ObserveStop gid _ _ _ _) = [gid]"
| "event_gid _ = []"

definition gids :: "engine_event list \<Rightarrow> string list" where
  "gids evs = concat (map event_gid evs)"

definition fresh_gid :: "engine_event list \<Rightarrow> engine_event \<Rightarrow> bool" where
  "fresh_gid past ev \<longleftrightarrow> set (event_gid ev) \<inter> set (gids past) = {}"

definition merged :: "closed_turn list \<Rightarrow> string list" where
  "merged ts = concat (map ct_merges ts)"

lemma gids_simps [simp]:
  "gids [] = []" "gids (ev # evs) = event_gid ev @ gids evs" "gids (xs @ ys) = gids xs @ gids ys"
  by (simp_all add: gids_def)

lemma merged_simps [simp]: "merged [] = []" "merged (t # ts) = ct_merges t @ merged ts"
  "merged (xs @ ys) = merged xs @ merged ys"
  by (simp_all add: merged_def)

definition open_ids :: "turn_engine \<Rightarrow> string list" where
  "open_ids e = (case te_open e of None \<Rightarrow> [] | Some o' \<Rightarrow> [ot_id o'])"

definition inv_merge :: "turn_engine \<Rightarrow> closed_turn list \<Rightarrow> engine_event list \<Rightarrow> bool" where
  "inv_merge e out past \<longleftrightarrow>
     distinct (map ct_id out @ map ct_id (te_pending_closed e) @ open_ids e)
     \<and> set (map ct_id out @ map ct_id (te_pending_closed e) @ open_ids e) \<subseteq> set (gids past)
     \<and> distinct (merged out @ map ct_id (te_recent_bare e))
     \<and> set (merged out) \<subseteq> ct_id ` {t \<in> set out \<union> set (te_pending_closed e). bare_turn t}
     \<and> set (te_recent_bare e) \<subseteq> {t \<in> set out \<union> set (te_pending_closed e). bare_turn t}
     \<and> merged (te_pending_closed e) = [] \<and> pred_option open_honest (te_open e)"

lemma fold_ids:
  assumes "ct_merges base = []"
  shows "ct_id (snd (fold_recent_bares e base)) = ct_id base"
    "set (ct_merges (snd (fold_recent_bares e base))) \<subseteq> ct_id ` set (te_recent_bare e)"
    "distinct (map ct_id (te_recent_bare e)) \<Longrightarrow> distinct (ct_merges (snd (fold_recent_bares e base)))"
proof -
  obtain e' t where r: "fold_recent_bares e base = (e', t)" by fastforce
  note f = fold_recent_frame[OF r]
  show "ct_id (snd (fold_recent_bares e base)) = ct_id base" using f(1) r by simp
  show "set (ct_merges (snd (fold_recent_bares e base))) \<subseteq> ct_id ` set (te_recent_bare e)"
    using f(9) r assms by (auto simp: set_eligible)
  assume d: "distinct (map ct_id (te_recent_bare e))"
  then have "distinct (map ct_id (eligible_bares e base))"
    by (auto simp: eligible_bares_def distinct_map inj_on_def)
  then show "distinct (ct_merges (snd (fold_recent_bares e base)))" using f(9) r assms by simp
qed

lemma inv_mergeD:
  assumes "inv_merge e out past"
  shows "distinct (map ct_id out @ map ct_id (te_pending_closed e) @ open_ids e)"
    "set (map ct_id out @ map ct_id (te_pending_closed e) @ open_ids e) \<subseteq> set (gids past)"
    "distinct (merged out @ map ct_id (te_recent_bare e))"
    "merged (te_pending_closed e) = []" "pred_option open_honest (te_open e)"
    "ct_id ` set (te_recent_bare e) \<subseteq> ct_id ` set out \<union> ct_id ` set (te_pending_closed e)"
    "set (merged out) \<subseteq> ct_id ` set out \<union> ct_id ` set (te_pending_closed e)"
  using assms unfolding inv_merge_def by (blast, blast, blast, blast, blast, auto)

lemma inv_merge_step:
  assumes inv: "inv_merge e out past"
    and keep: "set (te_pending_closed e) \<subseteq> set new \<union> set (te_pending_closed e')"
    and ids: "distinct (map ct_id (out @ new) @ map ct_id (te_pending_closed e') @ open_ids e')"
      "set (map ct_id (out @ new) @ map ct_id (te_pending_closed e') @ open_ids e') \<subseteq> set (gids (past @ [ev]))"
    and m: "distinct (merged (out @ new) @ map ct_id (te_recent_bare e'))"
      "set (merged new) \<subseteq> ct_id ` set (te_recent_bare e)"
    and r: "set (te_recent_bare e') \<subseteq> set (te_recent_bare e)
      \<union> {t \<in> set new \<union> set (te_pending_closed e'). bare_turn t}"
    and o: "merged (te_pending_closed e') = []" "pred_option open_honest (te_open e')"
  shows "inv_merge e' (out @ new) (past @ [ev])"
proof -
  let ?B = "{t \<in> set out \<union> set (te_pending_closed e). bare_turn t}"
  let ?B' = "{t \<in> set (out @ new) \<union> set (te_pending_closed e'). bare_turn t}"
  have sub: "?B \<subseteq> ?B'" using keep by auto
  have rc: "set (te_recent_bare e) \<subseteq> ?B" and mo: "set (merged out) \<subseteq> ct_id ` ?B"
    using inv by (simp_all add: inv_merge_def)
  have "set (merged new) \<subseteq> ct_id ` ?B'" using m(2) rc sub by (meson image_mono subset_trans)
  moreover have "set (merged out) \<subseteq> ct_id ` ?B'" using mo sub by (meson image_mono subset_trans)
  moreover have "set (te_recent_bare e') \<subseteq> ?B'" using r rc sub by auto
  ultimately show ?thesis unfolding inv_merge_def using ids m(1) o by simp
qed

lemma merges_of_fold:
  assumes "inv_merge e out past" "ct_merges base = []" "t = snd (fold_recent_bares e base)"
  shows "distinct (merged out @ ct_merges t)" "set (ct_merges t) \<subseteq> ct_id ` set (te_recent_bare e)"
    "ct_id t = ct_id base"
proof -
  have d: "distinct (merged out)" "distinct (map ct_id (te_recent_bare e))"
      "set (merged out) \<inter> ct_id ` set (te_recent_bare e) = {}"
    using inv_mergeD(3)[OF assms(1)] by simp_all
  note f = fold_ids[OF assms(2), where e = e, folded assms(3)]
  show "set (ct_merges t) \<subseteq> ct_id ` set (te_recent_bare e)" "ct_id t = ct_id base" by (fact f(2), fact f(1))
  have "set (merged out) \<inter> set (ct_merges t) = {}" using f(2) d(3) by blast
  then show "distinct (merged out @ ct_merges t)" using d f(3) by simp
qed

lemma stop_only_fields [simp]:
  "ct_id (stop_only_turn gid now tool p s) = gid" "ct_merges (stop_only_turn gid now tool p s) = []"
  by (simp_all add: stop_only_turn_def)

lemma merged_filtered: "distinct (xs @ map f ys) \<Longrightarrow> distinct (xs @ map f (filter P ys))"
  by (auto simp: distinct_map_filter)

lemma inv_merge_move:
  assumes "engine_move e ev e' new" and inv: "inv_merge e out past" and fresh: "fresh_gid past ev"
  shows "inv_merge e' (out @ new) (past @ [ev])"
proof -
  note D = inv_mergeD[OF inv]
  note fresh' = fresh[unfolded fresh_gid_def]
  from assms(1) show ?thesis
  proof (cases rule: engine_move.cases)
    case (git_close o' turn at' now)
    have b: "bare_turn turn" using finish_bare[OF _ _ git_close(6)] D(5) git_close by simp
    have "ot_id o' \<notin> ct_id ` set (te_recent_bare e) \<union> set (merged out)"
      using D(1,6,7) git_close(4) by (auto simp: open_ids_def)
    with b show ?thesis
      by (intro inv_merge_step[OF inv]) (use D(1-5) git_close in \<open>auto simp: open_ids_def\<close>)
  next
    case (stop_idle turn gid now tool prompt session)
    note m = merges_of_fold[OF inv _ stop_idle(5), simplified]
    show ?thesis
      by (intro inv_merge_step[OF inv])
        (use D(1-5) m fresh' in \<open>auto simp: open_ids_def stop_idle(1-4)\<close>)
  next
    case (stop_bracket o' tool base session prompt now turn gid)
    have b: "ct_merges base = []" "ct_id base = ot_id o'" using stop_bracket(7) by simp_all
    note m = merges_of_fold[OF inv b(1) stop_bracket(8), unfolded b(2)]
    show ?thesis
      by (intro inv_merge_step[OF inv])
        (use D(1-5) m fresh' in \<open>auto simp: open_ids_def stop_bracket(1-4)\<close>)
  next
    case (stop_convert o' base session prompt tool now turn gid)
    have b: "ct_merges base = []" "ct_id base = ot_id o'" using stop_convert(6) by simp_all
    note m = merges_of_fold[OF inv b(1) stop_convert(7), unfolded b(2)]
    show ?thesis
      by (intro inv_merge_step[OF inv])
        (use D(1-5) m fresh' in \<open>auto simp: open_ids_def stop_convert(1-4)\<close>)
  next
    case (stop_other o' prior now turn gid tool prompt session)
    note m = merges_of_fold[OF inv _ stop_other(6), simplified]
    show ?thesis
      by (intro inv_merge_step[OF inv])
        (use D(1-5) m fresh' in \<open>auto simp: open_ids_def stop_other(1-5)\<close>)
  next
    case (tick_quiet recent now o' turn)
    have b: "bare_turn turn" using finish_bare[OF _ _ tick_quiet(7)] D(5) tick_quiet by simp
    have "ot_id o' \<notin> ct_id ` set (te_recent_bare e) \<union> set (merged out)"
      using D(1,6,7) tick_quiet(5) by (auto simp: open_ids_def)
    with b show ?thesis
      by (intro inv_merge_step[OF inv])
        (use D(1-5) tick_quiet in \<open>auto simp: open_ids_def merged_filtered distinct_map_filter\<close>)
  qed ((intro inv_merge_step[OF inv]; use D(1-5) fresh' in
      \<open>auto simp: open_ids_def merged_filtered distinct_map_filter\<close>))+
qed

interpretation absorption: machine_invariant new_engine engine_step fresh_gid inv_merge
  by unfold_locales
    (simp add: inv_merge_def new_engine_def open_ids_def, rule inv_merge_move[OF engine_step_move])

lemma distinct_gids_fresh:
  assumes "distinct (gids evs)" "i < length evs"
  shows "fresh_gid (take i evs) (evs ! i)"
proof -
  have "evs = take i evs @ evs ! i # drop (Suc i) evs" using assms(2) by (simp add: id_take_nth_drop)
  then have "gids evs = gids (take i evs) @ event_gid (evs ! i) @ gids (drop (Suc i) evs)"
    by (metis gids_simps(2,3))
  with assms(1) show ?thesis by (auto simp: fresh_gid_def)
qed

text \<open>
  C7: when the id generator never repeats an id, the emitted turns have distinct ids, no bare
  turn is absorbed by two rich turns (nor twice by one), and everything absorbed is a bare
  turn the engine has emitted or will emit at the next tick: absorbed turns stay in the log.
\<close>

theorem bare_absorbed_at_most_once:
  assumes "distinct (gids evs)"
  shows "distinct (map ct_id (emitted evs)) \<and> distinct (merged (emitted evs))
    \<and> set (merged (emitted evs))
      \<subseteq> ct_id ` {t \<in> set (emitted evs) \<union> set (te_pending_closed (fst (engine_run evs))). bare_turn t}"
  using absorption.run_inv[of evs, OF distinct_gids_fresh[OF assms]] by (simp add: inv_merge_def)

definition absorb_example :: "engine_event list" where
  "absorb_example =
    [ObserveChanges ''a'' 1000 [\<lparr>co_path = ''x'', co_before_hash = None, co_snapshotted = True,
        co_withheld = False, co_baseline_unknown = False, co_deleted = False, co_skip_reason = None\<rparr>],
     Tick 12000, ObserveStop ''b'' 13000 ''codex'' None None]"

lemmas engine_eval = run_machine.simps engine_step.simps observe_changes_def tick_def observe_stop_def
  emit_rich_def fold_recent_bares_def eligible_bares_def fold_bare_def fold_file_def fold_eligible_def
  finish_def new_engine_def open_unbracketed_def stop_only_turn_def Let_def QUIET_MS_def GIT_SETTLE_MS_def
  FOLD_WINDOW_MS_def MAX_BRACKET_MS_def close_own_terms_def

theorem bare_absorbed_at_most_once_witness:
  "distinct (gids absorb_example) \<and> merged (emitted absorb_example) = [''a'']
   \<and> set (merged (emitted absorb_example)) \<subseteq> ct_id `
      {t \<in> set (emitted absorb_example) \<union> set (te_pending_closed (fst (engine_run absorb_example))). bare_turn t}"
proof -
  have d: "distinct (gids absorb_example)" by (simp add: absorb_example_def)
  have "merged (emitted absorb_example) = [''a'']"
    by (simp add: absorb_example_def engine_eval)
  with d bare_absorbed_at_most_once[OF d] show ?thesis by blast
qed

subsection \<open>Functional specification of the merge\<close>

text \<open>
  After the merge, the entry of a path is the rich turn's own latest state with the
  original state (hash and baseline flag) of the earliest eligible fragment that touched the
  path; a path only fragments touched is copied from that earliest fragment; a path no
  fragment touched is left alone.
\<close>

theorem fold_takes_earliest_original:
  "obs_at p (ct_files (snd (fold_recent_bares e turn))) =
     (case obs_at p (concat (map ct_files (eligible_bares e turn))) of
        None \<Rightarrow> obs_at p (ct_files turn)
      | Some first \<Rightarrow> Some (case obs_at p (ct_files turn) of
          None \<Rightarrow> first
        | Some own \<Rightarrow> own\<lparr>co_before_hash := co_before_hash first,
            co_baseline_unknown := co_baseline_unknown first\<rparr>))"
proof -
  have "ct_files (snd (fold_recent_bares e turn))
      = fst (foldl claim_file (ct_files turn, {}) (concat (map ct_files (eligible_bares e turn))))"
    using fold_bare_files[of turn "{}" "eligible_bares e turn"]
    by (metis fold_recent_bares_def fst_conv snd_conv)
  then show ?thesis by (simp add: foldl_claim_file take_before_def split: option.splits)
qed

definition open_files :: "turn_engine \<Rightarrow> change_obs list" where
  "open_files e = (case te_open e of None \<Rightarrow> [] | Some o' \<Rightarrow> ot_files o')"

text \<open>
  Observing a batch keeps, for each path, the first observation of the turn with the
  deleted/snapshotted/withheld state of the last one, so the recorded original state of a
  file is never overwritten by a later observation.
\<close>

theorem observe_keeps_first_before:
  "obs_at p (open_files (observe_changes e gid now cs)) =
     (let mine = filter (\<lambda>c. co_path c = p) cs; old = obs_at p (open_files e) in
      if mine = [] then old
      else let first = (case old of None \<Rightarrow> hd mine | Some f \<Rightarrow> f) in
        Some (first\<lparr>co_deleted := co_deleted (last mine), co_snapshotted := co_snapshotted (last mine),
          co_withheld := co_withheld (last mine)\<rparr>))"
proof (cases "cs = []")
  case True
  then show ?thesis by (simp add: observe_changes_def)
next
  case False
  then have "open_files (observe_changes e gid now cs) = foldl upsert_obs (open_files e) cs"
    by (simp add: observe_changes_def open_files_def Let_def split: option.splits)
  then show ?thesis by (simp add: obs_at_foldl_upsert refresh_def Let_def)
qed

subsection \<open>The bracket boundary\<close>

text \<open>
  C25: when every fragment eligible by age closed before the bracket's start signal, a matching
  stop closes exactly the bracket: its own files, nothing absorbed, the start time it had.
  Pre-agent activity is never attributed to the agent.
\<close>

theorem stop_never_absorbs_prebracket:
  assumes "te_open e = Some o'" "ot_source o' = Bracket" "ot_tool o' = Some tool"
    and "\<forall>b \<in> set (te_recent_bare e). ct_closed_at b < ot_opened_at o'"
  shows "\<exists>t. snd (observe_stop e gid now tool prompt session) = [t] \<and> ct_id t = ot_id o'
    \<and> ct_boundary t = ''bracket'' \<and> ct_files t = ot_files o' \<and> ct_merges t = []
    \<and> ct_opened_at t = ot_opened_at o' \<and> ct_closed_at t = max now (ot_opened_at o')"
proof -
  let ?e = "e\<lparr>te_open := None, te_last_change_at := None\<rparr>"
  have none: "eligible_bares ?e turn = []"
    if "ct_boundary turn = ''bracket''" "ct_opened_at turn = ot_opened_at o'" for turn
  proof -
    have "b \<notin> set (eligible_bares ?e turn)" for b
      using assms(4) that by (auto simp: set_eligible fold_eligible_def Let_def)
    then show ?thesis by (meson last_in_set)
  qed
  have "snd (fold_recent_bares ?e turn) = turn"
    if "ct_boundary turn = ''bracket''" "ct_opened_at turn = ot_opened_at o'" for turn
    using none[OF that] by (simp add: fold_recent_bares_def)
  then show ?thesis
    using assms(1-3) by (auto simp: observe_stop_def split_beta emit_rich_eq Let_def)
qed

definition bracket_example :: turn_engine where
  "bracket_example = fst (observe_start (fst (tick (observe_changes new_engine ''a'' 1000
      [\<lparr>co_path = ''x'', co_before_hash = None, co_snapshotted = True, co_withheld = False,
        co_baseline_unknown = False, co_deleted = False, co_skip_reason = None\<rparr>]) 12000))
      ''b'' 13000 ''codex'' None None None)"

theorem stop_never_absorbs_prebracket_witness:
  "te_recent_bare bracket_example \<noteq> []
   \<and> (\<exists>t. snd (observe_stop bracket_example ''c'' 14000 ''codex'' None None) = [t]
       \<and> ct_id t = ''b'' \<and> ct_merges t = [])"
proof -
  obtain o' where o': "te_open bracket_example = Some o'" "ot_source o' = Bracket"
      "ot_tool o' = Some ''codex''" "ot_id o' = ''b''" "ot_opened_at o' = 13000"
    by (simp add: bracket_example_def observe_start_def engine_eval)
  have r: "\<forall>b \<in> set (te_recent_bare bracket_example). ct_closed_at b < ot_opened_at o'"
    and n: "te_recent_bare bracket_example \<noteq> []"
    unfolding o'(5) by (simp_all add: bracket_example_def observe_start_def engine_eval)
  show ?thesis
    using stop_never_absorbs_prebracket[OF o'(1-3) r, of "''c''" 14000 None None] n o'(4) by auto
qed

subsection \<open>Every turn is closed\<close>

fun event_time :: "engine_event \<Rightarrow> nat" where
  "event_time (ObserveChanges _ now _) = now"
| "event_time (ObserveGit now) = now"
| "event_time (ObserveStart _ now _ _ _ _) = now"
| "event_time (ObserveStop _ now _ _ _) = now"
| "event_time (Tick now) = now"
| "event_time (ForceClose now) = now"

definition horizon :: "engine_event list \<Rightarrow> nat" where
  "horizon evs = foldl max 0 (map event_time evs)"

lemma horizon_snoc [simp]: "horizon (evs @ [ev]) = max (horizon evs) (event_time ev)"
  by (simp add: horizon_def)

definition inv_time :: "turn_engine \<Rightarrow> closed_turn list \<Rightarrow> engine_event list \<Rightarrow> bool" where
  "inv_time e out past \<longleftrightarrow> pred_option (\<lambda>o'. ot_opened_at o' \<le> horizon past) (te_open e)
     \<and> pred_option (\<lambda>t. t \<le> horizon past) (te_last_change_at e)"

lemma open_unbracketed_opened [simp]: "ot_opened_at (open_unbracketed e now gid) = now"
  by (simp add: open_unbracketed_def Let_def)

lemma inv_time_move:
  assumes "engine_move e ev e' new" and "inv_time e out past"
  shows "inv_time e' (out @ new) (past @ [ev])"
  using assms
  by (cases rule: engine_move.cases)
    (auto simp: inv_time_def le_max_iff_disj elim!: option.pred_mono_strong)

interpretation timing: machine_invariant new_engine engine_step "\<lambda>_ _. True" inv_time
  by unfold_locales
    (simp add: inv_time_def new_engine_def, rule inv_time_move[OF engine_step_move])

lemma tick_closes:
  assumes "pred_option (\<lambda>o'. ot_opened_at o' \<le> T) (te_open e)"
    "pred_option (\<lambda>t. t \<le> T) (te_last_change_at e)" "T + MAX_BRACKET_MS < now"
  shows "te_open (fst (tick e now)) = None \<and> te_pending_closed (fst (tick e now)) = []"
  using assms
  by (auto simp: tick_def Let_def MAX_BRACKET_MS_def QUIET_MS_def GIT_SETTLE_MS_def finish_def
      split: option.splits source.splits)

text \<open>
  Once the clock is more than the bracket limit past everything that happened, one tick
  leaves no open and no queued turn, and the emitted turns list exactly the observed paths:
  every observed change ends up in the log.
\<close>

theorem tick_flushes_everything:
  assumes "horizon evs + MAX_BRACKET_MS < now"
  shows "te_open (fst (engine_run (evs @ [Tick now]))) = None
    \<and> te_pending_closed (fst (engine_run (evs @ [Tick now]))) = []
    \<and> turn_paths (emitted (evs @ [Tick now])) = observed evs"
proof -
  have run: "fst (engine_run (evs @ [Tick now])) = fst (tick (fst (engine_run evs)) now)"
    by (simp add: run_machine_append split_beta)
  have "inv_time (fst (engine_run evs)) (emitted evs) evs"
    using timing.run_inv[of evs] by simp
  then have c: "te_open (fst (engine_run (evs @ [Tick now]))) = None"
      "te_pending_closed (fst (engine_run (evs @ [Tick now]))) = []"
    using tick_closes[OF _ _ assms, of "fst (engine_run evs)"] by (simp_all add: run inv_time_def)
  moreover have "turn_paths (emitted (evs @ [Tick now]))
      \<union> turn_paths (te_pending_closed (fst (engine_run (evs @ [Tick now]))))
      \<union> open_paths (fst (engine_run (evs @ [Tick now]))) = observed (evs @ [Tick now])"
    using paths.run_inv[of "evs @ [Tick now]"] by (simp add: inv_paths_def)
  ultimately show ?thesis by (simp add: open_paths_def)
qed

theorem tick_flushes_everything_witness:
  "turn_paths (emitted (absorb_example @ [Tick 9000000])) = {''x''}"
proof -
  have "horizon absorb_example + MAX_BRACKET_MS < 9000000"
    by (simp add: absorb_example_def horizon_def MAX_BRACKET_MS_def)
  from tick_flushes_everything[OF this] show ?thesis by (simp add: absorb_example_def)
qed

end
