(* ===== verification/Text.thy ===== *)
theory Text
  imports Prelude
begin

text \<open>
  The string operations of the Rust standard library the log parsers use: \<open>str::trim\<close> and
  \<open>str::lines\<close>, on UTF-8 bytes.
\<close>

subsection \<open>White space\<close>

text \<open>The UTF-8 encodings of the Unicode characters with the property White_Space.\<close>

definition byte_string :: "nat list \<Rightarrow> string" where
  "byte_string ns = map char_of ns"

definition ws_encodings :: "string list" where
  "ws_encodings = map byte_string ([[9], [10], [11], [12], [13], [32], [0xC2, 0x85], [0xC2, 0xA0],
     [0xE1, 0x9A, 0x80]] @ map (\<lambda>n. [0xE2, 0x80, n]) [0x80 ..< 0x8B] @
     [[0xE2, 0x80, 0xA8], [0xE2, 0x80, 0xA9], [0xE2, 0x80, 0xAF], [0xE2, 0x81, 0x9F],
      [0xE3, 0x80, 0x80]])"

lemma ws_encodings_nonempty: "w \<in> set ws_encodings \<Longrightarrow> w \<noteq> []"
  by (auto simp: ws_encodings_def byte_string_def)

lemma starts_with_length: "starts_with s p \<Longrightarrow> length p \<le> length s"
  by (auto simp: starts_with_iff)

text \<open>Drop leading occurrences of the given encodings, longest run.\<close>

function strip_leading :: "string list \<Rightarrow> string \<Rightarrow> string" where
  "strip_leading ws s = (case List.find (\<lambda>w. w \<noteq> [] \<and> starts_with s w) ws of
     None \<Rightarrow> s | Some w \<Rightarrow> strip_leading ws (drop (length w) s))"
  by auto
termination
proof (relation "measure (\<lambda>(ws, s). length s)")
  fix ws s w
  assume "List.find (\<lambda>w. w \<noteq> [] \<and> starts_with s w) ws = Some w"
  then have "w \<noteq> []" "length w \<le> length s"
    by (auto dest!: find_Some_set starts_with_length)
  then show "((ws, drop (length w) s), (ws, s)) \<in> measure (\<lambda>(ws, s). length s)"
    by (cases w; cases s) auto
qed simp

declare strip_leading.simps [simp del]

text \<open>
  On valid UTF-8 the last character is white space exactly when its encoding is a suffix, so
  trimming the end is trimming the start of the reversed bytes.
\<close>

definition trim :: "string \<Rightarrow> string" where
  "trim s = rev (strip_leading (map rev ws_encodings) (rev (strip_leading ws_encodings s)))"

lemma strip_leading_Nil [simp]: "strip_leading ws [] = []"
  by (subst strip_leading.simps) (auto split: option.splits dest!: find_Some_set simp: starts_with_iff)

lemma trim_Nil [simp]: "trim [] = []"
  by (simp add: trim_def)

subsection \<open>Lines\<close>

text \<open>
  \<open>str::lines\<close>: pieces end at a line feed, which is dropped with one carriage return before
  it; a last piece without line feed is kept as it is when it is not empty.
\<close>

definition NL :: char where
  "NL = CHR 0x0A"

definition CR :: char where
  "CR = CHR 0x0D"

fun cut_line :: "string \<Rightarrow> string \<times> string option" where
  "cut_line [] = ([], None)"
| "cut_line (c # cs) = (if c = NL then ([], Some cs)
     else case cut_line cs of (l, r) \<Rightarrow> (c # l, r))"

lemma cut_line_length: "cut_line s = (l, Some r) \<Longrightarrow> length r < length s"
  by (induction s arbitrary: l r) (auto split: if_splits prod.splits)

definition drop_cr :: "string \<Rightarrow> string" where
  "drop_cr l = (if l \<noteq> [] \<and> last l = CR then butlast l else l)"

function lines :: "string \<Rightarrow> string list" where
  "lines s = (if s = [] then [] else
     case cut_line s of
       (l, Some r) \<Rightarrow> drop_cr l # lines r
     | (l, None) \<Rightarrow> [l])"
  by auto
termination
  by (relation "measure length") (auto dest: cut_line_length[OF sym])

declare lines.simps [simp del]

lemma lines_Nil [simp]: "lines [] = []"
  by (simp add: lines.simps)

lemma cut_line_append: "NL \<notin> set l \<Longrightarrow> cut_line (l @ NL # r) = (l, Some r)"
  by (induction l) auto

lemma lines_append: "NL \<notin> set l \<Longrightarrow> lines (l @ NL # r) = drop_cr l # lines r"
  by (subst lines.simps) (simp add: cut_line_append)

text \<open>A log line as the writers append it: text free of line breaks, then a line feed.\<close>

definition log_line :: "string \<Rightarrow> bool" where
  "log_line l \<longleftrightarrow> NL \<notin> set l \<and> CR \<notin> set l"

lemma lines_of_log:
  "\<forall>l \<in> set ls. log_line l \<Longrightarrow> lines (concat (map (\<lambda>l. l @ [NL]) ls) @ r) = ls @ lines r"
proof (induction ls)
  case (Cons l ls)
  then have "NL \<notin> set l" "drop_cr l = l"
    by (auto simp: log_line_def drop_cr_def dest: last_in_set)
  with Cons show ?case by (simp add: lines_append)
qed simp

text \<open>A text that ends between lines.\<close>

definition whole_lines :: "string \<Rightarrow> bool" where
  "whole_lines body \<longleftrightarrow> body = [] \<or> last body = NL"

lemma lines_whole: "whole_lines body \<Longrightarrow> lines (body @ rest) = lines body @ lines rest"
proof (induction body rule: length_induct)
  case (1 body)
  show ?case
  proof (cases "body = []")
    case False
    with 1(2) have "NL \<in> set body" by (metis last_in_set whole_lines_def)
    then obtain l b where b: "body = l @ NL # b" "NL \<notin> set l" by (meson split_list_first)
    have "whole_lines b" using 1(2) b by (auto simp: whole_lines_def split: if_splits)
    with 1(1) b show ?thesis by (simp add: lines_append)
  qed simp
qed

subsection \<open>UTF-8\<close>

text \<open>\<open>str::from_utf8\<close> accepts: well-formed sequences, no overlong forms, no surrogates.\<close>

definition byte_in :: "nat \<Rightarrow> nat \<Rightarrow> char \<Rightarrow> bool" where
  "byte_in lo hi c \<longleftrightarrow> lo \<le> of_char c \<and> of_char c \<le> hi"

fun utf8_valid :: "string \<Rightarrow> bool" where
  "utf8_valid [] = True"
| "utf8_valid (a # r) =
     (if byte_in 0 0x7F a then utf8_valid r
      else case r of [] \<Rightarrow> False
      | b # r2 \<Rightarrow>
         if byte_in 0xC2 0xDF a then byte_in 0x80 0xBF b \<and> utf8_valid r2
         else case r2 of [] \<Rightarrow> False
         | c # r3 \<Rightarrow>
            if byte_in 0xE0 0xEF a then
              byte_in (if byte_in 0xE0 0xE0 a then 0xA0 else 0x80)
                      (if byte_in 0xED 0xED a then 0x9F else 0xBF) b
              \<and> byte_in 0x80 0xBF c \<and> utf8_valid r3
            else case r3 of [] \<Rightarrow> False
            | d # r4 \<Rightarrow>
               byte_in 0xF0 0xF4 a
               \<and> byte_in (if byte_in 0xF0 0xF0 a then 0x90 else 0x80)
                         (if byte_in 0xF4 0xF4 a then 0x8F else 0xBF) b
               \<and> byte_in 0x80 0xBF c \<and> byte_in 0x80 0xBF d \<and> utf8_valid r4)"

definition ascii :: "string \<Rightarrow> bool" where
  "ascii s \<longleftrightarrow> list_all (byte_in 0 0x7F) s"

lemma utf8_valid_ascii: "ascii s \<Longrightarrow> utf8_valid s"
  by (induction s) (auto simp: ascii_def)

text \<open>Text that starts and ends with visible ASCII is unchanged by trimming.\<close>

lemma ws_encodings_ends:
  "list_all (\<lambda>w. \<not> byte_in 0x21 0x7E (hd w) \<and> \<not> byte_in 0x21 0x7E (last w)) ws_encodings"
  by (simp add: ws_encodings_def byte_string_def byte_in_def upt_rec)

lemma strip_leading_id:
  "\<forall>w \<in> set ws. w \<noteq> [] \<longrightarrow> hd w \<noteq> hd s \<Longrightarrow> strip_leading ws s = s"
  by (subst strip_leading.simps)
    (auto split: option.splits dest!: find_Some_set simp: starts_with_iff)

lemma trim_visible:
  assumes "s \<noteq> []" "byte_in 0x21 0x7E (hd s)" "byte_in 0x21 0x7E (last s)"
  shows "trim s = s"
proof -
  have "strip_leading ws_encodings s = s"
    by (rule strip_leading_id) (use ws_encodings_ends assms(2) in \<open>auto simp: list_all_iff\<close>)
  moreover have "strip_leading (map rev ws_encodings) (rev s) = rev s"
    by (rule strip_leading_id)
      (use ws_encodings_ends assms(1,3) in \<open>auto simp: list_all_iff hd_rev\<close>)
  ultimately show ?thesis by (simp add: trim_def)
qed

text \<open>
  \<open>String::from_utf8_lossy\<close>: the length of the next chunk and whether it is a character; every
  maximal broken chunk becomes U+FFFD.
\<close>

definition second_ok :: "char \<Rightarrow> char \<Rightarrow> bool" where
  "second_ok a b \<longleftrightarrow>
     byte_in (if byte_in 0xE0 0xE0 a then 0xA0 else if byte_in 0xF0 0xF0 a then 0x90 else 0x80)
             (if byte_in 0xED 0xED a then 0x9F else if byte_in 0xF4 0xF4 a then 0x8F else 0xBF) b"

fun utf8_chunk :: "string \<Rightarrow> nat \<times> bool" where
  "utf8_chunk [] = (0, True)"
| "utf8_chunk (a # r) =
     (if byte_in 0 0x7F a then (1, True)
      else if byte_in 0xC2 0xDF a then
        (case r of b # _ \<Rightarrow> if byte_in 0x80 0xBF b then (2, True) else (1, False) | [] \<Rightarrow> (1, False))
      else if byte_in 0xE0 0xEF a then
        (case r of
           b # c # _ \<Rightarrow> if \<not> second_ok a b then (1, False)
                       else if byte_in 0x80 0xBF c then (3, True) else (2, False)
         | [b] \<Rightarrow> if second_ok a b then (2, False) else (1, False)
         | [] \<Rightarrow> (1, False))
      else if byte_in 0xF0 0xF4 a then
        (case r of
           b # c # d # _ \<Rightarrow> if \<not> second_ok a b then (1, False)
                           else if \<not> byte_in 0x80 0xBF c then (2, False)
                           else if byte_in 0x80 0xBF d then (4, True) else (3, False)
         | [b, c] \<Rightarrow> if \<not> second_ok a b then (1, False)
                     else if byte_in 0x80 0xBF c then (3, False) else (2, False)
         | [b] \<Rightarrow> if second_ok a b then (2, False) else (1, False)
         | [] \<Rightarrow> (1, False))
      else (1, False))"

lemma utf8_chunk_pos: "s \<noteq> [] \<Longrightarrow> 0 < fst (utf8_chunk s)"
  by (cases s rule: utf8_chunk.cases) (auto split: list.splits)

function utf8_lossy :: "string \<Rightarrow> string" where
  "utf8_lossy s = (if s = [] then [] else
     case utf8_chunk s of (n, good) \<Rightarrow>
       (if good then take n s else byte_string [0xEF, 0xBF, 0xBD]) @ utf8_lossy (drop n s))"
  by auto
termination
proof (relation "measure length")
  fix s n good
  assume "s \<noteq> []" "(n, good) = utf8_chunk s"
  then show "(drop n s, s) \<in> measure length"
    using utf8_chunk_pos[of s] by (cases s) (auto dest: arg_cong[of _ _ fst])
qed simp

declare utf8_lossy.simps [simp del]

lemma utf8_lossy_Nil [simp]: "utf8_lossy [] = []"
  by (simp add: utf8_lossy.simps)

lemma utf8_lossy_ascii: "ascii s \<Longrightarrow> utf8_lossy s = s"
proof (induction s)
  case (Cons a s)
  then show ?case by (subst utf8_lossy.simps) (simp add: ascii_def)
qed simp

end
