(* ===== verification/Json.thy ===== *)
theory Json
  imports Text "HOL-Library.Word" "HOL-Library.Monad_Syntax"
begin

text \<open>
  JSON values and the rules serde's derived code follows for the attributes the records use
  (required field, optional field, \<open>default\<close>, \<open>skip_serializing_if\<close>). Turning text into
  a value and back (serde_json) is a parameter of the definitions that need it.
\<close>

text \<open>
  Numbers are integers or the text of any other number; objects are their members in order,
  so that repeated names can be refused as serde does.
\<close>

datatype json = JNull | JBool bool | JInt int | JFloat string | JStr string
  | JArr "json list" | JObj "(string \<times> json) list"

subsection \<open>Decoding\<close>

fun dec_str :: "json \<Rightarrow> string option" where
  "dec_str (JStr s) = Some s"
| "dec_str _ = None"

fun dec_bool :: "json \<Rightarrow> bool option" where
  "dec_bool (JBool b) = Some b"
| "dec_bool _ = None"

fun dec_u32 :: "json \<Rightarrow> 32 word option" where
  "dec_u32 (JInt i) = (if 0 \<le> i \<and> i < 2 ^ 32 then Some (word_of_int i) else None)"
| "dec_u32 _ = None"

fun dec_u64 :: "json \<Rightarrow> nat option" where
  "dec_u64 (JInt i) = (if 0 \<le> i \<and> i < 2 ^ 64 then Some (nat i) else None)"
| "dec_u64 _ = None"

fun dec_opt :: "(json \<Rightarrow> 'a option) \<Rightarrow> json \<Rightarrow> 'a option option" where
  "dec_opt d JNull = Some None"
| "dec_opt d j = map_option Some (d j)"

fun dec_all :: "('j \<Rightarrow> 'a option) \<Rightarrow> 'j list \<Rightarrow> 'a list option" where
  "dec_all d [] = Some []"
| "dec_all d (j # js) = do { x \<leftarrow> d j; xs \<leftarrow> dec_all d js; Some (x # xs) }"

fun dec_arr :: "(json \<Rightarrow> 'a option) \<Rightarrow> json \<Rightarrow> 'a list option" where
  "dec_arr d (JArr js) = dec_all d js"
| "dec_arr _ _ = None"

text \<open>The values of a member; more than one is serde's duplicate-field error.\<close>

definition members :: "string \<Rightarrow> (string \<times> json) list \<Rightarrow> json list" where
  "members k fs = map snd (filter (\<lambda>f. fst f = k) fs)"

definition req :: "(json \<Rightarrow> 'a option) \<Rightarrow> string \<Rightarrow> (string \<times> json) list \<Rightarrow> 'a option" where
  "req d k fs = (case members k fs of [j] \<Rightarrow> d j | _ \<Rightarrow> None)"

definition dflt :: "'a \<Rightarrow> (json \<Rightarrow> 'a option) \<Rightarrow> string \<Rightarrow> (string \<times> json) list \<Rightarrow> 'a option" where
  "dflt x d k fs = (case members k fs of [] \<Rightarrow> Some x | [j] \<Rightarrow> d j | _ \<Rightarrow> None)"

definition optf :: "(json \<Rightarrow> 'a option) \<Rightarrow> string \<Rightarrow> (string \<times> json) list \<Rightarrow> 'a option option" where
  "optf d k fs = dflt None (dec_opt d) k fs"

text \<open>
  \<open>serde_json::Value::get\<close>: the value of a member of an object, the last one when a name is
  repeated, nothing for other values.
\<close>

fun value_get :: "string \<Rightarrow> json \<Rightarrow> json option" where
  "value_get k (JObj fs) = (case rev (members k fs) of [] \<Rightarrow> None | j # _ \<Rightarrow> Some j)"
| "value_get k _ = None"

subsection \<open>Encoding\<close>

definition enc_u32 :: "32 word \<Rightarrow> json" where
  "enc_u32 w = JInt (uint w)"

definition enc_u64 :: "nat \<Rightarrow> json" where
  "enc_u64 n = JInt (int n)"

definition enc_opt :: "('a \<Rightarrow> json) \<Rightarrow> 'a option \<Rightarrow> json" where
  "enc_opt e x = (case x of None \<Rightarrow> JNull | Some v \<Rightarrow> e v)"

definition enc_if :: "bool \<Rightarrow> string \<Rightarrow> json \<Rightarrow> (string \<times> json) list" where
  "enc_if b k j = (if b then [(k, j)] else [])"

definition enc_some :: "('a \<Rightarrow> json) \<Rightarrow> string \<Rightarrow> 'a option \<Rightarrow> (string \<times> json) list" where
  "enc_some e k x = (case x of None \<Rightarrow> [] | Some v \<Rightarrow> [(k, e v)])"

subsection \<open>Decoding what was encoded\<close>

lemma members_simps [simp]:
  "members k [] = []"
  "members k ((k', j) # fs) = (if k' = k then j # members k fs else members k fs)"
  "members k (fs @ gs) = members k fs @ members k gs"
  "members k (enc_if b k' j) = (if k' = k \<and> b then [j] else [])"
  "members k (enc_some e k' x) = (if k' = k then (case x of None \<Rightarrow> [] | Some v \<Rightarrow> [e v]) else [])"
  by (auto simp: members_def enc_if_def enc_some_def split: option.splits)

lemma dec_opt_not_null: "j \<noteq> JNull \<Longrightarrow> dec_opt d j = map_option Some (d j)"
  by (cases j) simp_all

text \<open>
  The interface between the encoder and the decoder of a type: decoding inverts encoding, and
  no value is encoded as null (the encoding of an absent optional).
\<close>

locale json_codec =
  fixes enc :: "'a \<Rightarrow> json" and dec :: "json \<Rightarrow> 'a option"
  assumes dec_enc: "dec (enc x) = Some x"
    and not_null: "enc x \<noteq> JNull"
begin

lemma dec_opt_enc: "dec_opt dec (enc_opt enc x) = Some x"
  by (cases x) (simp_all add: enc_opt_def dec_opt_not_null not_null dec_enc)

lemma dec_opt_some: "dec_opt dec (enc x) = Some (Some x)"
  by (simp add: dec_opt_not_null not_null dec_enc)

lemma dec_arr_enc: "dec_arr dec (JArr (map enc xs)) = Some xs"
proof -
  have "dec_all dec (map enc xs) = Some xs" by (induction xs) (simp_all add: dec_enc)
  then show ?thesis by simp
qed

lemma req_enc: "members k fs = [enc x] \<Longrightarrow> req dec k fs = Some x"
  by (simp add: req_def dec_enc)

lemma optf_some:
  "members k fs = (case x of None \<Rightarrow> [] | Some v \<Rightarrow> [enc v]) \<Longrightarrow> optf dec k fs = Some x"
  by (auto simp: optf_def dflt_def dec_opt_some split: option.splits)

lemma optf_null: "members k fs = [enc_opt enc x] \<Longrightarrow> optf dec k fs = Some x"
  by (simp add: optf_def dflt_def dec_opt_enc)

lemma dflt_enc:
  "members k fs = (if b then [enc x] else []) \<Longrightarrow> (\<not> b \<Longrightarrow> x = y) \<Longrightarrow> dflt y dec k fs = Some x"
  by (simp add: dflt_def dec_enc split: if_splits)

end

lemma uint32_bound: "uint (w :: 32 word) < 4294967296"
  using uint_lt2p[of w] by simp

interpretation str: json_codec JStr dec_str
  by unfold_locales simp_all

interpretation bool: json_codec JBool dec_bool
  by unfold_locales simp_all

interpretation u32: json_codec enc_u32 dec_u32
  by unfold_locales (simp_all add: enc_u32_def uint32_bound)

interpretation strs: json_codec "\<lambda>xs. JArr (map JStr xs)" "dec_arr dec_str"
  by unfold_locales (rule str.dec_arr_enc, simp)

end
