(* ===== verification/Attest.thy ===== *)
theory Attest
  imports Json
begin

text \<open>
  The claim core (agentrec-core/src/attest/types.rs, events.rs, fold.rs): claim and test
  identities, the events of \<open>attest.jsonl\<close>, and the deterministic fold of an event stream into
  one state per claim and the identity index. The JSON decoding (serde) is a parameter of the
  line parser.
\<close>

subsection \<open>Identities (types.rs)\<close>

datatype claim_id = ClaimId (claim_id_str: string)

definition CROCKFORD :: string where
  "CROCKFORD = ''0123456789ABCDEFGHJKMNPQRSTVWXYZ''"

definition parse_claim_id :: "string \<Rightarrow> claim_id option" where
  "parse_claim_id s =
     (if \<not> starts_with s ''c_'' then None
      else let rest = drop 2 s in
        if length rest \<noteq> 26 \<or> \<not> list_all (\<lambda>b. b \<in> set CROCKFORD) rest then None
        else Some (ClaimId s))"

datatype test_identity = TestIdentity (ti_target: string) (ti_fn_path: string)

text \<open>The derived orders of the map keys: by the id string, and by target then function path.\<close>

instantiation claim_id :: linorder
begin

definition less_eq_claim_id :: "claim_id \<Rightarrow> claim_id \<Rightarrow> bool" where
  "less_eq_claim_id a b \<longleftrightarrow> claim_id_str a \<le> claim_id_str b"

definition less_claim_id :: "claim_id \<Rightarrow> claim_id \<Rightarrow> bool" where
  "less_claim_id a b \<longleftrightarrow> claim_id_str a < claim_id_str b"

instance
  by standard (auto simp: less_eq_claim_id_def less_claim_id_def intro: claim_id.expand)

end

text \<open>The derived order: by target, then by path.\<close>

definition test_identity_le :: "test_identity \<Rightarrow> test_identity \<Rightarrow> bool" where
  "test_identity_le a b \<longleftrightarrow> ti_target a < ti_target b
     \<or> ti_target a = ti_target b \<and> ti_fn_path a \<le> ti_fn_path b"

instantiation test_identity :: linorder
begin

definition less_eq_test_identity :: "test_identity \<Rightarrow> test_identity \<Rightarrow> bool" where
  "less_eq_test_identity = test_identity_le"

definition less_test_identity :: "test_identity \<Rightarrow> test_identity \<Rightarrow> bool" where
  "less_test_identity a b \<longleftrightarrow> ti_target a < ti_target b
     \<or> ti_target a = ti_target b \<and> ti_fn_path a < ti_fn_path b"

instance
  by standard (auto simp: less_eq_test_identity_def test_identity_le_def less_test_identity_def intro: test_identity.expand)

end

subsection \<open>Results and verdicts (types.rs)\<close>

datatype test_outcome = Passed | Failed | Ignored

datatype recipe_invalid_cause = CauseBuild | CauseMissing | CauseIgnored | CauseHarness

record structured_result =
  sr_identity :: test_identity
  sr_outcome :: "test_outcome option"
  sr_recipe_invalid :: "recipe_invalid_cause option"
  sr_parse_failed :: bool
  sr_raw_blob :: "string option"

definition result_outcome :: "test_identity \<Rightarrow> test_outcome \<Rightarrow> structured_result" where
  "result_outcome i out = \<lparr>sr_identity = i, sr_outcome = Some out, sr_recipe_invalid = None,
     sr_parse_failed = False, sr_raw_blob = None\<rparr>"

definition result_recipe_invalid :: "test_identity \<Rightarrow> recipe_invalid_cause \<Rightarrow> structured_result" where
  "result_recipe_invalid i cause = \<lparr>sr_identity = i, sr_outcome = None,
     sr_recipe_invalid = Some cause, sr_parse_failed = False, sr_raw_blob = None\<rparr>"

datatype verdict_kind = VConfirmed | VClaimFalse | VRecipeInvalid recipe_invalid_cause | VFlakyObservation

subsection \<open>Events (events.rs)\<close>

datatype stale_cause = FileWrite string | CoverageIncomplete string

datatype human_answer = AnswerYes | AnswerNo | AnswerSkip

datatype manual_severity = Blocking | Fyi

text \<open>\<open>body_hash\<close> is \<open>Option<[u8; 32]>\<close>: 32 bytes, here 32 eight-bit characters.\<close>

datatype attest_event =
    Derive nat claim_id test_identity "string option" "test_identity option"
  | Evidence nat claim_id "string option" bool "string option" structured_result
  | Verdict nat claim_id verdict_kind string
  | Stale nat claim_id stale_cause
  | Human nat claim_id human_answer "string option"
  | ManualDeclare nat claim_id string manual_severity

fun event_claim_id :: "attest_event \<Rightarrow> claim_id" where
  "event_claim_id (Derive _ c _ _ _) = c"
| "event_claim_id (Evidence _ c _ _ _ _) = c"
| "event_claim_id (Verdict _ c _ _) = c"
| "event_claim_id (Stale _ c _) = c"
| "event_claim_id (Human _ c _ _) = c"
| "event_claim_id (ManualDeclare _ c _ _) = c"

fun event_ts :: "attest_event \<Rightarrow> nat" where
  "event_ts (Derive t _ _ _ _) = t"
| "event_ts (Evidence t _ _ _ _ _) = t"
| "event_ts (Verdict t _ _ _) = t"
| "event_ts (Stale t _ _) = t"
| "event_ts (Human t _ _ _) = t"
| "event_ts (ManualDeclare t _ _ _) = t"

text \<open>The hex form of the body hash (module \<open>hex32\<close>).\<close>

definition hex_digit :: "nat \<Rightarrow> char" where
  "hex_digit n = ''0123456789abcdef'' ! n"

definition hex32_serialize :: "string \<Rightarrow> string" where
  "hex32_serialize bytes =
     concat (map (\<lambda>b. [hex_digit (of_char b div 16), hex_digit (of_char b mod 16)]) bytes)"

definition hex_value :: "char \<Rightarrow> nat option" where
  "hex_value c = position (\<lambda>d. d = c) ''0123456789abcdef''"

fun hex_pairs :: "string \<Rightarrow> string option" where
  "hex_pairs [] = Some []"
| "hex_pairs [c] = None"
| "hex_pairs (h # l # cs) =
     (case (hex_value h, hex_value l, hex_pairs cs) of
        (Some hi, Some lo, Some bs) \<Rightarrow> Some (char_of (hi * 16 + lo) # bs)
      | _ \<Rightarrow> None)"

text \<open>\<open>None\<close> is the decoding error; the guard is the code's canonical-form check.\<close>

definition hex32_deserialize :: "string \<Rightarrow> string option" where
  "hex32_deserialize text =
     (if length text = 64 \<and> list_all (\<lambda>b. b \<in> set ''0123456789abcdef'') text
      then hex_pairs text else None)"

subsection \<open>Claim states (fold.rs)\<close>

datatype claim_status =
    SDerived | SDeclared | SEvidenced | SConfirmed | SClaimFalse
  | SRecipeInvalid recipe_invalid_cause | SFlaky | SHuman human_answer

definition blocks_gate :: "claim_status \<Rightarrow> bool" where
  "blocks_gate s \<longleftrightarrow> s = SClaimFalse"

record claim_history =
  h_derives :: nat
  h_evidence :: nat
  h_verdicts :: nat
  h_confirmed_verdicts :: nat
  h_claim_false_verdicts :: nat
  h_recipe_invalid_verdicts :: nat
  h_flaky_observations :: nat
  h_stale_events :: nat
  h_human_answers :: nat
  h_manual_declares :: nat

definition empty_history :: claim_history where
  "empty_history = \<lparr>h_derives = 0, h_evidence = 0, h_verdicts = 0, h_confirmed_verdicts = 0,
     h_claim_false_verdicts = 0, h_recipe_invalid_verdicts = 0, h_flaky_observations = 0,
     h_stale_events = 0, h_human_answers = 0, h_manual_declares = 0\<rparr>"

record claim_state =
  cs_claim_id :: claim_id
  cs_status :: claim_status
  cs_test_identity :: "test_identity option"
  cs_last_body_hash :: "string option"
  cs_renamed_from :: "test_identity option"
  cs_stale_since :: "nat option"
  cs_manual_text :: "string option"
  cs_manual_severity :: "manual_severity option"
  cs_last_human_note :: "string option"
  cs_history :: claim_history
  cs_last_ts :: nat

definition new_claim :: "claim_id \<Rightarrow> claim_status \<Rightarrow> nat \<Rightarrow> claim_state" where
  "new_claim c s ts = \<lparr>cs_claim_id = c, cs_status = s, cs_test_identity = None,
     cs_last_body_hash = None, cs_renamed_from = None, cs_stale_since = None,
     cs_manual_text = None, cs_manual_severity = None, cs_last_human_note = None,
     cs_history = empty_history, cs_last_ts = ts\<rparr>"

definition is_stale :: "claim_state \<Rightarrow> bool" where
  "is_stale s \<longleftrightarrow> cs_stale_since s \<noteq> None"

record fold_result =
  fr_claims :: "claim_id \<rightharpoonup> claim_state"
  fr_by_identity :: "test_identity \<rightharpoonup> claim_id"

definition claim_for :: "fold_result \<Rightarrow> test_identity \<Rightarrow> claim_id option" where
  "claim_for r i = fr_by_identity r i"

definition claim_of :: "fold_result \<Rightarrow> claim_id \<Rightarrow> claim_state option" where
  "claim_of r c = fr_claims r c"

subsection \<open>The fold\<close>

fun count_verdict :: "verdict_kind \<Rightarrow> claim_history \<Rightarrow> claim_history" where
  "count_verdict VConfirmed h = h\<lparr>h_confirmed_verdicts := h_confirmed_verdicts h + 1\<rparr>"
| "count_verdict VClaimFalse h = h\<lparr>h_claim_false_verdicts := h_claim_false_verdicts h + 1\<rparr>"
| "count_verdict (VRecipeInvalid _) h = h\<lparr>h_recipe_invalid_verdicts := h_recipe_invalid_verdicts h + 1\<rparr>"
| "count_verdict VFlakyObservation h = h\<lparr>h_flaky_observations := h_flaky_observations h + 1\<rparr>"

text \<open>One arm per event kind; \<open>s\<close> is the entry after \<open>last_ts\<close> has been set.\<close>

fun claim_arm :: "bool \<Rightarrow> claim_state \<Rightarrow> attest_event \<Rightarrow> claim_state" where
  "claim_arm first s (Derive ts c i body_hash renamed) =
     s\<lparr>cs_history := (cs_history s)\<lparr>h_derives := h_derives (cs_history s) + 1\<rparr>,
       cs_renamed_from := (case renamed of None \<Rightarrow> cs_renamed_from s | Some old \<Rightarrow> Some old),
       cs_test_identity := Some i,
       cs_last_body_hash := (case body_hash of None \<Rightarrow> cs_last_body_hash s | Some h \<Rightarrow> Some h)\<rparr>"
| "claim_arm first s (Evidence ts c turn dirty blob result) =
     s\<lparr>cs_history := (cs_history s)\<lparr>h_evidence := h_evidence (cs_history s) + 1\<rparr>,
       cs_test_identity := (case cs_test_identity s of None \<Rightarrow> Some (sr_identity result) | Some i \<Rightarrow> Some i),
       cs_status := (if cs_status s = SDerived then SEvidenced else cs_status s)\<rparr>"
| "claim_arm first s (Verdict ts c kind commit) =
     (let s1 = s\<lparr>cs_history := count_verdict kind
                  ((cs_history s)\<lparr>h_verdicts := h_verdicts (cs_history s) + 1\<rparr>)\<rparr> in
      if cs_status s = SClaimFalse then s1
      else (case kind of
              VConfirmed \<Rightarrow> s1\<lparr>cs_status := SConfirmed, cs_stale_since := None\<rparr>
            | VClaimFalse \<Rightarrow> s1\<lparr>cs_status := SClaimFalse, cs_stale_since := None\<rparr>
            | VRecipeInvalid cause \<Rightarrow> s1\<lparr>cs_status := SRecipeInvalid cause\<rparr>
            | VFlakyObservation \<Rightarrow> s1\<lparr>cs_status := SFlaky\<rparr>))"
| "claim_arm first s (Stale ts c cause) =
     (let s1 = s\<lparr>cs_history := (cs_history s)\<lparr>h_stale_events := h_stale_events (cs_history s) + 1\<rparr>\<rparr> in
      if cs_status s = SClaimFalse then s1 else s1\<lparr>cs_stale_since := Some ts\<rparr>)"
| "claim_arm first s (Human ts c answer note) =
     (let s1 = s\<lparr>cs_history := (cs_history s)\<lparr>h_human_answers := h_human_answers (cs_history s) + 1\<rparr>\<rparr> in
      if cs_status s = SClaimFalse then s1
      else s1\<lparr>cs_status := SHuman answer, cs_last_human_note := note\<rparr>)"
| "claim_arm first s (ManualDeclare ts c text severity) =
     s\<lparr>cs_history := (cs_history s)\<lparr>h_manual_declares := h_manual_declares (cs_history s) + 1\<rparr>,
       cs_manual_text := Some text, cs_manual_severity := Some severity,
       cs_status := (if first then SDeclared else cs_status s)\<rparr>"

text \<open>The entry: created on first sight of the id, stamped with the event time, then the arm.\<close>

definition claim_upd :: "claim_state option \<Rightarrow> attest_event \<Rightarrow> claim_state" where
  "claim_upd old ev =
     (let entry = (case old of
            None \<Rightarrow> new_claim (event_claim_id ev) SDerived (event_ts ev)
          | Some s \<Rightarrow> s)
      in claim_arm (old = None) (entry\<lparr>cs_last_ts := event_ts ev\<rparr>) ev)"

text \<open>What the arms do to the identity index, from the identity the claim had before.\<close>

fun index_arm :: "test_identity option \<Rightarrow> attest_event \<Rightarrow> (test_identity \<rightharpoonup> claim_id)
    \<Rightarrow> (test_identity \<rightharpoonup> claim_id)" where
  "index_arm old (Derive ts c i body_hash renamed) idx =
     (let idx1 = (case old of Some o' \<Rightarrow> if o' \<noteq> i then idx(o' := None) else idx | None \<Rightarrow> idx)
      in idx1(i \<mapsto> c))"
| "index_arm old (Evidence ts c turn dirty blob result) idx =
     (case old of None \<Rightarrow> idx(sr_identity result \<mapsto> c) | Some _ \<Rightarrow> idx)"
| "index_arm old ev idx = idx"

definition fold_event :: "fold_result \<Rightarrow> attest_event \<Rightarrow> fold_result" where
  "fold_event r ev =
     (let c = event_claim_id ev; old = fr_claims r c in
      \<lparr>fr_claims = (fr_claims r)(c \<mapsto> claim_upd old ev),
       fr_by_identity = index_arm (Option.bind old cs_test_identity) ev (fr_by_identity r)\<rparr>)"

definition fold_claims :: "attest_event list \<Rightarrow> fold_result" where
  "fold_claims evs = foldl fold_event \<lparr>fr_claims = Map.empty, fr_by_identity = Map.empty\<rparr> evs"

subsection \<open>Reading the log (events.rs)\<close>

datatype parsed_attest_line = AEvent attest_event | AUnknownKind | AUnparsed | ABlank

definition KNOWN_EVENT_KINDS :: "string list" where
  "KNOWN_EVENT_KINDS = [''derive'', ''evidence'', ''verdict'', ''stale'', ''human'', ''manual-declare'']"

text \<open>
  The arguments turn text into a JSON value (\<open>serde_json::from_str\<close>) and a value into an event
  (\<open>serde_json::from_value\<close> with the derived decoder).
\<close>

definition parse_attest_line ::
  "(string \<Rightarrow> json option) \<Rightarrow> (json \<Rightarrow> attest_event option) \<Rightarrow> string \<Rightarrow> parsed_attest_line" where
  "parse_attest_line from_str from_value line =
     (let trimmed = trim line in
      if trimmed = [] then ABlank
      else case from_str trimmed of
        None \<Rightarrow> AUnparsed
      | Some val \<Rightarrow>
          (case from_value val of
             Some ev \<Rightarrow> AEvent ev
           | None \<Rightarrow>
               (case Option.bind (value_get ''kind'' val) dec_str of
                  Some k \<Rightarrow> if k \<in> set KNOWN_EVENT_KINDS then AUnparsed else AUnknownKind
                | None \<Rightarrow> AUnknownKind)))"

record attest_census =
  ac_events :: nat
  ac_unknown_kind_lines :: nat
  ac_unparsed_lines :: nat

definition attest_log_step :: "attest_event list \<times> attest_census \<Rightarrow> parsed_attest_line
    \<Rightarrow> attest_event list \<times> attest_census" where
  "attest_log_step acc p = (case acc of (evs, c) \<Rightarrow> (case p of
     AEvent ev \<Rightarrow> (evs @ [ev], c\<lparr>ac_events := ac_events c + 1\<rparr>)
   | AUnknownKind \<Rightarrow> (evs, c\<lparr>ac_unknown_kind_lines := ac_unknown_kind_lines c + 1\<rparr>)
   | AUnparsed \<Rightarrow> (evs, c\<lparr>ac_unparsed_lines := ac_unparsed_lines c + 1\<rparr>)
   | ABlank \<Rightarrow> (evs, c)))"

definition parse_attest_log ::
  "(string \<Rightarrow> json option) \<Rightarrow> (json \<Rightarrow> attest_event option) \<Rightarrow> string
    \<Rightarrow> attest_event list \<times> attest_census" where
  "parse_attest_log from_str from_value body =
     foldl attest_log_step ([], \<lparr>ac_events = 0, ac_unknown_kind_lines = 0, ac_unparsed_lines = 0\<rparr>)
       (map (parse_attest_line from_str from_value) (lines body))"

end
