(* ===== verification/Attest_Props.thy ===== *)
theory Attest_Props
  imports Attest
begin

text \<open>
  Properties of the claim core: the body-hash codec, the locality of the fold, an abstract
  specification of the status and of the stale overlay with a refinement theorem, exact
  history counts, and what the identity index guarantees.
\<close>

subsection \<open>The body-hash codec\<close>

lemma hex_value_digit: "n < 16 \<Longrightarrow> hex_value (hex_digit n) = Some n"
  unfolding hex_value_def hex_digit_def by (rule position_nth) simp_all

lemma hex_digit_value: "hex_value c = Some n \<Longrightarrow> n < 16 \<and> hex_digit n = c"
  using position_SomeD[of "\<lambda>d. d = c" "''0123456789abcdef''" n]
  by (simp add: hex_value_def hex_digit_def)

lemma hex_digit_canonical: "n < 16 \<Longrightarrow> hex_digit n \<in> set ''0123456789abcdef''"
  unfolding hex_digit_def by (rule nth_mem) simp

lemma of_char_lt: "(of_char b :: nat) < 256"
  by (rule nat_of_char_less_256)

lemma hex_pairs_serialize: "hex_pairs (hex32_serialize bs) = Some bs"
proof (induction bs)
  case (Cons b bs)
  have "(of_char b :: nat) div 16 < 16" using of_char_lt[of b] by linarith
  then show ?case
    using Cons by (simp add: hex32_serialize_def hex_value_digit)
qed (simp add: hex32_serialize_def)

lemma hex_pairs_inverse: "hex_pairs s = Some bs \<Longrightarrow> hex32_serialize bs = s"
proof (induction s arbitrary: bs rule: hex_pairs.induct)
  case (3 h l cs)
  from "3.prems" obtain hi lo bs' where
    v: "hex_value h = Some hi" "hex_value l = Some lo" "hex_pairs cs = Some bs'"
      "bs = char_of (hi * 16 + lo) # bs'"
    by (auto split: option.splits)
  have b: "hi < 16" "hex_digit hi = h" "lo < 16" "hex_digit lo = l"
    using hex_digit_value v(1,2) by auto
  have "hex32_serialize bs' = cs" using "3.IH" v by blast
  moreover have "(of_char (char_of (hi * 16 + lo) :: char) :: nat) = hi * 16 + lo"
    using b by simp
  ultimately show ?case using b v(4) by (simp add: hex32_serialize_def)
qed (simp_all add: hex32_serialize_def)

lemma hex32_serialize_length: "length (hex32_serialize bs) = 2 * length bs"
  by (induction bs) (simp_all add: hex32_serialize_def)

lemma hex32_serialize_canonical: "c \<in> set (hex32_serialize bs) \<Longrightarrow> c \<in> set ''0123456789abcdef''"
proof -
  assume "c \<in> set (hex32_serialize bs)"
  then obtain b where "c = hex_digit (of_char b div 16) \<or> c = hex_digit (of_char b mod 16)"
    unfolding hex32_serialize_def by fastforce
  moreover have "(of_char b :: nat) div 16 < 16" using of_char_lt[of b] by linarith
  moreover have "(of_char b :: nat) mod 16 < 16" by simp
  ultimately show ?thesis using hex_digit_canonical by blast
qed

text \<open>
  The wire form of a body hash and the 32-byte value determine each other: a text decodes
  to a value exactly when it is the canonical encoding of that value, so decoding then
  re-encoding a log line can never change it.
\<close>

theorem body_hash_codec:
  "hex32_deserialize enc = Some bs \<longleftrightarrow> length bs = 32 \<and> hex32_serialize bs = enc"
proof
  assume "hex32_deserialize enc = Some bs"
  then have "length enc = 64" "hex_pairs enc = Some bs"
    by (simp_all add: hex32_deserialize_def split: if_splits)
  then show "length bs = 32 \<and> hex32_serialize bs = enc"
    using hex_pairs_inverse[of enc bs] hex32_serialize_length[of bs] by simp
next
  assume r: "length bs = 32 \<and> hex32_serialize bs = enc"
  then have "hex_pairs enc = Some bs" using hex_pairs_serialize[of bs] by simp
  moreover have "length enc = 64" using r hex32_serialize_length[of bs] by simp
  moreover have "list_all (\<lambda>b. b \<in> set ''0123456789abcdef'') enc"
    using r hex32_serialize_canonical by (auto simp only: list_all_iff)
  ultimately show "hex32_deserialize enc = Some bs"
    by (simp only: hex32_deserialize_def simp_thms if_True)
qed

subsection \<open>The fold, claim by claim\<close>

definition about :: "claim_id \<Rightarrow> attest_event list \<Rightarrow> attest_event list" where
  "about c evs = filter (\<lambda>e. event_claim_id e = c) evs"

lemma about_simps [simp]: "about c [] = []" "about c (xs @ ys) = about c xs @ about c ys"
  "about c [e] = (if event_claim_id e = c then [e] else [])"
  by (simp_all add: about_def)

lemma fold_claims_snoc: "fold_claims (evs @ [e]) = fold_event (fold_claims evs) e"
  by (simp add: fold_claims_def)

lemma fold_claims_entry: "fr_claims (fold_claims evs) c = entry_fold claim_upd None (about c evs)"
proof (induction evs rule: rev_induct)
  case Nil
  then show ?case by (simp add: fold_claims_def)
next
  case (snoc e evs)
  show ?case
    by (cases "event_claim_id e = c") (simp_all add: fold_claims_snoc fold_event_def Let_def snoc)
qed

text \<open>
  The folded state of a claim depends on the events of that claim alone: events of other
  claims, wherever they are interleaved in the log, change nothing.
\<close>

theorem claim_fold_local: "claim_of (fold_claims evs) c = claim_of (fold_claims (about c evs)) c"
  by (simp add: claim_of_def fold_claims_entry about_def)

subsection \<open>Specification of status and overlay\<close>

fun decisive :: "attest_event \<Rightarrow> claim_status option" where
  "decisive (Verdict _ _ VConfirmed _) = Some SConfirmed"
| "decisive (Verdict _ _ VClaimFalse _) = Some SClaimFalse"
| "decisive (Verdict _ _ (VRecipeInvalid cause) _) = Some (SRecipeInvalid cause)"
| "decisive (Verdict _ _ VFlakyObservation _) = Some SFlaky"
| "decisive (Human _ _ answer _) = Some (SHuman answer)"
| "decisive _ = None"

fun refutes :: "attest_event \<Rightarrow> bool" where
  "refutes (Verdict _ _ VClaimFalse _) = True"
| "refutes _ = False"

fun is_evidence :: "attest_event \<Rightarrow> bool" where
  "is_evidence (Evidence _ _ _ _ _ _) = True"
| "is_evidence _ = False"

fun is_declare :: "attest_event \<Rightarrow> bool" where
  "is_declare (ManualDeclare _ _ _ _) = True"
| "is_declare _ = False"

definition status_spec :: "attest_event list \<Rightarrow> claim_status option" where
  "status_spec evs =
     (if evs = [] then None
      else if list_ex refutes evs then Some SClaimFalse
      else case last_map decisive evs of
             Some s \<Rightarrow> Some s
           | None \<Rightarrow> Some (if is_declare (hd evs) then SDeclared
                          else if list_ex is_evidence evs then SEvidenced else SDerived))"

lemma decisive_not_derived: "decisive e \<noteq> Some SDerived"
  by (cases e rule: decisive.cases) auto

lemma last_map_decisive: "last_map decisive evs \<noteq> Some SDerived"
  by (induction evs rule: rev_induct) (auto simp: decisive_not_derived split: option.splits)

lemma decisive_refutes: "decisive e = Some SClaimFalse \<longleftrightarrow> refutes e"
  by (cases e rule: decisive.cases) auto

lemma last_map_refutes: "last_map decisive evs = Some SClaimFalse \<Longrightarrow> list_ex refutes evs"
  by (induction evs rule: rev_induct) (auto simp: decisive_refutes split: option.splits)

lemma claim_arm_status:
  "cs_status (claim_arm first s e) =
     (if cs_status s = SClaimFalse \<and> \<not> (is_declare e \<and> first) then SClaimFalse
      else case decisive e of
             Some st \<Rightarrow> st
           | None \<Rightarrow> if is_declare e \<and> first then SDeclared
                    else if is_evidence e \<and> cs_status s = SDerived then SEvidenced
                    else cs_status s)"
  by (cases e) (auto simp: Let_def split: verdict_kind.splits)

lemma claim_upd_status:
  "cs_status (claim_upd old e) =
     (case old of
        None \<Rightarrow> (case decisive e of Some st \<Rightarrow> st
                 | None \<Rightarrow> if is_declare e then SDeclared else if is_evidence e then SEvidenced else SDerived)
      | Some s \<Rightarrow> if cs_status s = SClaimFalse then SClaimFalse
                 else (case decisive e of Some st \<Rightarrow> st
                 | None \<Rightarrow> if is_evidence e \<and> cs_status s = SDerived then SEvidenced else cs_status s))"
  by (simp add: claim_upd_def Let_def claim_arm_status new_claim_def split: option.splits)

lemma decisive_kind: "decisive e = Some st \<Longrightarrow> \<not> is_declare e \<and> \<not> is_evidence e"
  by (cases e) auto

lemma status_spec_snoc:
  "status_spec (evs @ [e]) =
     Some (case status_spec evs of
        None \<Rightarrow> (case decisive e of Some st \<Rightarrow> st
                 | None \<Rightarrow> if is_declare e then SDeclared else if is_evidence e then SEvidenced else SDerived)
      | Some s \<Rightarrow> if s = SClaimFalse then SClaimFalse
                 else (case decisive e of Some st \<Rightarrow> st
                 | None \<Rightarrow> if is_evidence e \<and> s = SDerived then SEvidenced else s))"
  using last_map_decisive[of evs] last_map_refutes[of evs] decisive_refutes[of e] decisive_kind[of e]
  by (cases evs)
    (auto simp: status_spec_def last_map_simps(2)[of _ "[]", simplified] simp del: append_Cons
        simp add: append_Cons[symmetric] split: option.splits if_splits)

lemma entry_fold_status:
  "map_option cs_status (entry_fold claim_upd None evs) = status_spec evs"
proof (induction evs rule: rev_induct)
  case Nil
  then show ?case by (simp add: status_spec_def)
next
  case (snoc e evs)
  show ?case
    by (simp add: status_spec_snoc snoc[symmetric] claim_upd_status split: option.splits)
qed

text \<open>
  C10: refinement of the status machine. The status the fold computes is what the events of
  the claim say: refuted for good once any claim-false verdict exists; otherwise the last
  verdict or human answer; otherwise DECLARED when the first event is a manual declaration,
  EVIDENCED when some run was captured, else DERIVED.
\<close>

theorem status_refines_spec:
  "map_option cs_status (claim_of (fold_claims evs) c) = status_spec (about c evs)"
  by (simp add: claim_of_def fold_claims_entry entry_fold_status)

fun overlay :: "attest_event \<Rightarrow> nat option option" where
  "overlay (Stale ts _ _) = Some (Some ts)"
| "overlay (Verdict _ _ VConfirmed _) = Some None"
| "overlay _ = None"

definition stale_spec :: "attest_event list \<Rightarrow> nat option" where
  "stale_spec evs = (if list_ex refutes evs then None else Option.bind (last_map overlay evs) (\<lambda>x. x))"

lemma claim_upd_stale:
  "cs_stale_since (claim_upd old e) =
     (let prev = Option.bind old cs_stale_since; ref = (map_option cs_status old = Some SClaimFalse) in
      if ref then prev else if refutes e then None
      else case overlay e of None \<Rightarrow> prev | Some x \<Rightarrow> x)"
  by (cases old; cases e)
    (auto simp: claim_upd_def new_claim_def Let_def split: verdict_kind.splits)

lemma status_false_iff: "status_spec evs = Some SClaimFalse \<longleftrightarrow> list_ex refutes evs"
  using last_map_refutes[of evs] by (auto simp: status_spec_def split: option.splits)

lemma entry_fold_stale: "Option.bind (entry_fold claim_upd None evs) cs_stale_since = stale_spec evs"
proof (induction evs rule: rev_induct)
  case Nil
  then show ?case by (simp add: stale_spec_def)
next
  case (snoc e evs)
  have "map_option cs_status (entry_fold claim_upd None evs) = Some SClaimFalse \<longleftrightarrow> list_ex refutes evs"
    by (simp add: entry_fold_status status_false_iff)
  then show ?case
    using snoc by (auto simp: claim_upd_stale Let_def stale_spec_def split: option.splits)
qed

text \<open>
  The STALE overlay of a claim is the time of the last stale event not followed by a
  confirming verdict, and a refuted claim is never stale: it is not queued for
  re-verification again.
\<close>

theorem stale_refines_spec:
  "Option.bind (claim_of (fold_claims evs) c) cs_stale_since = stale_spec (about c evs)"
  by (simp add: claim_of_def fold_claims_entry entry_fold_stale)

subsection \<open>History\<close>

fun is_derive :: "attest_event \<Rightarrow> bool" where
  "is_derive (Derive _ _ _ _ _) = True"
| "is_derive _ = False"

fun is_stale_event :: "attest_event \<Rightarrow> bool" where
  "is_stale_event (Stale _ _ _) = True"
| "is_stale_event _ = False"

fun is_human :: "attest_event \<Rightarrow> bool" where
  "is_human (Human _ _ _ _) = True"
| "is_human _ = False"

fun verdict_of :: "attest_event \<Rightarrow> verdict_kind option" where
  "verdict_of (Verdict _ _ k _) = Some k"
| "verdict_of _ = None"

definition count :: "('a \<Rightarrow> bool) \<Rightarrow> 'a list \<Rightarrow> nat" where
  "count P xs = length (filter P xs)"

lemma count_simps [simp]: "count P [] = 0" "count P (xs @ [x]) = count P xs + (if P x then 1 else 0)"
  by (simp_all add: count_def)

definition history_spec :: "attest_event list \<Rightarrow> claim_history" where
  "history_spec evs = \<lparr>h_derives = count is_derive evs, h_evidence = count is_evidence evs,
     h_verdicts = count (\<lambda>e. verdict_of e \<noteq> None) evs,
     h_confirmed_verdicts = count (\<lambda>e. verdict_of e = Some VConfirmed) evs,
     h_claim_false_verdicts = count (\<lambda>e. verdict_of e = Some VClaimFalse) evs,
     h_recipe_invalid_verdicts = count (\<lambda>e. \<exists>k. verdict_of e = Some (VRecipeInvalid k)) evs,
     h_flaky_observations = count (\<lambda>e. verdict_of e = Some VFlakyObservation) evs,
     h_stale_events = count is_stale_event evs, h_human_answers = count is_human evs,
     h_manual_declares = count is_declare evs\<rparr>"

lemma entry_fold_history:
  "evs \<noteq> [] \<Longrightarrow> map_option cs_history (entry_fold claim_upd None evs) = Some (history_spec evs)"
proof (induction evs rule: rev_induct)
  case Nil
  then show ?case by simp
next
  case (snoc e evs)
  obtain h where h: "(case entry_fold claim_upd None evs of None \<Rightarrow> empty_history | Some s \<Rightarrow> cs_history s)
      = history_spec evs"
    using snoc.IH by (cases "evs = []") (auto simp: history_spec_def empty_history_def)
  have "cs_history (claim_upd old e) = history_spec (evs @ [e])"
    if "(case old of None \<Rightarrow> empty_history | Some s \<Rightarrow> cs_history s) = history_spec evs" for old
    using that
    by (cases e; cases old)
      (auto simp: claim_upd_def new_claim_def history_spec_def empty_history_def Let_def
        split: verdict_kind.splits)
  with h show ?case by simp
qed

text \<open>
  Nothing is discarded. The history of a claim counts every event of the claim by kind,
  those that arrive after a permanent refutation included.
\<close>

theorem history_counts_everything:
  "claim_of (fold_claims evs) c = Some s \<Longrightarrow> cs_history s = history_spec (about c evs)"
  using entry_fold_history[of "about c evs"]
  by (cases "about c evs = []") (auto simp: claim_of_def fold_claims_entry)

definition example_id :: claim_id where
  "example_id = ClaimId ''c_A''"

definition example_log :: "attest_event list" where
  "example_log = [Derive 1 example_id (TestIdentity ''t'' ''f'') None None,
     Verdict 2 example_id VClaimFalse ''abc'', Verdict 3 example_id VConfirmed ''abc'']"

theorem history_counts_everything_witness:
  "\<exists>s. claim_of (fold_claims example_log) example_id = Some s
     \<and> h_confirmed_verdicts (cs_history s) = 1 \<and> h_claim_false_verdicts (cs_history s) = 1
     \<and> cs_status s = SClaimFalse"
proof -
  have a: "about example_id example_log = example_log"
    by (simp add: example_log_def about_def)
  obtain s where s: "claim_of (fold_claims example_log) example_id = Some s"
    using entry_fold_Some[of "about example_id example_log" claim_upd None]
    by (auto simp: claim_of_def fold_claims_entry a) (simp add: example_log_def)
  from history_counts_everything[OF s] have "cs_history s = history_spec example_log" by (simp add: a)
  moreover have "cs_status s = SClaimFalse"
  proof -
    have "entry_fold claim_upd None example_log = Some s"
      using s by (simp add: claim_of_def fold_claims_entry a)
    moreover have "status_spec example_log = Some SClaimFalse"
      by (simp add: status_spec_def example_log_def)
    ultimately show ?thesis
      using entry_fold_status[of example_log] by simp
  qed
  ultimately show ?thesis
    using s by (simp add: history_spec_def example_log_def count_def)
qed

subsection \<open>The identity index\<close>

text \<open>The identity an event can give its claim.\<close>

fun event_identity :: "attest_event \<Rightarrow> test_identity option" where
  "event_identity (Derive _ _ i _ _) = Some i"
| "event_identity (Evidence _ _ _ _ _ r) = Some (sr_identity r)"
| "event_identity _ = None"

definition identity_of :: "fold_result \<Rightarrow> claim_id \<Rightarrow> test_identity option" where
  "identity_of r c = Option.bind (fr_claims r c) cs_test_identity"

lemma claim_upd_identity:
  "cs_test_identity (claim_upd old e) =
     (case (e, Option.bind old cs_test_identity) of
        (Derive _ _ i _ _, _) \<Rightarrow> Some i
      | (Evidence _ _ _ _ _ r, None) \<Rightarrow> Some (sr_identity r)
      | (_, prev) \<Rightarrow> prev)"
  by (cases e; cases old)
    (auto simp: claim_upd_def new_claim_def Let_def split: verdict_kind.splits option.splits)

lemma identity_of_step:
  "identity_of (fold_event r e) c =
     (if event_claim_id e = c then cs_test_identity (claim_upd (fr_claims r c) e) else identity_of r c)"
  by (simp add: identity_of_def fold_event_def Let_def)

text \<open>
  The index never points at a claim that does not carry the identity: looking a test up
  gives a claim whose current identity is exactly that test.
\<close>

theorem index_sound:
  "fr_by_identity (fold_claims evs) i = Some c \<Longrightarrow> identity_of (fold_claims evs) c = Some i"
proof (induction evs arbitrary: i c rule: rev_induct)
  case Nil
  then show ?case by (simp add: fold_claims_def)
next
  case (snoc e evs)
  then show ?case
    unfolding fold_claims_snoc identity_of_step
    by (cases e)
      (auto simp: fold_event_def Let_def claim_upd_identity identity_of_def
        split: option.splits if_splits)
qed

theorem index_sound_witness:
  "fr_by_identity (fold_claims example_log) (TestIdentity ''t'' ''f'') = Some example_id
   \<and> identity_of (fold_claims example_log) example_id = Some (TestIdentity ''t'' ''f'')"
proof -
  have "fr_by_identity (fold_claims example_log) (TestIdentity ''t'' ''f'') = Some example_id"
    by (simp add: fold_claims_def example_log_def fold_event_def)
  with index_sound[OF this] show ?thesis by blast
qed

lemma identity_source:
  "identity_of (fold_claims evs) c = Some i
    \<Longrightarrow> \<exists>e \<in> set evs. event_identity e = Some i \<and> event_claim_id e = c"
proof (induction evs rule: rev_induct)
  case Nil
  then show ?case by (simp add: fold_claims_def identity_of_def)
next
  case (snoc e evs)
  then show ?case
    unfolding fold_claims_snoc identity_of_step
    by (cases e) (auto simp: claim_upd_identity identity_of_def split: option.splits if_splits)
qed

definition exclusive :: "attest_event list \<Rightarrow> bool" where
  "exclusive evs \<longleftrightarrow> (\<forall>e \<in> set evs. \<forall>e' \<in> set evs.
      event_identity e = event_identity e' \<longrightarrow>
      event_identity e = None \<or> event_claim_id e = event_claim_id e')"

lemma exclusiveD:
  "exclusive evs \<Longrightarrow> e \<in> set evs \<Longrightarrow> e' \<in> set evs \<Longrightarrow> event_identity e = Some i
    \<Longrightarrow> event_identity e' = Some i \<Longrightarrow> event_claim_id e = event_claim_id e'"
  unfolding exclusive_def by force

lemma exclusive_snocD: "exclusive (evs @ [e]) \<Longrightarrow> exclusive evs"
  by (simp add: exclusive_def)

lemma exclusive_owner:
  assumes ex: "exclusive (evs @ [e])" and own: "identity_of (fold_claims evs) c = Some i"
    and ne: "event_claim_id e \<noteq> c"
  shows "event_identity e \<noteq> Some i" "identity_of (fold_claims evs) (event_claim_id e) \<noteq> Some i"
proof -
  obtain e0 where e0: "e0 \<in> set evs" "event_identity e0 = Some i" "event_claim_id e0 = c"
    using identity_source[OF own] by blast
  have only: "event_claim_id e1 = c" if "e1 \<in> set (evs @ [e])" "event_identity e1 = Some i" for e1
    using exclusiveD[OF ex that(1) _ that(2) e0(2)] e0 by simp
  show "event_identity e \<noteq> Some i" using only[of e] ne by auto
  show "identity_of (fold_claims evs) (event_claim_id e) \<noteq> Some i"
  proof
    assume "identity_of (fold_claims evs) (event_claim_id e) = Some i"
    from identity_source[OF this] only ne show False by auto
  qed
qed

lemma exclusive_index_complete:
  "exclusive evs \<Longrightarrow> identity_of (fold_claims evs) c = Some i \<Longrightarrow> fr_by_identity (fold_claims evs) i = Some c"
proof (induction evs arbitrary: c i rule: rev_induct)
  case Nil
  then show ?case by (simp add: fold_claims_def identity_of_def)
next
  case (snoc e evs)
  note IH = snoc.IH[OF exclusive_snocD[OF snoc.prems(1)]]
  show ?case
  proof (cases "event_claim_id e = c")
    case True
    then show ?thesis using snoc.prems(2) IH
      unfolding fold_claims_snoc identity_of_step
      by (cases e) (auto simp: fold_event_def Let_def claim_upd_identity identity_of_def
          split: option.splits if_splits)
  next
    case False
    then have old: "identity_of (fold_claims evs) c = Some i"
      using snoc.prems(2) by (simp add: fold_claims_snoc identity_of_step)
    then show ?thesis using IH[OF old] exclusive_owner[OF snoc.prems(1) old False]
      by (cases e) (auto simp: fold_claims_snoc fold_event_def Let_def identity_of_def split: option.splits)
  qed
qed

text \<open>
  In a log where no two claims ever carry the same identity, the index is complete: the
  current identity of every claim finds that claim again.
\<close>

theorem index_complete:
  "exclusive evs \<Longrightarrow> identity_of (fold_claims evs) c = Some i
    \<Longrightarrow> claim_for (fold_claims evs) i = Some c"
  unfolding claim_for_def by (rule exclusive_index_complete)

theorem index_complete_witness:
  "claim_for (fold_claims example_log) (TestIdentity ''t'' ''f'') = Some example_id"
proof (rule index_complete)
  show "exclusive example_log"
    by (simp add: exclusive_def example_log_def)
  show "identity_of (fold_claims example_log) example_id = Some (TestIdentity ''t'' ''f'')"
    by (simp add: identity_of_def fold_claims_def example_log_def fold_event_def claim_upd_identity)
qed

text \<open>
  Without that assumption the index loses a live owner. Two claims derive the same test,
  then the first one derives another test: the second claim still carries the identity, and
  the index no longer finds any claim for it, although the fold is documented never to
  unmap another claim's live identity.
\<close>

theorem rename_unmaps_other_claim:
  "let x = TestIdentity ''t'' ''x''; y = TestIdentity ''t'' ''y'';
       a = ClaimId ''c_A''; b = ClaimId ''c_B'';
       r = fold_claims [Derive 1 b x None None, Derive 2 a x None None, Derive 3 b y None None]
   in identity_of r a = Some x \<and> claim_for r x = None"
  by (simp add: Let_def identity_of_def claim_for_def fold_claims_def fold_event_def claim_upd_identity)

subsection \<open>Reading the log\<close>

fun parsed_event :: "parsed_attest_line \<Rightarrow> attest_event option" where
  "parsed_event (AEvent e) = Some e"
| "parsed_event _ = None"

definition tally :: "attest_census \<Rightarrow> nat" where
  "tally c = ac_events c + ac_unknown_kind_lines c + ac_unparsed_lines c"

lemma attest_steps_tally:
  "foldl attest_log_step (evs, c) ps = (evs', c') \<Longrightarrow>
     evs' = evs @ List.map_filter parsed_event ps
     \<and> ac_events c' = ac_events c + length (List.map_filter parsed_event ps)
     \<and> tally c' = tally c + length (filter (\<lambda>p. p \<noteq> ABlank) ps)"
proof (induction ps arbitrary: evs c)
  case (Cons p ps)
  obtain evs1 c1 where st: "attest_log_step (evs, c) p = (evs1, c1)" by fastforce
  from Cons.prems st have "foldl attest_log_step (evs1, c1) ps = (evs', c')" by simp
  note Cons.IH[OF this]
  with st show ?case
    by (cases p) (auto simp: attest_log_step_def tally_def List.map_filter_simps)
qed (simp add: List.map_filter_simps)

lemma blank_line_iff: "parse_attest_line fs fv l = ABlank \<longleftrightarrow> trim l = []"
  by (simp add: parse_attest_line_def Let_def split: option.splits)

text \<open>
  The tolerant reader loses nothing. It returns exactly the events of the lines that
  decode, in order; the event counter is their number; and every line that is not blank is
  counted exactly once, as an event, an unknown kind or an unparsed line.
\<close>

theorem attest_log_census:
  "case parse_attest_log from_str from_value body of (evs, c) \<Rightarrow>
     evs = List.map_filter (\<lambda>l. parsed_event (parse_attest_line from_str from_value l)) (lines body)
     \<and> ac_events c = length evs
     \<and> ac_events c + ac_unknown_kind_lines c + ac_unparsed_lines c
         = length (filter (\<lambda>l. trim l \<noteq> []) (lines body))"
proof -
  let ?p = "parse_attest_line from_str from_value"
  obtain evs c where r: "parse_attest_log from_str from_value body = (evs, c)" by fastforce
  have "List.map_filter parsed_event (map ?p ls) = List.map_filter (\<lambda>l. parsed_event (?p l)) ls" for ls
    by (induction ls) (simp_all add: List.map_filter_simps split: option.splits)
  moreover have "length (filter (\<lambda>p. p \<noteq> ABlank) (map ?p ls)) = length (filter (\<lambda>l. trim l \<noteq> []) ls)" for ls
    by (simp add: filter_map comp_def blank_line_iff)
  ultimately show ?thesis
    using attest_steps_tally[OF r[unfolded parse_attest_log_def]] r
    by (simp add: tally_def)
qed

end
