(* ===== verification/Records.thy ===== *)
theory Records
  imports Json
begin

text \<open>
  The wire records (agentrec-core/src/record.rs): signal lines, file entries, turn and epoch
  records, their JSON form as the serde attributes give it, the tolerant parser of
  \<open>log.jsonl\<close> and the readers and appenders built on it. File access is the content of the
  file, or None when it cannot be opened.
\<close>

definition SCHEMA_MAJOR :: "32 word" where
  "SCHEMA_MAJOR = 1"

subsection \<open>Types\<close>

record signal_event =
  se_v :: "32 word"
  se_ts :: nat
  se_tool :: string
  se_event :: "string option"
  se_session :: "string option"
  se_transcript :: "string option"
  se_prompt :: "string option"
  se_files_written :: "string list option"
  se_emitter_turn :: "string option"
  se_emitter_event :: "string option"
  se_model :: "string option"
  se_kind :: "string option"
  se_fact :: "string option"
  se_pins :: "string list option"

definition is_start :: "signal_event \<Rightarrow> bool" where
  "is_start s \<longleftrightarrow> se_event s = Some ''start''"

definition is_memory_candidate :: "signal_event \<Rightarrow> bool" where
  "is_memory_candidate s \<longleftrightarrow> se_kind s = Some ''memory-candidate''"

record file_entry =
  fe_path :: string
  fe_before :: "hash option"
  fe_after :: "hash option"
  fe_op :: string
  fe_skipped :: bool
  fe_withheld :: bool
  fe_baseline_unknown :: bool
  fe_skipped_reason :: "string option"
  fe_after_synthesized :: "bool option"
  fe_link_kind :: "string option"
  fe_attribution :: "string option"

record turn_record =
  tr_v :: "32 word"
  tr_id :: string
  tr_grade :: string
  tr_truncated :: bool
  tr_started :: string
  tr_ended :: string
  tr_tool :: "string option"
  tr_model :: "string option"
  tr_session :: "string option"
  tr_root :: string
  tr_prompt_ref :: "string option"
  tr_prompt_excerpt :: "string option"
  tr_merges :: "string list"
  tr_imported :: "bool option"
  tr_files_complete :: "bool option"
  tr_origin :: "string option"
  tr_files :: "file_entry list"

datatype undo_origin = OriginCli | OriginMcp

fun undo_origin_str :: "undo_origin \<Rightarrow> string" where
  "undo_origin_str OriginCli = ''cli''"
| "undo_origin_str OriginMcp = ''mcp''"

definition turn_origin :: "turn_record \<Rightarrow> string" where
  "turn_origin t = (case tr_origin t of Some s \<Rightarrow> s | None \<Rightarrow> ''cli'')"

record epoch_record =
  ep_v :: "32 word"
  ep_event :: string
  ep_ts :: string
  ep_dropped_signals :: "32 word"

datatype log_record = Turn turn_record | Epoch epoch_record

subsection \<open>JSON form\<close>

definition de_schema_major :: "json \<Rightarrow> 32 word option" where
  "de_schema_major j = do { v \<leftarrow> dec_u32 j; if v \<noteq> SCHEMA_MAJOR then None else Some v }"

definition signal_fields :: "(string \<times> json) list \<Rightarrow> signal_event option" where
  "signal_fields fs = do {
     v \<leftarrow> dflt 1 de_schema_major ''v'' fs;
     ts \<leftarrow> req dec_u64 ''ts'' fs;
     tool \<leftarrow> req dec_str ''tool'' fs;
     event \<leftarrow> optf dec_str ''event'' fs;
     session \<leftarrow> optf dec_str ''session'' fs;
     transcript \<leftarrow> optf dec_str ''transcript'' fs;
     prompt \<leftarrow> optf dec_str ''prompt'' fs;
     written \<leftarrow> optf (dec_arr dec_str) ''files_written'' fs;
     eturn \<leftarrow> optf dec_str ''emitter_turn'' fs;
     eevent \<leftarrow> optf dec_str ''emitter_event'' fs;
     model \<leftarrow> optf dec_str ''model'' fs;
     kind \<leftarrow> optf dec_str ''type'' fs;
     fact \<leftarrow> optf dec_str ''fact'' fs;
     pins \<leftarrow> optf (dec_arr dec_str) ''pins'' fs;
     Some \<lparr>se_v = v, se_ts = ts, se_tool = tool, se_event = event, se_session = session,
       se_transcript = transcript, se_prompt = prompt, se_files_written = written,
       se_emitter_turn = eturn, se_emitter_event = eevent, se_model = model, se_kind = kind,
       se_fact = fact, se_pins = pins\<rparr> }"

fun dec_signal :: "json \<Rightarrow> signal_event option" where
  "dec_signal (JObj fs) = signal_fields fs"
| "dec_signal _ = None"

definition enc_file :: "file_entry \<Rightarrow> json" where
  "enc_file f = JObj (
     [(''path'', JStr (fe_path f)), (''before'', enc_opt JStr (fe_before f)),
      (''after'', enc_opt JStr (fe_after f)), (''op'', JStr (fe_op f))]
     @ enc_if (fe_skipped f) ''skipped'' (JBool (fe_skipped f))
     @ enc_if (fe_withheld f) ''withheld'' (JBool (fe_withheld f))
     @ enc_if (fe_baseline_unknown f) ''baseline_unknown'' (JBool (fe_baseline_unknown f))
     @ enc_some JStr ''skipped_reason'' (fe_skipped_reason f)
     @ enc_some JBool ''after_synthesized'' (fe_after_synthesized f)
     @ enc_some JStr ''link_kind'' (fe_link_kind f)
     @ enc_some JStr ''attribution'' (fe_attribution f))"

definition file_fields :: "(string \<times> json) list \<Rightarrow> file_entry option" where
  "file_fields fs = do {
     path \<leftarrow> req dec_str ''path'' fs;
     before \<leftarrow> optf dec_str ''before'' fs;
     after \<leftarrow> optf dec_str ''after'' fs;
     op \<leftarrow> req dec_str ''op'' fs;
     skipped \<leftarrow> dflt False dec_bool ''skipped'' fs;
     withheld \<leftarrow> dflt False dec_bool ''withheld'' fs;
     baseline \<leftarrow> dflt False dec_bool ''baseline_unknown'' fs;
     reason \<leftarrow> optf dec_str ''skipped_reason'' fs;
     synth \<leftarrow> optf dec_bool ''after_synthesized'' fs;
     link \<leftarrow> optf dec_str ''link_kind'' fs;
     attr \<leftarrow> optf dec_str ''attribution'' fs;
     Some \<lparr>fe_path = path, fe_before = before, fe_after = after, fe_op = op,
       fe_skipped = skipped, fe_withheld = withheld, fe_baseline_unknown = baseline,
       fe_skipped_reason = reason, fe_after_synthesized = synth, fe_link_kind = link,
       fe_attribution = attr\<rparr> }"

fun dec_file :: "json \<Rightarrow> file_entry option" where
  "dec_file (JObj fs) = file_fields fs"
| "dec_file _ = None"

definition turn_members :: "turn_record \<Rightarrow> (string \<times> json) list" where
  "turn_members t =
     [(''v'', enc_u32 (tr_v t)), (''id'', JStr (tr_id t)), (''grade'', JStr (tr_grade t))]
     @ enc_if (tr_truncated t) ''truncated'' (JBool (tr_truncated t))
     @ [(''started'', JStr (tr_started t)), (''ended'', JStr (tr_ended t))]
     @ enc_some JStr ''tool'' (tr_tool t)
     @ enc_some JStr ''model'' (tr_model t)
     @ enc_some JStr ''session'' (tr_session t)
     @ [(''root'', JStr (tr_root t))]
     @ enc_some JStr ''prompt_ref'' (tr_prompt_ref t)
     @ enc_some JStr ''prompt_excerpt'' (tr_prompt_excerpt t)
     @ enc_if (tr_merges t \<noteq> []) ''merges'' (JArr (map JStr (tr_merges t)))
     @ enc_some JBool ''imported'' (tr_imported t)
     @ enc_some JBool ''files_complete'' (tr_files_complete t)
     @ enc_some JStr ''origin'' (tr_origin t)
     @ [(''files'', JArr (map enc_file (tr_files t)))]"

definition turn_fields :: "(string \<times> json) list \<Rightarrow> turn_record option" where
  "turn_fields fs = do {
     v \<leftarrow> dflt 1 de_schema_major ''v'' fs;
     i \<leftarrow> req dec_str ''id'' fs;
     grade \<leftarrow> req dec_str ''grade'' fs;
     truncated \<leftarrow> dflt False dec_bool ''truncated'' fs;
     started \<leftarrow> req dec_str ''started'' fs;
     ended \<leftarrow> req dec_str ''ended'' fs;
     tool \<leftarrow> optf dec_str ''tool'' fs;
     model \<leftarrow> optf dec_str ''model'' fs;
     session \<leftarrow> optf dec_str ''session'' fs;
     root \<leftarrow> req dec_str ''root'' fs;
     pref \<leftarrow> optf dec_str ''prompt_ref'' fs;
     pexc \<leftarrow> optf dec_str ''prompt_excerpt'' fs;
     merges \<leftarrow> dflt [] (dec_arr dec_str) ''merges'' fs;
     imported \<leftarrow> optf dec_bool ''imported'' fs;
     complete \<leftarrow> optf dec_bool ''files_complete'' fs;
     origin \<leftarrow> optf dec_str ''origin'' fs;
     files \<leftarrow> req (dec_arr dec_file) ''files'' fs;
     Some \<lparr>tr_v = v, tr_id = i, tr_grade = grade, tr_truncated = truncated, tr_started = started,
       tr_ended = ended, tr_tool = tool, tr_model = model, tr_session = session, tr_root = root,
       tr_prompt_ref = pref, tr_prompt_excerpt = pexc, tr_merges = merges, tr_imported = imported,
       tr_files_complete = complete, tr_origin = origin, tr_files = files\<rparr> }"

fun dec_turn :: "json \<Rightarrow> turn_record option" where
  "dec_turn (JObj fs) = turn_fields fs"
| "dec_turn _ = None"

definition epoch_members :: "epoch_record \<Rightarrow> (string \<times> json) list" where
  "epoch_members e =
     [(''v'', enc_u32 (ep_v e)), (''event'', JStr (ep_event e)), (''ts'', JStr (ep_ts e))]
     @ enc_if (ep_dropped_signals e \<noteq> 0) ''dropped_signals'' (enc_u32 (ep_dropped_signals e))"

definition epoch_fields :: "(string \<times> json) list \<Rightarrow> epoch_record option" where
  "epoch_fields fs = do {
     v \<leftarrow> dflt 1 de_schema_major ''v'' fs;
     event \<leftarrow> req dec_str ''event'' fs;
     ts \<leftarrow> req dec_str ''ts'' fs;
     dropped \<leftarrow> dflt 0 dec_u32 ''dropped_signals'' fs;
     Some \<lparr>ep_v = v, ep_event = event, ep_ts = ts, ep_dropped_signals = dropped\<rparr> }"

text \<open>The record kind is the member \<open>type\<close>, written first (serde's internally tagged form).\<close>

fun enc_log :: "log_record \<Rightarrow> json" where
  "enc_log (Turn t) = JObj ((''type'', JStr ''turn'') # turn_members t)"
| "enc_log (Epoch e) = JObj ((''type'', JStr ''epoch'') # epoch_members e)"

definition untagged :: "(string \<times> json) list \<Rightarrow> (string \<times> json) list" where
  "untagged fs = filter (\<lambda>f. fst f \<noteq> ''type'') fs"

fun dec_log :: "json \<Rightarrow> log_record option" where
  "dec_log (JObj fs) = do {
     tag \<leftarrow> req dec_str ''type'' fs;
     if tag = ''turn'' then map_option Turn (turn_fields (untagged fs))
     else if tag = ''epoch'' then map_option Epoch (epoch_fields (untagged fs))
     else None }"
| "dec_log _ = None"

subsection \<open>Parsing the log\<close>

definition KNOWN_RECORD_TYPES :: "string list" where
  "KNOWN_RECORD_TYPES = [''turn'', ''epoch'']"

datatype parsed_line = PRecord log_record | PUnknownType | PUnparsed | PBlank

text \<open>The argument turns text into a JSON value (\<open>serde_json::from_str\<close>).\<close>

definition parse_log_line :: "(string \<Rightarrow> json option) \<Rightarrow> string \<Rightarrow> parsed_line" where
  "parse_log_line from_str line =
     (let trimmed = trim line in
      if trimmed = [] then PBlank
      else case Option.bind (from_str trimmed) dec_log of
        Some r \<Rightarrow> PRecord r
      | None \<Rightarrow>
        (case from_str trimmed of
           None \<Rightarrow> PUnparsed
         | Some val \<Rightarrow>
             if (case Option.bind (value_get ''v'' val) dec_u64 of
                   Some major \<Rightarrow> major \<noteq> unat SCHEMA_MAJOR | None \<Rightarrow> False)
             then PUnknownType
             else case value_get ''type'' val of
               None \<Rightarrow> (case dec_turn val of Some t \<Rightarrow> PRecord (Turn t) | None \<Rightarrow> PUnparsed)
             | Some tag \<Rightarrow>
                 (case dec_str tag of
                    Some t \<Rightarrow> if t \<notin> set KNOWN_RECORD_TYPES then PUnknownType else PUnparsed
                  | None \<Rightarrow> PUnparsed)))"

fun parsed_record :: "parsed_line \<Rightarrow> log_record option" where
  "parsed_record (PRecord r) = Some r"
| "parsed_record _ = None"

text \<open>\<open>BufRead::lines\<close> yields an error for a line that is not UTF-8; the loop skips it.\<close>

definition load_log :: "(string \<Rightarrow> json option) \<Rightarrow> string option \<Rightarrow> log_record list" where
  "load_log from_str file = (case file of
     None \<Rightarrow> []
   | Some body \<Rightarrow> List.map_filter (\<lambda>l. if utf8_valid l then parsed_record (parse_log_line from_str l) else None)
                   (lines body))"

definition parse_signals :: "(string \<Rightarrow> json option) \<Rightarrow> string \<Rightarrow> signal_event list" where
  "parse_signals from_str body =
     List.map_filter (\<lambda>l. if trim l = [] then None else Option.bind (from_str (trim l)) dec_signal)
       (lines body)"

text \<open>Appending: what the file holds afterwards; None is the refusal of a non-regular target.\<close>

definition append_log_line :: "bool \<Rightarrow> string \<Rightarrow> string \<Rightarrow> string option" where
  "append_log_line nonregular body line = (if nonregular then None else Some (body @ line @ [NL]))"

definition append_log :: "(json \<Rightarrow> string) \<Rightarrow> bool \<Rightarrow> string \<Rightarrow> log_record \<Rightarrow> string option" where
  "append_log to_string nonregular body r = append_log_line nonregular body (to_string (enc_log r))"

end
