(* ===== verification/Records_Props.thy ===== *)
theory Records_Props
  imports Records
begin

text \<open>
  Correctness of the wire records: what is written is read back, a line of another schema is
  never read as this one, and a log survives appending and loading, torn lines included.
\<close>

subsection \<open>Files\<close>

lemmas field_simps_json =
  str.req_enc str.optf_some str.optf_null str.dflt_enc bool.optf_some bool.dflt_enc
  strs.dflt_enc strs.optf_some u32.dflt_enc

lemma dec_enc_file: "dec_file (enc_file f) = Some f"
  by (simp add: enc_file_def file_fields_def field_simps_json
      bool.dflt_enc[where x = "fe_skipped f" and b = "fe_skipped f"]
      bool.dflt_enc[where x = "fe_withheld f" and b = "fe_withheld f"]
      bool.dflt_enc[where x = "fe_baseline_unknown f" and b = "fe_baseline_unknown f"])

interpretation fentry: json_codec enc_file dec_file
  by unfold_locales (simp_all add: dec_enc_file, simp add: enc_file_def)

interpretation files: json_codec "\<lambda>xs. JArr (map enc_file xs)" "dec_arr dec_file"
  by unfold_locales (rule fentry.dec_arr_enc, simp)

subsection \<open>Records\<close>

fun log_v :: "log_record \<Rightarrow> 32 word" where
  "log_v (Turn t) = tr_v t"
| "log_v (Epoch e) = ep_v e"

fun log_type :: "log_record \<Rightarrow> string" where
  "log_type (Turn _) = ''turn''"
| "log_type (Epoch _) = ''epoch''"

lemma de_schema_major_enc: "de_schema_major (enc_u32 v) = (if v = SCHEMA_MAJOR then Some v else None)"
  by (simp add: de_schema_major_def u32.dec_enc)

lemma version_field:
  "members ''v'' fs = [enc_u32 v] \<Longrightarrow>
     dflt 1 de_schema_major ''v'' fs = (if v = SCHEMA_MAJOR then Some v else None)"
  by (simp add: dflt_def de_schema_major_enc)

lemma untagged_no_type: "\<forall>f \<in> set fs. fst f \<noteq> ''type'' \<Longrightarrow> untagged fs = fs"
  by (simp add: untagged_def)

lemma enc_if_set: "f \<in> set (enc_if b k j) \<Longrightarrow> fst f = k"
  by (auto simp: enc_if_def split: if_splits)

lemma enc_some_set: "f \<in> set (enc_some e k x) \<Longrightarrow> fst f = k"
  by (auto simp: enc_some_def split: option.splits)

lemma turn_members_untagged: "untagged (turn_members t) = turn_members t"
  by (rule untagged_no_type) (auto simp: turn_members_def dest: enc_if_set enc_some_set)

lemma epoch_members_untagged: "untagged (epoch_members e) = epoch_members e"
  by (rule untagged_no_type) (auto simp: epoch_members_def dest: enc_if_set)

lemma turn_fields_members:
  "turn_fields (turn_members t) = (if tr_v t = SCHEMA_MAJOR then Some t else None)"
proof -
  have v: "dflt 1 de_schema_major ''v'' (turn_members t)
      = (if tr_v t = SCHEMA_MAJOR then Some (tr_v t) else None)"
    by (rule version_field) (simp add: turn_members_def)
  have tr: "dflt False dec_bool ''truncated'' (turn_members t) = Some (tr_truncated t)"
    by (rule bool.dflt_enc[where b = "tr_truncated t"]) (simp_all add: turn_members_def)
  have mg: "dflt [] (dec_arr dec_str) ''merges'' (turn_members t) = Some (tr_merges t)"
    by (rule strs.dflt_enc[where b = "tr_merges t \<noteq> []"]) (simp_all add: turn_members_def)
  have fl: "req (dec_arr dec_file) ''files'' (turn_members t) = Some (tr_files t)"
    by (rule files.req_enc) (simp add: turn_members_def)
  have st: "req dec_str ''id'' (turn_members t) = Some (tr_id t)"
    "req dec_str ''grade'' (turn_members t) = Some (tr_grade t)"
    "req dec_str ''started'' (turn_members t) = Some (tr_started t)"
    "req dec_str ''ended'' (turn_members t) = Some (tr_ended t)"
    "req dec_str ''root'' (turn_members t) = Some (tr_root t)"
    by (rule str.req_enc, simp add: turn_members_def)+
  have op: "optf dec_str ''tool'' (turn_members t) = Some (tr_tool t)"
    "optf dec_str ''model'' (turn_members t) = Some (tr_model t)"
    "optf dec_str ''session'' (turn_members t) = Some (tr_session t)"
    "optf dec_str ''prompt_ref'' (turn_members t) = Some (tr_prompt_ref t)"
    "optf dec_str ''prompt_excerpt'' (turn_members t) = Some (tr_prompt_excerpt t)"
    "optf dec_str ''origin'' (turn_members t) = Some (tr_origin t)"
    by (rule str.optf_some, simp add: turn_members_def)+
  have ob: "optf dec_bool ''imported'' (turn_members t) = Some (tr_imported t)"
    "optf dec_bool ''files_complete'' (turn_members t) = Some (tr_files_complete t)"
    by (rule bool.optf_some, simp add: turn_members_def)+
  show ?thesis
    by (simp add: turn_fields_def v tr mg fl st op ob)
qed

lemma epoch_fields_members:
  "epoch_fields (epoch_members e) = (if ep_v e = SCHEMA_MAJOR then Some e else None)"
proof -
  have v: "dflt 1 de_schema_major ''v'' (epoch_members e)
      = (if ep_v e = SCHEMA_MAJOR then Some (ep_v e) else None)"
    by (rule version_field) (simp add: epoch_members_def)
  have d: "dflt 0 dec_u32 ''dropped_signals'' (epoch_members e) = Some (ep_dropped_signals e)"
    by (rule u32.dflt_enc[where b = "ep_dropped_signals e \<noteq> 0"]) (simp_all add: epoch_members_def)
  have st: "req dec_str ''event'' (epoch_members e) = Some (ep_event e)"
    "req dec_str ''ts'' (epoch_members e) = Some (ep_ts e)"
    by (rule str.req_enc, simp add: epoch_members_def)+
  show ?thesis
    by (simp add: epoch_fields_def v d st)
qed

lemma tag_first:
  "untagged fs = fs \<Longrightarrow> req dec_str ''type'' ((''type'', JStr s) # fs) = Some s"
  "untagged fs = fs \<Longrightarrow> untagged ((''type'', JStr s) # fs) = fs"
proof -
  assume "untagged fs = fs"
  then have "members ''type'' fs = []"
    by (auto simp: untagged_def members_def filter_empty_conv filter_id_conv)
  then show "req dec_str ''type'' ((''type'', JStr s) # fs) = Some s"
    by (simp add: str.req_enc)
qed (simp add: untagged_def)

lemma log_record_roundtrip_aux:
  "dec_log (enc_log r) = (if log_v r = SCHEMA_MAJOR then Some r else None)"
  by (cases r) (simp_all add: tag_first turn_members_untagged epoch_members_untagged
      turn_fields_members epoch_fields_members)

text \<open>
  C26: what is written to the log is read back exactly, members omitted from the wire
  included, and a record of another schema major is refused rather than read as this one.
\<close>

theorem log_record_roundtrip:
  "dec_log (enc_log r) = (if log_v r = SCHEMA_MAJOR then Some r else None)"
  by (rule log_record_roundtrip_aux)

subsection \<open>Classifying a line\<close>

lemma req_Some: "req d k fs = Some x \<Longrightarrow> \<exists>j. members k fs = [j] \<and> d j = Some x"
  by (auto simp: req_def split: list.splits)

lemma version_read:
  "dflt 1 de_schema_major ''v'' fs = Some v \<Longrightarrow>
     v = SCHEMA_MAJOR \<and> (members ''v'' fs = [] \<or> (\<exists>j. members ''v'' fs = [j] \<and> dec_u32 j = Some SCHEMA_MAJOR))"
  by (auto simp: dflt_def de_schema_major_def SCHEMA_MAJOR_def bind_eq_Some_conv
      split: list.splits if_splits)

lemma turn_fields_version:
  "turn_fields fs = Some t \<Longrightarrow> dflt 1 de_schema_major ''v'' fs = Some (tr_v t)"
  by (auto simp: turn_fields_def bind_eq_Some_conv)

lemma epoch_fields_version:
  "epoch_fields fs = Some e \<Longrightarrow> dflt 1 de_schema_major ''v'' fs = Some (ep_v e)"
  by (auto simp: epoch_fields_def bind_eq_Some_conv)

lemma members_untagged: "k \<noteq> ''type'' \<Longrightarrow> members k (untagged fs) = members k fs"
  by (induction fs) (auto simp: untagged_def members_def)

lemma version_untagged: "dflt x d ''v'' (untagged fs) = dflt x d ''v'' fs"
  by (simp add: dflt_def members_untagged)

text \<open>What the code may conclude from a JSON value about the schema of a line.\<close>

definition declares_major :: "json \<Rightarrow> bool" where
  "declares_major val \<longleftrightarrow>
     (case value_get ''v'' val of None \<Rightarrow> True | Some j \<Rightarrow> dec_u32 j = Some SCHEMA_MAJOR)"

lemma declares_majorI:
  "dflt 1 de_schema_major ''v'' fs = Some v \<Longrightarrow> v = SCHEMA_MAJOR \<and> declares_major (JObj fs)"
  by (drule version_read) (auto simp: declares_major_def)

lemma dec_turn_version:
  "dec_turn val = Some t \<Longrightarrow> tr_v t = SCHEMA_MAJOR \<and> declares_major val"
  by (cases val) (auto dest!: turn_fields_version declares_majorI)

lemma dec_log_version:
  assumes "dec_log val = Some r"
  shows "log_v r = SCHEMA_MAJOR \<and> declares_major val \<and> value_get ''type'' val = Some (JStr (log_type r))"
proof -
  obtain fs where fs: "val = JObj fs" using assms by (cases val) auto
  from assms fs obtain tag where tag: "req dec_str ''type'' fs = Some tag"
    and r: "(if tag = ''turn'' then map_option Turn (turn_fields (untagged fs))
       else if tag = ''epoch'' then map_option Epoch (epoch_fields (untagged fs)) else None) = Some r"
    by (auto simp: bind_eq_Some_conv)
  from req_Some[OF tag] obtain j where j: "members ''type'' fs = [j]" "dec_str j = Some tag" by blast
  have js: "j = JStr tag" using j(2) by (cases j) auto
  have "log_v r = SCHEMA_MAJOR \<and> declares_major val \<and> tag = log_type r"
    using r fs by (auto split: if_splits dest!: turn_fields_version epoch_fields_version
        declares_majorI[of fs] simp: version_untagged)
  with j js fs show ?thesis by simp
qed

lemma dec_u32_major: "dec_u32 j = Some SCHEMA_MAJOR \<Longrightarrow> j = JInt 1"
proof (cases j)
  case (JInt i)
  assume "dec_u32 j = Some SCHEMA_MAJOR"
  with JInt have "0 \<le> i" "i < 2 ^ 32" "word_of_int i = (1 :: 32 word)"
    by (auto simp: SCHEMA_MAJOR_def split: if_splits)
  moreover have "uint (word_of_int i :: 32 word) = i"
    using \<open>0 \<le> i\<close> \<open>i < 2 ^ 32\<close> by (subst uint_word_of_int) simp
  ultimately have "i = 1" by (simp only: uint_1_eq)
  with JInt show ?thesis by simp
qed simp_all

lemma declares_major_u64:
  "declares_major val \<Longrightarrow> Option.bind (value_get ''v'' val) dec_u64 = Some n \<Longrightarrow> n = unat SCHEMA_MAJOR"
  by (auto simp: declares_major_def SCHEMA_MAJOR_def split: option.splits
      dest!: dec_u32_major[unfolded SCHEMA_MAJOR_def])

text \<open>
  A line is never misread. A line classified as a record is JSON that declares no schema
  major or this one, and its \<open>type\<close> is absent (a legacy turn) or names exactly the kind of
  record returned; a line that declares another major is counted as unknown, never as a record.
\<close>

theorem parse_never_misreads:
  "case parse_log_line from_str line of
     PRecord r \<Rightarrow> \<exists>val. from_str (trim line) = Some val \<and> log_v r = SCHEMA_MAJOR \<and> declares_major val
       \<and> (value_get ''type'' val = Some (JStr (log_type r))
          \<or> value_get ''type'' val = None \<and> log_type r = ''turn'')
   | PUnknownType \<Rightarrow> \<exists>val. from_str (trim line) = Some val
       \<and> ((\<exists>n. Option.bind (value_get ''v'' val) dec_u64 = Some n \<and> n \<noteq> unat SCHEMA_MAJOR)
          \<or> (\<exists>t. value_get ''type'' val = Some (JStr t) \<and> t \<notin> set KNOWN_RECORD_TYPES))
   | PUnparsed \<Rightarrow> trim line \<noteq> []
       \<and> Option.bind (from_str (trim line)) (\<lambda>val. Option.bind (value_get ''v'' val) dec_u64)
           \<in> {None, Some (unat SCHEMA_MAJOR)}
   | PBlank \<Rightarrow> trim line = []"
proof (cases "trim line = [] \<or> from_str (trim line) = None")
  case True
  then show ?thesis by (auto simp: parse_log_line_def Let_def split: option.splits)
next
  case False
  then obtain val where ne: "trim line \<noteq> []" and val: "from_str (trim line) = Some val" by auto
  show ?thesis
  proof (cases "dec_log val")
    case (Some r)
    with dec_log_version[OF Some] val ne show ?thesis
      by (simp add: parse_log_line_def Let_def)
  next
    case None
    have tag: "dec_str j = Some t \<Longrightarrow> j = JStr t" for j t by (cases j) auto
    show ?thesis
      using None val ne tag
      by (auto simp: parse_log_line_def Let_def dest!: dec_turn_version split: option.splits if_splits)
  qed
qed

subsection \<open>The log as a whole\<close>

text \<open>
  What the log relies on from serde_json for one record: its text is one line of UTF-8 without
  white space around it, and parsing it gives back the value that was rendered.
\<close>

definition renders :: "(json \<Rightarrow> string) \<Rightarrow> (string \<Rightarrow> json option) \<Rightarrow> log_record \<Rightarrow> bool" where
  "renders to_string from_str r \<longleftrightarrow>
     (let l = to_string (enc_log r) in
      log_line l \<and> l \<noteq> [] \<and> trim l = l \<and> utf8_valid l \<and> from_str l = Some (enc_log r))"

definition append_records :: "(json \<Rightarrow> string) \<Rightarrow> string option \<Rightarrow> log_record list \<Rightarrow> string option" where
  "append_records to_string file rs =
     foldl (\<lambda>f r. Option.bind f (\<lambda>body. append_log to_string False body r)) file rs"

lemma append_records_body:
  "append_records to_string (Some body) rs
     = Some (body @ concat (map (\<lambda>l. l @ [NL]) (map (\<lambda>r. to_string (enc_log r)) rs)))"
  unfolding append_records_def
  by (induction rs arbitrary: body) (simp_all add: append_log_def append_log_line_def)

lemma parse_rendered:
  "renders to_string from_str r \<Longrightarrow> log_v r = SCHEMA_MAJOR
    \<Longrightarrow> parse_log_line from_str (to_string (enc_log r)) = PRecord r"
  using log_record_roundtrip_aux[of r]
  by (simp add: renders_def parse_log_line_def Let_def)

text \<open>
  C27: appending records to a fresh log and loading it gives the records in order, followed
  by whatever the rest of the file (a torn tail, foreign lines) holds; a bad tail never hides
  the history before it.
\<close>

theorem appended_records_load:
  assumes "\<forall>r \<in> set rs. renders to_string from_str r \<and> log_v r = SCHEMA_MAJOR"
    and "append_records to_string (Some []) rs = Some body"
  shows "load_log from_str (Some (body @ tail)) = rs @ load_log from_str (Some tail)"
proof -
  let ?ls = "map (\<lambda>r. to_string (enc_log r)) rs"
  have b: "body = concat (map (\<lambda>l. l @ [NL]) ?ls)"
    using assms(2) by (simp add: append_records_body)
  have "lines (body @ tail) = ?ls @ lines tail"
    unfolding b using assms(1) by (intro lines_of_log) (auto simp: renders_def Let_def)
  moreover have "List.map_filter (\<lambda>l. if utf8_valid l then parsed_record (parse_log_line from_str l) else None) ?ls = rs"
    using assms(1)
  proof (induction rs)
    case (Cons r rs)
    then have "utf8_valid (to_string (enc_log r))" by (simp add: renders_def Let_def)
    with Cons show ?case by (simp add: List.map_filter_simps parse_rendered)
  qed (simp add: List.map_filter_simps)
  ultimately show ?thesis
    by (simp add: load_log_def List.map_filter_def)
qed

definition example_epoch :: log_record where
  "example_epoch = Epoch \<lparr>ep_v = 1, ep_event = ''start'', ep_ts = ''2026'', ep_dropped_signals = 0\<rparr>"

theorem appended_records_load_witness:
  "load_log (\<lambda>s. if s = ''x'' then Some (enc_log example_epoch) else None) (Some (''x'' @ [NL] @ ''{torn''))
     = [example_epoch]"
proof -
  let ?fs = "\<lambda>s. if s = ''x'' then Some (enc_log example_epoch) else None"
  have t: "trim ''x'' = ''x''" "trim ''{torn'' = ''{torn''"
    by (rule trim_visible; simp add: byte_in_def)+
  have u: "byte_in 0 127 CHR ''x''" by code_simp
  have r: "renders (\<lambda>_. ''x'') ?fs example_epoch"
    by (simp add: renders_def Let_def t log_line_def NL_def CR_def u)
  have v: "log_v example_epoch = SCHEMA_MAJOR"
    by (simp add: example_epoch_def SCHEMA_MAJOR_def)
  have "load_log ?fs (Some ((''x'' @ [NL]) @ ''{torn'')) = [example_epoch] @ load_log ?fs (Some ''{torn'')"
    by (rule appended_records_load[where to_string = "\<lambda>_. ''x''"])
      (simp_all only: append_records_body list.set ball_simps r v list.map concat.simps append.simps simp_thms insert_iff empty_iff)
  moreover have "lines ''{torn'' = [''{torn'']" by code_simp
  ultimately show ?thesis
    by (simp add: load_log_def List.map_filter_simps parse_log_line_def t Let_def)
qed

subsection \<open>Small records for examples\<close>

definition plain_entry :: "string \<Rightarrow> hash option \<Rightarrow> hash option \<Rightarrow> file_entry" where
  "plain_entry p b a = \<lparr>fe_path = p, fe_before = b, fe_after = a, fe_op = ''modify'', fe_skipped = False,
     fe_withheld = False, fe_baseline_unknown = False, fe_skipped_reason = None,
     fe_after_synthesized = None, fe_link_kind = None, fe_attribution = None\<rparr>"

definition plain_turn :: "string \<Rightarrow> file_entry list \<Rightarrow> turn_record" where
  "plain_turn i fs = \<lparr>tr_v = 1, tr_id = i, tr_grade = ''bare'', tr_truncated = False, tr_started = [],
     tr_ended = [], tr_tool = None, tr_model = None, tr_session = None, tr_root = [],
     tr_prompt_ref = None, tr_prompt_excerpt = None, tr_merges = [], tr_imported = None,
     tr_files_complete = None, tr_origin = None, tr_files = fs\<rparr>"

end
