(* ===== verification/Store.thy ===== *)
theory Store
  imports Text "HOL-Library.AList"
begin

text \<open>
  The content-addressed blob store (agentrec-core/src/store.rs). The state is what the object
  directory holds: entries \<open><fan>/<leaf>\<close> with their content and modification time. The
  digest (sha2) is a parameter \<open>sha\<close>; the outcomes of file system calls and the clock are
  arguments of the operations that depend on them. Temporary files, permissions and syncing
  leave no trace in this state.
\<close>

definition MAX_SNAPSHOT_BYTES :: nat where
  "MAX_SNAPSHOT_BYTES = 10 * 1024 * 1024"

subsection \<open>Hashes and paths\<close>

definition is_hex :: "string \<Rightarrow> bool" where
  "is_hex bs = list_all (\<lambda>b. b \<in> set ''0123456789abcdef'') bs"

definition hex_byte :: "char \<Rightarrow> string" where
  "hex_byte b = [''0123456789abcdef'' ! (of_char b div 16), ''0123456789abcdef'' ! (of_char b mod 16)]"

definition hash_bytes :: "(string \<Rightarrow> string) \<Rightarrow> string \<Rightarrow> hash" where
  "hash_bytes sha bs = ''sha256:'' @ concat (map hex_byte (sha bs))"

definition strip_prefix :: "string \<Rightarrow> string \<Rightarrow> string option" where
  "strip_prefix p s = (if starts_with s p then Some (drop (length p) s) else None)"

text \<open>The two components joined to the store directory.\<close>

type_synonym object_key = "string \<times> string"

definition object_path :: "hash \<Rightarrow> object_key option" where
  "object_path h = (case strip_prefix ''sha256:'' h of
     None \<Rightarrow> None
   | Some hex \<Rightarrow> if length hex \<noteq> 64 \<or> \<not> is_hex hex then None
                 else Some (take 2 hex, drop 2 hex))"

subsection \<open>State\<close>

text \<open>A regular file, or any other file system object with the size and time stat reports.\<close>

datatype object = Regular (content: string) (mod_time: nat) | Special nat nat

fun object_size :: "object \<Rightarrow> nat" where
  "object_size (Regular bs _) = length bs"
| "object_size (Special n _) = n"

fun object_mtime :: "object \<Rightarrow> nat" where
  "object_mtime (Regular _ t) = t"
| "object_mtime (Special _ t) = t"

type_synonym store = "(object_key \<times> object) list"

definition object_at :: "store \<Rightarrow> hash \<Rightarrow> object option" where
  "object_at s h = Option.bind (object_path h) (map_of s)"

subsection \<open>Results\<close>

datatype put_outcome = Stored (stored_hash: hash) bool nat | OverCap | IoError string

datatype store_error = Missing hash | Corrupt hash

datatype io = IoOk | IoFail string

subsection \<open>Operations\<close>

text \<open>\<open>fsguard::read_regular\<close>: the content of a regular file, an error for anything else.\<close>

fun read_object :: "object option \<Rightarrow> string option" where
  "read_object (Some (Regular bs _)) = Some bs"
| "read_object _ = None"

text \<open>
  \<open>io\<close> is the outcome of creating the directory, writing, syncing and renaming; a failure
  leaves the object as it was. \<open>touch_ok\<close> is whether the best-effort time update succeeds.
\<close>

definition put_result :: "(string \<Rightarrow> string) \<Rightarrow> io \<Rightarrow> bool \<Rightarrow> nat \<Rightarrow> string \<Rightarrow> store \<Rightarrow> put_outcome \<times> store" where
  "put_result sha io touch_ok now bs s =
     (if length bs > MAX_SNAPSHOT_BYTES then (OverCap, s)
      else let h = hash_bytes sha bs in
        case object_path h of
          None \<Rightarrow> (IoError ''invalid object hash'', s)
        | Some path \<Rightarrow>
            (case read_object (map_of s path) of
               Some old \<Rightarrow>
                 if hash_bytes sha old = h
                 then (Stored h True (length old),
                       if touch_ok then AList.update path (Regular old now) s else s)
                 else (case io of
                     IoOk \<Rightarrow> (Stored h False 0, AList.update path (Regular bs now) s)
                   | IoFail e \<Rightarrow> (IoError e, s))
             | None \<Rightarrow>
                 (case io of
                     IoOk \<Rightarrow> (Stored h False 0, AList.update path (Regular bs now) s)
                   | IoFail e \<Rightarrow> (IoError e, s))))"

definition put :: "(string \<Rightarrow> string) \<Rightarrow> io \<Rightarrow> bool \<Rightarrow> nat \<Rightarrow> string \<Rightarrow> store \<Rightarrow> hash option \<times> store" where
  "put sha io touch_ok now bs s =
     (case put_result sha io touch_ok now bs s of
        (Stored h _ _, s') \<Rightarrow> (Some h, s')
      | (_, s') \<Rightarrow> (None, s'))"

definition get :: "(string \<Rightarrow> string) \<Rightarrow> store \<Rightarrow> hash \<Rightarrow> store_error + string" where
  "get sha s h = (case object_path h of
     None \<Rightarrow> Inl (Missing h)
   | Some path \<Rightarrow>
       (case read_object (map_of s path) of
          None \<Rightarrow> Inl (Missing h)
        | Some bs \<Rightarrow> if hash_bytes sha bs \<noteq> h then Inl (Corrupt h) else Inr bs))"

definition contains :: "store \<Rightarrow> hash \<Rightarrow> bool" where
  "contains s h = (object_at s h \<noteq> None)"

definition blob_size :: "store \<Rightarrow> hash \<Rightarrow> nat option" where
  "blob_size s h = map_option object_size (object_at s h)"

definition blob_mtime :: "store \<Rightarrow> hash \<Rightarrow> nat option" where
  "blob_mtime s h = map_option object_mtime (object_at s h)"

text \<open>\<open>rm_ok\<close> is whether \<open>remove_file\<close> succeeds; its result is ignored.\<close>

definition remove_blob :: "bool \<Rightarrow> store \<Rightarrow> hash \<Rightarrow> nat option \<times> store" where
  "remove_blob rm_ok s h = (case object_path h of
     None \<Rightarrow> (None, s)
   | Some path \<Rightarrow>
       (case map_option object_size (map_of s path) of
          None \<Rightarrow> (None, s)
        | Some n \<Rightarrow> (Some n, if rm_ok then AList.delete path s else s)))"

definition total_bytes :: "store \<Rightarrow> nat" where
  "total_bytes s = sum_list (map (\<lambda>e. object_size (snd e)) s)"

definition list_hashes :: "store \<Rightarrow> hash list" where
  "list_hashes s = List.map_filter
     (\<lambda>((fan, leaf), obj). if length fan = 2 \<and> is_hex fan \<and> length leaf = 62 \<and> is_hex leaf
        then Some (''sha256:'' @ fan @ leaf) else None) s"

text \<open>\<open>io\<close> is whether creating the archive directory and the rename succeed.\<close>

definition archive_blob :: "bool \<Rightarrow> store \<Rightarrow> store \<Rightarrow> hash \<Rightarrow> nat option \<times> store \<times> store" where
  "archive_blob ok s arch h = (case object_path h of
     None \<Rightarrow> (None, s, arch)
   | Some path \<Rightarrow>
       (case map_of s path of
          None \<Rightarrow> (None, s, arch)
        | Some obj \<Rightarrow> if ok then (Some (object_size obj), AList.delete path s, AList.update path obj arch)
                       else (None, s, arch)))"

end
