(* ===== verification/Store_Props.thy ===== *)
theory Store_Props
  imports Store
begin

text \<open>
  The contract of the blob store as its clients use it, its proof for the model, and the
  properties that follow from it: retrievability, integrity and path safety.
\<close>

subsection \<open>Paths\<close>

lemma strip_prefix_Some: "strip_prefix p s = Some r \<longleftrightarrow> s = p @ r"
  by (auto simp: strip_prefix_def starts_with_iff)

lemma object_path_Some:
  "object_path h = Some (fan, leaf) \<longleftrightarrow>
     h = ''sha256:'' @ fan @ leaf \<and> length fan = 2 \<and> length leaf = 62 \<and> is_hex fan \<and> is_hex leaf"
  (is "?L \<longleftrightarrow> ?R")
proof
  assume ?L
  then obtain hex where s: "strip_prefix ''sha256:'' h = Some hex" "length hex = 64" "is_hex hex"
    and f: "fan = take 2 hex" "leaf = drop 2 hex"
    by (auto simp: object_path_def split: option.splits if_splits)
  have "is_hex (take 2 hex @ drop 2 hex)" using s(3) by simp
  then have "is_hex fan" "is_hex leaf" unfolding f is_hex_def by (simp_all del: append_take_drop_id)
  moreover have "h = ''sha256:'' @ fan @ leaf" using s(1) f by (simp add: strip_prefix_Some)
  ultimately show ?R using s(2) f by simp
next
  assume ?R
  then have "strip_prefix ''sha256:'' h = Some (fan @ leaf)" "is_hex (fan @ leaf)"
    by (simp_all add: strip_prefix_Some is_hex_def)
  with \<open>?R\<close> show ?L by (simp add: object_path_def)
qed

lemma object_path_inj: "object_path h = Some p \<Longrightarrow> object_path h' = Some p \<Longrightarrow> h = h'"
  by (cases p) (simp add: object_path_Some)

lemma object_path_neq: "h \<noteq> h' \<Longrightarrow> object_path h = Some p \<Longrightarrow> object_path h' \<noteq> Some p"
  using object_path_inj by metis

lemma hex_plain: "is_hex s \<Longrightarrow> CHR ''/'' \<notin> set s \<and> CHR ''.'' \<notin> set s"
  by (induction s) (simp_all add: is_hex_def, elim conjE disjE, simp_all)

text \<open>
  Path safety. The path of an object is two directory levels of two and sixty-two
  lowercase hex digits, whatever the hash string a record carries; distinct hashes never share
  a path. In particular no component is empty, starts with a dot or contains a separator.
\<close>

theorem object_path_confined:
  "case object_path h of
     None \<Rightarrow> \<nexists>fan leaf. h = ''sha256:'' @ fan @ leaf \<and> length fan = 2 \<and> length leaf = 62
        \<and> is_hex fan \<and> is_hex leaf
   | Some (fan, leaf) \<Rightarrow> length fan = 2 \<and> length leaf = 62 \<and> CHR ''/'' \<notin> set (fan @ leaf)
        \<and> CHR ''.'' \<notin> set (fan @ leaf) \<and> h = ''sha256:'' @ fan @ leaf"
proof (cases "object_path h")
  case None
  then have "\<not> (h = ''sha256:'' @ fan @ leaf \<and> length fan = 2 \<and> length leaf = 62
      \<and> is_hex fan \<and> is_hex leaf)" for fan leaf
    using object_path_Some[of h fan leaf] by auto
  with None show ?thesis by auto
next
  case (Some p)
  then obtain fan leaf where "p = (fan, leaf)" "object_path h = Some (fan, leaf)" by (cases p) auto
  then have "h = ''sha256:'' @ fan @ leaf" "length fan = 2" "length leaf = 62" "is_hex fan" "is_hex leaf"
    by (simp_all only: object_path_Some)
  with hex_plain[of fan] hex_plain[of leaf] Some \<open>p = (fan, leaf)\<close> show ?thesis
    by (simp only: option.case prod.case set_append Un_iff) simp
qed

subsection \<open>The contract\<close>

text \<open>
  What a client relies on: a stored hash can be read back and its content has that hash;
  storing never loses what could be read; removing loses one hash only.
\<close>

locale blob_store =
  fixes hash_of :: "'b \<Rightarrow> 'h"
    and put_op :: "'io \<Rightarrow> 'b \<Rightarrow> 's \<Rightarrow> 'h option \<times> 's"
    and get_op :: "'s \<Rightarrow> 'h \<Rightarrow> 'b option"
    and remove_op :: "'r \<Rightarrow> 's \<Rightarrow> 'h \<Rightarrow> 's"
  assumes get_hash: "get_op s h = Some b \<Longrightarrow> hash_of b = h"
    and put_hash: "put_op i b s = (Some h, s') \<Longrightarrow> h = hash_of b"
    and put_get: "put_op i b s = (Some h, s') \<Longrightarrow> get_op s' h \<noteq> None"
    and put_keeps: "put_op i b s = (r, s') \<Longrightarrow> get_op s h = Some c \<Longrightarrow> get_op s' h = Some c"
    and remove_frame: "h' \<noteq> h \<Longrightarrow> get_op (remove_op m s h) h' = get_op s h'"
begin

text \<open>A client's calls: store a content, or remove a hash.\<close>

definition call :: "'s \<Rightarrow> ('io \<times> 'b) + ('r \<times> 'h) \<Rightarrow> 's \<times> 'h option" where
  "call s c = (case c of
     Inl (i, b) \<Rightarrow> (case put_op i b s of (r, s') \<Rightarrow> (s', r))
   | Inr (m, h) \<Rightarrow> (remove_op m s h, None))"

lemma call_keeps:
  "get_op s h = Some b \<Longrightarrow> \<forall>m. c \<noteq> Inr (m, h) \<Longrightarrow> get_op (fst (call s c)) h = Some b"
  by (auto simp: call_def remove_frame split: sum.splits prod.splits dest: put_keeps)

lemma calls_keep:
  "get_op s h = Some b \<Longrightarrow> \<forall>c \<in> set cs. \<forall>m. c \<noteq> Inr (m, h)
    \<Longrightarrow> get_op (foldl (\<lambda>s c. fst (call s c)) s cs) h = Some b"
  by (induction cs arbitrary: s) (auto intro: call_keeps)

lemma stored_stays:
  assumes "snd (call (foldl (\<lambda>s c. fst (call s c)) s before) (Inl (i, b))) = Some h"
    and "\<forall>c \<in> set after. \<forall>m. c \<noteq> Inr (m, h)"
  shows "\<exists>b'. get_op (foldl (\<lambda>s c. fst (call s c)) s (before @ Inl (i, b) # after)) h = Some b'
    \<and> hash_of b' = h \<and> hash_of b = h"
proof -
  let ?s = "foldl (\<lambda>s c. fst (call s c)) s before"
  obtain s' where p: "put_op i b ?s = (Some h, s')"
    using assms(1) by (auto simp: call_def split: prod.splits)
  then obtain b' where b': "get_op s' h = Some b'" using put_get by fastforce
  with p have "get_op (foldl (\<lambda>s c. fst (call s c)) s (before @ Inl (i, b) # after)) h = Some b'"
    using calls_keep[OF b' assms(2)] by (simp add: call_def)
  then show ?thesis
    using get_hash[OF b'] put_hash[OF p] by (intro exI[of _ b']) simp
qed

end

subsection \<open>The model satisfies the contract\<close>

definition get_ok :: "(string \<Rightarrow> string) \<Rightarrow> store \<Rightarrow> hash \<Rightarrow> string option" where
  "get_ok sha s h = (case get sha s h of Inr b \<Rightarrow> Some b | Inl _ \<Rightarrow> None)"

text \<open>The file system outcomes of one call of \<open>put\<close>: write, time update, clock.\<close>

type_synonym put_env = "io \<times> bool \<times> nat"

definition put_call :: "(string \<Rightarrow> string) \<Rightarrow> put_env \<Rightarrow> string \<Rightarrow> store \<Rightarrow> hash option \<times> store" where
  "put_call sha env bs s = (case env of (io, touch, now) \<Rightarrow> put sha io touch now bs s)"

definition remove_call :: "bool \<Rightarrow> store \<Rightarrow> hash \<Rightarrow> store" where
  "remove_call ok s h = snd (remove_blob ok s h)"

lemma get_ok_Some:
  "get_ok sha s h = Some b \<longleftrightarrow>
     (\<exists>p. object_path h = Some p \<and> read_object (map_of s p) = Some b \<and> hash_bytes sha b = h)"
  by (auto simp: get_ok_def get_def split: option.splits)

lemma put_result_cases:
  assumes "put_result sha io touch now bs s = (r, s')"
  obtains (refused) "s' = s" "\<forall>h d n. r \<noteq> Stored h d n"
  | (dedup) p old where "object_path (hash_bytes sha bs) = Some p" "read_object (map_of s p) = Some old"
      "hash_bytes sha old = hash_bytes sha bs" "r = Stored (hash_bytes sha bs) True (length old)"
      "s' = (if touch then AList.update p (Regular old now) s else s)"
  | (fresh) p where "object_path (hash_bytes sha bs) = Some p"
      "\<forall>old. read_object (map_of s p) = Some old \<longrightarrow> hash_bytes sha old \<noteq> hash_bytes sha bs"
      "r = Stored (hash_bytes sha bs) False 0" "s' = AList.update p (Regular bs now) s"
proof (cases "length bs > MAX_SNAPSHOT_BYTES \<or> object_path (hash_bytes sha bs) = None")
  case True
  with assms have "s' = s" "\<forall>h d n. r \<noteq> Stored h d n"
    by (cases "length bs > MAX_SNAPSHOT_BYTES"; auto simp: put_result_def Let_def)+
  then show ?thesis by (rule that(1))
next
  case False
  then obtain p where p: "object_path (hash_bytes sha bs) = Some p" by auto
  let ?clean = "\<exists>old. read_object (map_of s p) = Some old \<and> hash_bytes sha old = hash_bytes sha bs"
  have e: "put_result sha io touch now bs s =
     (case read_object (map_of s p) of
        Some old \<Rightarrow> if hash_bytes sha old = hash_bytes sha bs
          then (Stored (hash_bytes sha bs) True (length old),
                if touch then AList.update p (Regular old now) s else s)
          else (case io of IoOk \<Rightarrow> (Stored (hash_bytes sha bs) False 0, AList.update p (Regular bs now) s)
                | IoFail e \<Rightarrow> (IoError e, s))
      | None \<Rightarrow> (case io of IoOk \<Rightarrow> (Stored (hash_bytes sha bs) False 0, AList.update p (Regular bs now) s)
                | IoFail e \<Rightarrow> (IoError e, s)))"
    using False p by (simp add: put_result_def Let_def)
  show ?thesis
  proof (cases ?clean)
    case True
    then obtain old where "read_object (map_of s p) = Some old" "hash_bytes sha old = hash_bytes sha bs"
      by blast
    with e assms p that(2)[of p old] show ?thesis by simp
  next
    case dirty: False
    then have d: "put_result sha io touch now bs s =
       (case io of IoOk \<Rightarrow> (Stored (hash_bytes sha bs) False 0, AList.update p (Regular bs now) s)
        | IoFail e \<Rightarrow> (IoError e, s))"
      unfolding e by (cases "read_object (map_of s p)") simp_all
    show ?thesis
    proof (cases io)
      case IoOk
      with d assms p dirty that(3)[of p] show ?thesis by simp
    next
      case (IoFail e)
      with d assms have "s' = s" "\<forall>h d n. r \<noteq> Stored h d n" by auto
      then show ?thesis by (rule that(1))
    qed
  qed
qed

lemma put_call_Some:
  "put_call sha (io, touch, now) bs s = (Some h, s') \<longleftrightarrow>
     (\<exists>d n. put_result sha io touch now bs s = (Stored h d n, s'))"
  by (auto simp: put_call_def put_def split: prod.splits put_outcome.splits)

lemma put_call_state:
  "snd (put_call sha (io, touch, now) bs s) = snd (put_result sha io touch now bs s)"
  by (auto simp: put_call_def put_def split: prod.splits put_outcome.splits)

lemma read_update:
  "read_object (map_of (AList.update p (Regular b t) s) q) =
     (if q = p then Some b else read_object (map_of s q))"
  by (simp add: update_conv')

lemma put_gets:
  assumes "put_result sha io touch now bs s = (Stored h d n, s')"
  shows "h = hash_bytes sha bs \<and> get_ok sha s' h \<noteq> None"
  using assms
proof (cases rule: put_result_cases)
  case refused
  then show ?thesis by blast
next
  case (dedup p old)
  then have "get_ok sha s' h = Some old"
    by (auto simp: get_ok_Some read_update)
  with dedup show ?thesis by simp
next
  case (fresh p)
  then have "get_ok sha s' h = Some bs"
    by (auto simp: get_ok_Some read_update)
  with fresh show ?thesis by simp
qed

lemma put_result_keeps:
  assumes "put_result sha io touch now bs s = (r, s')" and "get_ok sha s h = Some c"
  shows "get_ok sha s' h = Some c"
proof -
  obtain q where q: "object_path h = Some q" "read_object (map_of s q) = Some c" "hash_bytes sha c = h"
    using assms(2) by (auto simp: get_ok_Some)
  from assms(1) show ?thesis
  proof (cases rule: put_result_cases)
    case refused
    with assms(2) show ?thesis by simp
  next
    case (dedup p old)
    with q show ?thesis by (auto simp: get_ok_Some read_update)
  next
    case (fresh p)
    have "q \<noteq> p"
      using fresh(1,2) q object_path_inj by metis
    with fresh q show ?thesis by (auto simp: get_ok_Some read_update)
  qed
qed

lemma remove_get: "h' \<noteq> h \<Longrightarrow> get_ok sha (remove_call ok s h) h' = get_ok sha s h'"
  by (cases "object_path h'")
    (auto simp: get_ok_def get_def remove_call_def remove_blob_def delete_conv'
      split: option.splits dest: object_path_neq)

interpretation blobs: blob_store "hash_bytes sha" "put_call sha" "get_ok sha" remove_call
proof
  fix s h b assume "get_ok sha s h = Some b"
  then show "hash_bytes sha b = h" by (auto simp: get_ok_Some)
next
  fix i b s h s' assume "put_call sha i b s = (Some h, s')"
  then show "h = hash_bytes sha b"
    by (cases i) (auto simp: put_call_Some dest: put_gets)
next
  fix i b s h s' assume "put_call sha i b s = (Some h, s')"
  then show "get_ok sha s' h \<noteq> None"
    by (cases i) (auto simp: put_call_Some dest: put_gets)
next
  fix i b s r s' h c assume "put_call sha i b s = (r, s')" "get_ok sha s h = Some c"
  then show "get_ok sha s' h = Some c"
    using put_result_keeps by (cases i) (metis put_call_state snd_conv surj_pair)
next
  fix h' h m s assume "(h' :: hash) \<noteq> h"
  then show "get_ok sha (remove_call m s h) h' = get_ok sha s h'" by (rule remove_get)
qed

subsection \<open>Properties\<close>

text \<open>The state after a sequence of stores (\<open>Inl\<close>) and removals (\<open>Inr\<close>).\<close>

definition store_call :: "(string \<Rightarrow> string) \<Rightarrow> store \<Rightarrow> (put_env \<times> string) + (bool \<times> hash) \<Rightarrow> store" where
  "store_call sha s c = (case c of Inl (i, b) \<Rightarrow> snd (put_call sha i b s) | Inr (m, h) \<Rightarrow> remove_call m s h)"

lemma store_call_eq: "store_call sha s c = fst (blobs.call sha s c)"
  by (auto simp: store_call_def blobs.call_def split: sum.splits prod.splits)

text \<open>
  C15: retrievability. Once a store call reported a hash, that hash is the hash of the content
  handed in, and after any later calls that do not remove it (other stores, failed writes,
  time updates, removals of other hashes) it still reads back content with that hash.
\<close>

theorem stored_blob_stays_readable:
  assumes "fst (put_call sha env bs (foldl (store_call sha) s before)) = Some h"
    and "\<forall>c \<in> set after. \<forall>ok. c \<noteq> Inr (ok, h)"
  shows "\<exists>bs'. get sha (foldl (store_call sha) s (before @ Inl (env, bs) # after)) h = Inr bs'
    \<and> hash_bytes sha bs' = h \<and> hash_bytes sha bs = h"
proof -
  have f: "store_call sha = (\<lambda>s c. fst (blobs.call sha s c))"
    by (intro ext) (rule store_call_eq)
  have "snd (blobs.call sha (foldl (store_call sha) s before) (Inl (env, bs))) = Some h"
    using assms(1) by (simp add: blobs.call_def split_beta)
  from blobs.stored_stays[OF this[unfolded f] assms(2)]
  show ?thesis unfolding f[symmetric] by (auto simp: get_ok_def split: sum.splits)
qed

definition zero_sha :: "string \<Rightarrow> string" where
  "zero_sha bs = replicate 32 CHR 0x00"

definition zero_hash :: hash where
  "zero_hash = ''sha256:'' @ replicate 64 CHR ''0''"

lemma concat_replicate_pairs: "concat (replicate n [c, c]) = replicate (2 * n) c"
  by (induction n) simp_all

lemma zero_hash_eq: "hash_bytes zero_sha bs = zero_hash"
proof -
  have "hex_byte (CHR 0x00) = [CHR ''0'', CHR ''0'']" by (simp add: hex_byte_def)
  then have "concat (map hex_byte (zero_sha bs)) = replicate (2 * 32) CHR ''0''"
    by (simp only: zero_sha_def map_replicate concat_replicate_pairs)
  then show ?thesis by (simp only: hash_bytes_def zero_hash_def) simp
qed

lemma zero_hash_path: "object_path zero_hash = Some (''00'', replicate 62 CHR ''0'')"
  by (simp add: object_path_Some zero_hash_def is_hex_def list_all_iff numeral_eq_Suc)

theorem stored_blob_stays_readable_witness:
  "\<exists>bs'. get zero_sha (foldl (store_call zero_sha) []
       [Inl ((IoOk, True, 5), ''abc''), Inl ((IoFail ''disk full'', True, 6), ''abcd''), Inr (True, ''other'')])
     zero_hash = Inr bs'"
proof -
  have "fst (put_call zero_sha (IoOk, True, 5) ''abc'' (foldl (store_call zero_sha) [] [])) = Some zero_hash"
    by (simp add: put_call_def put_def put_result_def zero_hash_eq zero_hash_path MAX_SNAPSHOT_BYTES_def)
  moreover have "''other'' \<noteq> zero_hash"
    by (simp add: zero_hash_def)
  then have "\<forall>c \<in> set [Inl ((IoFail ''disk full'', True, 6), ''abcd''), Inr (True, ''other'')].
      \<forall>ok. c \<noteq> Inr (ok, zero_hash)"
    by (simp only: list.set ball_simps) simp
  ultimately have "\<exists>bs'. get zero_sha (foldl (store_call zero_sha) []
       ([] @ Inl ((IoOk, True, 5), ''abc'') # [Inl ((IoFail ''disk full'', True, 6), ''abcd''), Inr (True, ''other'')]))
       zero_hash = Inr bs' \<and> hash_bytes zero_sha bs' = zero_hash \<and> hash_bytes zero_sha ''abc'' = zero_hash"
    by (rule stored_blob_stays_readable)
  then show ?thesis by (elim exE conjE) (rule exI, simp only: append.simps)
qed

text \<open>
  The store on every branch of a write. Over the cap nothing changes; a clean duplicate
  reports the length it verified and changes at most the time; a corrupt or non-regular object
  in the way is replaced by the new content exactly when the write succeeds.
\<close>

theorem put_result_spec:
  assumes "object_path (hash_bytes sha bs) = Some p"
  shows "put_result sha io touch now bs s =
     (if length bs > MAX_SNAPSHOT_BYTES then (OverCap, s)
      else case get_ok sha s (hash_bytes sha bs) of
        Some old \<Rightarrow> (Stored (hash_bytes sha bs) True (length old),
                    if touch then AList.update p (Regular old now) s else s)
      | None \<Rightarrow> (case io of
                  IoOk \<Rightarrow> (Stored (hash_bytes sha bs) False 0, AList.update p (Regular bs now) s)
                | IoFail e \<Rightarrow> (IoError e, s)))"
  using assms by (auto simp: put_result_def get_ok_def get_def split: option.splits)

theorem put_result_spec_witness:
  "put_result zero_sha IoOk True 9 ''abc'' [((''00'', replicate 62 CHR ''0''), Special 0 1)]
     = (Stored zero_hash False 0, [((''00'', replicate 62 CHR ''0''), Regular ''abc'' 9)])"
  by (subst put_result_spec[where p = "(''00'', replicate 62 CHR ''0'')"])
    (simp_all add: zero_hash_eq zero_hash_path get_ok_def get_def MAX_SNAPSHOT_BYTES_def)

end
