(* ===== verification/Retention.thy ===== *)
theory Retention
  imports Records Store
begin

text \<open>
  Budget eviction (agentrec-core/src/retention.rs): the planning walk over the turn log, the
  execution of a plan against the store, and the accounting of managed bytes. Hash sets whose
  order is not observed are sets; the candidate set, which is iterated, is a list without
  repetitions in insertion order (the order of a \<open>HashSet\<close> is unspecified). Sizes are sums of
  file sizes and stay far below the 64-bit bound.
\<close>

record evicted =
  ev_count :: nat
  ev_bytes :: nat
  ev_protected_bytes :: nat

record eviction_plan =
  pl_victims :: "(hash \<times> nat) list"
  pl_protected_bytes :: nat
  pl_freed_projected :: nat
  pl_pass_start :: nat

definition opt_list :: "'a option \<Rightarrow> 'a list" where
  "opt_list x = (case x of None \<Rightarrow> [] | Some y \<Rightarrow> [y])"

definition turn_snapshot_hashes :: "turn_record \<Rightarrow> hash list" where
  "turn_snapshot_hashes t =
     dedup (concat (map (\<lambda>f. opt_list (fe_before f) @ opt_list (fe_after f)) (tr_files t)))"

definition size_or_0 :: "store \<Rightarrow> hash \<Rightarrow> nat" where
  "size_or_0 s h = (case blob_size s h of None \<Rightarrow> 0 | Some n \<Rightarrow> n)"

subsection \<open>The planning walk\<close>

record plan_walk =
  pw_keep :: "hash set"
  pw_running :: nat
  pw_boundary :: bool
  pw_candidates :: "hash list"

definition start_walk :: plan_walk where
  "start_walk = \<lparr>pw_keep = {}, pw_running = 0, pw_boundary = False, pw_candidates = []\<rparr>"

definition add_candidates :: "plan_walk \<Rightarrow> hash list \<Rightarrow> plan_walk" where
  "add_candidates w hs =
     w\<lparr>pw_candidates := dedup (pw_candidates w @ filter (\<lambda>h. h \<notin> pw_keep w) hs)\<rparr>"

text \<open>One turn of the newest-first walk; \<open>n\<close> is the number of turns, \<open>i\<close> the index of this one.\<close>

definition plan_step :: "store \<Rightarrow> nat \<Rightarrow> nat \<Rightarrow> plan_walk \<Rightarrow> nat \<times> turn_record \<Rightarrow> plan_walk" where
  "plan_step s budget n w it = (case it of (i, turn) \<Rightarrow>
     let hashes = turn_snapshot_hashes turn in
     if \<not> pw_boundary w then
       let new_hashes = filter (\<lambda>h. h \<notin> pw_keep w) hashes;
           new_bytes = sum_list (map (size_or_0 s) new_hashes);
           protect_newest = (i = 0 \<and> n > 1)
       in if pw_running w + new_bytes > budget \<and> \<not> protect_newest
          then add_candidates (w\<lparr>pw_boundary := True\<rparr>) hashes
          else w\<lparr>pw_running := pw_running w + new_bytes, pw_keep := pw_keep w \<union> set new_hashes\<rparr>
     else add_candidates w hashes)"

definition walk_turns :: "store \<Rightarrow> nat \<Rightarrow> turn_record list \<Rightarrow> plan_walk" where
  "walk_turns s budget entries =
     foldl (plan_step s budget (length entries)) start_walk (enumerate 0 (rev entries))"

definition protected_prompts :: "turn_record list \<Rightarrow> hash set" where
  "protected_prompts entries = set (List.map_filter tr_prompt_ref entries)"

definition is_victim :: "store \<Rightarrow> turn_record list \<Rightarrow> plan_walk \<Rightarrow> nat \<Rightarrow> hash \<Rightarrow> bool" where
  "is_victim s entries w pass_start h \<longleftrightarrow>
     h \<notin> pw_keep w \<and> h \<notin> protected_prompts entries \<and>
     \<not> (case blob_mtime s h of Some m \<Rightarrow> m > pass_start | None \<Rightarrow> False)"

definition plan_eviction :: "store \<Rightarrow> nat \<Rightarrow> turn_record list \<Rightarrow> nat \<Rightarrow> hash set \<Rightarrow> eviction_plan" where
  "plan_eviction s pass_start entries budget extra_protected =
     (let w = walk_turns s budget entries;
          (spared, rest) = partition (\<lambda>h. h \<in> extra_protected) (pw_candidates w);
          victims = map (\<lambda>h. (h, size_or_0 s h)) (filter (is_victim s entries w pass_start) rest)
      in \<lparr>pl_victims = victims,
          pl_protected_bytes = sum_list (map (size_or_0 s) spared),
          pl_freed_projected = sum_list (map snd victims),
          pl_pass_start = pass_start\<rparr>)"

subsection \<open>Executing a plan\<close>

text \<open>\<open>rm_ok h\<close> is whether deleting the file of \<open>h\<close> succeeds.\<close>

definition execute_step :: "(hash \<Rightarrow> bool) \<Rightarrow> nat \<Rightarrow> evicted \<times> store \<Rightarrow> hash \<times> nat \<Rightarrow> evicted \<times> store" where
  "execute_step rm_ok pass_start acc v = (case (acc, v) of ((e, s), (h, _)) \<Rightarrow>
     if (case blob_mtime s h of Some m \<Rightarrow> m > pass_start | None \<Rightarrow> False) then (e, s)
     else case remove_blob (rm_ok h) s h of
       (Some n, s') \<Rightarrow> (e\<lparr>ev_count := ev_count e + 1, ev_bytes := ev_bytes e + n\<rparr>, s')
     | (None, s') \<Rightarrow> (e, s'))"

definition execute_plan :: "(hash \<Rightarrow> bool) \<Rightarrow> store \<Rightarrow> eviction_plan \<Rightarrow> evicted \<times> store" where
  "execute_plan rm_ok s plan =
     foldl (execute_step rm_ok (pl_pass_start plan))
       (\<lparr>ev_count = 0, ev_bytes = 0, ev_protected_bytes = pl_protected_bytes plan\<rparr>, s) (pl_victims plan)"

definition enforce_budget ::
  "(hash \<Rightarrow> bool) \<Rightarrow> store \<Rightarrow> nat \<Rightarrow> turn_record list \<Rightarrow> nat \<Rightarrow> hash set \<Rightarrow> evicted \<times> store" where
  "enforce_budget rm_ok s now entries budget extra_protected =
     execute_plan rm_ok s (plan_eviction s now entries budget extra_protected)"

subsection \<open>Accounting\<close>

definition managed_step :: "store \<Rightarrow> hash set \<times> nat \<Rightarrow> hash \<Rightarrow> hash set \<times> nat" where
  "managed_step s acc h = (case acc of (seen, sofar) \<Rightarrow>
     if h \<in> seen then acc else (insert h seen, sofar + size_or_0 s h))"

definition managed_bytes :: "store \<Rightarrow> turn_record list \<Rightarrow> nat" where
  "managed_bytes s entries =
     snd (foldl (managed_step s) ({}, 0) (concat (map turn_snapshot_hashes entries)))"

end
