(* ===== verification/Retention_Props.thy ===== *)
theory Retention_Props
  imports Retention Store_Props Records_Props
begin

text \<open>
  Correctness of budget eviction: the walk computes the longest run of newest turns that fits
  the budget, no blob outside the plan is touched, protected blobs are never in the plan, and
  a pass that may delete brings the managed bytes within the budget.
\<close>

subsection \<open>Managed bytes as a sum over a set\<close>

definition hashes_of :: "turn_record list \<Rightarrow> hash set" where
  "hashes_of ts = \<Union> (set ` turn_snapshot_hashes ` set ts)"

definition bytes_of :: "store \<Rightarrow> hash set \<Rightarrow> nat" where
  "bytes_of s H = sum (size_or_0 s) H"

lemma finite_hashes_of [simp]: "finite (hashes_of ts)"
  by (simp add: hashes_of_def)

lemma hashes_of_simps [simp]:
  "hashes_of [] = {}"
  "hashes_of (t # ts) = set (turn_snapshot_hashes t) \<union> hashes_of ts"
  "hashes_of (ts @ us) = hashes_of ts \<union> hashes_of us"
  "hashes_of (rev ts) = hashes_of ts"
  by (auto simp: hashes_of_def)

lemma distinct_snapshot_hashes [simp]: "distinct (turn_snapshot_hashes t)"
  by (simp add: turn_snapshot_hashes_def)

lemma managed_fold:
  "finite seen \<Longrightarrow> acc = bytes_of s seen \<Longrightarrow>
     foldl (managed_step s) (seen, acc) hs = (seen \<union> set hs, bytes_of s (seen \<union> set hs))"
proof (induction hs arbitrary: seen acc)
  case (Cons h hs)
  have "bytes_of s (insert h seen) = acc + size_or_0 s h" if "h \<notin> seen"
    using that Cons.prems by (simp add: bytes_of_def)
  moreover have "managed_step s (seen, acc) h = (if h \<in> seen then (seen, acc) else (insert h seen, acc + size_or_0 s h))"
    by (simp add: managed_step_def)
  ultimately show ?case
    using Cons.IH[of seen acc] Cons.IH[of "insert h seen" "acc + size_or_0 s h"] Cons.prems
    by (cases "h \<in> seen") (simp_all add: insert_absorb)
qed simp

lemma managed_bytes_sum: "managed_bytes s ts = bytes_of s (hashes_of ts)"
proof -
  have "set (concat (map turn_snapshot_hashes ts)) = hashes_of ts"
    by (auto simp: hashes_of_def)
  then show ?thesis
    using managed_fold[of "{}" 0 s "concat (map turn_snapshot_hashes ts)"]
    by (simp add: managed_bytes_def bytes_of_def)
qed

lemma managed_bytes_rev [simp]: "managed_bytes s (rev ts) = managed_bytes s ts"
  by (simp add: managed_bytes_sum)

lemma bytes_of_mono: "finite B \<Longrightarrow> A \<subseteq> B \<Longrightarrow> bytes_of s A \<le> bytes_of s B"
  by (simp add: bytes_of_def sum_mono2)

lemma new_bytes_sum:
  assumes "distinct hs" "finite K"
  shows "bytes_of s K + sum_list (map (size_or_0 s) (filter (\<lambda>h. h \<notin> K) hs)) = bytes_of s (K \<union> set hs)"
proof -
  have "sum_list (map (size_or_0 s) (filter (\<lambda>h. h \<notin> K) hs)) = bytes_of s (set hs - K)"
    using assms(1) by (simp add: sum_list_distinct_conv_sum_set bytes_of_def set_diff_eq)
  moreover have "bytes_of s (K \<union> (set hs - K)) = bytes_of s K + bytes_of s (set hs - K)"
    unfolding bytes_of_def by (rule sum.union_disjoint) (use assms(2) in auto)
  ultimately show ?thesis by (simp add: Un_Diff_cancel)
qed

subsection \<open>What the walk computes\<close>

text \<open>
  The number of newest turns that are kept: the turns are taken newest first while the bytes
  of all blobs they reference together fit; the newest is always taken when it is not alone.
\<close>

definition fits :: "store \<Rightarrow> nat \<Rightarrow> nat \<Rightarrow> turn_record list \<Rightarrow> nat \<Rightarrow> bool" where
  "fits s budget n ts k \<longleftrightarrow> managed_bytes s (take (Suc k) ts) \<le> budget \<or> (k = 0 \<and> n > 1)"

definition kept_turns :: "store \<Rightarrow> nat \<Rightarrow> turn_record list \<Rightarrow> nat" where
  "kept_turns s budget entries =
     length (takeWhile (fits s budget (length entries) (rev entries)) [0 ..< length entries])"

definition walk_ok :: "store \<Rightarrow> nat \<Rightarrow> nat \<Rightarrow> turn_record list \<Rightarrow> nat \<Rightarrow> plan_walk \<Rightarrow> bool" where
  "walk_ok s budget n ts m w \<longleftrightarrow>
     (let k = length (takeWhile (fits s budget n ts) [0 ..< m]) in
       pw_keep w = hashes_of (take k ts)
       \<and> pw_running w = managed_bytes s (take k ts)
       \<and> (pw_boundary w \<longleftrightarrow> k < m)
       \<and> set (pw_candidates w) = hashes_of (drop k (take m ts)) - hashes_of (take k ts)
       \<and> distinct (pw_candidates w))"

lemma takeWhile_upt_Suc:
  "length (takeWhile P [0 ..< Suc m]) =
     (let k = length (takeWhile P [0 ..< m]) in if k = m \<and> P m then Suc m else k)"
proof (cases "\<forall>x \<in> set [0 ..< m]. P x")
  case True
  then have "takeWhile P [0 ..< m] = [0 ..< m]" by (simp add: takeWhile_eq_all_conv)
  then have "length (takeWhile P [0 ..< m]) = m" by (simp only: length_upt)
  moreover have "takeWhile P [0 ..< Suc m] = [0 ..< m] @ takeWhile P [m]"
    using True by (simp add: takeWhile_append)
  ultimately show ?thesis by (simp add: Let_def del: upt_Suc)
next
  case False
  then have "takeWhile P [0 ..< Suc m] = takeWhile P [0 ..< m]"
    unfolding upt_Suc_append[OF le0] takeWhile_append by (simp only: if_False)
  moreover have ne: "length (takeWhile P [0 ..< m]) \<noteq> m"
  proof
    assume "length (takeWhile P [0 ..< m]) = m"
    then have "takeWhile P [0 ..< m] = [0 ..< m]"
      by (metis diff_zero length_upt takeWhile_eq_take take_all order_refl)
    with False show False by (simp add: takeWhile_eq_all_conv)
  qed
  ultimately show ?thesis by (simp add: Let_def del: upt_Suc)
qed

lemma add_candidates_simps [simp]:
  "pw_keep (add_candidates w hs) = pw_keep w"
  "pw_running (add_candidates w hs) = pw_running w"
  "pw_boundary (add_candidates w hs) = pw_boundary w"
  "set (pw_candidates (add_candidates w hs)) = set (pw_candidates w) \<union> (set hs - pw_keep w)"
  "distinct (pw_candidates (add_candidates w hs))"
  by (auto simp: add_candidates_def)

lemma walk_step:
  assumes "walk_ok s budget n ts m w" and "m < length ts"
  shows "walk_ok s budget n ts (Suc m) (plan_step s budget n w (m, ts ! m))"
proof -
  let ?k = "length (takeWhile (fits s budget n ts) [0 ..< m])"
  let ?hs = "turn_snapshot_hashes (ts ! m)"
  have km: "?k \<le> m" using length_takeWhile_le[of "fits s budget n ts" "[0 ..< m]"] by simp
  have tk: "take (Suc m) ts = take m ts @ [ts ! m]"
    using assms(2) by (rule take_Suc_conv_app_nth)
  have w: "pw_keep w = hashes_of (take ?k ts)" "pw_running w = managed_bytes s (take ?k ts)"
    "pw_boundary w \<longleftrightarrow> ?k < m" "distinct (pw_candidates w)"
    "set (pw_candidates w) = hashes_of (drop ?k (take m ts)) - hashes_of (take ?k ts)"
    using assms(1) by (simp_all add: walk_ok_def Let_def)
  show ?thesis
  proof (cases "?k = m")
    case True
    have sum: "pw_running w + sum_list (map (size_or_0 s) (filter (\<lambda>h. h \<notin> pw_keep w) ?hs))
        = managed_bytes s (take (Suc m) ts)"
      using new_bytes_sum[of ?hs "hashes_of (take m ts)" s] w True
      by (simp add: managed_bytes_sum tk)
    have cand: "pw_candidates w = []" using w(5) True by simp
    show ?thesis
    proof (cases "fits s budget n ts m")
      case fit: True
      then have "plan_step s budget n w (m, ts ! m) =
         w\<lparr>pw_running := managed_bytes s (take (Suc m) ts),
           pw_keep := pw_keep w \<union> set (filter (\<lambda>h. h \<notin> pw_keep w) ?hs)\<rparr>"
        using w(3) True by (auto simp: plan_step_def Let_def sum fits_def)
      moreover have "pw_keep w \<union> set (filter (\<lambda>h. h \<notin> pw_keep w) ?hs) = hashes_of (take (Suc m) ts)"
        using w(1) True by (auto simp: tk)
      moreover have "length (takeWhile (fits s budget n ts) [0 ..< Suc m]) = Suc m"
        using True fit by (simp add: takeWhile_upt_Suc del: upt_Suc)
      ultimately show ?thesis
        using w(3) True cand by (simp add: walk_ok_def del: upt_Suc)
    next
      case over: False
      then have "plan_step s budget n w (m, ts ! m) = add_candidates (w\<lparr>pw_boundary := True\<rparr>) ?hs"
        using w(3) True by (auto simp: plan_step_def Let_def sum fits_def)
      moreover have "length (takeWhile (fits s budget n ts) [0 ..< Suc m]) = m"
        using True over by (simp add: takeWhile_upt_Suc del: upt_Suc)
      ultimately show ?thesis
        using w True cand assms(2) by (simp add: walk_ok_def tk del: upt_Suc)
    qed
  next
    case False
    with km w(3) have "plan_step s budget n w (m, ts ! m) = add_candidates w ?hs"
      by (simp add: plan_step_def Let_def)
    moreover have "length (takeWhile (fits s budget n ts) [0 ..< Suc m]) = ?k"
      using False by (simp add: takeWhile_upt_Suc Let_def del: upt_Suc)
    ultimately show ?thesis
      using w False km assms(2) by (simp add: walk_ok_def tk Un_Diff del: upt_Suc)
  qed
qed

lemma walk_prefix:
  "m \<le> length ts \<Longrightarrow>
     walk_ok s budget n ts m (foldl (plan_step s budget n) start_walk (enumerate 0 (take m ts)))"
proof (induction m)
  case 0
  show ?case
    by (simp add: walk_ok_def Let_def start_walk_def managed_bytes_sum bytes_of_def)
next
  case (Suc m)
  then have "enumerate 0 (take (Suc m) ts) = enumerate 0 (take m ts) @ [(m, ts ! m)]"
    by (simp add: take_Suc_conv_app_nth enumerate_append_eq)
  with Suc show ?case by (simp add: walk_step)
qed

lemma walk_turns_ok: "walk_ok s budget (length entries) (rev entries) (length entries) (walk_turns s budget entries)"
  using walk_prefix[of "length entries" "rev entries" s budget "length entries"]
  by (simp add: walk_turns_def)

definition newest :: "nat \<Rightarrow> 'a list \<Rightarrow> 'a list" where
  "newest k xs = take k (rev xs)"

definition older :: "nat \<Rightarrow> 'a list \<Rightarrow> 'a list" where
  "older k xs = drop k (rev xs)"

lemma walk_turns_spec:
  "pw_keep (walk_turns s budget entries) = hashes_of (newest (kept_turns s budget entries) entries)"
  "set (pw_candidates (walk_turns s budget entries)) =
     hashes_of (older (kept_turns s budget entries) entries)
     - hashes_of (newest (kept_turns s budget entries) entries)"
  "pw_boundary (walk_turns s budget entries) \<longleftrightarrow> kept_turns s budget entries < length entries"
  "distinct (pw_candidates (walk_turns s budget entries))"
  using walk_turns_ok[of s budget entries]
  by (simp_all add: walk_ok_def Let_def kept_turns_def newest_def older_def)

subsection \<open>Executing a plan\<close>

definition fresh :: "store \<Rightarrow> nat \<Rightarrow> hash \<Rightarrow> bool" where
  "fresh s t h \<longleftrightarrow> (case blob_mtime s h of Some m \<Rightarrow> m > t | None \<Rightarrow> False)"

lemma remove_object_at:
  "object_at (snd (remove_blob ok s h)) h' =
     (if h' = h \<and> ok then None else object_at s h')"
  using object_path_neq[of h' h]
  by (cases "object_path h'"; cases "object_path h")
    (auto simp: object_at_def remove_blob_def delete_conv' split: option.splits dest: object_path_inj)

lemma remove_size: "fst (remove_blob ok s h) = blob_size s h"
  by (auto simp: remove_blob_def blob_size_def object_at_def split: option.splits)

lemma execute_step_object:
  "object_at (snd (execute_step rm t (e, s) (h, z))) h' =
     (if h' = h \<and> rm h \<and> \<not> fresh s t h then None else object_at s h')"
  using remove_object_at[of "rm h" s h h']
  by (cases "fresh s t h"; cases "remove_blob (rm h) s h")
    (auto simp: execute_step_def fresh_def[symmetric] split: option.splits)

lemma execute_step_bytes:
  "ev_bytes (fst (execute_step rm t (e, s) (h, z))) =
     ev_bytes e + (if fresh s t h then 0 else size_or_0 s h)"
  using remove_size[of "rm h" s h]
  by (cases "fresh s t h"; cases "remove_blob (rm h) s h")
    (auto simp: execute_step_def fresh_def[symmetric] size_or_0_def split: option.splits)

lemma fresh_cong: "object_at s h = object_at s' h \<Longrightarrow> fresh s t h = fresh s' t h"
  by (simp add: fresh_def blob_mtime_def)

lemma size_cong: "object_at s h = object_at s' h \<Longrightarrow> size_or_0 s h = size_or_0 s' h"
  by (simp add: size_or_0_def blob_size_def)

lemma execute_changes:
  "object_at (snd (foldl (execute_step rm t) (e, s) vs)) h \<noteq> object_at s h
    \<Longrightarrow> h \<in> fst ` set vs \<and> \<not> fresh s t h"
proof (induction vs arbitrary: e s)
  case (Cons v vs)
  obtain h0 z where v: "v = (h0, z)" by (cases v)
  obtain e1 s1 where st: "execute_step rm t (e, s) (h0, z) = (e1, s1)" by fastforce
  have o: "object_at s1 h = (if h = h0 \<and> rm h0 \<and> \<not> fresh s t h0 then None else object_at s h)"
    using execute_step_object[of rm t e s h0 z h] st by simp
  show ?case
  proof (cases "object_at s1 h = object_at s h")
    case True
    with Cons.prems v st Cons.IH[of e1 s1] fresh_cong[OF True] show ?thesis by simp
  next
    case False
    with o v show ?thesis by (auto split: if_splits)
  qed
qed simp

lemma execute_all:
  "distinct hs \<Longrightarrow> \<forall>h \<in> set hs. \<not> fresh s t h \<Longrightarrow>
   foldl (execute_step (\<lambda>_. True) t) (e, s) (map (\<lambda>h. (h, z h)) hs) = (e', s') \<Longrightarrow>
     (\<forall>h. object_at s' h = (if h \<in> set hs then None else object_at s h))
     \<and> ev_bytes e' = ev_bytes e + sum_list (map (size_or_0 s) hs)"
proof (induction hs arbitrary: e s)
  case (Cons h hs)
  obtain e1 s1 where st: "execute_step (\<lambda>_. True) t (e, s) (h, z h) = (e1, s1)" by fastforce
  have o: "object_at s1 h' = (if h' = h then None else object_at s h')" for h'
    using execute_step_object[of "\<lambda>_. True" t e s h "z h" h'] st Cons.prems(2) by simp
  have b: "ev_bytes e1 = ev_bytes e + size_or_0 s h"
    using execute_step_bytes[of "\<lambda>_. True" t e s h "z h"] st Cons.prems(2) by simp
  have same: "object_at s1 h' = object_at s h'" if "h' \<in> set hs" for h'
    using o[of h'] that Cons.prems(1) by auto
  have "\<forall>h' \<in> set hs. \<not> fresh s1 t h'"
    using Cons.prems(2) fresh_cong[OF same] by simp
  moreover have "sum_list (map (size_or_0 s1) hs) = sum_list (map (size_or_0 s) hs)"
    by (intro arg_cong[of _ _ sum_list] map_cong refl size_cong[OF same])
  ultimately show ?case
    using Cons.IH[of s1 e1] Cons.prems(1,3) st o b by simp
qed simp

subsection \<open>The plan\<close>

definition candidates :: "store \<Rightarrow> nat \<Rightarrow> turn_record list \<Rightarrow> hash set" where
  "candidates s budget entries =
     (let k = kept_turns s budget entries in hashes_of (older k entries) - hashes_of (newest k entries))"

definition victim_hashes :: "store \<Rightarrow> nat \<Rightarrow> turn_record list \<Rightarrow> nat \<Rightarrow> hash set \<Rightarrow> hash list" where
  "victim_hashes s now entries budget extra =
     map fst (pl_victims (plan_eviction s now entries budget extra))"

lemma plan_victims:
  fixes s now entries budget extra
  defines "vs \<equiv> victim_hashes s now entries budget extra"
  shows "set vs = candidates s budget entries - extra - protected_prompts entries - {h. fresh s now h}"
    and "distinct vs"
    and "pl_victims (plan_eviction s now entries budget extra) = map (\<lambda>h. (h, size_or_0 s h)) vs"
    and "pl_pass_start (plan_eviction s now entries budget extra) = now"
proof -
  let ?w = "walk_turns s budget entries"
  let ?vs = "filter (is_victim s entries ?w now) (filter (\<lambda>h. h \<notin> extra) (pw_candidates ?w))"
  have p: "pl_victims (plan_eviction s now entries budget extra) = map (\<lambda>h. (h, size_or_0 s h)) ?vs"
    by (simp add: plan_eviction_def Let_def comp_def)
  then have vs: "vs = ?vs" by (simp add: vs_def victim_hashes_def comp_def)
  with p show "pl_victims (plan_eviction s now entries budget extra) = map (\<lambda>h. (h, size_or_0 s h)) vs"
    by simp
  show "distinct vs" by (simp add: vs walk_turns_spec(4))
  show "set vs = candidates s budget entries - extra - protected_prompts entries - {h. fresh s now h}"
    by (auto simp: vs is_victim_def fresh_def candidates_def Let_def walk_turns_spec)
  show "pl_pass_start (plan_eviction s now entries budget extra) = now"
    by (simp add: plan_eviction_def Let_def)
qed

subsection \<open>Properties\<close>

text \<open>
  C16: eviction safety. Whatever happens to the store between planning and execution, the only
  objects a plan's execution changes are blobs of the turns older than the kept ones, that no
  kept turn references, that the caller did not protect, that no turn uses as its prompt, and
  that were touched neither before planning (after the pass started) nor since.
\<close>

theorem eviction_is_safe:
  "{h. object_at (snd (execute_plan rm_ok s2 (plan_eviction s now entries budget extra))) h \<noteq> object_at s2 h}
     \<subseteq> hashes_of (older (kept_turns s budget entries) entries)
       - hashes_of (newest (kept_turns s budget entries) entries)
       - extra - protected_prompts entries - {h. fresh s now h} - {h. fresh s2 now h}"
proof
  let ?plan = "plan_eviction s now entries budget extra"
  fix h assume "h \<in> {h. object_at (snd (execute_plan rm_ok s2 ?plan)) h \<noteq> object_at s2 h}"
  then have "h \<in> fst ` set (pl_victims ?plan) \<and> \<not> fresh s2 now h"
    using execute_changes plan_victims(4) by (force simp: execute_plan_def victim_hashes_def)
  with plan_victims(1)[of s now entries budget extra, unfolded victim_hashes_def]
  show "h \<in> hashes_of (older (kept_turns s budget entries) entries)
       - hashes_of (newest (kept_turns s budget entries) entries)
       - extra - protected_prompts entries - {h. fresh s now h} - {h. fresh s2 now h}"
    by (auto simp: candidates_def Let_def)
qed

lemma takeWhile_upt_last:
  assumes "k = length (takeWhile P [0 ..< n])" "0 < k"
  shows "P (k - 1)"
proof -
  have "k \<le> n" using assms length_takeWhile_le[of P "[0 ..< n]"] by simp
  then have "k - 1 < n" using assms(2) by simp
  have "takeWhile P [0 ..< n] ! (k - 1) = [0 ..< n] ! (k - 1)"
    using assms by (intro takeWhile_nth) auto
  also have "\<dots> = k - 1"
    using nth_upt[of 0 "k - 1" n] \<open>k - 1 < n\<close> by simp
  finally have "takeWhile P [0 ..< n] ! (k - 1) = k - 1" .
  moreover have "takeWhile P [0 ..< n] ! (k - 1) \<in> set (takeWhile P [0 ..< n])"
    using assms by (intro nth_mem) auto
  ultimately show ?thesis by (auto dest: set_takeWhileD)
qed

lemma kept_bytes:
  "managed_bytes s (newest (kept_turns s budget entries) entries)
     \<le> max budget (managed_bytes s (newest 1 entries))"
proof (cases "kept_turns s budget entries = 0")
  case True
  then show ?thesis by (simp add: newest_def managed_bytes_def)
next
  case False
  then have "fits s budget (length entries) (rev entries) (kept_turns s budget entries - 1)"
    by (intro takeWhile_upt_last[OF kept_turns_def]) simp
  then show ?thesis
  proof (unfold fits_def, elim disjE)
    assume "kept_turns s budget entries - 1 = 0 \<and> length entries > 1"
    with False have "kept_turns s budget entries = 1" by simp
    then show ?thesis by simp
  qed (use False in \<open>simp add: newest_def\<close>)
qed

text \<open>
  The budget is enforced. When deletions succeed, the bytes reported as freed are exactly
  the decrease of the managed bytes, and what remains is at most the budget (or the newest
  turn alone, when it exceeds the budget by itself) plus the candidates the rules spare.
\<close>

theorem budget_enforced:
  "case enforce_budget (\<lambda>_. True) s now entries budget extra of (e, s') \<Rightarrow>
     managed_bytes s entries = managed_bytes s' entries + ev_bytes e
     \<and> managed_bytes s' entries \<le> max budget (managed_bytes s (newest 1 entries))
         + bytes_of s (candidates s budget entries \<inter> (extra \<union> protected_prompts entries \<union> {h. fresh s now h}))"
proof -
  let ?plan = "plan_eviction s now entries budget extra"
  let ?vs = "victim_hashes s now entries budget extra"
  let ?k = "kept_turns s budget entries"
  let ?sp = "candidates s budget entries \<inter> (extra \<union> protected_prompts entries \<union> {h. fresh s now h})"
  obtain e s' where es: "enforce_budget (\<lambda>_. True) s now entries budget extra = (e, s')" by fastforce
  have run: "foldl (execute_step (\<lambda>_. True) now)
      (\<lparr>ev_count = 0, ev_bytes = 0, ev_protected_bytes = pl_protected_bytes ?plan\<rparr>, s)
      (map (\<lambda>h. (h, size_or_0 s h)) ?vs) = (e, s')"
    using es plan_victims(3,4)[of s now entries budget extra]
    by (simp add: enforce_budget_def execute_plan_def)
  have nf: "\<forall>h \<in> set ?vs. \<not> fresh s now h" by (simp only: plan_victims(1)) simp
  from execute_all[OF plan_victims(2) nf run]
  have o: "object_at s' h = (if h \<in> set ?vs then None else object_at s h)"
    and b: "ev_bytes e = sum_list (map (size_or_0 s) ?vs)" for h by simp_all
  have sz: "size_or_0 s' h = (if h \<in> set ?vs then 0 else size_or_0 s h)" for h
    using o[of h] by (simp add: size_or_0_def blob_size_def)
  have all: "hashes_of entries = hashes_of (newest ?k entries) \<union> hashes_of (older ?k entries)"
    using hashes_of_simps(3)[of "take ?k (rev entries)" "drop ?k (rev entries)"]
    by (simp add: newest_def older_def)
  have sub: "set ?vs \<subseteq> hashes_of entries"
    unfolding plan_victims(1) all by (auto simp: candidates_def Let_def)
  have left: "managed_bytes s' entries = bytes_of s (hashes_of entries - set ?vs)"
    unfolding managed_bytes_sum bytes_of_def
    by (rule sum.mono_neutral_cong_right) (auto simp: sz)
  have freed: "ev_bytes e = bytes_of s (set ?vs)"
    unfolding b bytes_of_def by (rule sum_list_distinct_conv_sum_set) (rule plan_victims(2))
  have "managed_bytes s entries = managed_bytes s' entries + ev_bytes e"
    unfolding left freed managed_bytes_sum[of s] bytes_of_def
    by (rule sum.subset_diff[OF sub finite_hashes_of])
  moreover have "managed_bytes s' entries \<le> bytes_of s (hashes_of (newest ?k entries) \<union> ?sp)"
    unfolding left
    by (rule bytes_of_mono)
      (auto simp: candidates_def Let_def all plan_victims(1))
  moreover have "bytes_of s (hashes_of (newest ?k entries) \<union> ?sp)
      = managed_bytes s (newest ?k entries) + bytes_of s ?sp"
    unfolding managed_bytes_sum bytes_of_def
    by (rule sum.union_disjoint) (auto simp: candidates_def Let_def)
  ultimately show ?thesis
    using kept_bytes[of s budget entries] es by simp
qed

lemma kept_all_iff: "kept_turns s budget entries = length entries \<longleftrightarrow> managed_bytes s entries \<le> budget"
proof
  assume k: "kept_turns s budget entries = length entries"
  show "managed_bytes s entries \<le> budget"
  proof (cases "entries = []")
    case True
    then show ?thesis by (simp add: managed_bytes_def)
  next
    case False
    with k have "fits s budget (length entries) (rev entries) (length entries - 1)"
      using takeWhile_upt_last[of "length entries" "fits s budget (length entries) (rev entries)" "length entries"]
      by (simp add: kept_turns_def)
    moreover have "take (Suc (length entries - 1)) (rev entries) = rev entries"
      using False by (intro take_all) (cases entries, auto)
    ultimately show ?thesis using False by (auto simp: fits_def)
  qed
next
  assume b: "managed_bytes s entries \<le> budget"
  have "fits s budget (length entries) (rev entries) k" for k
  proof -
    have "hashes_of (take (Suc k) (rev entries)) \<subseteq> hashes_of entries"
      using set_take_subset[of "Suc k" "rev entries"] by (fastforce simp: hashes_of_def)
    then have "managed_bytes s (take (Suc k) (rev entries)) \<le> managed_bytes s entries"
      by (simp add: managed_bytes_sum bytes_of_mono)
    with b show ?thesis by (simp add: fits_def)
  qed
  then have "takeWhile (fits s budget (length entries) (rev entries)) [0 ..< length entries] = [0 ..< length entries]"
    unfolding takeWhile_eq_all_conv by blast
  then show "kept_turns s budget entries = length entries"
    unfolding kept_turns_def by (simp only: length_upt)
qed

text \<open>
  The budget figure and the walk agree. At or under the budget a pass changes nothing and
  reports nothing; over it the walk always reaches its boundary.
\<close>

theorem eviction_iff_over_budget:
  "if managed_bytes s entries \<le> budget
   then enforce_budget rm_ok s now entries budget extra = (\<lparr>ev_count = 0, ev_bytes = 0, ev_protected_bytes = 0\<rparr>, s)
   else pw_boundary (walk_turns s budget entries)"
proof (cases "managed_bytes s entries \<le> budget")
  case True
  then have "kept_turns s budget entries = length entries" by (simp add: kept_all_iff)
  then have "set (pw_candidates (walk_turns s budget entries)) = {}"
    by (simp add: walk_turns_spec older_def)
  then have "pw_candidates (walk_turns s budget entries) = []" by simp
  with True show ?thesis
    by (simp add: enforce_budget_def execute_plan_def plan_eviction_def Let_def)
next
  case False
  moreover have "kept_turns s budget entries \<le> length entries"
    using length_takeWhile_le[of _ "[0 ..< length entries]"] by (simp add: kept_turns_def)
  ultimately show ?thesis
    using kept_all_iff[of s budget entries] by (simp add: walk_turns_spec)
qed

text \<open>
  The comment of \<open>managed_bytes\<close> says being over budget is the same as having candidates. The
  boundary is, the candidates are not: when the newest turn alone is over the budget and the
  older ones reference no blob of their own, the boundary is reached with nothing to evict.
\<close>

lemma over_budget_without_candidates:
  fixes s entries
  defines "entries \<equiv> [plain_turn ''t_1'' [], plain_turn ''t_2'' [plain_entry ''a'' None (Some zero_hash)]]"
    and "s \<equiv> [((''00'', replicate 62 CHR ''0''), Regular ''abc'' 0)]"
  shows "2 < managed_bytes s entries \<and> pw_candidates (walk_turns s 2 entries) = []"
proof -
  have h: "turn_snapshot_hashes (plain_turn ''t_1'' []) = []"
    "turn_snapshot_hashes (plain_turn ''t_2'' [plain_entry ''a'' None (Some zero_hash)]) = [zero_hash]"
    by (simp_all add: turn_snapshot_hashes_def plain_turn_def plain_entry_def opt_list_def dedup_def)
  have z: "size_or_0 s zero_hash = 3"
    by (simp add: s_def size_or_0_def blob_size_def object_at_def zero_hash_path)
  have "managed_bytes s entries = 3"
    by (simp add: managed_bytes_sum bytes_of_def entries_def h z)
  moreover have "pw_candidates (walk_turns s 2 entries) = []"
    by (simp add: walk_turns_def entries_def plan_step_def start_walk_def h z Let_def add_candidates_def)
  ultimately show ?thesis by simp
qed

end
