(* ===== verification/View.thy ===== *)
theory View
  imports Records Retention
begin

text \<open>
  The read-side interpretation of the ledger (agentrec-core/src/view.rs, with the binary test
  and the line filter of diff.rs): recording gaps, turn lookup, listing and diffing with
  cursors, blame. The line diff (crate similar) is a parameter; the object directory, the log
  file and the working file are arguments.
\<close>

subsection \<open>Recording gaps\<close>

datatype gap_kind = Crash | Restart | TrailingStop

record gap =
  gap_since :: string
  gap_kind :: gap_kind

record gap_walk =
  gw_gaps :: "gap list"
  gw_open :: bool
  gw_pending_stop :: "string option"

definition gap_step :: "gap_walk \<Rightarrow> log_record \<Rightarrow> gap_walk" where
  "gap_step w r = (case r of
     Turn _ \<Rightarrow> w
   | Epoch e \<Rightarrow>
       if ep_event e = ''start'' then
         \<lparr>gw_gaps = (if gw_open w then gw_gaps w @ [\<lparr>gap_since = ep_ts e, gap_kind = Crash\<rparr>]
                     else if gw_pending_stop w \<noteq> None
                          then gw_gaps w @ [\<lparr>gap_since = ep_ts e, gap_kind = Restart\<rparr>]
                     else gw_gaps w),
          gw_open = True, gw_pending_stop = None\<rparr>
       else if ep_event e = ''stop'' then
         w\<lparr>gw_open := False, gw_pending_stop := Some (ep_ts e)\<rparr>
       else w)"

definition recording_gaps :: "log_record list \<Rightarrow> gap list" where
  "recording_gaps rs =
     (let w = foldl gap_step \<lparr>gw_gaps = [], gw_open = False, gw_pending_stop = None\<rparr> rs in
      gw_gaps w @ (case gw_pending_stop w of
          None \<Rightarrow> [] | Some t \<Rightarrow> [\<lparr>gap_since = t, gap_kind = TrailingStop\<rparr>]))"

definition has_crash_gap :: "log_record list \<Rightarrow> bool" where
  "has_crash_gap rs = list_ex (\<lambda>g. gap_kind g = Crash) (recording_gaps rs)"

definition crash_gap_count :: "log_record list \<Rightarrow> nat" where
  "crash_gap_count rs = length (filter (\<lambda>g. gap_kind g = Crash) (recording_gaps rs))"

record gap_counts =
  gc_crash :: nat
  gc_restart :: nat
  gc_trailing_stop :: nat

definition gap_total :: "gap_counts \<Rightarrow> nat" where
  "gap_total c = gc_crash c + gc_restart c + gc_trailing_stop c"

definition count_gap :: "gap_counts \<Rightarrow> gap \<Rightarrow> gap_counts" where
  "count_gap c g = (case gap_kind g of
     Crash \<Rightarrow> c\<lparr>gc_crash := gc_crash c + 1\<rparr>
   | Restart \<Rightarrow> c\<lparr>gc_restart := gc_restart c + 1\<rparr>
   | TrailingStop \<Rightarrow> c\<lparr>gc_trailing_stop := gc_trailing_stop c + 1\<rparr>)"

definition count_gaps :: "log_record list \<Rightarrow> gap_counts" where
  "count_gaps rs = foldl count_gap \<lparr>gc_crash = 0, gc_restart = 0, gc_trailing_stop = 0\<rparr> (recording_gaps rs)"

definition has_gap_after :: "log_record list \<Rightarrow> string \<Rightarrow> bool" where
  "has_gap_after rs since = list_ex (\<lambda>g. gap_since g > since) (recording_gaps rs)"

subsection \<open>Turn lookup\<close>

datatype lookup_error = NoTurns | UnknownTurn | Ambiguous nat

definition same_revert :: "turn_record \<Rightarrow> turn_record \<Rightarrow> bool" where
  "same_revert a b \<longleftrightarrow>
     \<not> (tr_id a \<noteq> tr_id b \<or> length (tr_files a) \<noteq> length (tr_files b))
     \<and> list_all (\<lambda>fa. fa \<in> set (tr_files b)) (tr_files a)"

definition resolve_turn :: "turn_record list \<Rightarrow> string \<Rightarrow> lookup_error + turn_record" where
  "resolve_turn turns ref =
     (if turns = [] then Inl NoTurns
      else case filter (\<lambda>t. tr_id t = ref \<or> starts_with (tr_id t) ref) turns of
        [t] \<Rightarrow> Inr t
      | [] \<Rightarrow> Inl UnknownTurn
      | first # rest \<Rightarrow>
          if list_all (same_revert first) (first # rest) then Inr first
          else Inl (Ambiguous (length (first # rest))))"

subsection \<open>The ledger\<close>

record ledger =
  lg_records :: "log_record list"
  lg_unknown_type_lines :: nat
  lg_unparsed_lines :: nat

definition empty_ledger :: ledger where
  "empty_ledger = \<lparr>lg_records = [], lg_unknown_type_lines = 0, lg_unparsed_lines = 0\<rparr>"

definition ledger_step :: "(string \<Rightarrow> json option) \<Rightarrow> ledger \<Rightarrow> string \<Rightarrow> ledger" where
  "ledger_step from_str lg line =
     (if \<not> utf8_valid line then lg
      else case parse_log_line from_str line of
        PRecord r \<Rightarrow> lg\<lparr>lg_records := lg_records lg @ [r]\<rparr>
      | PUnknownType \<Rightarrow> lg\<lparr>lg_unknown_type_lines := lg_unknown_type_lines lg + 1\<rparr>
      | PUnparsed \<Rightarrow> lg\<lparr>lg_unparsed_lines := lg_unparsed_lines lg + 1\<rparr>
      | PBlank \<Rightarrow> lg)"

definition load_ledger :: "(string \<Rightarrow> json option) \<Rightarrow> string option \<Rightarrow> ledger" where
  "load_ledger from_str file = (case file of
     None \<Rightarrow> empty_ledger
   | Some body \<Rightarrow> foldl (ledger_step from_str) empty_ledger (lines body))"

fun turn_of :: "log_record \<Rightarrow> turn_record option" where
  "turn_of (Turn t) = Some t"
| "turn_of (Epoch _) = None"

definition ledger_turns :: "ledger \<Rightarrow> turn_record list" where
  "ledger_turns lg = List.map_filter turn_of (lg_records lg)"

record repository_health =
  rh_store_bytes :: nat
  rh_budgeted_bytes :: nat
  rh_budget :: nat
  rh_over_budget :: bool
  rh_turn_count :: nat
  rh_crash_gaps :: nat
  rh_restart_gaps :: nat
  rh_trailing_stop_gaps :: nat
  rh_unknown_type_lines :: nat
  rh_unparsed_lines :: nat

definition health_of :: "store \<Rightarrow> ledger \<Rightarrow> nat \<Rightarrow> repository_health" where
  "health_of s lg budget =
     (let turns = ledger_turns lg; bytes = managed_bytes s turns; gaps = count_gaps (lg_records lg) in
      \<lparr>rh_store_bytes = total_bytes s, rh_budgeted_bytes = bytes, rh_budget = budget,
       rh_over_budget = (bytes > budget), rh_turn_count = length turns,
       rh_crash_gaps = gc_crash gaps, rh_restart_gaps = gc_restart gaps,
       rh_trailing_stop_gaps = gc_trailing_stop gaps,
       rh_unknown_type_lines = lg_unknown_type_lines lg, rh_unparsed_lines = lg_unparsed_lines lg\<rparr>)"

subsection \<open>Cursors and pages\<close>

record cursor =
  cu_after_id :: string
  cu_after_occurrence :: nat
  cu_query :: string

datatype cursor_error = StaleCursor | QueryMismatch | ZeroLimit

record 'a page =
  pg_items :: "'a list"
  pg_next :: "cursor option"

text \<open>
  \<open>iter().enumerate().filter(..).map(|(i, _)| i).nth(n)\<close>: the index of the element number \<open>n\<close>
  among those that satisfy the predicate.
\<close>

definition nth_index :: "('a \<Rightarrow> bool) \<Rightarrow> nat \<Rightarrow> 'a list \<Rightarrow> nat option" where
  "nth_index P n xs =
     (let is = map fst (filter (\<lambda>(i, x). P x) (enumerate 0 xs)) in
      if n < length is then Some (is ! n) else None)"

definition count_before :: "('a \<Rightarrow> bool) \<Rightarrow> 'a list \<Rightarrow> nat" where
  "count_before P xs = length (filter P xs)"

record turn_query =
  tq_include_all :: bool
  tq_limit :: "nat option"
  tq_after :: "cursor option"

definition turn_fingerprint :: "turn_query \<Rightarrow> string" where
  "turn_fingerprint q = ''turns:all='' @ (if tq_include_all q then ''true'' else ''false'')"

definition superseded_ids :: "ledger \<Rightarrow> string set" where
  "superseded_ids lg = set (concat (map tr_merges (ledger_turns lg)))"

definition turn_selected :: "ledger \<Rightarrow> turn_query \<Rightarrow> turn_record \<Rightarrow> bool" where
  "turn_selected lg q t \<longleftrightarrow> tq_include_all q
     \<or> (tr_id t \<notin> superseded_ids lg \<and> tr_tool t \<noteq> Some ''git'')"

definition selected_turns :: "ledger \<Rightarrow> turn_query \<Rightarrow> (nat \<times> turn_record) list" where
  "selected_turns lg q = filter (\<lambda>(_, t). turn_selected lg q t) (enumerate 0 (ledger_turns lg))"

definition turn_start :: "ledger \<Rightarrow> turn_query \<Rightarrow> cursor_error + nat" where
  "turn_start lg q = (case tq_after q of
     None \<Rightarrow> Inr 0
   | Some c \<Rightarrow>
       if cu_query c \<noteq> turn_fingerprint q then Inl QueryMismatch
       else case nth_index (\<lambda>t. tr_id t = cu_after_id c) (cu_after_occurrence c) (ledger_turns lg) of
         None \<Rightarrow> Inl StaleCursor
       | Some ledger_idx \<Rightarrow>
           Inr (case position (\<lambda>(i, _). i > ledger_idx) (selected_turns lg q) of
                  Some p \<Rightarrow> p | None \<Rightarrow> length (selected_turns lg q)))"

text \<open>
  Cutting one page out of a selection: \<open>mk\<close> makes the cursor that sits after the element at an
  index. An end past the selection means the page reached its end.
\<close>

definition cut_page :: "nat option \<Rightarrow> nat \<Rightarrow> 'a list \<Rightarrow> (nat \<Rightarrow> cursor) \<Rightarrow> 'a page" where
  "cut_page limit start xs mk =
     (let end' = (case limit of Some n \<Rightarrow> min (start + n) (length xs) | None \<Rightarrow> length xs);
          start' = min start (length xs)
      in \<lparr>pg_items = drop start' (take end' xs),
          pg_next = (if end' < length xs \<and> start' < end' then Some (mk (end' - 1)) else None)\<rparr>)"

definition turn_cursor :: "ledger \<Rightarrow> turn_query \<Rightarrow> nat \<Rightarrow> cursor" where
  "turn_cursor lg q i = (case selected_turns lg q ! i of (ledger_idx, t) \<Rightarrow>
     \<lparr>cu_after_id = tr_id t,
      cu_after_occurrence = count_before (\<lambda>p. tr_id p = tr_id t) (take ledger_idx (ledger_turns lg)),
      cu_query = turn_fingerprint q\<rparr>)"

definition select_turns :: "ledger \<Rightarrow> turn_query \<Rightarrow> cursor_error + turn_record page" where
  "select_turns lg q = (case turn_start lg q of
     Inl e \<Rightarrow> Inl e
   | Inr start \<Rightarrow>
       if tq_limit q = Some 0 then Inl ZeroLimit
       else Inr (cut_page (tq_limit q) start (map snd (selected_turns lg q)) (turn_cursor lg q)))"

record turn_summary =
  ts_id :: string
  ts_grade :: string
  ts_tool :: "string option"
  ts_started :: string
  ts_ended :: string
  ts_file_count :: nat
  ts_imported :: bool

definition summarize :: "turn_record \<Rightarrow> turn_summary" where
  "summarize t = \<lparr>ts_id = tr_id t, ts_grade = tr_grade t, ts_tool = tr_tool t, ts_started = tr_started t,
     ts_ended = tr_ended t, ts_file_count = length (tr_files t),
     ts_imported = (case tr_imported t of Some b \<Rightarrow> b | None \<Rightarrow> False)\<rparr>"

definition list_of :: "ledger \<Rightarrow> turn_query \<Rightarrow> cursor_error + turn_summary page" where
  "list_of lg q = (case select_turns lg q of
     Inl e \<Rightarrow> Inl e
   | Inr p \<Rightarrow> Inr \<lparr>pg_items = map summarize (pg_items p), pg_next = pg_next p\<rparr>)"

definition list_records_of :: "ledger \<Rightarrow> turn_query \<Rightarrow> cursor_error + turn_record page" where
  "list_records_of lg q = select_turns lg q"

end
