(* ===== verification/Diff_Blame.thy ===== *)
theory Diff_Blame
  imports View
begin

text \<open>
  The content-level read views (agentrec-core/src/diff.rs and the second half of view.rs): the
  state of one file entry, a turn's diff with its own cursor, and blame of a file or a line.
  The line diff (crate similar) is the parameter \<open>changes\<close>: old and new text to tagged lines.
\<close>

subsection \<open>diff.rs\<close>

datatype change_tag = EqualLine | DeleteLine | InsertLine

type_synonym differ = "string \<Rightarrow> string \<Rightarrow> (change_tag \<times> string) list"

definition is_binary :: "string \<Rightarrow> bool" where
  "is_binary bs \<longleftrightarrow> CHR 0x00 \<in> set (take 8192 bs) \<or> \<not> utf8_valid bs"

definition trim_end_nl :: "string \<Rightarrow> string" where
  "trim_end_nl s = rev (dropWhile (\<lambda>c. c = NL) (rev s))"

definition added_or_changed_lines :: "differ \<Rightarrow> string \<Rightarrow> string \<Rightarrow> string list" where
  "added_or_changed_lines changes old new =
     map (\<lambda>c. trim_end_nl (snd c)) (filter (\<lambda>c. fst c = InsertLine) (changes old new))"

subsection \<open>The state of a file entry\<close>

datatype file_diff_state =
    DsWithheld
  | DsSkipped "string option"
  | DsUnresolvable bool
  | DsBinary nat nat
  | DsBaselineUnknown string
  | DsText string string string bool

record file_diff =
  fd_path :: string
  fd_state :: file_diff_state

definition load_blob :: "(string \<Rightarrow> string) \<Rightarrow> store \<Rightarrow> hash option \<Rightarrow> store_error + string" where
  "load_blob sha s h = (case h of None \<Rightarrow> Inr [] | Some x \<Rightarrow> get sha s x)"

fun is_corrupt :: "store_error \<Rightarrow> bool" where
  "is_corrupt (Corrupt _) = True"
| "is_corrupt (Missing _) = False"

definition unresolvable :: "store_error \<Rightarrow> file_diff_state" where
  "unresolvable e = DsUnresolvable (is_corrupt e)"

definition resolve_file_diff_state :: "(string \<Rightarrow> string) \<Rightarrow> store \<Rightarrow> file_entry \<Rightarrow> file_diff_state" where
  "resolve_file_diff_state sha s e =
     (if fe_withheld e then DsWithheld
      else if fe_skipped e then DsSkipped (fe_skipped_reason e)
      else case load_blob sha s (fe_before e) of
        Inl err \<Rightarrow> unresolvable err
      | Inr before \<Rightarrow>
          (case load_blob sha s (fe_after e) of
             Inl err \<Rightarrow> unresolvable err
           | Inr after \<Rightarrow>
               if is_binary before \<or> is_binary after then DsBinary (length before) (length after)
               else if fe_baseline_unknown e \<and> fe_op e = ''modify'' \<and> fe_before e = None
                    then DsBaselineUnknown after
               else DsText before after (fe_op e) (fe_after_synthesized e = Some True)))"

definition resolve_file_diff :: "(string \<Rightarrow> string) \<Rightarrow> store \<Rightarrow> file_entry \<Rightarrow> file_diff" where
  "resolve_file_diff sha s e = \<lparr>fd_path = fe_path e, fd_state = resolve_file_diff_state sha s e\<rparr>"

subsection \<open>Diff of a turn\<close>

record diff_query =
  dq_turn :: string
  dq_paths :: "string list option"
  dq_limit :: "nat option"
  dq_after :: "cursor option"

fun join :: "string \<Rightarrow> string list \<Rightarrow> string" where
  "join sep [] = []"
| "join sep [s] = s"
| "join sep (s # ss) = s @ sep @ join sep ss"

definition diff_fingerprint :: "diff_query \<Rightarrow> string" where
  "diff_fingerprint q = ''diff:turn='' @ dq_turn q @ '';paths='' @
     (case dq_paths q of None \<Rightarrow> ''*'' | Some ps \<Rightarrow> join [CHR 0x00] ps)"

record turn_range_summary =
  rs_oldest_id :: string
  rs_newest_id :: string
  rs_count :: nat

definition turn_range :: "turn_record list \<Rightarrow> turn_range_summary option" where
  "turn_range turns = (if turns = [] then None
     else Some \<lparr>rs_oldest_id = tr_id (hd turns), rs_newest_id = tr_id (last turns), rs_count = length turns\<rparr>)"

datatype diff_error = DiffLookup lookup_error "turn_range_summary option" | DiffCursor cursor_error

record diff_result =
  dr_turn_id :: string
  dr_tool :: "string option"
  dr_total_files :: nat
  dr_files :: "file_diff page"

definition selected_files :: "turn_record \<Rightarrow> diff_query \<Rightarrow> file_entry list" where
  "selected_files t q = filter (\<lambda>e. case dq_paths q of
     None \<Rightarrow> True | Some ps \<Rightarrow> list_ex (\<lambda>p. p = fe_path e) ps) (tr_files t)"

definition diff_start :: "file_entry list \<Rightarrow> diff_query \<Rightarrow> cursor_error + nat" where
  "diff_start sel q = (case dq_after q of
     None \<Rightarrow> Inr 0
   | Some c \<Rightarrow>
       if cu_query c \<noteq> diff_fingerprint q then Inl QueryMismatch
       else case nth_index (\<lambda>e. fe_path e = cu_after_id c) (cu_after_occurrence c) sel of
         None \<Rightarrow> Inl StaleCursor | Some i \<Rightarrow> Inr (i + 1))"

definition diff_cursor :: "file_entry list \<Rightarrow> diff_query \<Rightarrow> nat \<Rightarrow> cursor" where
  "diff_cursor sel q i =
     \<lparr>cu_after_id = fe_path (sel ! i),
      cu_after_occurrence = count_before (\<lambda>p. fe_path p = fe_path (sel ! i)) (take i sel),
      cu_query = diff_fingerprint q\<rparr>"

definition diff_page :: "(string \<Rightarrow> string) \<Rightarrow> store \<Rightarrow> file_entry list \<Rightarrow> diff_query
    \<Rightarrow> cursor_error + file_diff page" where
  "diff_page sha s sel q = (case diff_start sel q of
     Inl e \<Rightarrow> Inl e
   | Inr start \<Rightarrow>
       if dq_limit q = Some 0 then Inl ZeroLimit
       else let p = cut_page (dq_limit q) start sel (diff_cursor sel q)
            in Inr \<lparr>pg_items = map (resolve_file_diff sha s) (pg_items p), pg_next = pg_next p\<rparr>)"

definition diff_turn :: "(string \<Rightarrow> string) \<Rightarrow> store \<Rightarrow> ledger \<Rightarrow> diff_query \<Rightarrow> diff_error + diff_result" where
  "diff_turn sha s lg q =
     (let turns = ledger_turns lg in
      case resolve_turn turns (dq_turn q) of
        Inl err \<Rightarrow> Inl (DiffLookup err (turn_range turns))
      | Inr t \<Rightarrow>
          (case diff_page sha s (selected_files t q) q of
             Inl e \<Rightarrow> Inl (DiffCursor e)
           | Inr p \<Rightarrow> Inr \<lparr>dr_turn_id = tr_id t, dr_tool = tr_tool t,
                          dr_total_files = length (tr_files t), dr_files = p\<rparr>))"

subsection \<open>Blame\<close>

datatype blame_state =
    NoTurnRecordingGap
  | NoTurnTouches
  | BlameFile turn_record bool bool bool
  | LineRecordingGap
  | LineDeletedOrAbsent turn_record bool
  | LineAttributed turn_record
  | LineSnapshotUnavailable
  | LineOriginGap
  | LineBeforeRecording

datatype blame_error = FileNotFound | LineOutOfRange nat

definition entry_for :: "turn_record \<Rightarrow> string \<Rightarrow> file_entry option" where
  "entry_for t path = List.find (\<lambda>f. fe_path f = path) (tr_files t)"

definition modified_since :: "turn_record \<Rightarrow> string \<Rightarrow> hash option \<Rightarrow> bool" where
  "modified_since t path current \<longleftrightarrow> current \<noteq> Option.bind (entry_for t path) fe_after"

definition deleted_by :: "turn_record \<Rightarrow> string \<Rightarrow> bool" where
  "deleted_by t path \<longleftrightarrow> map_option fe_op (entry_for t path) = Some ''delete''"

definition touches :: "turn_record \<Rightarrow> string \<Rightarrow> bool" where
  "touches t path \<longleftrightarrow> list_ex (\<lambda>f. fe_path f = path) (tr_files t)"

text \<open>\<open>File\<close> carries deleted, gap\_stale and modified, in this order.\<close>

definition blame_file_state ::
  "turn_record list \<Rightarrow> log_record list \<Rightarrow> string \<Rightarrow> hash option \<Rightarrow> bool \<Rightarrow> blame_state" where
  "blame_file_state touching records path current no_turn_gap =
     (if touching = [] then (if no_turn_gap then NoTurnRecordingGap else NoTurnTouches)
      else let t = last touching; modified = modified_since t path current in
        BlameFile t (deleted_by t path) (has_gap_after records (tr_ended t) \<and> modified) modified)"

definition load_text :: "(string \<Rightarrow> string) \<Rightarrow> store \<Rightarrow> hash option \<Rightarrow> string option" where
  "load_text sha s h = (case h of
     None \<Rightarrow> Some []
   | Some x \<Rightarrow> (case get sha s x of Inr bs \<Rightarrow> Some (utf8_lossy bs) | Inl _ \<Rightarrow> None))"

text \<open>What one turn says about the line: introduced, not introduced, or not known.\<close>

definition introduces :: "differ \<Rightarrow> (string \<Rightarrow> string) \<Rightarrow> store \<Rightarrow> string \<Rightarrow> string \<Rightarrow> turn_record \<Rightarrow> bool option" where
  "introduces changes sha s path target t =
     (case entry_for t path of
        None \<Rightarrow> Some False
      | Some e \<Rightarrow>
          (case (load_text sha s (fe_before e), load_text sha s (fe_after e)) of
             (Some b, Some a) \<Rightarrow> Some (list_ex (\<lambda>l. l = target) (added_or_changed_lines changes b a))
           | _ \<Rightarrow> None))"

definition line_step :: "differ \<Rightarrow> (string \<Rightarrow> string) \<Rightarrow> store \<Rightarrow> string \<Rightarrow> string
    \<Rightarrow> (nat \<times> turn_record) option \<times> nat option \<Rightarrow> nat \<times> turn_record
    \<Rightarrow> (nat \<times> turn_record) option \<times> nat option" where
  "line_step changes sha s path target acc it = (case (acc, it) of ((resp, unres), (i, t)) \<Rightarrow>
     (case introduces changes sha s path target t of
        None \<Rightarrow> (resp, Some i)
      | Some True \<Rightarrow> (Some (i, t), unres)
      | Some False \<Rightarrow> (resp, unres)))"

text \<open>The answer from the responsible turn and the newest unresolvable one, by index.\<close>

definition line_answer :: "bool \<Rightarrow> (nat \<times> turn_record) option \<Rightarrow> nat option \<Rightarrow> blame_state" where
  "line_answer any_gap resp unres =
     (let poisoned = (case (resp, unres) of (Some (r, _), Some u) \<Rightarrow> u > r | _ \<Rightarrow> False) in
      case resp of
        Some (_, t) \<Rightarrow>
          if \<not> poisoned then LineAttributed t
          else if unres \<noteq> None then LineSnapshotUnavailable
          else LineBeforeRecording
      | None \<Rightarrow>
          if unres \<noteq> None then LineSnapshotUnavailable
          else if any_gap then LineOriginGap
          else LineBeforeRecording)"

definition line_verdict :: "differ \<Rightarrow> (string \<Rightarrow> string) \<Rightarrow> store \<Rightarrow> log_record list \<Rightarrow> string \<Rightarrow> string
    \<Rightarrow> turn_record list \<Rightarrow> blame_state" where
  "line_verdict changes sha s records path target touching =
     (case foldl (line_step changes sha s path target) (None, None) (enumerate 0 touching) of
        (resp, unres) \<Rightarrow> line_answer (has_gap_after records []) resp unres)"

definition blame_line_state ::
  "differ \<Rightarrow> (string \<Rightarrow> string) \<Rightarrow> store \<Rightarrow> turn_record list \<Rightarrow> log_record list \<Rightarrow> string \<Rightarrow> nat
    \<Rightarrow> hash option \<Rightarrow> string option \<Rightarrow> bool \<Rightarrow> blame_error + blame_state" where
  "blame_line_state changes sha s touching records path line_no current disk no_turn_gap =
     (let last_t = (if touching = [] then None else Some (last touching));
          gap_stale = (case last_t of
              Some t \<Rightarrow> has_gap_after records (tr_ended t) \<and> modified_since t path current
            | None \<Rightarrow> no_turn_gap)
      in if gap_stale then Inr LineRecordingGap
         else case last_t of
           Some t \<Rightarrow>
             if deleted_by t path \<or> disk = None then Inr (LineDeletedOrAbsent t (deleted_by t path))
             else (let ls = lines (utf8_lossy (the disk)) in
               if line_no = 0 \<or> line_no > length ls then Inl (LineOutOfRange (length ls))
               else Inr (line_verdict changes sha s records path (ls ! (line_no - 1)) touching))
         | None \<Rightarrow>
             (case disk of
                None \<Rightarrow> Inl FileNotFound
              | Some bs \<Rightarrow> (let ls = lines (utf8_lossy bs) in
                  if line_no = 0 \<or> line_no > length ls then Inl (LineOutOfRange (length ls))
                  else Inr (line_verdict changes sha s records path (ls ! (line_no - 1)) touching))))"

record blame_query =
  bq_path :: string
  bq_line :: "nat option"

record blame_result =
  br_path :: string
  br_line :: "nat option"
  br_state :: blame_state

text \<open>\<open>disk\<close> is the content of the working file, None when it cannot be read as a regular file.\<close>

definition blame :: "differ \<Rightarrow> (string \<Rightarrow> string) \<Rightarrow> store \<Rightarrow> ledger \<Rightarrow> string option \<Rightarrow> blame_query
    \<Rightarrow> blame_error + blame_result" where
  "blame changes sha s lg disk q =
     (let records = lg_records lg;
          no_turn_gap = has_crash_gap records;
          touching = filter (\<lambda>t. touches t (bq_path q)) (ledger_turns lg);
          current = map_option (hash_bytes sha) disk
      in case (case bq_line q of
             None \<Rightarrow> Inr (blame_file_state touching records (bq_path q) current no_turn_gap)
           | Some n \<Rightarrow> blame_line_state changes sha s touching records (bq_path q) n current disk no_turn_gap) of
           Inl e \<Rightarrow> Inl e
         | Inr st \<Rightarrow> Inr \<lparr>br_path = bq_path q, br_line = bq_line q, br_state = st\<rparr>)"

end
