(* ===== verification/View_Props.thy ===== *)
theory View_Props
  imports Diff_Blame Records_Props
begin

text \<open>
  Correctness of the read views: gaps as a function of the epoch sequence, the ledger census,
  safe turn lookup, pagination through the shared pager interface, and line blame.
\<close>

subsection \<open>Recording gaps\<close>

text \<open>The boundary epochs in order: whether it is a start, and its time.\<close>

fun boundary :: "log_record \<Rightarrow> (bool \<times> string) option" where
  "boundary (Turn _) = None"
| "boundary (Epoch e) =
     (if ep_event e = ''start'' then Some (True, ep_ts e)
      else if ep_event e = ''stop'' then Some (False, ep_ts e) else None)"

definition boundaries :: "log_record list \<Rightarrow> (bool \<times> string) list" where
  "boundaries rs = List.map_filter boundary rs"

fun gap_between :: "(bool \<times> string) \<times> (bool \<times> string) \<Rightarrow> gap list" where
  "gap_between ((prev, _), (cur, t)) =
     (if cur then [\<lparr>gap_since = t, gap_kind = (if prev then Crash else Restart)\<rparr>] else [])"

definition gaps_spec :: "(bool \<times> string) list \<Rightarrow> gap list" where
  "gaps_spec bs = concat (map gap_between (zip bs (tl bs)))
     @ (if bs \<noteq> [] \<and> \<not> fst (last bs) then [\<lparr>gap_since = snd (last bs), gap_kind = TrailingStop\<rparr>] else [])"

lemma zip_tl_snoc:
  "zip (xs @ [x]) (tl (xs @ [x])) = (if xs = [] then [] else zip xs (tl xs) @ [(last xs, x)])"
proof (induction xs)
  case (Cons a xs)
  then show ?case by (cases xs) auto
qed simp

lemma zip_tl_snoc':
  "xs \<noteq> [] \<Longrightarrow> zip (xs @ [x]) (tl xs @ [x]) = zip xs (tl xs) @ [(last xs, x)]"
  using zip_tl_snoc[of xs x] by simp

lemma gap_walk_spec:
  "foldl gap_step \<lparr>gw_gaps = [], gw_open = False, gw_pending_stop = None\<rparr> rs =
     (let bs = boundaries rs in
      \<lparr>gw_gaps = concat (map gap_between (zip bs (tl bs))),
       gw_open = (bs \<noteq> [] \<and> fst (last bs)),
       gw_pending_stop = (if bs \<noteq> [] \<and> \<not> fst (last bs) then Some (snd (last bs)) else None)\<rparr>)"
proof (induction rs rule: rev_induct)
  case Nil
  then show ?case by (simp add: boundaries_def List.map_filter_simps)
next
  case (snoc r rs)
  have b: "boundaries (rs @ [r]) = boundaries rs @ (case boundary r of None \<Rightarrow> [] | Some b \<Rightarrow> [b])"
    by (simp add: boundaries_def List.map_filter_def split: option.splits)
  show ?case
  proof (cases "boundary r")
    case None
    with b snoc show ?thesis
      by (cases r) (auto simp: gap_step_def Let_def split: if_splits)
  next
    case (Some x)
    obtain cur t where x: "x = (cur, t)" by (cases x)
    have "gap_step w r = (if cur then \<lparr>gw_gaps = gw_gaps w @
          (if gw_open w then [\<lparr>gap_since = t, gap_kind = Crash\<rparr>]
           else if gw_pending_stop w \<noteq> None then [\<lparr>gap_since = t, gap_kind = Restart\<rparr>] else []),
          gw_open = True, gw_pending_stop = None\<rparr>
        else w\<lparr>gw_open := False, gw_pending_stop := Some t\<rparr>)" for w
      using Some x by (cases r) (auto simp: gap_step_def split: if_splits)
    moreover have "boundaries (rs @ [r]) = boundaries rs @ [(cur, t)]" using b Some x by simp
    moreover obtain prev t' where "boundaries rs \<noteq> [] \<Longrightarrow> last (boundaries rs) = (prev, t')"
      by (cases "last (boundaries rs)") blast
    ultimately show ?thesis
      by (cases "boundaries rs = []"; cases prev; cases cur) (simp_all add: snoc Let_def zip_tl_snoc')
  qed
qed

text \<open>
  C28: the gap primitive is exact. The gaps are, in order, one for every start that follows a
  boundary: a crash when that boundary is a start, a restart when it is a stop; and one more
  for a final stop. Turns and other epochs do not count.
\<close>

theorem recording_gaps_exact:
  "recording_gaps rs = gaps_spec (boundaries rs)"
  by (simp add: recording_gaps_def gap_walk_spec Let_def gaps_spec_def)

subsection \<open>The ledger census\<close>

lemma ledger_fold:
  "let lg = foldl (ledger_step fs) lg0 ls in
     lg_records lg = lg_records lg0 @
       List.map_filter (\<lambda>l. if utf8_valid l then parsed_record (parse_log_line fs l) else None) ls
     \<and> length (lg_records lg) + lg_unknown_type_lines lg + lg_unparsed_lines lg
       = length (lg_records lg0) + lg_unknown_type_lines lg0 + lg_unparsed_lines lg0
         + length (filter (\<lambda>l. utf8_valid l \<and> trim l \<noteq> []) ls)"
proof (induction ls arbitrary: lg0)
  case (Cons l ls)
  have "parse_log_line fs l = PBlank \<longleftrightarrow> trim l = []"
    by (auto simp: parse_log_line_def Let_def split: option.splits)
  then show ?case
    using Cons[of "ledger_step fs lg0 l"]
    by (cases "parse_log_line fs l")
      (auto simp: ledger_step_def Let_def List.map_filter_simps)
qed (simp add: List.map_filter_simps)

text \<open>
  The two readers cannot disagree. The ledger's records are exactly what the plain log
  reader returns, and every readable line that is not blank is a record or counted once in the
  census. (Lines that are not UTF-8 are in neither.)
\<close>

theorem ledger_census:
  "let lg = load_ledger from_str (Some body) in
     lg_records lg = load_log from_str (Some body)
     \<and> length (lg_records lg) + lg_unknown_type_lines lg + lg_unparsed_lines lg
         = length (filter (\<lambda>l. utf8_valid l \<and> trim l \<noteq> []) (lines body))"
  using ledger_fold[where fs = from_str and ls = "lines body" and ?lg0.0 = empty_ledger]
  by (auto simp: load_ledger_def load_log_def empty_ledger_def Let_def)

subsection \<open>Turn lookup\<close>

lemma subset_same_length:
  assumes "set xs \<subseteq> set ys" "distinct xs" "length xs = length ys"
  shows "set xs = set ys"
proof (rule card_subset_eq[OF _ assms(1)])
  have "card (set ys) \<le> length xs" using card_length[of ys] assms(3) by simp
  then show "card (set xs) = card (set ys)"
    using card_mono[OF _ assms(1)] distinct_card[OF assms(2)] by simp
qed simp

lemma resolve_turn_Inr:
  "resolve_turn turns ref = Inr t \<Longrightarrow>
     \<exists>rest. filter (\<lambda>t. tr_id t = ref \<or> starts_with (tr_id t) ref) turns = t # rest
       \<and> list_all (same_revert t) (t # rest)"
  by (auto simp: resolve_turn_def same_revert_def list_all_iff split: if_splits list.splits)

text \<open>
  Lookup never picks among different reverts. With at most one entry per path in a turn,
  a reference that resolves names a recorded turn it is a prefix of, and every other turn it
  matches has the same id and exactly the same file entries, so undoing any of them is the same.
\<close>

theorem resolve_turn_unambiguous:
  assumes "resolve_turn turns ref = Inr t"
    and "list_all (\<lambda>t. distinct (map fe_path (tr_files t))) turns"
  shows "t \<in> set turns \<and> starts_with (tr_id t) ref
     \<and> list_all (\<lambda>t'. tr_id t' = tr_id t \<and> set (tr_files t') = set (tr_files t))
         (filter (\<lambda>t'. starts_with (tr_id t') ref) turns)"
proof -
  let ?ms = "filter (\<lambda>t. tr_id t = ref \<or> starts_with (tr_id t) ref) turns"
  have ms: "?ms = filter (\<lambda>t. starts_with (tr_id t) ref) turns"
    by (rule filter_cong) auto
  obtain rest where hd: "?ms = t # rest" and same': "list_all (same_revert t) (t # rest)"
    using resolve_turn_Inr[OF assms(1)] by blast
  have same: "list_all (same_revert t) ?ms" unfolding hd by (rule same')
  have d: "distinct (tr_files t')" if "t' \<in> set ?ms" for t'
  proof -
    have "t' \<in> set turns" using that by simp
    then have "distinct (map fe_path (tr_files t'))"
      using assms(2) unfolding list_all_iff by (rule bspec[rotated])
    then show ?thesis by (simp add: distinct_map)
  qed
  have tm: "t \<in> set ?ms" unfolding hd by simp
  have "tr_id t' = tr_id t \<and> set (tr_files t') = set (tr_files t)" if t': "t' \<in> set ?ms" for t'
  proof -
    have "same_revert t t'" using same t' unfolding list_all_iff by (rule bspec)
    then have s: "tr_id t = tr_id t'" "length (tr_files t) = length (tr_files t')"
      "set (tr_files t) \<subseteq> set (tr_files t')"
      by (auto simp: list_all_iff same_revert_def)
    show ?thesis
    proof
      show "tr_id t' = tr_id t" by (rule s(1)[symmetric])
      show "set (tr_files t') = set (tr_files t)"
        by (rule subset_same_length[OF s(3) d[OF tm] s(2), symmetric])
    qed
  qed
  then have "list_all (\<lambda>t'. tr_id t' = tr_id t \<and> set (tr_files t') = set (tr_files t)) ?ms"
    unfolding list_all_iff by (rule ballI)
  moreover have "t \<in> set turns \<and> starts_with (tr_id t) ref"
    using tm[unfolded ms] by simp
  ultimately show ?thesis unfolding ms by blast
qed

definition example_turn :: turn_record where
  "example_turn = plain_turn ''t_1'' [plain_entry ''a'' None (Some ''h''), plain_entry ''b'' None None]"

definition example_dup :: turn_record where
  "example_dup = plain_turn ''t_1'' [plain_entry ''b'' None None, plain_entry ''a'' None (Some ''h'')]"

theorem resolve_turn_unambiguous_witness:
  "resolve_turn [example_turn, example_dup, plain_turn ''u'' []] ''t_'' = Inr example_turn
     \<and> set (tr_files example_dup) = set (tr_files example_turn)"
proof -
  have r: "resolve_turn [example_turn, example_dup, plain_turn ''u'' []] ''t_'' = Inr example_turn"
    by (simp add: resolve_turn_def same_revert_def example_turn_def example_dup_def plain_turn_def)
  have "list_all (\<lambda>t. distinct (map fe_path (tr_files t))) [example_turn, example_dup, plain_turn ''u'' []]"
    by (simp add: example_turn_def example_dup_def plain_turn_def plain_entry_def)
  from resolve_turn_unambiguous[OF r this]
  have "\<forall>t' \<in> set (filter (\<lambda>t'. starts_with (tr_id t') ''t_'') [example_turn, example_dup, plain_turn ''u'' []]).
      tr_id t' = tr_id example_turn \<and> set (tr_files t') = set (tr_files example_turn)"
    unfolding list_all_iff by blast
  moreover have "starts_with (tr_id example_dup) ''t_''" by (simp add: example_dup_def plain_turn_def)
  then have "example_dup \<in> set (filter (\<lambda>t'. starts_with (tr_id t') ''t_'') [example_turn, example_dup, plain_turn ''u'' []])"
    by (simp only: set_filter list.set mem_Collect_eq insert_iff) simp
  ultimately have "tr_id example_dup = tr_id example_turn \<and> set (tr_files example_dup) = set (tr_files example_turn)"
    by (rule bspec)
  then have "set (tr_files example_dup) = set (tr_files example_turn)" by (rule conjunct2)
  with r show ?thesis by (rule conjI)
qed

subsection \<open>Pagination\<close>

text \<open>Following the cursors from a request until a page has no next one; \<open>k\<close> bounds the pages.\<close>

fun all_pages :: "nat \<Rightarrow> (cursor option \<Rightarrow> 'e + 'a page) \<Rightarrow> cursor option \<Rightarrow> 'a list option" where
  "all_pages 0 fetch c = None"
| "all_pages (Suc k) fetch c = (case fetch c of
     Inl _ \<Rightarrow> None
   | Inr p \<Rightarrow> (case pg_next p of
       None \<Rightarrow> Some (pg_items p)
     | Some c' \<Rightarrow> map_option ((@) (pg_items p)) (all_pages k fetch (Some c'))))"

text \<open>
  The interface of a paged read: a cursor stands for a position of the full result, a page
  holds the items from there, and its next cursor stands for the position after it.
\<close>

locale pager =
  fixes fetch :: "cursor option \<Rightarrow> 'e + 'a page"
    and full :: "'a list"
    and page_size :: nat
    and resumes_at :: "cursor option \<Rightarrow> nat \<Rightarrow> bool"
  assumes size_pos: "0 < page_size"
    and starts: "resumes_at None 0"
    and page_items: "resumes_at c p \<Longrightarrow> p \<le> length full \<Longrightarrow>
      \<exists>next. fetch c = Inr \<lparr>pg_items = take page_size (drop p full), pg_next = next\<rparr>"
    and page_next: "resumes_at c p \<Longrightarrow> p \<le> length full \<Longrightarrow> fetch c = Inr pg \<Longrightarrow>
      (if p + page_size < length full then pg_next pg \<noteq> None \<and> resumes_at (pg_next pg) (p + page_size)
       else pg_next pg = None)"
begin

lemma pages_from:
  "resumes_at c p \<Longrightarrow> p \<le> length full \<Longrightarrow> length full - p < k \<Longrightarrow> all_pages k fetch c = Some (drop p full)"
proof (induction k arbitrary: c p)
  case (Suc k)
  obtain nxt where f: "fetch c = Inr \<lparr>pg_items = take page_size (drop p full), pg_next = nxt\<rparr>"
    using page_items[OF Suc.prems(1,2)] by blast
  note nx = page_next[OF Suc.prems(1,2) f]
  show ?case
  proof (cases "p + page_size < length full")
    case True
    with nx obtain c' where c': "nxt = Some c'" "resumes_at (Some c') (p + page_size)" by auto
    have "length full - (p + page_size) < k" using True size_pos Suc.prems by linarith
    with Suc.IH[OF c'(2)] True
    have "all_pages k fetch (Some c') = Some (drop (p + page_size) full)" by simp
    moreover have "take page_size (drop p full) @ drop (p + page_size) full = drop p full"
      using append_take_drop_id[of page_size "drop p full"] by (simp add: add.commute)
    ultimately show ?thesis using f c'(1) by simp
  next
    case False
    with nx f show ?thesis by simp
  qed
qed simp

lemma pages_complete: "all_pages (Suc (length full)) fetch None = Some full"
  using pages_from[OF starts, of "Suc (length full)"] by simp

end

lemma cut_page_spec:
  assumes "p \<le> length xs" "0 < n"
  shows "pg_items (cut_page (Some n) p xs mk) = take n (drop p xs)"
    and "pg_next (cut_page (Some n) p xs mk) = (if p + n < length xs then Some (mk (p + n - 1)) else None)"
  using assms by (auto simp: cut_page_def Let_def min_def drop_take)

lemma map_fst_filter_enumerate_length:
  "length (filter (\<lambda>(i, x). P x) (enumerate k xs)) = length (filter P xs)"
  by (induction xs arbitrary: k) simp_all

lemma nth_index_count:
  assumes "i < length xs" "P (xs ! i)"
  shows "nth_index P (count_before P (take i xs)) xs = Some i"
proof -
  let ?f = "filter (\<lambda>(i, x). P x)"
  have xs: "xs = take i xs @ xs ! i # drop (Suc i) xs" using assms(1) by (rule id_take_nth_drop)
  have "enumerate 0 xs = enumerate 0 (take i xs) @ (i, xs ! i) # enumerate (Suc i) (drop (Suc i) xs)"
    using assms(1) by (subst xs) (simp add: enumerate_append_eq del: append_take_drop_id)
  then have "map fst (?f (enumerate 0 xs))
      = map fst (?f (enumerate 0 (take i xs))) @ i # map fst (?f (enumerate (Suc i) (drop (Suc i) xs)))"
    using assms(2) by simp
  then show ?thesis
    by (simp add: nth_index_def Let_def count_before_def nth_append map_fst_filter_enumerate_length)
qed

lemma position_after:
  fixes xs :: "(nat \<times> 'a) list"
  assumes "sorted_wrt (<) (map fst xs)" "i < length xs"
  shows "(case position (\<lambda>(j, _). j > fst (xs ! i)) xs of Some p \<Rightarrow> p | None \<Rightarrow> length xs) = Suc i"
proof -
  have lt: "a < b \<Longrightarrow> b < length xs \<Longrightarrow> fst (xs ! a) < fst (xs ! b)" for a b
    using assms(1) by (simp add: sorted_wrt_iff_nth_less)
  show ?thesis
  proof (cases "position (\<lambda>(j, _). j > fst (xs ! i)) xs")
    case None
    have "\<not> Suc i < length xs"
    proof
      assume l: "Suc i < length xs"
      from None have "\<forall>x \<in> set xs. \<not> fst (xs ! i) < fst x"
        by (auto simp: position_None_iff case_prod_beta)
      with nth_mem[OF l] lt[of i "Suc i"] l show False by blast
    qed
    with None assms(2) show ?thesis by simp
  next
    case (Some p)
    from position_SomeD[OF Some] have p: "p < length xs" "fst (xs ! i) < fst (xs ! p)"
      "\<And>j. j < p \<Longrightarrow> \<not> fst (xs ! i) < fst (xs ! j)" by (auto simp: case_prod_beta)
    have "\<not> p \<le> i" using lt[of p i] p(2) assms(2) by (cases "p = i") auto
    moreover have "\<not> Suc i < p" using p(3)[of "Suc i"] lt[of i "Suc i"] p(1) by auto
    ultimately show ?thesis using Some by simp
  qed
qed

lemma selected_turns_sorted: "sorted_wrt (<) (map fst (selected_turns lg q))"
proof -
  have "sorted_wrt (<) (map fst (filter P (enumerate 0 xs)))" for P and xs :: "'a list"
  proof -
    have "sorted_wrt (<) (map fst (enumerate 0 xs))" by simp
    then have "sorted_wrt (\<lambda>a b. fst a < fst b) (enumerate 0 xs)" by (simp only: sorted_wrt_map)
    then show ?thesis unfolding sorted_wrt_map by (rule sorted_wrt_filter)
  qed
  then show ?thesis by (simp add: selected_turns_def)
qed

lemma selected_turns_nth:
  "i < length (selected_turns lg q) \<Longrightarrow> selected_turns lg q ! i = (k, t)
    \<Longrightarrow> k < length (ledger_turns lg) \<and> ledger_turns lg ! k = t"
  using nth_mem[of i "selected_turns lg q"]
  by (auto simp: selected_turns_def in_set_enumerate_eq)

lemma turn_cursor_resumes:
  assumes "i < length (selected_turns lg q)"
  shows "turn_start lg (q\<lparr>tq_after := Some (turn_cursor lg q i)\<rparr>) = Inr (Suc i)"
proof -
  obtain k t where kt: "selected_turns lg q ! i = (k, t)" by fastforce
  from selected_turns_nth[OF assms kt] have k: "k < length (ledger_turns lg)" "ledger_turns lg ! k = t" by auto
  have "nth_index (\<lambda>p. tr_id p = tr_id t) (count_before (\<lambda>p. tr_id p = tr_id t) (take k (ledger_turns lg)))
      (ledger_turns lg) = Some k"
    using k by (intro nth_index_count) auto
  moreover have "selected_turns lg (q\<lparr>tq_after := c\<rparr>) = selected_turns lg q"
    "turn_fingerprint (q\<lparr>tq_after := c\<rparr>) = turn_fingerprint q" for c
    by (simp_all add: selected_turns_def turn_selected_def turn_fingerprint_def)
  ultimately show ?thesis
    using position_after[OF selected_turns_sorted assms] kt
    by (simp add: turn_start_def turn_cursor_def split: option.splits)
qed

text \<open>The paged reads of a fixed query.\<close>

definition turn_page_query :: "bool \<Rightarrow> nat \<Rightarrow> cursor option \<Rightarrow> turn_query" where
  "turn_page_query all_turns n c = \<lparr>tq_include_all = all_turns, tq_limit = Some (Suc n), tq_after = c\<rparr>"

interpretation turn_pager: pager
  "\<lambda>c. select_turns lg (turn_page_query all_turns n c)"
  "map snd (selected_turns lg (turn_page_query all_turns n None))"
  "Suc n"
  "\<lambda>c p. turn_start lg (turn_page_query all_turns n c) = Inr p"
proof unfold_locales
  let ?q = "turn_page_query all_turns n"
  have same: "selected_turns lg (?q c) = selected_turns lg (?q None)"
    and upd: "(?q None)\<lparr>tq_after := c\<rparr> = ?q c" for c
    by (simp_all add: selected_turns_def turn_selected_def turn_page_query_def)
  have cur: "turn_cursor lg (?q c) = turn_cursor lg (?q None)" for c
    by (intro ext) (simp add: turn_cursor_def same[of c] turn_fingerprint_def, simp add: turn_page_query_def)
  show "turn_start lg (?q None) = Inr 0"
    by (simp add: turn_start_def turn_page_query_def)
  fix c p assume st: "turn_start lg (?q c) = Inr p" "p \<le> length (map snd (selected_turns lg (?q None)))"
  have sel: "select_turns lg (?q c) = Inr (cut_page (Some (Suc n)) p
      (map snd (selected_turns lg (?q None))) (turn_cursor lg (?q None)))"
    by (simp add: select_turns_def st(1) same[of c] cur[of c], simp add: turn_page_query_def)
  note cp = cut_page_spec[OF st(2) zero_less_Suc, of n "turn_cursor lg (?q None)"]
  show "\<exists>next. select_turns lg (?q c) = Inr \<lparr>pg_items = take (Suc n)
      (drop p (map snd (selected_turns lg (?q None)))), pg_next = next\<rparr>"
    by (rule exI[of _ "pg_next (cut_page (Some (Suc n)) p
      (map snd (selected_turns lg (?q None))) (turn_cursor lg (?q None)))"]) (simp add: sel cp(1)[symmetric])
  fix pg assume "select_turns lg (?q c) = Inr pg"
  with sel have pg: "pg_next pg = (if p + Suc n < length (map snd (selected_turns lg (?q None)))
      then Some (turn_cursor lg (?q None) (p + Suc n - 1)) else None)"
    using cp(2) by simp
  show "if p + Suc n < length (map snd (selected_turns lg (?q None)))
      then pg_next pg \<noteq> None \<and> turn_start lg (?q (pg_next pg)) = Inr (p + Suc n) else pg_next pg = None"
    using pg turn_cursor_resumes[of "p + n" lg "?q None"] by (simp add: upd)
qed simp

text \<open>
  C29: pagination loses and repeats nothing. Following the cursors with any page size gives, in
  as many pages as needed, exactly the turns of the unpaginated listing in ledger order, also
  when ids repeat in the ledger.
\<close>

theorem turn_pages_complete:
  "all_pages (Suc (length (ledger_turns lg))) (\<lambda>c. select_turns lg (turn_page_query all_turns n c)) None
     = Some (filter (turn_selected lg (turn_page_query all_turns n None)) (ledger_turns lg))"
proof -
  let ?sel = "map snd (selected_turns lg (turn_page_query all_turns n None))"
  have "map snd (filter (\<lambda>(_, t). P t) (enumerate k ts)) = filter P ts" for P k and ts :: "turn_record list"
    by (induction ts arbitrary: k) simp_all
  then have sel: "?sel = filter (turn_selected lg (turn_page_query all_turns n None)) (ledger_turns lg)"
    by (simp add: selected_turns_def)
  then have "length ?sel \<le> length (ledger_turns lg)" by simp
  then have "all_pages (Suc (length (ledger_turns lg)))
      (\<lambda>c. select_turns lg (turn_page_query all_turns n c)) None = Some (drop 0 ?sel)"
    by (intro turn_pager.pages_from[OF turn_pager.starts]) simp_all
  then show ?thesis by (simp only: sel drop0)
qed

definition diff_page_query :: "string \<Rightarrow> string list option \<Rightarrow> nat \<Rightarrow> cursor option \<Rightarrow> diff_query" where
  "diff_page_query ref paths n c = \<lparr>dq_turn = ref, dq_paths = paths, dq_limit = Some (Suc n), dq_after = c\<rparr>"

lemma diff_cursor_resumes:
  "i < length sel \<Longrightarrow> diff_start sel (q\<lparr>dq_after := Some (diff_cursor sel q i)\<rparr>) = Inr (Suc i)"
  using nth_index_count[of i sel "\<lambda>e. fe_path e = fe_path (sel ! i)"]
  by (simp add: diff_start_def diff_cursor_def diff_fingerprint_def)

interpretation diff_pager: pager
  "\<lambda>c. diff_page sha s sel (diff_page_query ref paths n c)"
  "map (resolve_file_diff sha s) sel"
  "Suc n"
  "\<lambda>c p. diff_start sel (diff_page_query ref paths n c) = Inr p"
proof unfold_locales
  let ?q = "diff_page_query ref paths n"
  have upd: "(?q None)\<lparr>dq_after := c\<rparr> = ?q c" for c
    by (simp add: diff_page_query_def)
  have cur: "diff_cursor sel (?q c) = diff_cursor sel (?q None)" for c
    by (intro ext) (simp add: diff_cursor_def diff_fingerprint_def diff_page_query_def)
  show "diff_start sel (?q None) = Inr 0"
    by (simp add: diff_start_def diff_page_query_def)
  fix c p assume st: "diff_start sel (?q c) = Inr p" "p \<le> length (map (resolve_file_diff sha s) sel)"
  let ?cut = "cut_page (Some (Suc n)) p sel (diff_cursor sel (?q None))"
  have pl: "p \<le> length sel" using st(2) by simp
  have sel: "diff_page sha s sel (?q c) =
      Inr \<lparr>pg_items = map (resolve_file_diff sha s) (pg_items ?cut), pg_next = pg_next ?cut\<rparr>"
    by (simp add: diff_page_def st(1) cur[of c], simp add: diff_page_query_def Let_def)
  note cp = cut_page_spec[OF pl zero_less_Suc, of n "diff_cursor sel (?q None)"]
  show "\<exists>next. diff_page sha s sel (?q c) =
      Inr \<lparr>pg_items = take (Suc n) (drop p (map (resolve_file_diff sha s) sel)), pg_next = next\<rparr>"
    by (simp add: sel cp(1) take_map drop_map)
  fix pg assume "diff_page sha s sel (?q c) = Inr pg"
  with sel have pg: "pg_next pg = (if p + Suc n < length sel
      then Some (diff_cursor sel (?q None) (p + Suc n - 1)) else None)"
    using cp(2) by auto
  show "if p + Suc n < length (map (resolve_file_diff sha s) sel)
      then pg_next pg \<noteq> None \<and> diff_start sel (?q (pg_next pg)) = Inr (p + Suc n) else pg_next pg = None"
    using pg diff_cursor_resumes[of "p + n" sel "?q None"] by (simp add: upd)
qed simp

text \<open>
  A diff can be read page by page. For a reference that resolves, following the cursors
  with any page size gives the state of every selected entry of the turn, once, in order.
\<close>

theorem diff_pages_complete:
  assumes "resolve_turn (ledger_turns lg) ref = Inr t"
  shows "all_pages (Suc (length (tr_files t)))
      (\<lambda>c. map_sum id dr_files (diff_turn sha s lg (diff_page_query ref paths n c))) None
    = Some (map (resolve_file_diff sha s)
        (filter (\<lambda>e. paths = None \<or> fe_path e \<in> set (the paths)) (tr_files t)))"
proof -
  let ?q = "diff_page_query ref paths n"
  let ?sel = "selected_files t (?q None)"
  have same: "selected_files t (?q c) = ?sel" for c
    by (simp add: selected_files_def diff_page_query_def)
  have sel: "?sel = filter (\<lambda>e. paths = None \<or> fe_path e \<in> set (the paths)) (tr_files t)"
    by (cases paths) (simp_all add: selected_files_def diff_page_query_def list_ex_iff)
  have dt: "map_sum id dr_files (diff_turn sha s lg (?q c)) = map_sum DiffCursor id (diff_page sha s ?sel (?q c))" for c
    using assms same[of c]
    by (simp add: diff_turn_def Let_def diff_page_query_def split: sum.splits)
  have err: "all_pages k (\<lambda>c. map_sum f id (fetch c)) c = all_pages k fetch c" for k f c and fetch :: "cursor option \<Rightarrow> 'x + 'y page"
    by (induction k arbitrary: c) (auto split: sum.splits option.splits)
  have "all_pages (Suc (length (tr_files t))) (\<lambda>c. diff_page sha s ?sel (?q c)) None
      = Some (drop 0 (map (resolve_file_diff sha s) ?sel))"
    by (intro diff_pager.pages_from[OF diff_pager.starts]) (simp_all add: sel less_Suc_eq_le)
  then show ?thesis
    unfolding dt err by (simp only: sel drop0)
qed

theorem diff_pages_complete_witness:
  "all_pages 3 (\<lambda>c. map_sum id dr_files (diff_turn (\<lambda>_. []) []
       \<lparr>lg_records = [Turn example_turn], lg_unknown_type_lines = 0, lg_unparsed_lines = 0\<rparr>
       (diff_page_query ''t'' (Some [''b'']) 0 c))) None
     = Some [resolve_file_diff (\<lambda>_. []) [] (plain_entry ''b'' None None)]"
proof -
  let ?lg = "\<lparr>lg_records = [Turn example_turn], lg_unknown_type_lines = 0, lg_unparsed_lines = 0\<rparr>"
  have "resolve_turn (ledger_turns ?lg) ''t'' = Inr example_turn"
    by (simp add: ledger_turns_def List.map_filter_simps resolve_turn_def example_turn_def plain_turn_def)
  moreover have "tr_files example_turn = [plain_entry ''a'' None (Some ''h''), plain_entry ''b'' None None]"
    by (simp add: example_turn_def plain_turn_def)
  ultimately show ?thesis
    using diff_pages_complete[of ?lg "''t''" example_turn "\<lambda>_. []" "[]" "Some [''b'']" 0]
    by (simp add: plain_entry_def numeral_3_eq_3 del: all_pages.simps)
qed

end
