(* ===== verification/Blame_Props.thy ===== *)
theory Blame_Props
  imports View_Props Store_Props
begin

text \<open>
  Correctness of blame: a line is attributed by the newest turn that has anything to say about
  it, file-level blame reports the last touching turn, and what a diff shows is verified.
\<close>

subsection \<open>Line blame\<close>

lemma line_step_pair:
  "line_step changes sha s path target (r, u) (i, t) =
     (case introduces changes sha s path target t of
        None \<Rightarrow> (r, Some i) | Some True \<Rightarrow> (Some (i, t), u) | Some False \<Rightarrow> (r, u))"
  by (simp add: line_step_def)

lemma line_walk_bounds:
  "foldl (line_step changes sha s path target) (None, None) (enumerate 0 ts) = (r, u)
    \<Longrightarrow> (\<forall>i t. r = Some (i, t) \<longrightarrow> i < length ts) \<and> (\<forall>j. u = Some j \<longrightarrow> j < length ts)"
proof (induction ts arbitrary: r u rule: rev_induct)
  case (snoc t ts)
  obtain r' u' where ru: "foldl (line_step changes sha s path target) (None, None) (enumerate 0 ts) = (r', u')"
    by fastforce
  from snoc.IH[OF ru] snoc.prems ru show ?case
    by (auto simp: enumerate_append_eq line_step_pair less_Suc_eq split: option.splits bool.splits)
qed simp

text \<open>The newest turn that is not a plain no decides what the walk answers.\<close>

lemma line_walk:
  "foldl (line_step changes sha s path target) (None, None) (enumerate 0 ts) = (r, u)
    \<Longrightarrow> line_answer any_gap r u =
     (case List.find (\<lambda>t. introduces changes sha s path target t \<noteq> Some False) (rev ts) of
        Some t \<Rightarrow> if introduces changes sha s path target t = Some True then LineAttributed t
                  else LineSnapshotUnavailable
      | None \<Rightarrow> if any_gap then LineOriginGap else LineBeforeRecording)"
proof (induction ts arbitrary: r u rule: rev_induct)
  case Nil
  then show ?case by (simp add: line_answer_def)
next
  case (snoc t ts)
  obtain r' u' where ru: "foldl (line_step changes sha s path target) (None, None) (enumerate 0 ts) = (r', u')"
    by fastforce
  note bounds = line_walk_bounds[OF ru]
  have step: "(r, u) = line_step changes sha s path target (r', u') (length ts, t)"
    using snoc.prems ru by (simp add: enumerate_append_eq)
  show ?case
  proof (cases "introduces changes sha s path target t")
    case None
    with step bounds show ?thesis
      by (cases r') (auto simp: line_step_pair line_answer_def)
  next
    case (Some b)
    with step bounds snoc.IH[OF ru] show ?thesis
      by (cases b; cases u') (auto simp: line_step_pair line_answer_def)
  qed
qed

text \<open>
  C30: line blame is decided by the newest turn that has anything to say. The turns are asked
  from the newest back; the first whose recorded diff introduces the line text is named; if a
  turn whose snapshots do not resolve comes first, no turn is named; if none is found the line
  is reported as older than the recording only when the recording has no gap at all.
\<close>

theorem line_blame_newest_evidence:
  "line_verdict changes sha s records path target touching =
     (let ask = introduces changes sha s path target in
      case List.find (\<lambda>t. ask t \<noteq> Some False) (rev touching) of
        Some t \<Rightarrow> if ask t = Some True then LineAttributed t else LineSnapshotUnavailable
      | None \<Rightarrow> if has_gap_after records [] then LineOriginGap
               else LineBeforeRecording)"
proof -
  obtain r u where ru: "foldl (line_step changes sha s path target) (None, None) (enumerate 0 touching) = (r, u)"
    by fastforce
  with line_walk[OF ru, of "has_gap_after records []"] show ?thesis
    by (simp add: line_verdict_def Let_def)
qed

text \<open>
  The comment of \<open>added_or_changed_lines\<close> says its lines can be compared with those of
  \<open>str::lines\<close>. They can when lines end in a line feed; when they end in a carriage return and
  a line feed, the first keeps the carriage return and the second drops it, so the turn that
  wrote a line of such a file is never named, with a complete recording and intact snapshots.
\<close>

definition crlf_differ :: differ where
  "crlf_differ old new = (if old = new then [(EqualLine, new)] else [(InsertLine, new)])"

definition crlf_text :: string where
  "crlf_text = ''fn'' @ [CR, NL]"

definition crlf_store :: store where
  "crlf_store = [((''00'', replicate 62 CHR ''0''), Regular crlf_text 0)]"

definition crlf_turn :: turn_record where
  "crlf_turn = plain_turn ''t_1'' [plain_entry ''a'' None (Some zero_hash)]"

lemma crlf_line_never_blamed:
  "blame_line_state crlf_differ zero_sha crlf_store [crlf_turn] [Turn crlf_turn] ''a'' 1
     (Some zero_hash) (Some crlf_text) False = Inr LineBeforeRecording"
proof -
  have asc: "utf8_lossy crlf_text = crlf_text"
    by (rule utf8_lossy_ascii) (simp add: ascii_def crlf_text_def byte_in_def CR_def NL_def)
  have ls: "lines crlf_text = [''fn'']"
    using lines_append[of "''fn'' @ [CR]" "[]"] by (simp add: crlf_text_def CR_def NL_def drop_cr_def)
  have e: "entry_for crlf_turn ''a'' = Some (plain_entry ''a'' None (Some zero_hash))"
    by (simp add: entry_for_def crlf_turn_def plain_turn_def plain_entry_def)
  have t: "load_text zero_sha crlf_store (Some zero_hash) = Some crlf_text"
    by (simp add: load_text_def get_def zero_hash_path crlf_store_def zero_hash_eq asc)
  have "added_or_changed_lines crlf_differ [] crlf_text = [''fn'' @ [CR]]"
    by (simp add: added_or_changed_lines_def crlf_differ_def crlf_text_def trim_end_nl_def CR_def NL_def)
  then have i: "introduces crlf_differ zero_sha crlf_store ''a'' ''fn'' crlf_turn = Some False"
    using t by (simp add: introduces_def e plain_entry_def load_text_def CR_def)
  have g: "recording_gaps [Turn crlf_turn] = []"
    by (simp add: recording_gaps_def gap_step_def)
  have "line_verdict crlf_differ zero_sha crlf_store [Turn crlf_turn] ''a'' ''fn'' [crlf_turn] = LineBeforeRecording"
    by (simp add: line_verdict_def line_step_pair i has_gap_after_def g line_answer_def)
  then show ?thesis
    by (simp add: blame_line_state_def has_gap_after_def g asc ls deleted_by_def e plain_entry_def)
qed

text \<open>
  The fingerprint that ties a cursor to its query is documented to keep path filters apart. It
  does not keep the absent filter apart from the filter on the file named by a star.
\<close>

lemma diff_fingerprint_star:
  "diff_fingerprint (q\<lparr>dq_paths := None\<rparr>) = diff_fingerprint (q\<lparr>dq_paths := Some [''*'']\<rparr>)"
  by (simp add: diff_fingerprint_def)

end
