(* ===== verification/Undo_Ledger.thy ===== *)
theory Undo_Ledger
  imports View
begin

text \<open>
  The undo request ledger (agentrec-core/src/undo\_coordinator.rs): the events of
  \<open>undo-requests.jsonl\<close>, their JSON form, and the two readings of the ledger, live
  reservations and the state of a request.
\<close>

subsection \<open>Modes, limits, event names\<close>

datatype mcp_destructive = ModeOff | ModeConfirm | ModeAuto

definition TOKEN_TTL_MS :: nat where
  "TOKEN_TTL_MS = 60000"

definition REQUEST_TTL_MS :: nat where
  "REQUEST_TTL_MS = 600000"

definition LEDGER_V :: "32 word" where
  "LEDGER_V = 1"

definition EVENT_RESERVE :: string where "EVENT_RESERVE = ''reserve''"
definition EVENT_REQUEST :: string where "EVENT_REQUEST = ''request''"
definition EVENT_APPROVE :: string where "EVENT_APPROVE = ''approve''"
definition EVENT_CONSUME :: string where "EVENT_CONSUME = ''consume''"
definition EVENT_DENY :: string where "EVENT_DENY = ''deny''"
definition EVENT_EXPIRE :: string where "EVENT_EXPIRE = ''expire''"
definition EVENT_EXECUTE :: string where "EVENT_EXECUTE = ''execute''"
definition EVENT_FAIL :: string where "EVENT_FAIL = ''fail''"

definition RESERVING_EVENTS :: "string list" where
  "RESERVING_EVENTS = [EVENT_RESERVE, EVENT_REQUEST]"

definition TERMINAL_EVENTS :: "string list" where
  "TERMINAL_EVENTS = [EVENT_DENY, EVENT_EXPIRE, EVENT_EXECUTE, EVENT_FAIL]"

lemmas event_names [ledger_defs] =
  EVENT_RESERVE_def EVENT_REQUEST_def EVENT_APPROVE_def EVENT_CONSUME_def EVENT_DENY_def
  EVENT_EXPIRE_def EVENT_EXECUTE_def EVENT_FAIL_def RESERVING_EVENTS_def TERMINAL_EVENTS_def

subsection \<open>Events\<close>

record ledger_event =
  le_v :: "32 word"
  le_event :: string
  le_id :: string
  le_turn :: string
  le_paths :: "string list"
  le_token_sha256 :: "string option"
  le_expires_unix_ms :: nat
  le_at_unix_ms :: nat
  le_hashes :: "hash option list"
  le_allow_modified :: bool
  le_undo_turn :: "string option"
  le_reason :: "string option"

definition ledger_fields :: "(string \<times> json) list \<Rightarrow> ledger_event option" where
  "ledger_fields fs = do {
     v \<leftarrow> req dec_u32 ''v'' fs;
     event \<leftarrow> req dec_str ''event'' fs;
     i \<leftarrow> req dec_str ''id'' fs;
     turn \<leftarrow> req dec_str ''turn'' fs;
     paths \<leftarrow> req (dec_arr dec_str) ''paths'' fs;
     token \<leftarrow> optf dec_str ''token_sha256'' fs;
     expires \<leftarrow> req dec_u64 ''expires_unix_ms'' fs;
     at \<leftarrow> req dec_u64 ''at_unix_ms'' fs;
     hashes \<leftarrow> dflt [] (dec_arr (dec_opt dec_str)) ''hashes'' fs;
     allow \<leftarrow> dflt False dec_bool ''allow_modified'' fs;
     uturn \<leftarrow> optf dec_str ''undo_turn'' fs;
     reason \<leftarrow> optf dec_str ''reason'' fs;
     Some \<lparr>le_v = v, le_event = event, le_id = i, le_turn = turn, le_paths = paths,
       le_token_sha256 = token, le_expires_unix_ms = expires, le_at_unix_ms = at,
       le_hashes = hashes, le_allow_modified = allow, le_undo_turn = uturn, le_reason = reason\<rparr> }"

fun dec_ledger :: "json \<Rightarrow> ledger_event option" where
  "dec_ledger (JObj fs) = ledger_fields fs"
| "dec_ledger _ = None"

definition parse_ledger :: "(string \<Rightarrow> json option) \<Rightarrow> string \<Rightarrow> ledger_event list" where
  "parse_ledger from_str body =
     List.map_filter (\<lambda>l. Option.bind (from_str l) dec_ledger) (filter (\<lambda>l. trim l \<noteq> []) (lines body))"

definition terminal_event :: "string \<Rightarrow> ledger_event \<Rightarrow> nat \<Rightarrow> ledger_event" where
  "terminal_event event request now =
     \<lparr>le_v = LEDGER_V, le_event = event, le_id = le_id request, le_turn = le_turn request,
      le_paths = le_paths request, le_token_sha256 = None,
      le_expires_unix_ms = le_expires_unix_ms request, le_at_unix_ms = now, le_hashes = [],
      le_allow_modified = False, le_undo_turn = None, le_reason = None\<rparr>"

subsection \<open>Live reservations\<close>

definition is_terminal :: "ledger_event \<Rightarrow> bool" where
  "is_terminal e \<longleftrightarrow> le_event e \<in> set TERMINAL_EVENTS"

definition is_reserving :: "ledger_event \<Rightarrow> bool" where
  "is_reserving e \<longleftrightarrow> le_event e \<in> set RESERVING_EVENTS"

definition released_ids :: "ledger_event list \<Rightarrow> string set" where
  "released_ids evs = set (map le_id (filter is_terminal evs))"

definition live_events :: "ledger_event list \<Rightarrow> nat \<Rightarrow> ledger_event list" where
  "live_events evs now =
     filter (\<lambda>e. le_expires_unix_ms e > now)
       (filter (\<lambda>e. le_id e \<notin> released_ids evs) (filter is_reserving evs))"

definition live_from_ledger :: "(string \<Rightarrow> json option) \<Rightarrow> string \<Rightarrow> nat \<Rightarrow> ledger_event list" where
  "live_from_ledger from_str body now = live_events (parse_ledger from_str body) now"

subsection \<open>State of a request\<close>

datatype request_state = Pending | Approved | Denied | Expired | Executed | RequestFailed

definition state_from_events :: "ledger_event \<Rightarrow> ledger_event list \<Rightarrow> nat \<Rightarrow> request_state" where
  "state_from_events request evs now =
     (let mine = filter (\<lambda>e. le_id e = le_id request) evs; has = (\<lambda>n. list_ex (\<lambda>e. le_event e = n) mine) in
      if has EVENT_EXECUTE then Executed
      else if has EVENT_DENY then Denied
      else if has EVENT_FAIL then RequestFailed
      else if has EVENT_EXPIRE then Expired
      else if has EVENT_APPROVE then Approved
      else if le_expires_unix_ms request \<le> now then Expired
      else Pending)"

record pending_status =
  ps_request :: string
  ps_state :: request_state
  ps_turn :: string
  ps_paths :: "string list"
  ps_allow_modified :: bool
  ps_requested_unix_ms :: nat
  ps_expires_unix_ms :: nat
  ps_undo_turn :: "string option"
  ps_reason :: "string option"

definition status_of :: "ledger_event \<Rightarrow> ledger_event list \<Rightarrow> nat \<Rightarrow> pending_status" where
  "status_of request evs now =
     (let resolution = List.find (\<lambda>e. le_id e = le_id request \<and> is_terminal e) (rev evs) in
      \<lparr>ps_request = le_id request, ps_state = state_from_events request evs now,
       ps_turn = le_turn request, ps_paths = le_paths request,
       ps_allow_modified = le_allow_modified request,
       ps_requested_unix_ms = le_at_unix_ms request, ps_expires_unix_ms = le_expires_unix_ms request,
       ps_undo_turn = Option.bind resolution le_undo_turn,
       ps_reason = Option.bind resolution le_reason\<rparr>)"

subsection \<open>Looking a request up\<close>

datatype undo_error =
    ErrModeOff
  | ErrNoTurns
  | ErrUnknownTurn string
  | ErrAmbiguousTurn string nat
  | ErrUnknownPaths "string list"
  | ErrConflict string "string list"
  | ErrTokenUnavailable
  | ErrConfirmModeOnly mcp_destructive
  | ErrNothingExecutable
  | ErrUnknownRequest string
  | ErrAmbiguousRequest string nat
  | ErrNotPending string request_state
  | ErrPreviewStale string "string list"
  | ErrBadToken
  | ErrTokenConsumed
  | ErrTokenExpired
  | ErrIo

fun undo_error_code :: "undo_error \<Rightarrow> string" where
  "undo_error_code ErrModeOff = ''mode_off''"
| "undo_error_code ErrNoTurns = ''no_turns''"
| "undo_error_code (ErrUnknownTurn _) = ''unknown_turn''"
| "undo_error_code (ErrAmbiguousTurn _ _) = ''ambiguous_turn''"
| "undo_error_code (ErrUnknownPaths _) = ''unknown_path''"
| "undo_error_code (ErrConflict _ _) = ''undo_conflict''"
| "undo_error_code ErrTokenUnavailable = ''token_unavailable''"
| "undo_error_code (ErrConfirmModeOnly _) = ''wrong_mode''"
| "undo_error_code ErrNothingExecutable = ''nothing_to_revert''"
| "undo_error_code (ErrUnknownRequest _) = ''unknown_request''"
| "undo_error_code (ErrAmbiguousRequest _ _) = ''ambiguous_request''"
| "undo_error_code (ErrNotPending _ _) = ''not_pending''"
| "undo_error_code (ErrPreviewStale _ _) = ''preview_stale''"
| "undo_error_code ErrBadToken = ''bad_token''"
| "undo_error_code ErrTokenConsumed = ''token_consumed''"
| "undo_error_code ErrTokenExpired = ''token_expired''"
| "undo_error_code ErrIo = ''repo_error''"

definition resolve_request :: "ledger_event list \<Rightarrow> string \<Rightarrow> undo_error + ledger_event" where
  "resolve_request evs ref =
     (case filter (\<lambda>e. le_id e = ref \<or> starts_with (le_id e) ref)
             (filter (\<lambda>e. le_event e = EVENT_REQUEST) evs) of
        [] \<Rightarrow> Inl (ErrUnknownRequest ref)
      | [e] \<Rightarrow> Inr e
      | ms \<Rightarrow> Inl (ErrAmbiguousRequest ref (length ms)))"

definition pending_requests :: "ledger_event list \<Rightarrow> nat \<Rightarrow> pending_status list" where
  "pending_requests evs now =
     filter (\<lambda>s. ps_state s = Pending)
       (map (\<lambda>e. status_of e evs now) (filter (\<lambda>e. le_event e = EVENT_REQUEST) evs))"

end
