(* ===== verification/Undo_Plan.thy ===== *)
theory Undo_Plan
  imports Undo_Ledger
begin

text \<open>
  Planning and executing a revert (agentrec-core/src/undo\_coordinator.rs). The working tree is a
  map from repo-relative path strings to what \<open>lstat\<close> finds there; resolving directories
  (\<open>canonicalize\<close>) is a parameter. Refusal and error texts are values of a datatype.
\<close>

subsection \<open>The working tree\<close>

text \<open>
  A regular file with its link count, one that cannot be read, a symbolic link with what it
  resolves to, or something else (directory, fifo, socket, device).
\<close>

datatype link_target = ToFile string | Dangling | ToOther

datatype node = RegFile string nat | UnreadableFile nat | SymLink link_target | OtherNode

type_synonym worktree = "string \<rightharpoonup> node"

datatype read_result = Content string | NotFound | ReadError

text \<open>The guards of fsguard.rs: both follow links; only what resolves to a regular file is read.\<close>

definition is_nonregular :: "worktree \<Rightarrow> string \<Rightarrow> bool" where
  "is_nonregular w p = (case w p of
     Some OtherNode \<Rightarrow> True | Some (SymLink ToOther) \<Rightarrow> True | _ \<Rightarrow> False)"

definition read_regular :: "worktree \<Rightarrow> string \<Rightarrow> read_result" where
  "read_regular w p =
     (if is_nonregular w p then ReadError
      else case w p of
        None \<Rightarrow> NotFound
      | Some (RegFile bs _) \<Rightarrow> Content bs
      | Some (SymLink (ToFile bs)) \<Rightarrow> Content bs
      | Some (SymLink Dangling) \<Rightarrow> NotFound
      | _ \<Rightarrow> ReadError)"

definition read_current_hash :: "(string \<Rightarrow> string) \<Rightarrow> worktree \<Rightarrow> string \<Rightarrow> hash option" where
  "read_current_hash sha w p = (case read_regular w p of
     Content bs \<Rightarrow> Some (hash_bytes sha bs) | _ \<Rightarrow> None)"

definition is_symlink_on_disk :: "worktree \<Rightarrow> string \<Rightarrow> bool" where
  "is_symlink_on_disk w p = (case w p of Some (SymLink _) \<Rightarrow> True | _ \<Rightarrow> False)"

subsection \<open>Containment\<close>

text \<open>The components of a relative path: separated by slashes, empty ones and dots dropped.\<close>

fun split_on :: "char \<Rightarrow> string \<Rightarrow> string list" where
  "split_on sep [] = [[]]"
| "split_on sep (c # cs) = (if c = sep then [] # split_on sep cs
     else case split_on sep cs of [] \<Rightarrow> [[c]] | w # ws \<Rightarrow> (c # w) # ws)"

definition components :: "string \<Rightarrow> string list" where
  "components p = filter (\<lambda>c. c \<noteq> [] \<and> c \<noteq> ''.'') (split_on CHR ''/'' p)"

definition is_absolute :: "string \<Rightarrow> bool" where
  "is_absolute p \<longleftrightarrow> starts_with p ''/''"

text \<open>
  \<open>canon\<close> is \<open>canonicalize\<close> on absolute directories given by components, None when it fails.
  The walk goes up from the parent of the target to the first directory that resolves.
\<close>

type_synonym canonicalizer = "string list \<Rightarrow> string list option"

function probe_up :: "canonicalizer \<Rightarrow> string list \<Rightarrow> string list \<Rightarrow> bool" where
  "probe_up canon root_canon dir =
     (case canon dir of
        Some c \<Rightarrow> starts_with c root_canon
      | None \<Rightarrow> if dir = [] then False else probe_up canon root_canon (butlast dir))"
  by auto
termination by (relation "measure (\<lambda>(_, _, dir). length dir)") auto

declare probe_up.simps [simp del]

definition contained :: "canonicalizer \<Rightarrow> string list \<Rightarrow> string \<Rightarrow> bool" where
  "contained canon root p \<longleftrightarrow>
     p \<noteq> [] \<and> \<not> is_absolute p \<and> ''..'' \<notin> set (components p) \<and>
     (case canon root of
        None \<Rightarrow> False
      | Some root_canon \<Rightarrow>
          root @ components p \<noteq> [] \<and> probe_up canon root_canon (butlast (root @ components p)))"

subsection \<open>Plans\<close>

datatype refusal_reason =
    PathEscapes
  | NotRegularFile
  | HasHardLinks
  | RecordedAsLink string
  | LinkOnDisk
  | SecretPattern
  | NotSnapshotted string
  | NoPriorSnapshot
  | PriorUnavailable
  | PriorCorrupt

datatype modified_cause = AfterDerived | LaterAgentTurn | RecordingGap | HumanOrExternal

datatype plan_kind =
    Revert "modified_cause option"
  | Excluded modified_cause
  | Refused refusal_reason

record plan =
  pn_entry :: file_entry
  pn_kind :: plan_kind

definition escape_refusal :: "canonicalizer \<Rightarrow> string list \<Rightarrow> file_entry \<Rightarrow> refusal_reason option" where
  "escape_refusal canon root e = (if contained canon root (fe_path e) then None else Some PathEscapes)"

definition inode_refusal :: "worktree \<Rightarrow> file_entry \<Rightarrow> refusal_reason option" where
  "inode_refusal w e = (case w (fe_path e) of
     None \<Rightarrow> None
   | Some (SymLink _) \<Rightarrow> None
   | Some OtherNode \<Rightarrow> Some NotRegularFile
   | Some (RegFile _ links) \<Rightarrow> if links > 1 then Some HasHardLinks else None
   | Some (UnreadableFile links) \<Rightarrow> if links > 1 then Some HasHardLinks else None)"

definition symlink_refusal :: "worktree \<Rightarrow> file_entry \<Rightarrow> refusal_reason option" where
  "symlink_refusal w e = (case fe_link_kind e of
     Some k \<Rightarrow> Some (RecordedAsLink k)
   | None \<Rightarrow> if is_symlink_on_disk w (fe_path e) then Some LinkOnDisk else None)"

definition skip_reason_text :: "string option \<Rightarrow> string" where
  "skip_reason_text reason =
     (if reason = Some ''over_cap'' then ''over size cap''
      else if reason = Some ''io_failed'' then ''write failed at record time''
      else if reason = Some ''unreadable'' then ''file unreadable at record time''
      else ''reason unrecorded'')"

definition before_refusal :: "(string \<Rightarrow> string) \<Rightarrow> store \<Rightarrow> file_entry \<Rightarrow> refusal_reason option" where
  "before_refusal sha s e =
     (if fe_op e = ''modify'' \<or> fe_op e = ''delete'' then
        (case fe_before e of
           None \<Rightarrow> Some NoPriorSnapshot
         | Some h \<Rightarrow> (case get sha s h of
               Inr _ \<Rightarrow> None
             | Inl (Missing _) \<Rightarrow> Some PriorUnavailable
             | Inl (Corrupt _) \<Rightarrow> Some PriorCorrupt))
      else None)"

definition modified_cause_of :: "nat \<Rightarrow> turn_record list \<Rightarrow> log_record list \<Rightarrow> turn_record \<Rightarrow> string
    \<Rightarrow> bool \<Rightarrow> modified_cause" where
  "modified_cause_of target_idx turns records target path after_synthesized =
     (if after_synthesized then AfterDerived
      else if list_ex (\<lambda>t. tr_grade t = ''rich'' \<and> list_ex (\<lambda>f. fe_path f = path) (tr_files t))
                (drop (target_idx + 1) turns) then LaterAgentTurn
      else if has_gap_after records (tr_ended target) then RecordingGap
      else HumanOrExternal)"

text \<open>The gates in the order of the code; the first that fires decides.\<close>

definition gate :: "canonicalizer \<Rightarrow> string list \<Rightarrow> (string \<Rightarrow> string) \<Rightarrow> worktree \<Rightarrow> store \<Rightarrow> file_entry
    \<Rightarrow> refusal_reason option" where
  "gate canon root sha w s e =
     (case escape_refusal canon root e of Some r \<Rightarrow> Some r | None \<Rightarrow>
     (case inode_refusal w e of Some r \<Rightarrow> Some r | None \<Rightarrow>
     (case symlink_refusal w e of Some r \<Rightarrow> Some r | None \<Rightarrow>
      if fe_withheld e then Some SecretPattern
      else if fe_skipped e then Some (NotSnapshotted (skip_reason_text (fe_skipped_reason e)))
      else before_refusal sha s e)))"

definition plan_entry :: "canonicalizer \<Rightarrow> string list \<Rightarrow> (string \<Rightarrow> string) \<Rightarrow> worktree \<Rightarrow> store
    \<Rightarrow> turn_record \<Rightarrow> nat \<Rightarrow> turn_record list \<Rightarrow> log_record list \<Rightarrow> bool \<Rightarrow> file_entry \<Rightarrow> plan_kind" where
  "plan_entry canon root sha w s target idx turns records allow_modified e =
     (case gate canon root sha w s e of
        Some r \<Rightarrow> Refused r
      | None \<Rightarrow>
          (let is_modified = (read_current_hash sha w (fe_path e) \<noteq> fe_after e);
               cause = modified_cause_of idx turns records target (fe_path e) (fe_after_synthesized e = Some True)
           in if is_modified \<and> \<not> allow_modified then Excluded cause
              else Revert (if is_modified then Some cause else None)))"

definition build_plan :: "canonicalizer \<Rightarrow> string list \<Rightarrow> (string \<Rightarrow> string) \<Rightarrow> worktree \<Rightarrow> store
    \<Rightarrow> turn_record \<Rightarrow> nat \<Rightarrow> turn_record list \<Rightarrow> log_record list \<Rightarrow> string list \<Rightarrow> bool \<Rightarrow> plan list" where
  "build_plan canon root sha w s target idx turns records files_filter allow_modified =
     map (\<lambda>e. \<lparr>pn_entry = e, pn_kind = plan_entry canon root sha w s target idx turns records allow_modified e\<rparr>)
       (filter (\<lambda>e. files_filter = [] \<or> fe_path e \<in> set files_filter) (tr_files target))"

fun is_revert :: "plan_kind \<Rightarrow> bool" where
  "is_revert (Revert _) = True"
| "is_revert _ = False"

datatype caution = BareCaution | RichCaution

definition window_caution :: "turn_record \<Rightarrow> plan list \<Rightarrow> caution option" where
  "window_caution target plans =
     (let rich = (tr_grade target = ''rich'' \<and> tr_tool target \<noteq> Some ''agentrec'');
          bare = (tr_grade target = ''bare'')
      in if \<not> rich \<and> \<not> bare then None
         else if \<not> list_ex (\<lambda>p. is_revert (pn_kind p)) plans then None
         else if bare then Some BareCaution else Some RichCaution)"

subsection \<open>Executing one revert\<close>

datatype revert_error =
    CannotReadBefore
  | SnapshotFailed
  | DeleteFailed
  | StillPresent
  | RefuseSymlink
  | RefuseNonRegular
  | NoSnapshotToRestore
  | BlobFailed store_error
  | MkdirFailed
  | WriteFailed
  | VerifyReadFailed
  | ByteMismatch

text \<open>
  What the file system does during one revert: the snapshot write, the deletion (which may fail
  and leave the file, or be undone by another process that recreates the path), creating the
  parents, and the write (a failed one leaves whatever it leaves).
\<close>

datatype delete_io = DeleteOk | DeleteFails | Recreated node

datatype write_io = WriteOk | WriteFails "node option"

record revert_env =
  re_put :: "io \<times> bool \<times> nat"
  re_delete :: delete_io
  re_mkdir :: io
  re_write :: write_io

text \<open>A write in place keeps the links of a regular file and goes through to its content.\<close>

definition written_node :: "worktree \<Rightarrow> string \<Rightarrow> string \<Rightarrow> node" where
  "written_node w p bs = (case w p of
     Some (RegFile _ n) \<Rightarrow> RegFile bs n
   | Some (UnreadableFile n) \<Rightarrow> UnreadableFile n
   | _ \<Rightarrow> RegFile bs 1)"

definition restore_from_before :: "(string \<Rightarrow> string) \<Rightarrow> revert_env \<Rightarrow> worktree \<Rightarrow> store \<Rightarrow> file_entry
    \<Rightarrow> (revert_error + hash) \<times> worktree" where
  "restore_from_before sha env w s e =
     (let p = fe_path e in
      if fe_link_kind e \<noteq> None \<or> is_symlink_on_disk w p then (Inl RefuseSymlink, w)
      else if is_nonregular w p then (Inl RefuseNonRegular, w)
      else case fe_before e of
        None \<Rightarrow> (Inl NoSnapshotToRestore, w)
      | Some h \<Rightarrow>
          (case get sha s h of
             Inl err \<Rightarrow> (Inl (BlobFailed err), w)
           | Inr bs \<Rightarrow>
               if re_mkdir env \<noteq> IoOk then (Inl MkdirFailed, w)
               else case re_write env of
                 WriteFails left \<Rightarrow> (Inl WriteFailed, w(p := left))
               | WriteOk \<Rightarrow>
                   (let w' = w(p \<mapsto> written_node w p bs) in
                    case read_regular w' p of
                      Content back \<Rightarrow> if hash_bytes sha back \<noteq> h then (Inl ByteMismatch, w') else (Inr h, w')
                    | _ \<Rightarrow> (Inl VerifyReadFailed, w'))))"

definition inverse_entry :: "file_entry \<Rightarrow> hash option \<Rightarrow> hash option \<Rightarrow> string \<Rightarrow> file_entry" where
  "inverse_entry e before after op =
     \<lparr>fe_path = fe_path e, fe_before = before, fe_after = after, fe_op = op, fe_skipped = False,
      fe_withheld = False, fe_baseline_unknown = False, fe_skipped_reason = None,
      fe_after_synthesized = None, fe_link_kind = None, fe_attribution = None\<rparr>"

text \<open>
  After the current bytes are in the store: delete what the turn created, or restore what it
  changed or deleted.
\<close>

definition apply_revert :: "(string \<Rightarrow> string) \<Rightarrow> revert_env \<Rightarrow> worktree \<Rightarrow> store \<Rightarrow> file_entry \<Rightarrow> hash option
    \<Rightarrow> (revert_error + file_entry) \<times> worktree" where
  "apply_revert sha env w s e new_before =
     (if fe_op e = ''create'' then
        (case w (fe_path e) of
           None \<Rightarrow> (Inr (inverse_entry e new_before None ''delete''), w)
         | Some _ \<Rightarrow>
             (case re_delete env of
                DeleteOk \<Rightarrow> (Inr (inverse_entry e new_before None ''delete''), w(fe_path e := None))
              | DeleteFails \<Rightarrow> (Inl DeleteFailed, w)
              | Recreated n \<Rightarrow> (Inl StillPresent, w(fe_path e \<mapsto> n))))
      else case restore_from_before sha env w s e of
        (Inl err, w') \<Rightarrow> (Inl err, w')
      | (Inr h, w') \<Rightarrow>
          (Inr (inverse_entry e new_before (Some h)
                 (if fe_op e = ''delete'' then ''create'' else ''modify'')), w'))"

definition execute_revert :: "(string \<Rightarrow> string) \<Rightarrow> revert_env \<Rightarrow> worktree \<Rightarrow> store \<Rightarrow> file_entry
    \<Rightarrow> (revert_error + file_entry) \<times> worktree \<times> store" where
  "execute_revert sha env w s e =
     (case read_regular w (fe_path e) of
        ReadError \<Rightarrow> (Inl CannotReadBefore, w, s)
      | NotFound \<Rightarrow> (case apply_revert sha env w s e None of (r, w') \<Rightarrow> (r, w', s))
      | Content bs \<Rightarrow>
          (case re_put env of (io, touch, now) \<Rightarrow>
             (case put sha io touch now bs s of
                (None, s') \<Rightarrow> (Inl SnapshotFailed, w, s')
              | (Some h, s') \<Rightarrow>
                  (case apply_revert sha env w s' e (Some h) of (r, w') \<Rightarrow> (r, w', s')))))"

end
