(* ===== verification/Undo.thy ===== *)
theory Undo
  imports Undo_Plan
begin

text \<open>
  The undo coordinator (agentrec-core/src/undo\_coordinator.rs): previews, reservations, human
  requests, claims by request and by token, denial. Every operation that writes the ledger
  returns the ledger it leaves. The clock, the entropy, fresh ids and the outcome of ledger
  file access are an environment argument.
\<close>

subsection \<open>Context and state\<close>

record undo_ctx =
  cx_canon :: canonicalizer
  cx_root :: "string list"
  cx_sha :: "string \<Rightarrow> string"

record repo =
  rp_tree :: worktree
  rp_store :: store
  rp_log :: "log_record list"
  rp_ledger :: "ledger_event list"

record undo_env =
  un_now :: nat
  un_ulid :: string
  un_token :: "string option"
  un_lock_ok :: bool
  un_read_ok :: bool
  un_append_ok :: bool

definition log_turns :: "log_record list \<Rightarrow> turn_record list" where
  "log_turns rs = List.map_filter turn_of rs"

subsection \<open>Requests and previews\<close>

record undo_request =
  ur_turn :: string
  ur_paths :: "string list option"
  ur_allow_modified :: bool

datatype refusal_class = CSkipped | CWithheld | CSymlink | CNoSnapshot | CModifiedSince | CImportedUnreconstructible

datatype refusal_detail = ByGate refusal_reason | ByModification modified_cause | ByProvenance

record refusal =
  rf_path :: string
  rf_class :: refusal_class
  rf_reason :: refusal_detail

record preview_file =
  pf_path :: string
  pf_op :: string
  pf_before :: "hash option"
  pf_after :: "hash option"
  pf_before_bytes :: "nat option"
  pf_after_bytes :: "nat option"
  pf_modified_since :: bool
  pf_warn :: "modified_cause option"

datatype undo_warning = AllowModifiedIgnored | ImportedWholeTurnRefused nat | WindowCaution caution

record undo_preview =
  up_turn :: string
  up_tool :: "string option"
  up_grade :: string
  up_mode :: mcp_destructive
  up_allow_modified_effective :: bool
  up_files :: "preview_file list"
  up_refusals :: "refusal list"
  up_warnings :: "undo_warning list"
  up_token :: "string option"
  up_token_expires_unix_ms :: "nat option"
  up_reservation :: "string option"

definition refusal_class_of :: "worktree \<Rightarrow> file_entry \<Rightarrow> refusal_class" where
  "refusal_class_of w e =
     (if fe_link_kind e \<noteq> None \<or> is_symlink_on_disk w (fe_path e) then CSymlink
      else if fe_withheld e then CWithheld
      else if fe_skipped e then CSkipped
      else CNoSnapshot)"

definition undo_lookup :: "turn_record list \<Rightarrow> string \<Rightarrow> undo_error + turn_record" where
  "undo_lookup turns ref = (case resolve_turn turns ref of
     Inr t \<Rightarrow> Inr t
   | Inl NoTurns \<Rightarrow> Inl ErrNoTurns
   | Inl UnknownTurn \<Rightarrow> Inl (ErrUnknownTurn ref)
   | Inl (Ambiguous n) \<Rightarrow> Inl (ErrAmbiguousTurn ref n))"

definition target_index :: "turn_record list \<Rightarrow> turn_record \<Rightarrow> nat" where
  "target_index turns t = (case position (\<lambda>x. tr_id x = tr_id t) turns of Some i \<Rightarrow> i | None \<Rightarrow> 0)"

definition path_filter :: "turn_record \<Rightarrow> undo_request \<Rightarrow> undo_error + string list" where
  "path_filter target q = (case ur_paths q of
     None \<Rightarrow> Inr []
   | Some ps \<Rightarrow>
       (let unknown = filter (\<lambda>p. p \<notin> set (map fe_path (tr_files target))) ps in
        if unknown \<noteq> [] then Inl (ErrUnknownPaths unknown) else Inr ps))"

definition effective_allow :: "mcp_destructive \<Rightarrow> undo_request \<Rightarrow> bool" where
  "effective_allow mode q = (if mode = ModeAuto then False else ur_allow_modified q)"

definition k2_entries :: "turn_record \<Rightarrow> string list \<Rightarrow> file_entry list" where
  "k2_entries target flt =
     (if tr_imported target = Some True
      then filter (\<lambda>f. fe_op f \<noteq> ''create'' \<and> fe_before f = None)
             (filter (\<lambda>f. flt = [] \<or> fe_path f \<in> set flt) (tr_files target))
      else [])"

definition plan_for :: "undo_ctx \<Rightarrow> repo \<Rightarrow> turn_record \<Rightarrow> string list \<Rightarrow> bool \<Rightarrow> plan list" where
  "plan_for cx rp target flt allow =
     (let turns = log_turns (rp_log rp) in
      build_plan (cx_canon cx) (cx_root cx) (cx_sha cx) (rp_tree rp) (rp_store rp) target
        (target_index turns target) turns (rp_log rp) flt allow)"

definition plan_file :: "store \<Rightarrow> plan \<Rightarrow> preview_file option" where
  "plan_file s p = (case pn_kind p of
     Revert warn \<Rightarrow> Some \<lparr>pf_path = fe_path (pn_entry p), pf_op = fe_op (pn_entry p),
       pf_before = fe_before (pn_entry p), pf_after = fe_after (pn_entry p),
       pf_before_bytes = Option.bind (fe_before (pn_entry p)) (blob_size s),
       pf_after_bytes = Option.bind (fe_after (pn_entry p)) (blob_size s),
       pf_modified_since = (warn \<noteq> None), pf_warn = warn\<rparr>
   | _ \<Rightarrow> None)"

definition plan_refusal :: "worktree \<Rightarrow> plan \<Rightarrow> refusal option" where
  "plan_refusal w p = (case pn_kind p of
     Revert _ \<Rightarrow> None
   | Excluded c \<Rightarrow> Some \<lparr>rf_path = fe_path (pn_entry p), rf_class = CModifiedSince, rf_reason = ByModification c\<rparr>
   | Refused r \<Rightarrow> Some \<lparr>rf_path = fe_path (pn_entry p),
       rf_class = refusal_class_of w (pn_entry p), rf_reason = ByGate r\<rparr>)"

text \<open>The preview before any reservation; None of its steps writes anything.\<close>

definition preview_plan :: "undo_ctx \<Rightarrow> repo \<Rightarrow> undo_request \<Rightarrow> mcp_destructive \<Rightarrow> undo_error + undo_preview" where
  "preview_plan cx rp q mode =
     (if mode = ModeOff then Inl ErrModeOff
      else case undo_lookup (log_turns (rp_log rp)) (ur_turn q) of
        Inl e \<Rightarrow> Inl e
      | Inr target \<Rightarrow>
        (case path_filter target q of
           Inl e \<Rightarrow> Inl e
         | Inr flt \<Rightarrow>
           (let allow = effective_allow mode q;
                warn0 = (if mode = ModeAuto \<and> ur_allow_modified q then [AllowModifiedIgnored] else []);
                base = \<lparr>up_turn = tr_id target, up_tool = tr_tool target, up_grade = tr_grade target,
                        up_mode = mode, up_allow_modified_effective = allow, up_files = [],
                        up_refusals = [], up_warnings = warn0, up_token = None,
                        up_token_expires_unix_ms = None, up_reservation = None\<rparr>;
                k2 = k2_entries target flt
            in if k2 \<noteq> [] then
                 Inr (base\<lparr>up_refusals := map (\<lambda>f. \<lparr>rf_path = fe_path f,
                               rf_class = CImportedUnreconstructible, rf_reason = ByProvenance\<rparr>) k2,
                           up_warnings := warn0 @ [ImportedWholeTurnRefused (length k2)]\<rparr>)
               else let plans = plan_for cx rp target flt allow in
                 Inr (base\<lparr>up_files := List.map_filter (plan_file (rp_store rp)) plans,
                           up_refusals := List.map_filter (plan_refusal (rp_tree rp)) plans,
                           up_warnings := warn0 @ (case window_caution target plans of
                               None \<Rightarrow> [] | Some c \<Rightarrow> [WindowCaution c])\<rparr>))))"

subsection \<open>Reservations\<close>

text \<open>The first live event that holds a wanted path, with the paths it holds.\<close>

fun first_conflict :: "ledger_event list \<Rightarrow> string list \<Rightarrow> (string \<times> string list) option" where
  "first_conflict [] wanted = None"
| "first_conflict (ev # evs) wanted =
     (let overlap = filter (\<lambda>p. p \<in> set wanted) (le_paths ev) in
      if overlap \<noteq> [] then Some (le_id ev, overlap) else first_conflict evs wanted)"

definition live_reservations :: "undo_env \<Rightarrow> ledger_event list \<Rightarrow> undo_error + ledger_event list" where
  "live_reservations env ledger =
     (if un_read_ok env then Inr (live_events ledger (un_now env)) else Inl ErrIo)"

definition append_event :: "undo_env \<Rightarrow> ledger_event list \<Rightarrow> ledger_event \<Rightarrow> (undo_error + unit) \<times> ledger_event list" where
  "append_event env ledger ev = (if un_append_ok env then (Inr (), ledger @ [ev]) else (Inl ErrIo, ledger))"

record reservation =
  rv_id :: string
  rv_token :: string
  rv_expires_unix_ms :: nat

definition reserve_event :: "undo_ctx \<Rightarrow> undo_env \<Rightarrow> repo \<Rightarrow> string \<Rightarrow> string list \<Rightarrow> string \<Rightarrow> ledger_event" where
  "reserve_event cx env rp turn paths token =
     \<lparr>le_v = LEDGER_V, le_event = EVENT_RESERVE, le_id = un_ulid env, le_turn = turn, le_paths = paths,
      le_token_sha256 = Some (hash_bytes (cx_sha cx) token),
      le_expires_unix_ms = u64_add (un_now env) TOKEN_TTL_MS, le_at_unix_ms = un_now env,
      le_hashes = map (read_current_hash (cx_sha cx) (rp_tree rp)) paths,
      le_allow_modified = False, le_undo_turn = None, le_reason = None\<rparr>"

definition reserve :: "undo_ctx \<Rightarrow> undo_env \<Rightarrow> repo \<Rightarrow> string \<Rightarrow> string list
    \<Rightarrow> (undo_error + reservation) \<times> ledger_event list" where
  "reserve cx env rp turn paths =
     (let ledger = rp_ledger rp in
      if \<not> un_lock_ok env then (Inl ErrIo, ledger)
      else case live_reservations env ledger of
        Inl e \<Rightarrow> (Inl e, ledger)
      | Inr live \<Rightarrow>
          (case first_conflict live paths of
             Some (i, ps) \<Rightarrow> (Inl (ErrConflict i ps), ledger)
           | None \<Rightarrow>
               (case un_token env of
                  None \<Rightarrow> (Inl ErrTokenUnavailable, ledger)
                | Some token \<Rightarrow>
                    (let ev = reserve_event cx env rp turn paths token in
                     case append_event env ledger ev of
                       (Inl e, l) \<Rightarrow> (Inl e, l)
                     | (Inr _, l) \<Rightarrow> (Inr \<lparr>rv_id = le_id ev, rv_token = token,
                          rv_expires_unix_ms = le_expires_unix_ms ev\<rparr>, l)))))"

definition preview :: "undo_ctx \<Rightarrow> undo_env \<Rightarrow> repo \<Rightarrow> undo_request \<Rightarrow> mcp_destructive
    \<Rightarrow> (undo_error + undo_preview) \<times> ledger_event list" where
  "preview cx env rp q mode = (case preview_plan cx rp q mode of
     Inl e \<Rightarrow> (Inl e, rp_ledger rp)
   | Inr pv \<Rightarrow>
       if mode = ModeAuto \<and> up_files pv \<noteq> [] then
         (case reserve cx env rp (up_turn pv) (map pf_path (up_files pv)) of
            (Inl e, l) \<Rightarrow> (Inl e, l)
          | (Inr r, l) \<Rightarrow> (Inr (pv\<lparr>up_token := Some (rv_token r),
                 up_token_expires_unix_ms := Some (rv_expires_unix_ms r),
                 up_reservation := Some (rv_id r)\<rparr>), l))
       else (Inr pv, rp_ledger rp))"

subsection \<open>Human requests\<close>

definition request_event :: "undo_ctx \<Rightarrow> undo_env \<Rightarrow> repo \<Rightarrow> undo_preview \<Rightarrow> ledger_event" where
  "request_event cx env rp pv =
     (let paths = map pf_path (up_files pv) in
      \<lparr>le_v = LEDGER_V, le_event = EVENT_REQUEST, le_id = un_ulid env, le_turn = up_turn pv,
       le_paths = paths, le_token_sha256 = None,
       le_expires_unix_ms = u64_add (un_now env) REQUEST_TTL_MS, le_at_unix_ms = un_now env,
       le_hashes = map (read_current_hash (cx_sha cx) (rp_tree rp)) paths,
       le_allow_modified = up_allow_modified_effective pv, le_undo_turn = None, le_reason = None\<rparr>)"

definition request_human :: "undo_ctx \<Rightarrow> undo_env \<Rightarrow> repo \<Rightarrow> undo_request \<Rightarrow> mcp_destructive
    \<Rightarrow> (undo_error + ledger_event \<times> undo_preview) \<times> ledger_event list" where
  "request_human cx env rp q mode =
     (let ledger = rp_ledger rp in
      if mode \<noteq> ModeConfirm then (Inl (ErrConfirmModeOnly mode), ledger)
      else if \<not> un_lock_ok env then (Inl ErrIo, ledger)
      else case preview cx env rp q mode of
        (Inl e, l) \<Rightarrow> (Inl e, l)
      | (Inr pv, l) \<Rightarrow>
          if up_files pv = [] then (Inl ErrNothingExecutable, l)
          else case live_reservations env l of
            Inl e \<Rightarrow> (Inl e, l)
          | Inr live \<Rightarrow>
              (case first_conflict live (map pf_path (up_files pv)) of
                 Some (i, ps) \<Rightarrow> (Inl (ErrConflict i ps), l)
               | None \<Rightarrow>
                   (let ev = request_event cx env rp pv in
                    case append_event env l ev of
                      (Inl e, l') \<Rightarrow> (Inl e, l')
                    | (Inr _, l') \<Rightarrow> (Inr (ev, pv), l'))))"

subsection \<open>Claims\<close>

record undo_claim =
  cl_request :: ledger_event
  cl_target :: turn_record
  cl_plans :: "plan list"

definition append_terminal :: "undo_env \<Rightarrow> ledger_event list \<Rightarrow> ledger_event \<Rightarrow> string \<Rightarrow> string option
    \<Rightarrow> string option \<Rightarrow> (undo_error + unit) \<times> ledger_event list" where
  "append_terminal env ledger request event undo_turn reason =
     append_event env ledger ((terminal_event event request (un_now env))
       \<lparr>le_undo_turn := undo_turn, le_reason := reason\<rparr>)"

text \<open>Append a terminal row, then fail with the given error (or with the append's own).\<close>

definition refuse_with :: "undo_env \<Rightarrow> ledger_event list \<Rightarrow> ledger_event \<Rightarrow> string \<Rightarrow> string option \<Rightarrow> undo_error
    \<Rightarrow> (undo_error + 'a) \<times> ledger_event list" where
  "refuse_with env ledger request event reason err =
     (case append_terminal env ledger request event None reason of
        (Inl e, l) \<Rightarrow> (Inl e, l)
      | (Inr _, l) \<Rightarrow> (Inl err, l))"

definition drifted_paths :: "undo_ctx \<Rightarrow> repo \<Rightarrow> ledger_event \<Rightarrow> string list" where
  "drifted_paths cx rp g =
     map snd (filter (\<lambda>(i, p). (if i < length (le_hashes g) then Some (le_hashes g ! i) else None)
                       \<noteq> Some (read_current_hash (cx_sha cx) (rp_tree rp) p))
       (enumerate 0 (le_paths g)))"

definition claim_grant :: "undo_ctx \<Rightarrow> undo_env \<Rightarrow> repo \<Rightarrow> ledger_event
    \<Rightarrow> (undo_error + undo_claim) \<times> ledger_event list" where
  "claim_grant cx env rp g =
     (let ledger = rp_ledger rp; drifted = drifted_paths cx rp g in
      if drifted \<noteq> [] then
        refuse_with env ledger g EVENT_FAIL (Some ''preview_stale'') (ErrPreviewStale (le_id g) drifted)
      else case resolve_turn (log_turns (rp_log rp)) (le_turn g) of
        Inl _ \<Rightarrow> (Inl (ErrUnknownTurn (le_turn g)), ledger)
      | Inr target \<Rightarrow>
          (let plans = plan_for cx rp target (le_paths g) (le_allow_modified g);
               executable = set (map (\<lambda>p. fe_path (pn_entry p)) (filter (\<lambda>p. is_revert (pn_kind p)) plans));
               dropped = filter (\<lambda>p. p \<notin> executable) (le_paths g)
           in if dropped \<noteq> [] then
                refuse_with env ledger g EVENT_FAIL (Some ''preview_stale'') (ErrPreviewStale (le_id g) dropped)
              else (Inr \<lparr>cl_request = g, cl_target = target, cl_plans = plans\<rparr>, ledger)))"

definition claim :: "undo_ctx \<Rightarrow> undo_env \<Rightarrow> repo \<Rightarrow> string
    \<Rightarrow> (undo_error + undo_claim) \<times> ledger_event list" where
  "claim cx env rp ref =
     (let ledger = rp_ledger rp in
      if \<not> un_read_ok env then (Inl ErrIo, ledger)
      else case resolve_request ledger ref of
        Inl e \<Rightarrow> (Inl e, ledger)
      | Inr g \<Rightarrow>
          (case state_from_events g ledger (un_now env) of
             Pending \<Rightarrow> claim_grant cx env rp g
           | Expired \<Rightarrow> refuse_with env ledger g EVENT_EXPIRE None (ErrNotPending (le_id g) Expired)
           | other \<Rightarrow> (Inl (ErrNotPending (le_id g) other), ledger)))"

definition claim_token :: "undo_ctx \<Rightarrow> undo_env \<Rightarrow> repo \<Rightarrow> string
    \<Rightarrow> (undo_error + undo_claim) \<times> ledger_event list" where
  "claim_token cx env rp token =
     (let ledger = rp_ledger rp; presented = hash_bytes (cx_sha cx) token in
      if \<not> un_read_ok env then (Inl ErrIo, ledger)
      else case List.find (\<lambda>e. le_token_sha256 e = Some presented)
                 (filter (\<lambda>e. le_event e = EVENT_RESERVE) ledger) of
        None \<Rightarrow> (Inl ErrBadToken, ledger)
      | Some g \<Rightarrow>
          if list_ex (\<lambda>e. le_id e = le_id g \<and> le_event e = EVENT_CONSUME) ledger then (Inl ErrTokenConsumed, ledger)
          else if list_ex (\<lambda>e. le_id e = le_id g \<and> is_terminal e) ledger then (Inl ErrTokenConsumed, ledger)
          else if le_expires_unix_ms g \<le> un_now env then (Inl ErrTokenExpired, ledger)
          else claim_grant cx env rp g)"

definition consume_token :: "undo_env \<Rightarrow> ledger_event list \<Rightarrow> ledger_event \<Rightarrow> (undo_error + unit) \<times> ledger_event list" where
  "consume_token env ledger g = append_event env ledger (terminal_event EVENT_CONSUME g (un_now env))"

definition deny :: "undo_env \<Rightarrow> ledger_event list \<Rightarrow> string
    \<Rightarrow> (undo_error + pending_status) \<times> ledger_event list" where
  "deny env ledger ref =
     (if \<not> un_lock_ok env \<or> \<not> un_read_ok env then (Inl ErrIo, ledger)
      else case resolve_request ledger ref of
        Inl e \<Rightarrow> (Inl e, ledger)
      | Inr g \<Rightarrow>
          (case state_from_events g ledger (un_now env) of
             Pending \<Rightarrow>
               (case append_terminal env ledger g EVENT_DENY None None of
                  (Inl e, l) \<Rightarrow> (Inl e, l)
                | (Inr _, l) \<Rightarrow> (Inr (status_of g l (un_now env)), l))
           | Expired \<Rightarrow> refuse_with env ledger g EVENT_EXPIRE None (ErrNotPending (le_id g) Expired)
           | other \<Rightarrow> (Inl (ErrNotPending (le_id g) other), ledger)))"

definition request_status :: "undo_env \<Rightarrow> ledger_event list \<Rightarrow> string \<Rightarrow> undo_error + pending_status" where
  "request_status env ledger ref =
     (if \<not> un_read_ok env then Inl ErrIo
      else case resolve_request ledger ref of
        Inl e \<Rightarrow> Inl e | Inr g \<Rightarrow> Inr (status_of g ledger (un_now env)))"

definition revert_file :: "undo_ctx \<Rightarrow> revert_env \<Rightarrow> repo \<Rightarrow> file_entry \<Rightarrow> (revert_error + file_entry) \<times> repo" where
  "revert_file cx env rp e = (case execute_revert (cx_sha cx) env (rp_tree rp) (rp_store rp) e of
     (r, w, s) \<Rightarrow> (r, rp\<lparr>rp_tree := w, rp_store := s\<rparr>))"

end
