(* ===== verification/Undo_Apply.thy ===== *)
theory Undo_Apply
  imports Undo
begin

text \<open>
  Carrying an undo out (cli/src/approvecmd.rs, readcmds.rs and the execute action of mcpcmd.rs):
  the guard file that keeps a recorder and other undos away, the reverts in plan order, the undo
  turn appended to the log, and the terminal row of the request ledger. All three callers are
  modelled: the confirmed CLI undo, the approval of a human request, and the token of an agent.
\<close>

subsection \<open>Ids as shown\<close>

text \<open>
  \<open>&body[..4]\<close> on UTF-8 bytes panics inside a character; None is that panic. A byte index is
  a boundary when it is the end or does not point at a continuation byte.
\<close>

definition char_boundary :: "string \<Rightarrow> nat \<Rightarrow> bool" where
  "char_boundary s i \<longleftrightarrow> i = length s \<or> (i < length s \<and> \<not> byte_in 128 191 (s ! i))"

definition ellipsis :: string where
  "ellipsis = [CHR 0xE2, CHR 0x80, CHR 0xA6]"

definition short_id :: "string \<Rightarrow> string option" where
  "short_id i =
     (let body = (case strip_prefix ''t_'' i of Some b \<Rightarrow> b | None \<Rightarrow> i) in
      if length body \<le> 8 then Some i
      else if \<not> char_boundary body 4 \<or> \<not> char_boundary body (length body - 4) then None
      else Some (''t_'' @ take 4 body @ ellipsis @ drop (length body - 4) body))"

subsection \<open>State and environment\<close>

record undo_guard =
  ug_paths :: "string list"
  ug_until_ms :: nat

record site =
  st_repo :: repo
  st_guard :: "undo_guard option"

text \<open>
  The clock at the guard, whether the guard is written, what each revert meets, the id and time
  of the undo turn, and whether the log append succeeds. Rows of the ledger use the coordinator's
  own environment.
\<close>

record apply_env =
  ap_now :: nat
  ap_guard_ok :: bool
  ap_reverts :: "nat \<Rightarrow> revert_env"
  ap_turn_id :: string
  ap_time :: string
  ap_root :: string
  ap_log_ok :: bool
  ap_undo :: undo_env

datatype apply_error =
    NothingToRevert
  | GuardLive nat
  | GuardNotWritten
  | IdPanic
  | RevertFailed revert_error
  | TurnNotAppended
  | RowNotAppended undo_error
  | ClaimRefused undo_error

subsection \<open>The guard file\<close>

text \<open>An absent or expired guard is not live; an unreadable one is as good as absent.\<close>

definition live_undo_guard_reason :: "nat \<Rightarrow> site \<Rightarrow> apply_error option" where
  "live_undo_guard_reason now st = (case st_guard st of
     None \<Rightarrow> None
   | Some g \<Rightarrow> if ug_until_ms g > now then Some (GuardLive (length (ug_paths g))) else None)"

definition write_undo_guard :: "apply_env \<Rightarrow> string list \<Rightarrow> site \<Rightarrow> (apply_error + unit) \<times> site" where
  "write_undo_guard env paths st =
     (if ap_guard_ok env
      then (Inr (), st\<lparr>st_guard := Some \<lparr>ug_paths = paths, ug_until_ms = u64_add (ap_now env) 30000\<rparr>\<rparr>)
      else (Inl GuardNotWritten, st))"

definition finish_undo_guard :: "site \<Rightarrow> site" where
  "finish_undo_guard st = st\<lparr>st_guard := None\<rparr>"

subsection \<open>The undo turn\<close>

definition undo_turn_record :: "apply_env \<Rightarrow> string \<Rightarrow> file_entry list \<Rightarrow> bool \<Rightarrow> undo_origin \<Rightarrow> turn_record" where
  "undo_turn_record env short_target files truncated origin =
     \<lparr>tr_v = 1, tr_id = ap_turn_id env, tr_grade = ''rich'', tr_truncated = truncated,
      tr_started = ap_time env, tr_ended = ap_time env, tr_tool = Some ''agentrec'', tr_model = None,
      tr_session = None, tr_root = ap_root env, tr_prompt_ref = None,
      tr_prompt_excerpt = Some (if truncated
        then ''undo of '' @ short_target @ '' (partial '' @ em_dash @ '' aborted mid-revert)''
        else ''undo of '' @ short_target),
      tr_merges = [], tr_imported = None, tr_files_complete = None,
      tr_origin = Some (undo_origin_str origin), tr_files = files\<rparr>"

definition append_undo_turn :: "apply_env \<Rightarrow> string \<Rightarrow> file_entry list \<Rightarrow> bool \<Rightarrow> undo_origin \<Rightarrow> repo
    \<Rightarrow> (apply_error + string) \<times> repo" where
  "append_undo_turn env short_target files truncated origin rp =
     (let t = undo_turn_record env short_target files truncated origin in
      if ap_log_ok env then (Inr (tr_id t), rp\<lparr>rp_log := rp_log rp @ [Turn t]\<rparr>)
      else (Inl TurnNotAppended, rp))"

subsection \<open>Reverting in plan order\<close>

text \<open>The loop stops at the first failure, keeping the inverse entries of what landed.\<close>

fun revert_all :: "undo_ctx \<Rightarrow> (nat \<Rightarrow> revert_env) \<Rightarrow> nat \<Rightarrow> repo \<Rightarrow> file_entry list
    \<Rightarrow> (revert_error option \<times> file_entry list) \<times> repo" where
  "revert_all cx envs i rp [] = ((None, []), rp)"
| "revert_all cx envs i rp (e # es) =
     (case revert_file cx (envs i) rp e of
        (Inl err, rp') \<Rightarrow> ((Some err, []), rp')
      | (Inr iv, rp') \<Rightarrow>
          (case revert_all cx envs (Suc i) rp' es of
             ((failure, ivs), rp'') \<Rightarrow> ((failure, iv # ivs), rp'')))"

definition revertible :: "plan list \<Rightarrow> file_entry list" where
  "revertible plans = map pn_entry (filter (\<lambda>p. is_revert (pn_kind p)) plans)"

record executed =
  ex_undo_turn :: string
  ex_reverted :: nat
  ex_files :: "string list"

definition ledger_row :: "undo_env \<Rightarrow> ledger_event \<Rightarrow> string \<Rightarrow> string option \<Rightarrow> string option \<Rightarrow> repo
    \<Rightarrow> (undo_error + unit) \<times> repo" where
  "ledger_row env request event undo_turn reason rp =
     (case append_terminal env (rp_ledger rp) request event undo_turn reason of
        (r, l) \<Rightarrow> (r, rp\<lparr>rp_ledger := l\<rparr>))"

text \<open>
  The recovery of an aborted run: a truncated undo turn when something landed, then the fail row;
  a failure of either is only reported. \<open>why\<close> renders the error into the row.
\<close>

definition record_partial :: "apply_env \<Rightarrow> string \<Rightarrow> file_entry list \<Rightarrow> undo_origin \<Rightarrow> repo \<Rightarrow> repo" where
  "record_partial env short_target ivs origin rp =
     (if ivs \<noteq> [] then snd (append_undo_turn env short_target ivs True origin rp) else rp)"

definition execute_claim :: "undo_ctx \<Rightarrow> (revert_error \<Rightarrow> string) \<Rightarrow> apply_env \<Rightarrow> undo_claim \<Rightarrow> undo_origin \<Rightarrow> site
    \<Rightarrow> (apply_error + executed) \<times> site" where
  "execute_claim cx why env c origin st =
     (let es = revertible (cl_plans c) in
      if es = [] then (Inl NothingToRevert, st)
      else case live_undo_guard_reason (ap_now env) st of
        Some e \<Rightarrow> (Inl e, st)
      | None \<Rightarrow>
      (case write_undo_guard env (map fe_path es) st of
        (Inl e, st1) \<Rightarrow> (Inl e, st1)
      | (Inr _, st1) \<Rightarrow>
      (case short_id (tr_id (cl_target c)) of
        None \<Rightarrow> (Inl IdPanic, st1)
      | Some short_target \<Rightarrow>
      (case revert_all cx (ap_reverts env) 0 (st_repo st1) es of
        ((Some e, ivs), rp) \<Rightarrow>
          (let rp1 = record_partial env short_target ivs origin rp;
               rp2 = snd (ledger_row (ap_undo env) (cl_request c) EVENT_FAIL None (Some (why e)) rp1)
           in (Inl (RevertFailed e), finish_undo_guard (st1\<lparr>st_repo := rp2\<rparr>)))
      | ((None, ivs), rp) \<Rightarrow>
          (case append_undo_turn env short_target ivs False origin rp of
             (Inl e, rp1) \<Rightarrow> (Inl e, st1\<lparr>st_repo := rp1\<rparr>)
           | (Inr undo_turn, rp1) \<Rightarrow>
               (case ledger_row (ap_undo env) (cl_request c) EVENT_EXECUTE (Some undo_turn) None rp1 of
                  (Inl e, rp2) \<Rightarrow> (Inl (RowNotAppended e), st1\<lparr>st_repo := rp2\<rparr>)
                | (Inr _, rp2) \<Rightarrow>
                    (Inr \<lparr>ex_undo_turn = undo_turn, ex_reverted = length ivs, ex_files = map fe_path es\<rparr>,
                     finish_undo_guard (st1\<lparr>st_repo := rp2\<rparr>))))))))"

subsection \<open>The callers\<close>

text \<open>
  The printed plan starts with the shortened id of the turn; everything else in it is total.
\<close>

definition plan_prints :: "turn_record \<Rightarrow> bool" where
  "plan_prints target \<longleftrightarrow> short_id (tr_id target) \<noteq> None"

text \<open>\<open>agentrec approve <id>\<close>, and the execute action over MCP: the token is spent after the last
  refusal and before the first write.\<close>

definition approve :: "undo_ctx \<Rightarrow> (revert_error \<Rightarrow> string) \<Rightarrow> apply_env \<Rightarrow> string \<Rightarrow> site
    \<Rightarrow> (apply_error + executed) \<times> site" where
  "approve cx why env ref st =
     (if \<not> un_lock_ok (ap_undo env) then (Inl (ClaimRefused ErrIo), st)
      else case claim cx (ap_undo env) (st_repo st) ref of
        (Inl e, l) \<Rightarrow> (Inl (ClaimRefused e), st\<lparr>st_repo := (st_repo st)\<lparr>rp_ledger := l\<rparr>\<rparr>)
      | (Inr c, l) \<Rightarrow>
          if \<not> plan_prints (cl_target c) then (Inl IdPanic, st)
          else execute_claim cx why env c OriginCli (st\<lparr>st_repo := (st_repo st)\<lparr>rp_ledger := l\<rparr>\<rparr>))"

definition mcp_execute :: "undo_ctx \<Rightarrow> (revert_error \<Rightarrow> string) \<Rightarrow> apply_env \<Rightarrow> string \<Rightarrow> site
    \<Rightarrow> (apply_error + executed) \<times> site" where
  "mcp_execute cx why env token st =
     (if \<not> un_lock_ok (ap_undo env) then (Inl (ClaimRefused ErrIo), st)
      else case claim_token cx (ap_undo env) (st_repo st) token of
        (Inl e, l) \<Rightarrow> (Inl (ClaimRefused e), st\<lparr>st_repo := (st_repo st)\<lparr>rp_ledger := l\<rparr>\<rparr>)
      | (Inr c, l) \<Rightarrow>
          (case live_undo_guard_reason (ap_now env) st of
             Some e \<Rightarrow> (Inl e, st)
           | None \<Rightarrow>
             (case consume_token (ap_undo env) l (cl_request c) of
                (Inl e, l') \<Rightarrow> (Inl (ClaimRefused e), st\<lparr>st_repo := (st_repo st)\<lparr>rp_ledger := l'\<rparr>\<rparr>)
              | (Inr _, l') \<Rightarrow>
                  execute_claim cx why env c OriginMcp (st\<lparr>st_repo := (st_repo st)\<lparr>rp_ledger := l'\<rparr>\<rparr>))))"

text \<open>\<open>agentrec undo\<close>: which turn, what is refused up front, and the confirmed run.\<close>

datatype cli_undo_error =
    CliLookup lookup_error
  | CliNoTurns
  | CliUnattributed
  | CliUnmatchedFiles "string list"
  | CliImported nat
  | CliApply apply_error

datatype cli_undo_done = PreviewOnly "plan list" | NothingDone "plan list" | Reverted nat string

definition merged_ids :: "log_record list \<Rightarrow> string set" where
  "merged_ids records = set (concat (map tr_merges (log_turns records)))"

definition resolve_panic_target :: "turn_record list \<Rightarrow> string set \<Rightarrow> cli_undo_error + turn_record" where
  "resolve_panic_target turns superseded =
     (case List.find (\<lambda>t. tr_tool t \<noteq> Some ''git'' \<and> tr_id t \<notin> superseded) (rev turns) of
        None \<Rightarrow> Inl CliNoTurns
      | Some newest \<Rightarrow> if tr_grade newest \<noteq> ''rich'' then Inl CliUnattributed else Inr newest)"

definition cli_target :: "repo \<Rightarrow> string option \<Rightarrow> cli_undo_error + turn_record" where
  "cli_target rp turn_ref = (case turn_ref of
     Some r \<Rightarrow> (case resolve_turn (log_turns (rp_log rp)) r of Inl e \<Rightarrow> Inl (CliLookup e) | Inr t \<Rightarrow> Inr t)
   | None \<Rightarrow> resolve_panic_target (log_turns (rp_log rp)) (merged_ids (rp_log rp)))"

text \<open>These refusals name the turn by its shortened id.\<close>

definition cli_refusal :: "turn_record \<Rightarrow> cli_undo_error \<Rightarrow> cli_undo_error + 'a" where
  "cli_refusal target err = (if plan_prints target then Inl err else Inl (CliApply IdPanic))"

definition cli_plan :: "undo_ctx \<Rightarrow> repo \<Rightarrow> string option \<Rightarrow> bool \<Rightarrow> string list
    \<Rightarrow> cli_undo_error + turn_record \<times> plan list" where
  "cli_plan cx rp turn_ref allow_modified files =
     (case cli_target rp turn_ref of
        Inl e \<Rightarrow> Inl e
      | Inr target \<Rightarrow>
          (let unmatched = filter (\<lambda>p. p \<notin> set (map fe_path (tr_files target))) files in
           if files \<noteq> [] \<and> unmatched \<noteq> [] then cli_refusal target (CliUnmatchedFiles unmatched)
           else if k2_entries target files \<noteq> []
           then cli_refusal target (CliImported (length (k2_entries target files)))
           else if \<not> plan_prints target then Inl (CliApply IdPanic)
           else Inr (target, plan_for cx rp target files allow_modified)))"

definition cli_run :: "undo_ctx \<Rightarrow> apply_env \<Rightarrow> turn_record \<Rightarrow> file_entry list \<Rightarrow> site
    \<Rightarrow> (cli_undo_error + cli_undo_done) \<times> site" where
  "cli_run cx env target es st =
     (case live_undo_guard_reason (ap_now env) st of
        Some e \<Rightarrow> (Inl (CliApply e), st)
      | None \<Rightarrow>
      (case write_undo_guard env (map fe_path es) st of
        (Inl e, st1) \<Rightarrow> (Inl (CliApply e), st1)
      | (Inr _, st1) \<Rightarrow>
      (case short_id (tr_id target) of
        None \<Rightarrow> (Inl (CliApply IdPanic), st1)
      | Some short_target \<Rightarrow>
      (case revert_all cx (ap_reverts env) 0 (st_repo st1) es of
        ((Some e, ivs), rp) \<Rightarrow>
          (Inl (CliApply (RevertFailed e)),
           finish_undo_guard (st1\<lparr>st_repo := record_partial env short_target ivs OriginCli rp\<rparr>))
      | ((None, ivs), rp) \<Rightarrow>
          (case append_undo_turn env short_target ivs False OriginCli rp of
             (Inl e, rp1) \<Rightarrow> (Inl (CliApply e), st1\<lparr>st_repo := rp1\<rparr>)
           | (Inr undo_turn, rp1) \<Rightarrow>
               (case short_id undo_turn of
                  None \<Rightarrow> (Inl (CliApply IdPanic), st1\<lparr>st_repo := rp1\<rparr>)
                | Some shown \<Rightarrow> (Inr (Reverted (length ivs) shown), finish_undo_guard (st1\<lparr>st_repo := rp1\<rparr>))))))))"

definition cli_undo :: "undo_ctx \<Rightarrow> apply_env \<Rightarrow> string option \<Rightarrow> bool \<Rightarrow> bool \<Rightarrow> string list \<Rightarrow> site
    \<Rightarrow> (cli_undo_error + cli_undo_done) \<times> site" where
  "cli_undo cx env turn_ref confirm allow_modified files st =
     (case cli_plan cx (st_repo st) turn_ref allow_modified files of
        Inl e \<Rightarrow> (Inl e, st)
      | Inr (target, plans) \<Rightarrow>
          if \<not> confirm then (Inr (PreviewOnly plans), st)
          else if revertible plans = [] then (Inr (NothingDone plans), st)
          else cli_run cx env target (revertible plans) st)"

end
