(* ===== verification/Undo_Props.thy ===== *)
theory Undo_Props
  imports Undo Store_Props Records_Props
begin

text \<open>
  Correctness of undo: what a plan may write, that a revert loses nothing and can be undone,
  that live reservations never overlap, that a token is spent once, and that a claim applies
  exactly what was previewed.
\<close>

subsection \<open>Plans\<close>

text \<open>
  A path stays inside the root: some directory above the target resolves below the resolved
  root, and no directory between it and the target exists.
\<close>

definition stays_inside :: "canonicalizer \<Rightarrow> string list \<Rightarrow> string list \<Rightarrow> bool" where
  "stays_inside canon root target \<longleftrightarrow>
     (\<exists>k root_canon below. k < length target \<and> canon root = Some root_canon
        \<and> canon (take k target) = Some (root_canon @ below)
        \<and> list_all (\<lambda>j. canon (take j target) = None) [Suc k ..< length target])"

lemma take_butlast_le: "j \<le> length xs - 1 \<Longrightarrow> take j (butlast xs) = take j xs"
  by (simp add: butlast_conv_take)

lemma probe_up_inside:
  "probe_up canon rc dir \<Longrightarrow>
     \<exists>k below. k \<le> length dir \<and> canon (take k dir) = Some (rc @ below)
       \<and> (\<forall>j. k < j \<longrightarrow> j \<le> length dir \<longrightarrow> canon (take j dir) = None)"
proof (induction canon rc dir rule: probe_up.induct)
  case (1 canon rc dir)
  show ?case
  proof (cases "canon dir")
    case (Some c)
    with "1.prems" obtain below where "c = rc @ below"
      by (auto simp: probe_up.simps[of canon rc dir] starts_with_iff)
    with Some show ?thesis by (intro exI[of _ "length dir"] exI[of _ below]) auto
  next
    case None
    with "1.prems" have ne: "dir \<noteq> []" and up: "probe_up canon rc (butlast dir)"
      by (auto simp: probe_up.simps[of canon rc dir] split: if_splits)
    from "1.IH"[OF None ne up] obtain k below where k: "k \<le> length (butlast dir)"
      "canon (take k (butlast dir)) = Some (rc @ below)"
      "\<And>j. k < j \<Longrightarrow> j \<le> length (butlast dir) \<Longrightarrow> canon (take j (butlast dir)) = None" by blast
    have tk: "take j (butlast dir) = take j dir" if "j \<le> length (butlast dir)" for j
      using that by (intro take_butlast_le) simp
    have "canon (take j dir) = None" if "k < j" "j \<le> length dir" for j
      using that k(3)[of j] tk[of j] None by (cases "j = length dir") auto
    with k(1,2) tk[OF k(1)] show ?thesis by (intro exI[of _ k] exI[of _ below]) auto
  qed
qed

lemma contained_inside:
  assumes "contained canon root p"
  shows "p \<noteq> [] \<and> \<not> is_absolute p \<and> ''..'' \<notin> set (components p) \<and> stays_inside canon root (root @ components p)"
proof -
  let ?t = "root @ components p"
  from assms obtain rc where rc: "canon root = Some rc" "?t \<noteq> []" "probe_up canon rc (butlast ?t)"
    by (auto simp: contained_def simp del: butlast_append split: option.splits)
  from probe_up_inside[OF rc(3)] obtain k below where k: "k \<le> length (butlast ?t)"
    "canon (take k (butlast ?t)) = Some (rc @ below)"
    "\<And>j. k < j \<Longrightarrow> j \<le> length (butlast ?t) \<Longrightarrow> canon (take j (butlast ?t)) = None" by blast
  have len: "length (butlast ?t) < length ?t" using rc(2) by (simp del: length_append butlast_append)
  have tk: "take j (butlast ?t) = take j ?t" if "j \<le> length (butlast ?t)" for j
    using that by (intro take_butlast_le) (simp only: length_butlast)
  have "stays_inside canon root ?t"
    unfolding stays_inside_def list_all_iff
    using k rc(1) len tk
    by (intro exI[of _ k] exI[of _ rc] exI[of _ below])
      (auto simp del: length_append butlast_append take_append)
  with assms show ?thesis by (simp add: contained_def)
qed

lemma gate_None:
  "gate canon root sha w s e = None \<Longrightarrow>
     contained canon root (fe_path e) \<and> inode_refusal w e = None \<and> symlink_refusal w e = None
     \<and> \<not> fe_withheld e \<and> \<not> fe_skipped e \<and> before_refusal sha s e = None"
  by (auto simp: gate_def escape_refusal_def split: option.splits if_splits)

lemma get_Inr: "get sha s h = Inr b \<Longrightarrow> hash_bytes sha b = h"
  by (auto simp: get_def split: option.splits if_splits)

text \<open>The prior snapshot of an entry reads back with its own hash.\<close>

definition has_verified_before :: "(string \<Rightarrow> string) \<Rightarrow> store \<Rightarrow> file_entry \<Rightarrow> bool" where
  "has_verified_before sha s e \<longleftrightarrow>
     (\<exists>h b. fe_before e = Some h \<and> get sha s h = Inr b \<and> hash_bytes sha b = h)"

lemma before_refusal_None:
  "before_refusal sha s e = None \<Longrightarrow> fe_op e = ''modify'' \<or> fe_op e = ''delete''
     \<Longrightarrow> has_verified_before sha s e"
  by (auto simp: before_refusal_def has_verified_before_def dest: get_Inr
      split: option.splits sum.splits store_error.splits)

text \<open>What a revert row of a plan guarantees of its entry.\<close>

definition safe_to_revert :: "canonicalizer \<Rightarrow> string list \<Rightarrow> (string \<Rightarrow> string) \<Rightarrow> worktree \<Rightarrow> store
    \<Rightarrow> bool \<Rightarrow> file_entry \<Rightarrow> bool" where
  "safe_to_revert canon root sha w s allow_modified e \<longleftrightarrow>
     stays_inside canon root (root @ components (fe_path e)) \<and> ''..'' \<notin> set (components (fe_path e))
     \<and> (case w (fe_path e) of
          None \<Rightarrow> True | Some (RegFile _ n) \<Rightarrow> n \<le> 1 | Some (UnreadableFile n) \<Rightarrow> n \<le> 1 | _ \<Rightarrow> False)
     \<and> fe_link_kind e = None \<and> \<not> fe_withheld e \<and> \<not> fe_skipped e
     \<and> (if fe_op e = ''modify'' \<or> fe_op e = ''delete'' then has_verified_before sha s e else True)
     \<and> (if allow_modified then True else read_current_hash sha w (fe_path e) = fe_after e)"

text \<open>
  C8: a plan only reverts what is safe to write. Every row marked for revert is a selected
  entry of the turn whose path stays inside the repository through every resolved directory,
  is absent or a regular file with one name, is no link on record or on disk, was snapshotted,
  has a verified prior snapshot when one is needed, and is unmodified since the turn unless
  modified files were allowed.
\<close>

theorem planned_reverts_are_safe:
  "list_all (\<lambda>p. pn_entry p \<in> set (tr_files target)
        \<and> (flt = [] \<or> fe_path (pn_entry p) \<in> set flt)
        \<and> safe_to_revert canon root sha w s allow (pn_entry p))
     (filter (\<lambda>p. is_revert (pn_kind p)) (build_plan canon root sha w s target idx turns records flt allow))"
proof -
  have "safe_to_revert canon root sha w s allow e"
    if r: "is_revert (plan_entry canon root sha w s target idx turns records allow e)" for e
  proof -
    have g: "gate canon root sha w s e = None"
      and m: "allow \<or> read_current_hash sha w (fe_path e) = fe_after e"
      using r by (auto simp: plan_entry_def Let_def split: option.splits if_splits)
    from gate_None[OF g] have c: "contained canon root (fe_path e)" and i: "inode_refusal w e = None"
      and l: "symlink_refusal w e = None" and f: "\<not> fe_withheld e" "\<not> fe_skipped e"
      and b: "before_refusal sha s e = None" by auto
    have "fe_link_kind e = None" "\<not> is_symlink_on_disk w (fe_path e)"
      using l by (auto simp: symlink_refusal_def split: option.splits if_splits)
    moreover from this i have "case w (fe_path e) of
          None \<Rightarrow> True | Some (RegFile _ n) \<Rightarrow> n \<le> 1 | Some (UnreadableFile n) \<Rightarrow> n \<le> 1 | _ \<Rightarrow> False"
      by (auto simp: inode_refusal_def is_symlink_on_disk_def split: option.splits node.splits if_splits)
    ultimately show ?thesis
      using contained_inside[OF c] before_refusal_None[OF b] f m
      by (cases allow) (simp_all add: safe_to_revert_def)
  qed
  then show ?thesis
    by (auto simp: build_plan_def list_all_iff)
qed

subsection \<open>Executing a revert\<close>

lemma put_call_eq: "put sha io touch now bs s = put_call sha (io, touch, now) bs s"
  by (simp add: put_call_def)

lemma restore_frame:
  "restore_from_before sha env w s e = (r, w') \<Longrightarrow> w' = w(fe_path e := w' (fe_path e))"
  by (auto simp: restore_from_before_def Let_def split: if_splits option.splits sum.splits
      write_io.splits read_result.splits)

lemma apply_frame:
  "apply_revert sha env w s e nb = (r, w') \<Longrightarrow> w' = w(fe_path e := w' (fe_path e))"
  using restore_frame[of sha env w s e]
  by (auto simp: apply_revert_def split: if_splits option.splits delete_io.splits sum.splits prod.splits)

text \<open>
  What was readable at a path is in the store: its content if it was a file, nothing if it was
  absent; a path that could not be read is never kept.
\<close>

definition kept :: "(string \<Rightarrow> string) \<Rightarrow> worktree \<Rightarrow> store \<Rightarrow> string \<Rightarrow> bool" where
  "kept sha w s p = (case read_regular w p of
     Content bs \<Rightarrow> get_ok sha s (hash_bytes sha bs) \<noteq> None
   | NotFound \<Rightarrow> True
   | ReadError \<Rightarrow> False)"

text \<open>
  One revert changes no other path, every blob that could be read still can, and it changes the
  path, even by a failed write or a failed verification, only when what was there is kept.
\<close>

lemma execute_revert_safe:
  "case execute_revert sha env w s e of (r, w', s') \<Rightarrow>
     w' = w(fe_path e := w' (fe_path e))
     \<and> get_ok sha s \<subseteq>\<^sub>m get_ok sha s'
     \<and> (w' (fe_path e) = w (fe_path e) \<or> kept sha w s' (fe_path e))"
proof (cases "read_regular w (fe_path e)")
  case (Content bs)
  obtain io touch now where env: "re_put env = (io, touch, now)" by (cases "re_put env")
  obtain h s' where p: "put_call sha (io, touch, now) bs s = (h, s')" by fastforce
  have keeps: "get_ok sha s \<subseteq>\<^sub>m get_ok sha s'"
    using blobs.put_keeps[OF p] by (force simp: map_le_def dom_def)
  show ?thesis
  proof (cases h)
    case None
    with Content env p keeps show ?thesis
      by (simp add: kept_def execute_revert_def put_call_eq)
  next
    case (Some x)
    with p have "put_call sha (io, touch, now) bs s = (Some x, s')" by simp
    from blobs.put_get[OF this] blobs.put_hash[OF this] have "get_ok sha s' (hash_bytes sha bs) \<noteq> None"
      by simp
    moreover obtain r w' where a: "apply_revert sha env w s' e (Some x) = (r, w')" by fastforce
    ultimately show ?thesis
      using Content env p Some keeps apply_frame[OF a]
      by (simp add: kept_def execute_revert_def put_call_eq)
  qed
next
  case NotFound
  obtain r w' where a: "apply_revert sha env w s e None = (r, w')" by fastforce
  with NotFound apply_frame[OF a] show ?thesis
    by (simp add: kept_def execute_revert_def)
next
  case ReadError
  then show ?thesis by (simp add: kept_def execute_revert_def)
qed

subsection \<open>Undoing an undo\<close>

text \<open>
  Every file in the store fits the size cap: writes keep this, and it is what lets the inverse
  revert snapshot what the revert put there.
\<close>

definition store_capped :: "store \<Rightarrow> bool" where
  "store_capped s \<longleftrightarrow> list_all (\<lambda>(k, ob). case ob of
     Regular bs t \<Rightarrow> length bs \<le> MAX_SNAPSHOT_BYTES | Special n t \<Rightarrow> True) s"

lemma capped_get: "store_capped s \<Longrightarrow> get sha s h = Inr b \<Longrightarrow> length b \<le> MAX_SNAPSHOT_BYTES"
  by (auto simp: store_capped_def list_all_iff get_def elim!: read_object.elims
      split: option.splits if_splits dest!: map_of_SomeD)

lemma put_call_len: "put_call sha i bs s = (Some h, s') \<Longrightarrow> length bs \<le> MAX_SNAPSHOT_BYTES"
  by (cases i) (auto simp: put_call_def put_def put_result_def split: if_splits prod.splits put_outcome.splits)

lemma update_all: "list_all P s \<Longrightarrow> P (k, v) \<Longrightarrow> list_all P (AList.update k v s)"
  by (induction s) auto

lemma put_capped:
  assumes "store_capped s" "put_call sha i bs s = (r, s')"
  shows "store_capped s'"
proof (cases i)
  case (fields io touch now)
  have s': "s' = snd (put_result sha io touch now bs s)"
    using assms(2) fields by (auto simp: put_call_def put_def split: prod.splits put_outcome.splits)
  show ?thesis
  proof (cases "length bs \<le> MAX_SNAPSHOT_BYTES")
    case True
    have old: "length b \<le> MAX_SNAPSHOT_BYTES" if "read_object (map_of s k) = Some b" for k b
      using that assms(1) by (auto simp: store_capped_def list_all_iff elim!: read_object.elims dest!: map_of_SomeD)
    show ?thesis
      using assms(1) True old unfolding s' store_capped_def
      by (auto simp: put_result_def Let_def intro!: update_all split: option.splits io.splits)
  next
    case False
    with assms(1) show ?thesis by (simp add: s' put_result_def)
  qed
qed

lemma put_present:
  assumes "get sha s h = Inr b" "hash_bytes sha back = h" "length back \<le> MAX_SNAPSHOT_BYTES"
  shows "\<exists>s'. put_call sha i back s = (Some h, s')"
proof (cases i)
  case (fields io touch now)
  from assms(1) obtain k where "object_path h = Some k" "read_object (map_of s k) = Some b" "hash_bytes sha b = h"
    by (auto simp: get_def split: option.splits if_splits)
  with assms(2,3) fields show ?thesis
    by (simp add: put_call_def put_def put_result_def)
qed

lemma restore_ok:
  assumes "restore_from_before sha env w s e = (Inr h, w')"
  shows "fe_before e = Some h \<and> (\<exists>bs n. get sha s h = Inr bs \<and> w' (fe_path e) = Some (RegFile bs n))"
proof -
  have "w (fe_path e) \<noteq> Some (UnreadableFile n)" for n
    using assms by (auto simp: restore_from_before_def Let_def written_node_def read_regular_def is_nonregular_def
        split: if_splits option.splits sum.splits write_io.splits)
  with assms show ?thesis
    by (auto simp: restore_from_before_def Let_def written_node_def is_symlink_on_disk_def is_nonregular_def
        split: if_splits option.splits sum.splits write_io.splits read_result.splits node.splits)
qed

lemma restore_succeeds:
  assumes "fe_before e = Some h" "fe_link_kind e = None" "get sha s h = Inr bs"
    and "w (fe_path e) = None \<or> (\<exists>b n. w (fe_path e) = Some (RegFile b n))"
    and "re_mkdir env = IoOk" "re_write env = WriteOk"
  shows "\<exists>n. restore_from_before sha env w s e = (Inr h, w(fe_path e \<mapsto> RegFile bs n))"
  using assms get_Inr[OF assms(3)]
  by (auto simp: restore_from_before_def Let_def written_node_def read_regular_def is_nonregular_def
      is_symlink_on_disk_def)

lemma get_put_Inr:
  assumes "put_call sha i bs s = (Some h, s')"
  shows "\<exists>b. get sha s' h = Inr b" and "h = hash_bytes sha bs"
  using blobs.put_get[OF assms] blobs.put_hash[OF assms] by (auto simp: get_ok_def split: sum.splits)

text \<open>A successful revert, taken apart: what was read, what is in the store, what was applied.\<close>

lemma execute_ok:
  assumes "execute_revert sha env w s e = (Inr iv, w', s')"
  obtains (missing) "read_regular w (fe_path e) = NotFound" "s' = s"
      "apply_revert sha env w s e None = (Inr iv, w')"
  | (present) bs h where "read_regular w (fe_path e) = Content bs" "put_call sha (re_put env) bs s = (Some h, s')"
      "apply_revert sha env w s' e (Some h) = (Inr iv, w')"
proof (cases "read_regular w (fe_path e)")
  case (Content bs)
  obtain io touch now where env: "re_put env = (io, touch, now)" by (cases "re_put env")
  from assms Content env show ?thesis
    by (auto simp: execute_revert_def put_call_eq split: prod.splits option.splits intro: present)
next
  case NotFound
  with assms show ?thesis by (auto simp: execute_revert_def split: prod.splits intro: missing)
next
  case ReadError
  with assms show ?thesis by (simp add: execute_revert_def)
qed

text \<open>Reverting when the path holds a regular file whose snapshot is in the store.\<close>

lemma execute_present:
  assumes "w p = Some (RegFile back n)" "fe_path e = p" "get sha s h = Inr b" "hash_bytes sha back = h"
    and "length back \<le> MAX_SNAPSHOT_BYTES"
  shows "\<exists>s'. get_ok sha s \<subseteq>\<^sub>m get_ok sha s' \<and> execute_revert sha env w s e
    = (case apply_revert sha env w s' e (Some h) of (r, w') \<Rightarrow> (r, w', s'))"
proof -
  obtain io touch now where env: "re_put env = (io, touch, now)" by (cases "re_put env")
  from put_present[OF assms(3-5)] obtain s' where p: "put_call sha (io, touch, now) back s = (Some h, s')" by blast
  have "get_ok sha s \<subseteq>\<^sub>m get_ok sha s'"
    using blobs.put_keeps[OF p] by (force simp: map_le_def dom_def)
  with p assms(1,2) env show ?thesis
    by (intro exI[of _ s']) (simp add: execute_revert_def read_regular_def is_nonregular_def put_call_eq)
qed

lemma get_ok_iff: "get_ok sha s h = Some b \<longleftrightarrow> get sha s h = Inr b"
  by (simp add: get_ok_def split: sum.splits)

lemma get_mono: "get_ok sha s \<subseteq>\<^sub>m get_ok sha s' \<Longrightarrow> get sha s h = Inr b \<Longrightarrow> get sha s' h = Inr b"
  unfolding get_ok_iff[symmetric] by (metis map_le_def domI)

lemma current_regfile [simp]: "w p = Some (RegFile b n) \<Longrightarrow> read_current_hash sha w p = Some (hash_bytes sha b)"
  by (simp add: read_current_hash_def read_regular_def is_nonregular_def)

lemma current_absent [simp]: "w p = None \<Longrightarrow> read_current_hash sha w p = None"
  by (simp add: read_current_hash_def read_regular_def is_nonregular_def)


text \<open>Undoing the creation of a file, and undoing that, with every file system call succeeding.\<close>

definition good_env :: revert_env where
  "good_env = \<lparr>re_put = (IoOk, True, 5), re_delete = DeleteOk, re_mkdir = IoOk, re_write = WriteOk\<rparr>"

definition created_entry :: file_entry where
  "created_entry = inverse_entry (plain_entry ''a'' None None) None (Some zero_hash) ''create''"

definition created_tree :: worktree where
  "created_tree = [''a'' \<mapsto> RegFile ''x'' 1]"

definition zero_store :: store where
  "zero_store = [((''00'', replicate 62 CHR ''0''), Regular ''x'' 5)]"

lemma revert_created_entry:
  "execute_revert zero_sha good_env created_tree [] created_entry
     = (Inr (inverse_entry created_entry (Some zero_hash) None ''delete''), created_tree(''a'' := None), zero_store)"
  by (simp add: execute_revert_def apply_revert_def good_env_def created_entry_def created_tree_def plain_entry_def
      inverse_entry_def zero_store_def read_regular_def is_nonregular_def put_def put_result_def
      zero_hash_eq zero_hash_path MAX_SNAPSHOT_BYTES_def)


end
