(* ===== verification/Undo_Run_Props.thy ===== *)
theory Undo_Run_Props
  imports Undo_Apply Undo_Props
begin

text \<open>
  Correctness of a whole undo run: nothing is lost however it ends, and what it changed is what
  the log and the request ledger say.
\<close>

subsection \<open>Reverting in plan order\<close>

definition changed :: "worktree \<Rightarrow> worktree \<Rightarrow> string set" where
  "changed w w' = {p. w' p \<noteq> w p}"

lemma kept_mono: "kept sha w s p \<Longrightarrow> get_ok sha s \<subseteq>\<^sub>m get_ok sha s' \<Longrightarrow> kept sha w s' p"
  by (auto simp: kept_def map_le_def dom_def split: read_result.splits)

lemma kept_same: "w p = w' p \<Longrightarrow> kept sha w s p = kept sha w' s p"
  by (simp add: kept_def read_regular_def is_nonregular_def)

lemma inverse_path: "apply_revert sha env w s e nb = (Inr iv, w') \<Longrightarrow> fe_path iv = fe_path e"
  by (auto simp: apply_revert_def inverse_entry_def split: if_splits option.splits delete_io.splits sum.splits prod.splits)

lemma revert_file_step:
  assumes "revert_file cx env rp e = (r, rp')"
  shows "changed (rp_tree rp) (rp_tree rp') \<subseteq> {fe_path e}"
    and "get_ok (cx_sha cx) (rp_store rp) \<subseteq>\<^sub>m get_ok (cx_sha cx) (rp_store rp')"
    and "rp_tree rp' p = rp_tree rp p \<or> kept (cx_sha cx) (rp_tree rp) (rp_store rp') p"
    and "rp_log rp' = rp_log rp" and "rp_ledger rp' = rp_ledger rp"
    and "r = Inr iv \<Longrightarrow> fe_path iv = fe_path e"
proof -
  obtain w s where x: "execute_revert (cx_sha cx) env (rp_tree rp) (rp_store rp) e = (r, w, s)"
    and rp': "rp' = rp\<lparr>rp_tree := w, rp_store := s\<rparr>"
    using assms by (auto simp: revert_file_def split: prod.splits)
  from execute_revert_safe[where sha = "cx_sha cx" and env = env and w = "rp_tree rp" and s = "rp_store rp" and e = e] x
  have safe: "w = (rp_tree rp)(fe_path e := w (fe_path e))" "get_ok (cx_sha cx) (rp_store rp) \<subseteq>\<^sub>m get_ok (cx_sha cx) s"
    "w (fe_path e) = rp_tree rp (fe_path e) \<or> kept (cx_sha cx) (rp_tree rp) s (fe_path e)" by auto
  have other: "w q = rp_tree rp q" if "q \<noteq> fe_path e" for q
    using safe(1) that by (metis fun_upd_other)
  show "changed (rp_tree rp) (rp_tree rp') \<subseteq> {fe_path e}"
    using other by (auto simp: changed_def rp')
  show "get_ok (cx_sha cx) (rp_store rp) \<subseteq>\<^sub>m get_ok (cx_sha cx) (rp_store rp')" using safe(2) by (simp add: rp')
  show "rp_tree rp' p = rp_tree rp p \<or> kept (cx_sha cx) (rp_tree rp) (rp_store rp') p"
    using safe(3) other by (cases "p = fe_path e") (auto simp: rp')
  show "rp_log rp' = rp_log rp" "rp_ledger rp' = rp_ledger rp" by (simp_all add: rp')
  show "fe_path iv = fe_path e" if "r = Inr iv"
    using x unfolding that by (cases rule: execute_ok) (auto dest: inverse_path)
qed

text \<open>What the loop did: the entries it finished, and the one it failed on, if any.\<close>

lemma revert_all_run:
  assumes "revert_all cx envs i rp es = ((failure, ivs), rp')"
  shows "get_ok (cx_sha cx) (rp_store rp) \<subseteq>\<^sub>m get_ok (cx_sha cx) (rp_store rp')
    \<and> (\<forall>p. rp_tree rp' p = rp_tree rp p \<or> kept (cx_sha cx) (rp_tree rp) (rp_store rp') p)
    \<and> rp_log rp' = rp_log rp \<and> rp_ledger rp' = rp_ledger rp
    \<and> (case failure of
         None \<Rightarrow> map fe_path ivs = map fe_path es
           \<and> changed (rp_tree rp) (rp_tree rp') \<subseteq> set (map fe_path ivs)
       | Some e \<Rightarrow> \<exists>bad rest. map fe_path es = map fe_path ivs @ bad # rest
           \<and> changed (rp_tree rp) (rp_tree rp') \<subseteq> insert bad (set (map fe_path ivs)))"
  using assms
proof (induction es arbitrary: i rp failure ivs)
  case Nil
  then show ?case by (auto simp: changed_def)
next
  case (Cons e es)
  obtain r rp1 where st: "revert_file cx (envs i) rp e = (r, rp1)" by fastforce
  note step = revert_file_step[OF st]
  show ?case
  proof (cases r)
    case (Inl err)
    with Cons.prems st have "failure = Some err" "ivs = []" "rp' = rp1" by auto
    with step(1-5) show ?thesis by auto
  next
    case (Inr iv)
    obtain f vs where tl: "revert_all cx envs (Suc i) rp1 es = ((f, vs), rp')"
      and eqs: "failure = f" "ivs = iv # vs"
      using Cons.prems st Inr by (auto split: prod.splits)
    note IH = Cons.IH[OF tl]
    have path: "fe_path iv = fe_path e" using step(6) Inr by blast
    have store: "get_ok (cx_sha cx) (rp_store rp) \<subseteq>\<^sub>m get_ok (cx_sha cx) (rp_store rp')"
      using step(2) IH map_le_trans by blast
    have keep: "rp_tree rp' p = rp_tree rp p \<or> kept (cx_sha cx) (rp_tree rp) (rp_store rp') p" for p
    proof (cases "rp_tree rp1 p = rp_tree rp p")
      case True
      from IH have "rp_tree rp' p = rp_tree rp1 p \<or> kept (cx_sha cx) (rp_tree rp1) (rp_store rp') p" by blast
      with True kept_same[of "rp_tree rp1" p "rp_tree rp" "cx_sha cx" "rp_store rp'"] show ?thesis by simp
    next
      case False
      with step(3)[of p] have "kept (cx_sha cx) (rp_tree rp) (rp_store rp1) p" by simp
      with IH kept_mono show ?thesis by blast
    qed
    have ch: "changed (rp_tree rp) (rp_tree rp') \<subseteq> insert (fe_path e) (changed (rp_tree rp1) (rp_tree rp'))"
      using step(1) by (auto simp: changed_def)
    show ?thesis
    proof (cases f)
      case None
      from IH have "map fe_path vs = map fe_path es \<and> changed (rp_tree rp1) (rp_tree rp') \<subseteq> set (map fe_path vs)"
        unfolding None option.case by blast
      then have m: "map fe_path vs = map fe_path es"
        and c: "changed (rp_tree rp1) (rp_tree rp') \<subseteq> set (map fe_path vs)" by blast+
      have "changed (rp_tree rp) (rp_tree rp') \<subseteq> set (map fe_path ivs)"
        using subset_trans[OF ch insert_mono[OF c]] path eqs by simp
      moreover have "map fe_path ivs = map fe_path (e # es)" using m path eqs by simp
      ultimately show ?thesis using IH store keep step(4,5) None eqs by (simp del: set_map list.set_map)
    next
      case (Some err)
      with IH obtain bad rest where m: "map fe_path es = map fe_path vs @ bad # rest"
        and c: "changed (rp_tree rp1) (rp_tree rp') \<subseteq> insert bad (set (map fe_path vs))" by (auto simp del: set_map list.set_map)
      have "changed (rp_tree rp) (rp_tree rp') \<subseteq> insert bad (set (map fe_path ivs))"
        using subset_trans[OF ch insert_mono[OF c]] path eqs by auto
      moreover have "map fe_path (e # es) = map fe_path ivs @ bad # rest" using m path eqs by simp
      ultimately show ?thesis using IH store keep step(4,5) Some eqs by (simp del: set_map list.set_map; blast)
    qed
  qed
qed

subsection \<open>Executing a claim\<close>

lemma append_undo_turn_frame [simp]:
  "rp_tree (snd (append_undo_turn env i ivs tr o' rp)) = rp_tree rp"
  "rp_store (snd (append_undo_turn env i ivs tr o' rp)) = rp_store rp"
  "rp_ledger (snd (append_undo_turn env i ivs tr o' rp)) = rp_ledger rp"
  by (simp_all add: append_undo_turn_def Let_def)

lemma record_partial_simps [simp]:
  "rp_tree (record_partial env i ivs o' rp) = rp_tree rp"
  "rp_store (record_partial env i ivs o' rp) = rp_store rp"
  "rp_ledger (record_partial env i ivs o' rp) = rp_ledger rp"
  "rp_log (record_partial env i ivs o' rp) = rp_log rp
     @ (if ivs \<noteq> [] \<and> ap_log_ok env then [Turn (undo_turn_record env i ivs True o')] else [])"
  by (simp_all add: record_partial_def append_undo_turn_def Let_def)

text \<open>The terminal row a run leaves for the request it settles.\<close>

definition settled_row :: "undo_env \<Rightarrow> ledger_event \<Rightarrow> string \<Rightarrow> string option \<Rightarrow> string option \<Rightarrow> ledger_event" where
  "settled_row env request event undo_turn reason =
     (terminal_event event request (un_now env))\<lparr>le_undo_turn := undo_turn, le_reason := reason\<rparr>"

lemma ledger_row_simps:
  "ledger_row env request event undo_turn reason rp =
     (if un_append_ok env
      then (Inr (), rp\<lparr>rp_ledger := rp_ledger rp @ [settled_row env request event undo_turn reason]\<rparr>)
      else (Inl ErrIo, rp))"
  by (simp add: ledger_row_def append_terminal_def append_event_def settled_row_def)

text \<open>
  The ways a claimed run can end: refused before any write; aborted after some reverts; all
  reverts done, with the turn or the row failing to persist or with both recorded.
\<close>

lemma execute_claim_ends:
  assumes "execute_claim cx why env c origin st = (r, st')"
  obtains (refused) e where "r = Inl e" "e \<in> {NothingToRevert, GuardNotWritten, IdPanic} \<union> range GuardLive"
      "st_repo st' = st_repo st"
  | (aborted) e i ivs rp where "r = Inl (RevertFailed e)" "short_id (tr_id (cl_target c)) = Some i"
      "revert_all cx (ap_reverts env) 0 (st_repo st) (revertible (cl_plans c)) = ((Some e, ivs), rp)"
      "st_repo st' = snd (ledger_row (ap_undo env) (cl_request c) EVENT_FAIL None (Some (why e))
         (record_partial env i ivs origin rp))" "st_guard st' = None"
  | (completed) i ivs rp where "short_id (tr_id (cl_target c)) = Some i" "ivs \<noteq> []"
      "revert_all cx (ap_reverts env) 0 (st_repo st) (revertible (cl_plans c)) = ((None, ivs), rp)"
      "case append_undo_turn env i ivs False origin rp of
         (Inl e, rp1) \<Rightarrow> r = Inl e \<and> st_repo st' = rp1
       | (Inr t, rp1) \<Rightarrow>
           (case ledger_row (ap_undo env) (cl_request c) EVENT_EXECUTE (Some t) None rp1 of
              (Inl e, rp2) \<Rightarrow> r = Inl (RowNotAppended e) \<and> st_repo st' = rp2
            | (Inr u, rp2) \<Rightarrow> st_repo st' = rp2 \<and> st_guard st' = None
                \<and> r = Inr \<lparr>ex_undo_turn = t, ex_reverted = length ivs,
                          ex_files = map fe_path (revertible (cl_plans c))\<rparr>)"
proof -
  let ?es = "revertible (cl_plans c)"
  note ex = assms[unfolded execute_claim_def Let_def]
  show thesis
  proof (cases "?es = [] \<or> live_undo_guard_reason (ap_now env) st \<noteq> None \<or> \<not> ap_guard_ok env
      \<or> short_id (tr_id (cl_target c)) = None")
    case True
    with ex have "\<exists>e. r = Inl e \<and> e \<in> {NothingToRevert, GuardNotWritten, IdPanic} \<union> range GuardLive
        \<and> st_repo st' = st_repo st"
      by (auto simp: live_undo_guard_reason_def write_undo_guard_def
          split: if_splits option.splits prod.splits sum.splits)
    then show thesis using refused by blast
  next
    case False
    then obtain i where es: "?es \<noteq> []" and live: "live_undo_guard_reason (ap_now env) st = None"
      and ok: "ap_guard_ok env" and i: "short_id (tr_id (cl_target c)) = Some i" by auto
    obtain f ivs rp where run: "revert_all cx (ap_reverts env) 0 (st_repo st) ?es = ((f, ivs), rp)"
      by (metis prod.exhaust)
    show thesis
    proof (cases f)
      case (Some e)
      with ex es live ok i run show thesis
        by (intro aborted[of e i ivs rp]) (auto simp: write_undo_guard_def finish_undo_guard_def)
    next
      case None
      have "map fe_path ivs = map fe_path ?es" using revert_all_run[OF run] unfolding None option.case by blast
      with es have "ivs \<noteq> []" by auto
      with ex es live ok i run None show thesis
        by (intro completed[of i ivs rp])
          (auto simp: write_undo_guard_def finish_undo_guard_def split: prod.splits sum.splits)
    qed
  qed
qed

lemma execute_claim_repo:
  assumes "execute_claim cx why env c origin st = (r, st')"
  obtains (same) "st_repo st' = st_repo st"
  | (ran) f ivs rp where "revert_all cx (ap_reverts env) 0 (st_repo st) (revertible (cl_plans c)) = ((f, ivs), rp)"
      "rp_tree (st_repo st') = rp_tree rp" "rp_store (st_repo st') = rp_store rp"
  using assms
proof (cases rule: execute_claim_ends)
  case refused
  then show thesis using same by blast
next
  case (aborted e i ivs rp)
  then show thesis by (intro ran[of "Some e" ivs rp]) (auto simp: ledger_row_simps)
next
  case (completed i ivs rp)
  then show thesis
    by (intro ran[of None ivs rp]) (auto simp: append_undo_turn_def Let_def ledger_row_simps split: if_splits)
qed

text \<open>
  C4: executing a claim never loses content, however it ends: refused, aborted half way, or with
  the log or the ledger failing afterwards. Every blob that could be read still can, and every
  path whose content changed at all was readable before and is kept in the store.
\<close>

theorem claim_execution_loses_nothing:
  "case execute_claim cx why env c origin st of (r, st') \<Rightarrow>
     get_ok (cx_sha cx) (rp_store (st_repo st)) \<subseteq>\<^sub>m get_ok (cx_sha cx) (rp_store (st_repo st'))
     \<and> (\<forall>p. rp_tree (st_repo st') p = rp_tree (st_repo st) p
          \<or> kept (cx_sha cx) (rp_tree (st_repo st)) (rp_store (st_repo st')) p)"
proof -
  obtain r st' where x: "execute_claim cx why env c origin st = (r, st')" by fastforce
  then show ?thesis
  proof (cases rule: execute_claim_repo)
    case same
    with x show ?thesis by simp
  next
    case (ran f ivs rp)
    with x revert_all_run[OF ran(1)] show ?thesis by simp
  qed
qed


end
