(* ===== verification/Undo_Ledger_Props.thy ===== *)
theory Undo_Ledger_Props
  imports Undo_Run_Props
begin

text \<open>
  The request ledger as a protocol: every operation of the coordinator, and every run that
  settles a request, is a step of an abstract ledger that only appends, and a reservation is
  only granted over paths that no live one holds. From this: live reservations never overlap,
  a token is spent once, and a claim is bound to what was previewed.
\<close>

subsection \<open>The abstract ledger\<close>

inductive coordinator_step :: "nat \<Rightarrow> ledger_event list \<Rightarrow> ledger_event list \<Rightarrow> bool" where
  settle: "list_all (\<lambda>e. \<not> is_reserving e) evs \<Longrightarrow> coordinator_step now l (l @ evs)"
| grant: "first_conflict (live_events l now) (le_paths ev) = None \<Longrightarrow> coordinator_step now l (l @ [ev])"

inductive_cases coordinator_stepE: "coordinator_step now l l'"

lemma quiet [simp, intro]: "coordinator_step now l l"
  using settle[of "[]" now l] by simp

lemma settle_one: "\<not> is_reserving e \<Longrightarrow> coordinator_step now l (l @ [e])"
  by (rule settle) simp

lemma first_conflict_None:
  "first_conflict evs wanted = None \<longleftrightarrow> (\<forall>ev \<in> set evs. set (le_paths ev) \<inter> set wanted = {})"
  by (induction evs) (auto simp: Let_def filter_empty_conv)

lemma not_reserving_row [simp]:
  "is_reserving (settled_row env g EVENT_EXECUTE t r) = False"
  "is_reserving (settled_row env g EVENT_FAIL t r) = False"
  "is_reserving (settled_row env g EVENT_EXPIRE t r) = False"
  "is_reserving (settled_row env g EVENT_DENY t r) = False"
  "is_reserving (terminal_event EVENT_CONSUME g now) = False"
  by (simp_all add: is_reserving_def settled_row_def terminal_event_def event_names)

lemma append_terminal_eq:
  "append_terminal env l g event t r =
     (if un_append_ok env then (Inr (), l @ [settled_row env g event t r]) else (Inl ErrIo, l))"
  by (simp add: append_terminal_def append_event_def settled_row_def)

lemma refuse_with_eq:
  "refuse_with env l g event r err =
     (if un_append_ok env then (Inl err, l @ [settled_row env g event None r]) else (Inl ErrIo, l))"
  by (simp add: refuse_with_def append_terminal_eq)

subsection \<open>Every operation is a step\<close>

lemma reserve_step: "coordinator_step (un_now env) (rp_ledger rp) (snd (reserve cx env rp turn paths))"
  by (auto simp: reserve_def Let_def live_reservations_def append_event_def reserve_event_def
      split: option.splits sum.splits intro!: grant)

lemma preview_step: "coordinator_step (un_now env) (rp_ledger rp) (snd (preview cx env rp q mode))"
  using reserve_step[of env rp cx]
  by (auto simp: preview_def split: sum.splits prod.splits) (metis snd_conv)+

lemma request_step: "coordinator_step (un_now env) (rp_ledger rp) (snd (request_human cx env rp q mode))"
proof -
  have "snd (preview cx env rp q mode) = rp_ledger rp" if "mode = ModeConfirm"
    using that by (auto simp: preview_def split: sum.splits)
  then show ?thesis
    by (auto simp: request_human_def Let_def live_reservations_def append_event_def request_event_def
        split: option.splits sum.splits prod.splits intro!: grant)
qed

lemma claim_grant_shape:
  "\<exists>evs. snd (claim_grant cx env rp g) = rp_ledger rp @ evs \<and> list_all (\<lambda>e. \<not> is_reserving e) evs"
  by (auto simp: claim_grant_def Let_def refuse_with_eq split: sum.splits intro: exI[of _ "[]"])

lemma claim_shape:
  "\<exists>evs. snd (claim cx env rp ref) = rp_ledger rp @ evs \<and> list_all (\<lambda>e. \<not> is_reserving e) evs"
  using claim_grant_shape[of cx env rp]
  by (auto simp: claim_def Let_def refuse_with_eq split: sum.splits request_state.splits intro: exI[of _ "[]"])

lemma claim_token_shape:
  "\<exists>evs. snd (claim_token cx env rp tok) = rp_ledger rp @ evs \<and> list_all (\<lambda>e. \<not> is_reserving e) evs"
  using claim_grant_shape[of cx env rp]
  by (auto simp: claim_token_def Let_def split: option.splits intro: exI[of _ "[]"])

lemma deny_step: "coordinator_step now l (snd (deny env l ref))"
  by (auto simp: deny_def append_terminal_eq refuse_with_eq
      split: sum.splits request_state.splits intro!: settle_one)

lemma execute_claim_shape:
  assumes "execute_claim cx why env c origin st = (r, st')"
  shows "\<exists>evs. rp_ledger (st_repo st') = rp_ledger (st_repo st) @ evs \<and> list_all (\<lambda>e. \<not> is_reserving e) evs"
  using assms
proof (cases rule: execute_claim_ends)
  case (refused e)
  then show ?thesis by (intro exI[of _ "[]"]) simp
next
  case (aborted e i ivs rp)
  have "rp_ledger rp = rp_ledger (st_repo st)" using revert_all_run[OF aborted(3)] by blast
  with aborted(4) show ?thesis by (auto simp: ledger_row_simps)
next
  case (completed i ivs rp)
  have "rp_ledger rp = rp_ledger (st_repo st)" using revert_all_run[OF completed(3)] by blast
  with completed(4) show ?thesis
    by (auto simp: append_undo_turn_def ledger_row_simps Let_def split: if_splits)
qed

text \<open>
  An operation of any process on the repository: what it is asked, and everything it finds
  beside the ledger (tree, blobs, log, guard, clock, outcomes of its calls).
\<close>

datatype ledger_call =
    CallPreview undo_request mcp_destructive
  | CallRequest undo_request mcp_destructive
  | CallApprove string
  | CallExecute string
  | CallDeny string

record ledger_op =
  lo_cx :: undo_ctx
  lo_env :: apply_env
  lo_why :: "revert_error \<Rightarrow> string"
  lo_site :: site
  lo_call :: ledger_call

definition op_now :: "ledger_op \<Rightarrow> nat" where
  "op_now op = un_now (ap_undo (lo_env op))"

definition with_ledger :: "site \<Rightarrow> ledger_event list \<Rightarrow> site" where
  "with_ledger st l = st\<lparr>st_repo := (st_repo st)\<lparr>rp_ledger := l\<rparr>\<rparr>"

definition run_op :: "ledger_event list \<Rightarrow> ledger_op \<Rightarrow> ledger_event list" where
  "run_op l op = (let env = ap_undo (lo_env op); st = with_ledger (lo_site op) l in
     case lo_call op of
       CallPreview q mode \<Rightarrow> snd (preview (lo_cx op) env (st_repo st) q mode)
     | CallRequest q mode \<Rightarrow> snd (request_human (lo_cx op) env (st_repo st) q mode)
     | CallApprove ref \<Rightarrow> rp_ledger (st_repo (snd (approve (lo_cx op) (lo_why op) (lo_env op) ref st)))
     | CallExecute tok \<Rightarrow> rp_ledger (st_repo (snd (mcp_execute (lo_cx op) (lo_why op) (lo_env op) tok st)))
     | CallDeny ref \<Rightarrow> snd (deny env l ref))"

lemma append_quiet:
  assumes "l1 = l @ e1" "list_all (\<lambda>e. \<not> is_reserving e) e1"
    and "\<exists>e2. l2 = l1 @ e2 \<and> list_all (\<lambda>e. \<not> is_reserving e) e2"
  shows "coordinator_step now l l2"
proof -
  from assms(3) obtain e2 where "l2 = l1 @ e2" "list_all (\<lambda>e. \<not> is_reserving e) e2" by blast
  with assms(1,2) settle[of "e1 @ e2" now l] show ?thesis by simp
qed

lemma approve_step:
  "coordinator_step now (rp_ledger (st_repo st)) (rp_ledger (st_repo (snd (approve cx why env ref st))))"
proof -
  obtain r l where c: "claim cx (ap_undo env) (st_repo st) ref = (r, l)" by fastforce
  with claim_shape[of cx "ap_undo env" "st_repo st" ref]
  obtain e1 where e1: "l = rp_ledger (st_repo st) @ e1" "list_all (\<lambda>e. \<not> is_reserving e) e1" by auto
  show ?thesis
  proof (cases r)
    case (Inl e)
    with c e1 show ?thesis by (auto simp: approve_def intro: settle)
  next
    case (Inr g)
    let ?st = "st\<lparr>st_repo := (st_repo st)\<lparr>rp_ledger := l\<rparr>\<rparr>"
    obtain x st' where x: "execute_claim cx why env g OriginCli ?st = (x, st')" by fastforce
    from append_quiet[OF e1, of "rp_ledger (st_repo st')"] execute_claim_shape[OF x]
    have "coordinator_step now (rp_ledger (st_repo st)) (rp_ledger (st_repo st'))" by simp
    with c Inr x show ?thesis by (auto simp: approve_def)
  qed
qed

lemma mcp_execute_step:
  "coordinator_step now (rp_ledger (st_repo st)) (rp_ledger (st_repo (snd (mcp_execute cx why env tok st))))"
proof -
  obtain r l where c: "claim_token cx (ap_undo env) (st_repo st) tok = (r, l)" by fastforce
  with claim_token_shape[of cx "ap_undo env" "st_repo st" tok]
  obtain e1 where e1: "l = rp_ledger (st_repo st) @ e1" "list_all (\<lambda>e. \<not> is_reserving e) e1" by auto
  show ?thesis
  proof (cases r)
    case (Inl e)
    with c e1 show ?thesis by (auto simp: mcp_execute_def intro: settle)
  next
    case (Inr g)
    obtain y l' where k: "consume_token (ap_undo env) l (cl_request g) = (y, l')" by fastforce
    then obtain e2 where e2: "l' = rp_ledger (st_repo st) @ e2" "list_all (\<lambda>e. \<not> is_reserving e) e2"
      using e1 by (auto simp: consume_token_def append_event_def split: if_splits)
    let ?st = "st\<lparr>st_repo := (st_repo st)\<lparr>rp_ledger := l'\<rparr>\<rparr>"
    obtain x st' where x: "execute_claim cx why env g OriginMcp ?st = (x, st')" by fastforce
    from append_quiet[OF e2, of "rp_ledger (st_repo st')"] execute_claim_shape[OF x]
    have "coordinator_step now (rp_ledger (st_repo st)) (rp_ledger (st_repo st'))" by simp
    with c Inr x k e2 show ?thesis
      by (auto simp: mcp_execute_def split: option.splits sum.splits intro: settle)
  qed
qed

lemma run_op_step: "coordinator_step (op_now op) l (run_op l op)"
proof (cases "lo_call op")
  case (CallPreview q m)
  then show ?thesis
    using preview_step[of "ap_undo (lo_env op)" "st_repo (with_ledger (lo_site op) l)"]
    by (simp add: run_op_def op_now_def with_ledger_def)
next
  case (CallRequest q m)
  then show ?thesis
    using request_step[of "ap_undo (lo_env op)" "st_repo (with_ledger (lo_site op) l)"]
    by (simp add: run_op_def op_now_def with_ledger_def)
next
  case (CallApprove ref)
  then show ?thesis
    using approve_step[of _ "with_ledger (lo_site op) l"] by (simp add: run_op_def with_ledger_def)
next
  case (CallExecute tok)
  then show ?thesis
    using mcp_execute_step[of _ "with_ledger (lo_site op) l"] by (simp add: run_op_def with_ledger_def)
next
  case (CallDeny ref)
  then show ?thesis using deny_step by (simp add: run_op_def)
qed

subsection \<open>Reservations never overlap\<close>

definition disjoint_grants :: "ledger_event list \<Rightarrow> bool" where
  "disjoint_grants evs \<longleftrightarrow> sorted_wrt (\<lambda>a b. set (le_paths a) \<inter> set (le_paths b) = {}) evs"

lemma disjoint_filter: "disjoint_grants evs \<Longrightarrow> disjoint_grants (filter P evs)"
  by (simp add: disjoint_grants_def sorted_wrt_filter)

lemma live_later: "now \<le> t \<Longrightarrow> live_events l t = filter (\<lambda>e. le_expires_unix_ms e > t) (live_events l now)"
  by (auto simp: live_events_def intro: filter_cong)

lemma live_append_quiet:
  "list_all (\<lambda>e. \<not> is_reserving e) evs \<Longrightarrow>
     live_events (l @ evs) t = filter (\<lambda>e. le_id e \<notin> released_ids evs) (live_events l t)"
  by (simp add: live_events_def released_ids_def list_all_iff filter_empty_conv) (auto intro: filter_cong)

lemma live_append_grant:
  "\<exists>P tl. live_events (l @ [ev]) t = filter P (live_events l t) @ tl \<and> (tl = [] \<or> tl = [ev])"
proof -
  define new where "new e \<longleftrightarrow> is_reserving e \<and> le_id e \<notin> released_ids (l @ [ev]) \<and> le_expires_unix_ms e > t" for e
  have released: "released_ids (l @ [ev]) = released_ids l \<union> released_ids [ev]"
    by (simp add: released_ids_def)
  have all: "live_events (l @ [ev]) t = filter new l @ filter new [ev]"
    unfolding live_events_def filter_filter filter_append new_def
    by (rule arg_cong2[where f = "(@)"]) (rule filter_cong; auto)+
  have "filter new l = filter (\<lambda>e. le_id e \<notin> released_ids [ev]) (live_events l t)"
    unfolding live_events_def filter_filter new_def released by (rule filter_cong) auto
  with all have "live_events (l @ [ev]) t
      = filter (\<lambda>e. le_id e \<notin> released_ids [ev]) (live_events l t) @ filter new [ev]" by simp
  then show ?thesis by (metis filter.simps)
qed

lemma step_disjoint:
  assumes "coordinator_step now l l'" "\<And>t. t0 \<le> t \<Longrightarrow> disjoint_grants (live_events l t)" "t0 \<le> now" "now \<le> t"
  shows "disjoint_grants (live_events l' t)"
proof -
  from assms(1) consider (quiet) evs where "l' = l @ evs" "list_all (\<lambda>e. \<not> is_reserving e) evs"
    | (granted) ev where "l' = l @ [ev]" "first_conflict (live_events l now) (le_paths ev) = None"
    by (rule coordinator_stepE) blast+
  then show ?thesis
  proof cases
    case (quiet evs)
    with assms(2)[of t] assms(3,4) show ?thesis
      by (simp add: live_append_quiet disjoint_filter)
  next
    case (granted ev)
    obtain P tl where P: "live_events l' t = filter P (live_events l t) @ tl" "tl = [] \<or> tl = [ev]"
      using live_append_grant[of l ev t] granted by blast
    have "set (le_paths e) \<inter> set (le_paths ev) = {}" if "e \<in> set (live_events l t)" for e
      using granted that assms(4) by (auto simp: first_conflict_None live_later[of now t])
    moreover have "disjoint_grants (filter P (live_events l t))"
      using assms(2)[of t] assms(3,4) by (simp add: disjoint_filter)
    ultimately show ?thesis
      using P by (elim disjE) (simp_all add: disjoint_grants_def sorted_wrt_append)
  qed
qed

definition ledger_inv :: "ledger_event list \<Rightarrow> unit list \<Rightarrow> ledger_op list \<Rightarrow> bool" where
  "ledger_inv l out past \<longleftrightarrow>
     (\<forall>t. (\<forall>op \<in> set past. op_now op \<le> t) \<longrightarrow> disjoint_grants (live_events l t))"

lemma Max_clock: "\<exists>t0. (\<forall>op \<in> set past. op_now op \<le> t0) \<and> (\<forall>t. (\<forall>op \<in> set past. op_now op \<le> t) \<longrightarrow> t0 \<le> t)"
  by (intro exI[of _ "Max (insert 0 (op_now ` set past))"]) (auto simp: Max_ge_iff)

interpretation undo_ledger: machine_invariant "[]" "\<lambda>l op. (run_op l op, [])"
  "\<lambda>past op. \<forall>p \<in> set past. op_now p \<le> op_now op" ledger_inv
proof unfold_locales
  show "ledger_inv [] [] []"
    by (simp add: ledger_inv_def live_events_def disjoint_grants_def)
next
  fix s out past e s' and new :: "unit list"
  assume inv: "ledger_inv s out past" and al: "\<forall>p \<in> set past. op_now p \<le> op_now e"
    and st: "(run_op s e, []) = (s', new)"
  obtain t0 where t0: "\<forall>op \<in> set past. op_now op \<le> t0" "\<And>t. \<forall>op \<in> set past. op_now op \<le> t \<Longrightarrow> t0 \<le> t"
    using Max_clock[of past] by blast
  have "disjoint_grants (live_events s t)" if "t0 \<le> t" for t
    using inv t0(1) that unfolding ledger_inv_def by (meson le_trans)
  moreover have "t0 \<le> op_now e" using al t0(2) by blast
  ultimately show "ledger_inv s' (out @ new) (past @ [e])"
    using step_disjoint[OF run_op_step[of e s]] st by (auto simp: ledger_inv_def)
qed

lemma run_machine_foldl: "fst (run_machine (\<lambda>l op. (f l op, [])) l out ops) = foldl f l ops"
  by (induction ops arbitrary: l out) auto

text \<open>
  C11: live reservations never overlap. Whatever sequence of previews, requests, approvals, token
  executions and denials any processes run, with clocks that do not go back, at any later time
  no two live reservations of the ledger hold a common path, so no two undos are ever granted
  over the same file.
\<close>

theorem live_reservations_disjoint:
  assumes "sorted (map op_now ops)" and "list_all (\<lambda>op. op_now op \<le> now) ops"
  shows "disjoint_grants (live_events (foldl run_op [] ops) now)"
proof -
  have "\<forall>p \<in> set (take i ops). op_now p \<le> op_now (ops ! i)" if "i < length ops" for i
    using assms(1) that by (auto simp: in_set_conv_nth sorted_map_nth_le)
  then have "ledger_inv (foldl run_op [] ops) (snd (run_machine (\<lambda>l op. (run_op l op, [])) [] [] ops)) ops"
    using undo_ledger.run_inv[of ops] by (simp add: run_machine_foldl)
  with assms(2) show ?thesis by (simp add: ledger_inv_def list_all_iff)
qed

subsection \<open>Tokens and claims\<close>

lemma claim_grant_ok:
  assumes "claim_grant cx env rp g = (Inr c, l)"
  shows "cl_request c = g" and "l = rp_ledger rp" and "drifted_paths cx rp g = []"
    and "cl_plans c = plan_for cx rp (cl_target c) (le_paths g) (le_allow_modified g)"
    and "resolve_turn (log_turns (rp_log rp)) (le_turn g) = Inr (cl_target c)"
    and "set (le_paths g) \<subseteq> fe_path ` set (revertible (cl_plans c))"
  using assms
  by (auto simp: claim_grant_def Let_def refuse_with_eq filter_empty_conv revertible_def
      split: if_splits sum.splits)

lemma resolve_request_mem: "resolve_request evs ref = Inr g \<Longrightarrow> g \<in> set evs"
proof -
  assume "resolve_request evs ref = Inr g"
  then have "filter (\<lambda>e. le_id e = ref \<or> starts_with (le_id e) ref)
      (filter (\<lambda>e. le_event e = EVENT_REQUEST) evs) = [g]"
    by (auto simp: resolve_request_def split: list.splits)
  from arg_cong[OF this, of set] show "g \<in> set evs" by auto
qed

text \<open>What a claim rests on: a live row of the ledger that nothing has settled.\<close>

lemma claim_ok:
  assumes "claim cx env rp ref = (Inr c, l)"
  shows "claim_grant cx env rp (cl_request c) = (Inr c, l) \<and> cl_request c \<in> set (rp_ledger rp)
    \<and> un_now env < le_expires_unix_ms (cl_request c)
    \<and> \<not> list_ex (\<lambda>e. le_id e = le_id (cl_request c) \<and> is_terminal e) (rp_ledger rp)"
proof -
  from assms obtain g where g: "resolve_request (rp_ledger rp) ref = Inr g"
    "state_from_events g (rp_ledger rp) (un_now env) = Pending" "claim_grant cx env rp g = (Inr c, l)"
    by (auto simp: claim_def Let_def refuse_with_eq split: if_splits sum.splits request_state.splits)
  have "g \<in> set (rp_ledger rp)"
    by (rule resolve_request_mem[OF g(1)])
  moreover have "un_now env < le_expires_unix_ms g
    \<and> \<not> list_ex (\<lambda>e. le_id e = le_id g \<and> is_terminal e) (rp_ledger rp)"
    using g(2) by (auto simp: state_from_events_def Let_def list_ex_iff is_terminal_def TERMINAL_EVENTS_def split: if_splits)
  ultimately show ?thesis using g(3) claim_grant_ok(1)[OF g(3)] by simp
qed

lemma claim_token_ok:
  assumes "claim_token cx env rp tok = (Inr c, l)"
  shows "claim_grant cx env rp (cl_request c) = (Inr c, l)
    \<and> List.find (\<lambda>e. le_token_sha256 e = Some (hash_bytes (cx_sha cx) tok))
        (filter (\<lambda>e. le_event e = EVENT_RESERVE) (rp_ledger rp)) = Some (cl_request c)
    \<and> un_now env < le_expires_unix_ms (cl_request c)
    \<and> \<not> list_ex (\<lambda>e. le_id e = le_id (cl_request c) \<and> is_terminal e) (rp_ledger rp)"
proof -
  from assms obtain g where g: "List.find (\<lambda>e. le_token_sha256 e = Some (hash_bytes (cx_sha cx) tok))
        (filter (\<lambda>e. le_event e = EVENT_RESERVE) (rp_ledger rp)) = Some g"
    "un_now env < le_expires_unix_ms g" "\<not> list_ex (\<lambda>e. le_id e = le_id g \<and> is_terminal e) (rp_ledger rp)"
    "claim_grant cx env rp g = (Inr c, l)"
    by (auto simp: claim_token_def Let_def split: if_splits option.splits)
  with claim_grant_ok(1)[OF g(4)] show ?thesis by simp
qed

lemma find_append: "List.find P xs = Some x \<Longrightarrow> List.find P (xs @ ys) = Some x"
  by (induction xs) (auto split: if_splits)

text \<open>
  C12: a token is spent once. After a claim by token whose consumption was recorded, every later
  claim with that token is refused as consumed (or fails to read the ledger), whatever rows were
  appended in between and whatever the repository looks like, in particular also when the
  process died before the first write.
\<close>

theorem token_spent_once:
  assumes "claim_token cx env rp tok = (Inr c, l)"
    and "consume_token env l (cl_request c) = (Inr (), l')"
  shows "fst (claim_token cx env' (rp'\<lparr>rp_ledger := l' @ rest\<rparr>) tok)
    = Inl (if un_read_ok env' then ErrTokenConsumed else ErrIo)"
proof -
  note ok = claim_token_ok[OF assms(1)]
  have l: "l = rp_ledger rp" using claim_grant_ok(2) ok by blast
  let ?row = "terminal_event EVENT_CONSUME (cl_request c) (un_now env)"
  have l': "l' = rp_ledger rp @ [?row]"
    using assms(2) l by (auto simp: consume_token_def append_event_def split: if_splits)
  have "List.find (\<lambda>e. le_token_sha256 e = Some (hash_bytes (cx_sha cx) tok))
      (filter (\<lambda>e. le_event e = EVENT_RESERVE) (l' @ rest)) = Some (cl_request c)"
    using ok unfolding l' by (simp add: find_append)
  moreover have "list_ex (\<lambda>e. le_id e = le_id (cl_request c) \<and> le_event e = EVENT_CONSUME) (l' @ rest)"
    by (simp add: l' terminal_event_def)
  ultimately show ?thesis by (simp add: claim_token_def Let_def)
qed

lemma drifted_empty:
  assumes "drifted_paths cx rp g = []"
  shows "map (read_current_hash (cx_sha cx) (rp_tree rp)) (le_paths g) = take (length (le_paths g)) (le_hashes g)"
proof (rule nth_equalityI)
  have at: "i < length (le_hashes g) \<and> le_hashes g ! i = read_current_hash (cx_sha cx) (rp_tree rp) (le_paths g ! i)"
    if "i < length (le_paths g)" for i
  proof -
    have "(i, le_paths g ! i) \<in> set (enumerate 0 (le_paths g))"
      using that by (simp add: in_set_enumerate_eq)
    with assms show ?thesis
      unfolding drifted_paths_def map_is_Nil_conv filter_empty_conv by (auto split: if_splits)
  qed
  show "length (map (read_current_hash (cx_sha cx) (rp_tree rp)) (le_paths g))
      = length (take (length (le_paths g)) (le_hashes g))"
    using at by (metis length_map length_take linorder_not_le min.absorb2 min_def nat_less_le order_refl)
  show "map (read_current_hash (cx_sha cx) (rp_tree rp)) (le_paths g) ! i
      = take (length (le_paths g)) (le_hashes g) ! i"
    if "i < length (map (read_current_hash (cx_sha cx) (rp_tree rp)) (le_paths g))" for i
    using that at[of i] by simp
qed

text \<open>
  C13: a claim executes what was previewed. A claim that succeeds, by request id or by token,
  rests on a row of the ledger that has not expired and that nothing has settled; every file
  still has the content hash recorded when the row was written; and, for a row that names its
  files, the planned reverts are of exactly these files.
\<close>

theorem claim_bound_to_preview:
  assumes "claim cx env rp ref = (Inr c, l) \<or> claim_token cx env rp ref = (Inr c, l)"
  shows "let g = cl_request c in g \<in> set (rp_ledger rp) \<and> l = rp_ledger rp
    \<and> un_now env < le_expires_unix_ms g
    \<and> \<not> list_ex (\<lambda>e. le_id e = le_id g \<and> is_terminal e) (rp_ledger rp)
    \<and> map (read_current_hash (cx_sha cx) (rp_tree rp)) (le_paths g) = take (length (le_paths g)) (le_hashes g)
    \<and> (le_paths g = [] \<or> fe_path ` set (revertible (cl_plans c)) = set (le_paths g))"
proof -
  have base: "claim_grant cx env rp (cl_request c) = (Inr c, l)" "cl_request c \<in> set (rp_ledger rp)"
    "un_now env < le_expires_unix_ms (cl_request c)"
    "\<not> list_ex (\<lambda>e. le_id e = le_id (cl_request c) \<and> is_terminal e) (rp_ledger rp)"
    using assms claim_ok[of cx env rp ref c l] claim_token_ok[of cx env rp ref c l]
    by (auto dest!: find_Some_set)
  note ok = claim_grant_ok[OF base(1)]
  have "fe_path ` set (revertible (cl_plans c)) \<subseteq> set (le_paths (cl_request c))"
    if "le_paths (cl_request c) \<noteq> []"
    unfolding ok(4) using that by (auto simp: revertible_def plan_for_def build_plan_def Let_def)
  with base ok drifted_empty[OF ok(3)] show ?thesis by (auto simp: Let_def)
qed

subsection \<open>A reserved undo of one created file\<close>

definition sample_cx :: undo_ctx where
  "sample_cx = \<lparr>cx_canon = Some, cx_root = [''r''], cx_sha = zero_sha\<rparr>"

definition sample_env :: undo_env where
  "sample_env = \<lparr>un_now = 7, un_ulid = ''u'', un_token = Some ''tok'', un_lock_ok = True,
     un_read_ok = True, un_append_ok = True\<rparr>"

definition sample_turn :: turn_record where
  "sample_turn = plain_turn ''t1'' [created_entry]"

definition sample_grant :: ledger_event where
  "sample_grant = \<lparr>le_v = LEDGER_V, le_event = EVENT_RESERVE, le_id = ''u'', le_turn = ''t1'',
     le_paths = [''a''], le_token_sha256 = Some zero_hash, le_expires_unix_ms = 60005, le_at_unix_ms = 5,
     le_hashes = [Some zero_hash], le_allow_modified = False, le_undo_turn = None, le_reason = None\<rparr>"

definition sample_repo :: repo where
  "sample_repo = \<lparr>rp_tree = created_tree, rp_store = [], rp_log = [Turn sample_turn], rp_ledger = [sample_grant]\<rparr>"

definition sample_claim :: undo_claim where
  "sample_claim = \<lparr>cl_request = sample_grant, cl_target = sample_turn,
     cl_plans = [\<lparr>pn_entry = created_entry, pn_kind = Revert None\<rparr>]\<rparr>"

lemma created_path [simp]: "fe_path created_entry = ''a''"
  by (simp add: created_entry_def inverse_entry_def plain_entry_def)

lemma sample_gate: "gate Some [''r''] zero_sha created_tree [] created_entry = None"
  by (simp add: gate_def escape_refusal_def contained_def inode_refusal_def symlink_refusal_def
      before_refusal_def components_def is_absolute_def probe_up.simps created_tree_def)
    (simp add: created_entry_def inverse_entry_def is_symlink_on_disk_def before_refusal_def)

lemma sample_current: "read_current_hash zero_sha created_tree ''a'' = Some zero_hash"
  by (simp add: created_tree_def zero_hash_eq)

lemma sample_plan: "plan_for sample_cx sample_repo sample_turn [''a''] False
    = [\<lparr>pn_entry = created_entry, pn_kind = Revert None\<rparr>]"
proof -
  have "fe_after created_entry = Some zero_hash" by (simp add: created_entry_def inverse_entry_def)
  then show ?thesis
    by (simp add: plan_for_def build_plan_def plan_entry_def sample_cx_def sample_repo_def sample_turn_def
        plain_turn_def sample_gate sample_current Let_def)
qed

lemma sample_claimed:
  "claim_token sample_cx sample_env sample_repo ''tok'' = (Inr sample_claim, [sample_grant])"
proof -
  have r: "resolve_turn [sample_turn] ''t1'' = Inr sample_turn"
    by (simp add: resolve_turn_def sample_turn_def plain_turn_def)
  have s: "{x. x = \<lparr>pn_entry = created_entry, pn_kind = Revert None\<rparr> \<and> is_revert (pn_kind x)}
      = {\<lparr>pn_entry = created_entry, pn_kind = Revert None\<rparr>}" by auto
  have "claim_grant sample_cx sample_env sample_repo sample_grant = (Inr sample_claim, [sample_grant])"
    using sample_plan r sample_current s
    by (simp add: claim_grant_def drifted_paths_def sample_grant_def sample_cx_def sample_claim_def
        log_turns_def List.map_filter_def Let_def sample_repo_def)
  then show ?thesis
    by (simp add: claim_token_def sample_env_def sample_cx_def zero_hash_eq Let_def sample_repo_def)
      (simp add: sample_grant_def event_names is_terminal_def)
qed

theorem token_spent_once_witness:
  "fst (claim_token sample_cx sample_env
     (sample_repo\<lparr>rp_ledger := [sample_grant, terminal_event EVENT_CONSUME sample_grant 7] @ []\<rparr>) ''tok'')
   = Inl ErrTokenConsumed"
proof -
  have "consume_token sample_env [sample_grant] (cl_request sample_claim)
      = (Inr (), [sample_grant, terminal_event EVENT_CONSUME sample_grant 7])"
    by (simp add: consume_token_def append_event_def sample_env_def sample_claim_def)
  from token_spent_once[OF sample_claimed this, where env' = sample_env and rp' = sample_repo and rest = "[]"]
  show ?thesis by (simp add: sample_env_def)
qed

theorem claim_bound_to_preview_witness:
  "map (read_current_hash zero_sha created_tree) [''a''] = [Some zero_hash]
   \<and> fe_path ` set (revertible (cl_plans sample_claim)) = {''a''}"
  using claim_bound_to_preview[of sample_cx sample_env sample_repo "''tok''" sample_claim "[sample_grant]"]
    sample_claimed
  by (simp add: Let_def sample_claim_def sample_grant_def sample_cx_def sample_repo_def revertible_def)

definition preview_op :: "nat \<Rightarrow> string \<Rightarrow> ledger_op" where
  "preview_op now i =
     \<lparr>lo_cx = sample_cx,
      lo_env = \<lparr>ap_now = now, ap_guard_ok = True, ap_reverts = (\<lambda>_. good_env), ap_turn_id = ''t2'',
        ap_time = [], ap_root = [], ap_log_ok = True, ap_undo = sample_env\<lparr>un_now := now, un_ulid := i\<rparr>\<rparr>,
      lo_why = (\<lambda>_. []),
      lo_site = \<lparr>st_repo = sample_repo\<lparr>rp_ledger := []\<rparr>, st_guard = None\<rparr>,
      lo_call = CallPreview \<lparr>ur_turn = ''t1'', ur_paths = None, ur_allow_modified = False\<rparr> ModeAuto\<rparr>"

theorem live_reservations_disjoint_witness:
  "disjoint_grants (live_events (foldl run_op [] [preview_op 5 ''u1'', preview_op 6 ''u2'', preview_op 70000 ''u3'']) 70001)"
  by (rule live_reservations_disjoint) (simp_all add: op_now_def preview_op_def sample_env_def)

subsection \<open>Corners\<close>

text \<open>An empty list of paths selects the whole turn, like no list at all.\<close>

lemma empty_path_filter_selects_all:
  "path_filter target \<lparr>ur_turn = r, ur_paths = Some [], ur_allow_modified = a\<rparr>
     = path_filter target \<lparr>ur_turn = r, ur_paths = None, ur_allow_modified = a\<rparr>"
  by (simp add: path_filter_def)

text \<open>A path that escapes the root, or a fifo, is classed as having no snapshot.\<close>

lemma gate_refusals_classed_no_snapshot:
  assumes "fe_link_kind e = None" "\<not> is_symlink_on_disk w (fe_path e)" "\<not> fe_withheld e" "\<not> fe_skipped e"
  shows "refusal_class_of w e = CNoSnapshot"
  using assms by (simp add: refusal_class_of_def)

text \<open>
  Undoing a deletion over a file created since, with modified files allowed: the inverse entry
  is a creation that has a prior snapshot, so undoing it deletes that file instead of restoring it.
\<close>

lemma recreated_file_lost_by_second_undo:
  assumes "execute_revert sha env w s e = (Inr iv, w', s')" "fe_op e = ''delete''"
    and "read_regular w (fe_path e) = Content bs"
  shows "fe_op iv = ''create'' \<and> fe_before iv = Some (hash_bytes sha bs)"
  using assms(1)
proof (cases rule: execute_ok)
  case missing
  with assms(3) show ?thesis by simp
next
  case (present bs' h)
  with assms(2,3) get_put_Inr(2)[OF present(2)] show ?thesis
    by (auto simp: apply_revert_def inverse_entry_def split: prod.splits sum.splits)
qed

text \<open>
  When all reverts are done but the undo turn cannot be appended, nothing names the changes: no
  turn, no terminal row, and the guard file stays.
\<close>

lemma completed_run_can_go_unrecorded:
  assumes "execute_claim cx why env c origin st = (Inl TurnNotAppended, st')"
  shows "rp_log (st_repo st') = rp_log (st_repo st) \<and> rp_ledger (st_repo st') = rp_ledger (st_repo st)"
  using assms
proof (cases rule: execute_claim_ends)
  case (completed i ivs rp)
  with revert_all_run[OF completed(3)] show ?thesis
    by (auto simp: append_undo_turn_def ledger_row_simps Let_def split: if_splits)
qed auto

text \<open>A turn id with a two-byte character across the fourth byte has no short form.\<close>

lemma short_id_panics: "short_id (''t_aaa'' @ [CHR 0xC3, CHR 0xA9] @ ''bbbb'') = None"
  by (simp add: short_id_def strip_prefix_def char_boundary_def byte_in_def)

end
