(* ===== verification/Ids_Time.thy ===== *)
theory Ids_Time
  imports Prelude
begin

text \<open>
  Ids and times as text (agentrec-core/src/id.rs, time.rs). The clock and the entropy are
  arguments: milliseconds since the epoch, and the ten random bytes.
\<close>

subsection \<open>Ids\<close>

definition CROCKFORD32 :: string where
  "CROCKFORD32 = ''0123456789ABCDEFGHJKMNPQRSTVWXYZ''"

text \<open>\<open>u128\<close> accumulator over the ten bytes.\<close>

definition rand_acc :: "nat list \<Rightarrow> nat" where
  "rand_acc rand = foldl (\<lambda>acc byte. (acc * 256) mod 2 ^ 128 + byte) 0 rand"

definition ulid_with :: "nat \<Rightarrow> nat list \<Rightarrow> string" where
  "ulid_with ms rand =
     (let ts = ms mod 2 ^ 48; acc = rand_acc rand in
      map (\<lambda>i. CROCKFORD32 ! ((ts div 2 ^ (45 - i * 5)) mod 32)) [0..<10]
      @ map (\<lambda>i. CROCKFORD32 ! ((acc div 2 ^ (75 - i * 5)) mod 32)) [0..<16])"

definition turn_id_with :: "nat \<Rightarrow> nat list \<Rightarrow> string" where
  "turn_id_with ms rand = ''t_'' @ ulid_with ms rand"

text \<open>The token of an undo reservation: the hex form of twenty bytes, or none without entropy.\<close>

definition random_token :: "nat list option \<Rightarrow> string option" where
  "random_token entropy = map_option
     (\<lambda>buf. concat (map (\<lambda>b. [''0123456789abcdef'' ! (b div 16), ''0123456789abcdef'' ! (b mod 16)]) buf)) entropy"

subsection \<open>Times\<close>

text \<open>\<open>{n:0w}\<close>: decimal, padded with zeros on the left to at least \<open>w\<close> places.\<close>

fun decimal :: "nat \<Rightarrow> string" where
  "decimal n = (if n < 10 then [''0123456789'' ! n] else decimal (n div 10) @ [''0123456789'' ! (n mod 10)])"

declare decimal.simps [simp del]

definition padded :: "nat \<Rightarrow> nat \<Rightarrow> string" where
  "padded w n = replicate (w - length (decimal n)) CHR ''0'' @ decimal n"

text \<open>
  Days since the epoch to a civil date, on \<open>i64\<close>; division truncates towards zero, which the
  first line writes out for a negative dividend (the others are never negative).
\<close>

definition civil_from_days :: "int \<Rightarrow> int \<times> nat \<times> nat" where
  "civil_from_days z0 =
     (let z = z0 + 719468;
          era = (if z \<ge> 0 then z div 146097 else - ((146096 - z) div 146097));
          doe = z - era * 146097;
          yoe = (doe - doe div 1460 + doe div 36524 - doe div 146096) div 365;
          y = yoe + era * 400;
          doy = doe - (365 * yoe + yoe div 4 - yoe div 100);
          mp = (5 * doy + 2) div 153;
          d = nat (doy - (153 * mp + 2) div 5 + 1);
          m = nat (if mp < 10 then mp + 3 else mp - 9)
      in (if m \<le> 2 then y + 1 else y, m, d))"

definition rfc3339 :: "nat \<Rightarrow> string" where
  "rfc3339 ms =
     (let secs = ms div 1000; millis = ms mod 1000; days = secs div 86400; sod = secs mod 86400;
          (y, mo, d) = civil_from_days (int days)
      in padded 4 (nat y) @ ''-'' @ padded 2 mo @ ''-'' @ padded 2 d @ ''T'' @ padded 2 (sod div 3600) @ '':''
         @ padded 2 (sod mod 3600 div 60) @ '':'' @ padded 2 (sod mod 60) @ ''.'' @ padded 3 millis @ ''Z'')"

end
