(* ===== verification/Ids_Time_Props.thy ===== *)
theory Ids_Time_Props
  imports Ids_Time
begin

text \<open>
  Ids and times sort as text the way they sort as numbers: every reader of the log compares
  them as strings.
\<close>

subsection \<open>Fixed-width numerals\<close>

lemma append_less_same_length:
  "length xs = length ys \<Longrightarrow> xs @ us < ys @ vs \<longleftrightarrow> xs < ys \<or> (xs = ys \<and> us < (vs :: 'a::linorder list))"
  by (induction xs ys rule: list_induct2) auto

text \<open>Numerals of width \<open>w\<close> in a base, most significant digit first.\<close>

fun numeral_in :: "(nat \<Rightarrow> char) \<Rightarrow> nat \<Rightarrow> nat \<Rightarrow> nat \<Rightarrow> string" where
  "numeral_in dig b 0 n = []"
| "numeral_in dig b (Suc w) n = numeral_in dig b w (n div b) @ [dig (n mod b)]"

definition ordered_digits :: "(nat \<Rightarrow> char) \<Rightarrow> nat \<Rightarrow> bool" where
  "ordered_digits dig b \<longleftrightarrow> b > 1 \<and> (\<forall>i < b. \<forall>j < b. (dig i < dig j) = (i < j))"

lemma length_numeral_in [simp]: "length (numeral_in dig b w n) = w"
  by (induction w arbitrary: n) auto

lemma ordered_digits_inj: "ordered_digits dig b \<Longrightarrow> i < b \<Longrightarrow> j < b \<Longrightarrow> dig i = dig j \<longleftrightarrow> i = j"
  by (metis linorder_neqE_nat ordered_digits_def order_less_irrefl)

lemma numeral_in_less:
  assumes "ordered_digits dig b" "n < b ^ w" "m < b ^ w"
  shows "(numeral_in dig b w n < numeral_in dig b w m) = (n < m) \<and> (numeral_in dig b w n = numeral_in dig b w m) = (n = m)"
  using assms(2,3)
proof (induction w arbitrary: n m)
  case 0
  then show ?case by simp
next
  case (Suc w)
  have b: "b > 0" using assms(1) by (auto simp: ordered_digits_def)
  have "n div b < b ^ w" "m div b < b ^ w"
    using Suc.prems b by (auto simp: less_mult_imp_div_less mult.commute)
  note IH = Suc.IH[OF this]
  have mods: "n mod b < b" "m mod b < b" using b by auto
  have d: "(dig (n mod b) < dig (m mod b)) = (n mod b < m mod b)"
    using assms(1) mods by (simp add: ordered_digits_def)
  have lt: "n < m \<longleftrightarrow> n div b < m div b \<or> (n div b = m div b \<and> n mod b < m mod b)"
    by (metis div_le_mono div_mod_decomp linorder_not_less nat_add_left_cancel_less order_le_less)
  have eq: "n = m \<longleftrightarrow> n div b = m div b \<and> n mod b = m mod b" by (metis div_mod_decomp)
  show ?case
    using IH d lt eq ordered_digits_inj[OF assms(1) mods] by (simp add: append_less_same_length)
qed

lemma numeral_in_map:
  "numeral_in dig b w n = map (\<lambda>i. dig ((n div b ^ (w - 1 - i)) mod b)) [0..<w]"
proof (induction w arbitrary: n)
  case (Suc w)
  have "n div b div b ^ (w - 1 - i) mod b = n div b ^ (w - i) mod b" if "i < w" for i
  proof -
    have "b ^ (w - i) = b * b ^ (w - 1 - i)" using that by (simp flip: power_Suc add: Suc_diff_Suc)
    then show ?thesis by (simp add: div_mult2_eq)
  qed
  then have "map (\<lambda>i. dig (n div b div b ^ (w - 1 - i) mod b)) [0..<w]
      = map (\<lambda>i. dig (n div b ^ (w - i) mod b)) [0..<w]" by simp
  then show ?case using Suc[of "n div b"] by simp
qed simp

subsection \<open>Ids\<close>

lemma crockford_ordered: "ordered_digits (nth CROCKFORD32) 32"
proof -
  have "list_all (\<lambda>i. list_all (\<lambda>j. (CROCKFORD32 ! i < CROCKFORD32 ! j) = (i < j)) [0..<32]) [0..<32]"
    unfolding CROCKFORD32_def by code_simp
  then show ?thesis by (simp add: ordered_digits_def list_all_iff)
qed

lemma numeral_value_snoc: "foldl (\<lambda>acc byte. acc * 256 + byte) 0 (xs @ [x]) = foldl (\<lambda>acc byte. acc * 256 + byte) 0 xs * 256 + x"
  by simp

text \<open>The accumulator never wraps: ten bytes fit 80 of the 128 bits.\<close>

lemma rand_acc_exact:
  "length r \<le> 10 \<Longrightarrow> list_all (\<lambda>b. b < 256) r \<Longrightarrow>
     rand_acc r = foldl (\<lambda>acc byte. acc * 256 + byte) 0 r \<and> rand_acc r < 256 ^ length r"
proof (induction r rule: rev_induct)
  case Nil
  then show ?case by (simp add: rand_acc_def)
next
  case (snoc x r)
  then have IH: "rand_acc r = foldl (\<lambda>acc byte. acc * 256 + byte) 0 r" "rand_acc r < 256 ^ length r"
    and x: "x < 256" by auto
  have "256 ^ length r * 256 \<le> (256 ^ 9 * 256 :: nat)"
    using snoc.prems by (intro mult_right_mono power_increasing) auto
  with IH(2) have "rand_acc r * 256 < 2 ^ 128" by simp
  moreover have "rand_acc r * 256 + x < 256 ^ length r * 256" using IH(2) x by simp
  ultimately show ?case using IH(1) by (simp add: rand_acc_def mult.commute)
qed

lemma digit_order:
  fixes A B x y b :: nat
  assumes "x < b" "y < b"
  shows "(A * b + x < B * b + y) = (A < B \<or> (A = B \<and> x < y))" "(A * b + x = B * b + y) = (A = B \<and> x = y)"
proof -
  have less: "A * b + x < B * b + y" if "A < B" "x < b" for A B x y :: nat
  proof -
    have "Suc A * b \<le> B * b" using that by (intro mult_le_mono1) simp
    with that show ?thesis by simp
  qed
  show "(A * b + x < B * b + y) = (A < B \<or> (A = B \<and> x < y))"
    using less[of A B x y] less[of B A y x] assms by (cases A B rule: linorder_cases) auto
  show "(A * b + x = B * b + y) = (A = B \<and> x = y)"
    using less[of A B x y] less[of B A y x] assms by (cases A B rule: linorder_cases) auto
qed

lemma rand_acc_order:
  assumes "length r = length r'" "length r \<le> 10" "list_all (\<lambda>b. b < 256) r" "list_all (\<lambda>b. b < 256) r'"
  shows "(rand_acc r < rand_acc r') = (r < r') \<and> (rand_acc r = rand_acc r') = (r = r')"
proof -
  let ?v = "foldl (\<lambda>acc byte. acc * 256 + byte) (0 :: nat)"
  have "(?v r < ?v r') = (r < r') \<and> (?v r = ?v r') = (r = r')"
    if "length r = length r'" "list_all (\<lambda>b. b < 256) r" "list_all (\<lambda>b. b < 256) r'" for r r'
    using that
  proof (induction r arbitrary: r' rule: rev_induct)
    case Nil
    then show ?case by simp
  next
    case (snoc x r)
    then obtain y s where r': "r' = s @ [y]" "length s = length r" by (cases r' rule: rev_cases) auto
    with snoc.IH[of s] snoc.prems have IH: "(?v r < ?v s) = (r < s)" "(?v r = ?v s) = (r = s)" by auto
    have "x < 256" "y < 256" using snoc.prems r' by auto
    note d = digit_order[OF this]
    with IH r' show ?case by (simp add: append_less_same_length d)
  qed
  with assms rand_acc_exact[of r] rand_acc_exact[of r'] show ?thesis by simp
qed

lemma ulid_numerals:
  "ulid_with ms r = numeral_in (nth CROCKFORD32) 32 10 (ms mod 2 ^ 48) @ numeral_in (nth CROCKFORD32) 32 16 (rand_acc r)"
proof -
  have shift: "(2 :: nat) ^ (k - i * 5) = 32 ^ (k div 5 - i)" if "k = 45 \<or> k = 75" for k i
  proof -
    have "(32 :: nat) ^ (k div 5 - i) = (2 ^ 5) ^ (k div 5 - i)" by simp
    also have "\<dots> = 2 ^ (5 * (k div 5 - i))" by (simp only: power_mult)
    also have "5 * (k div 5 - i) = k - i * 5" using that by auto
    finally show ?thesis by simp
  qed
  have "numeral_in (nth CROCKFORD32) 32 10 (ms mod 2 ^ 48)
      = map (\<lambda>i. CROCKFORD32 ! ((ms mod 2 ^ 48 div 2 ^ (45 - i * 5)) mod 32)) [0..<10]"
    unfolding numeral_in_map shift[of 45, simplified] by (rule map_cong) (auto simp: shift)
  moreover have "numeral_in (nth CROCKFORD32) 32 16 (rand_acc r)
      = map (\<lambda>i. CROCKFORD32 ! ((rand_acc r div 2 ^ (75 - i * 5)) mod 32)) [0..<16]"
    unfolding numeral_in_map by (rule map_cong) (auto simp: shift)
  ultimately show ?thesis by (simp add: ulid_with_def Let_def)
qed

text \<open>
  Turn ids sort by time. As strings, two ids compare as the low 48 bits of their
  milliseconds, then as their random bytes; in particular ids of equal bits and bytes are equal,
  and no two others are.
\<close>

theorem turn_ids_sort_by_time:
  assumes "length r = 10" "list_all (\<lambda>b. b < 256) r" "length r' = 10" "list_all (\<lambda>b. b < 256) r'"
  shows "(turn_id_with ms r < turn_id_with ms' r')
      = (ms mod 2 ^ 48 < ms' mod 2 ^ 48 \<or> (ms mod 2 ^ 48 = ms' mod 2 ^ 48 \<and> r < r'))
    \<and> (turn_id_with ms r = turn_id_with ms' r') = (ms mod 2 ^ 48 = ms' mod 2 ^ 48 \<and> r = r')"
proof -
  have "ms mod 2 ^ 48 < 32 ^ 10" "ms' mod 2 ^ 48 < 32 ^ 10"
    by (rule order_less_trans[OF mod_less_divisor]; simp)+
  note t = numeral_in_less[OF crockford_ordered this]
  have "rand_acc r < 32 ^ 16" "rand_acc r' < 32 ^ 16"
    using rand_acc_exact[of r] rand_acc_exact[of r'] assms by simp_all
  note q = numeral_in_less[OF crockford_ordered this]
  from rand_acc_order[of r r'] assms have
    "(rand_acc r < rand_acc r') = (r < r')" "(rand_acc r = rand_acc r') = (r = r')" by simp_all
  with t q show ?thesis
    unfolding turn_id_with_def ulid_numerals by (simp add: append_less_same_length)
qed

theorem turn_ids_sort_by_time_witness:
  "turn_id_with 5 (replicate 10 255) < turn_id_with 6 (replicate 10 0)"
  using turn_ids_sort_by_time[of "replicate 10 255" "replicate 10 0" 5 6] by (simp add: list_all_iff)

subsection \<open>Dates\<close>

text \<open>
  One era is 400 years from March to February, 146097 days. \<open>year_days\<close> is the dividend the
  code divides by 365 to get the year of the era; \<open>year_start\<close> is where a year begins.
\<close>

definition year_days :: "int \<Rightarrow> int" where
  "year_days doe = doe - doe div 1460 + doe div 36524 - doe div 146096"

definition year_start :: "int \<Rightarrow> int" where
  "year_start y = 365 * y + y div 4 - y div 100"

definition year_end :: "int \<Rightarrow> int" where
  "year_end y = (if y = 399 then 146096 else year_start (y + 1) - 1)"

lemma year_table:
  assumes "0 \<le> y" "y < 400"
  shows "365 * y \<le> year_days (year_start y) \<and> year_days (year_end y) < 365 * (y + 1)
     \<and> year_start y \<le> year_end y \<and> year_end y \<le> year_start y + 365 \<and> year_end y \<le> 146096
     \<and> 0 \<le> year_start y"
proof -
  have "list_all (\<lambda>y. 365 * y \<le> year_days (year_start y) \<and> year_days (year_end y) < 365 * (y + 1)
     \<and> year_start y \<le> year_end y \<and> year_end y \<le> year_start y + 365 \<and> year_end y \<le> 146096
     \<and> 0 \<le> year_start y) [0..399]"
    unfolding year_days_def year_end_def year_start_def by code_simp
  then show ?thesis using assms by (simp add: list_all_iff)
qed

text \<open>Month (from March) and day of a day of the year, as one number.\<close>

definition month_day :: "int \<Rightarrow> int" where
  "month_day doy = ((5 * doy + 2) div 153) * 32 + (doy - (153 * ((5 * doy + 2) div 153) + 2) div 5 + 1)"

lemma month_table:
  assumes "0 \<le> doy" "doy \<le> 365"
  shows "0 \<le> (5 * doy + 2) div 153 \<and> (5 * doy + 2) div 153 \<le> 11
     \<and> 1 \<le> doy - (153 * ((5 * doy + 2) div 153) + 2) div 5 + 1
     \<and> doy - (153 * ((5 * doy + 2) div 153) + 2) div 5 + 1 \<le> 31
     \<and> (doy = 365 \<or> month_day doy < month_day (doy + 1))"
proof -
  have "list_all (\<lambda>doy. 0 \<le> (5 * doy + 2) div 153 \<and> (5 * doy + 2) div 153 \<le> 11
     \<and> 1 \<le> doy - (153 * ((5 * doy + 2) div 153) + 2) div 5 + 1
     \<and> doy - (153 * ((5 * doy + 2) div 153) + 2) div 5 + 1 \<le> 31
     \<and> (doy = 365 \<or> month_day doy < month_day (doy + 1))) [0..365]"
    unfolding month_day_def by code_simp
  then show ?thesis using assms by (simp add: list_all_iff)
qed

lemma mono_from_steps:
  fixes f :: "int \<Rightarrow> int"
  assumes "\<And>k. 0 \<le> k \<Longrightarrow> k < b \<Longrightarrow> f k \<le> f (k + 1)" "0 \<le> i" "i \<le> j" "j \<le> b"
  shows "f i \<le> f j"
  using assms(3,4)
proof (induction j rule: int_ge_induct)
  case (step j)
  then show ?case using assms(1)[of j] assms(2) by simp
qed simp

lemma strict_mono_from_steps:
  fixes f :: "int \<Rightarrow> int"
  assumes "\<And>k. 0 \<le> k \<Longrightarrow> k < b \<Longrightarrow> f k < f (k + 1)" "0 \<le> i" "i < j" "j \<le> b"
  shows "f i < f j"
proof -
  have "f (i + 1) \<le> f j"
    by (rule mono_from_steps[of b f]) (use assms in \<open>auto intro: less_imp_le\<close>)
  with assms(1)[of i] assms(2-4) show ?thesis by simp
qed

lemma div_next: "(0 :: int) < n \<Longrightarrow> k div n \<le> (k + 1) div n \<and> (k + 1) div n \<le> k div n + 1"
proof -
  assume n: "0 < n"
  have "(k + 1) div n \<le> (k + n) div n" using n by (intro zdiv_mono1) auto
  with n div_add_self2[of n k] show ?thesis by (simp add: zdiv_mono1)
qed

lemma year_days_step: "0 \<le> doe \<Longrightarrow> doe < 146096 \<Longrightarrow> year_days doe \<le> year_days (doe + 1)"
proof -
  assume d: "0 \<le> doe" "doe < 146096"
  then have e: "doe div 146096 = 0" by simp
  show ?thesis
  proof (cases "doe = 146095")
    case True
    then show ?thesis by (simp add: year_days_def)
  next
    case False
    with d have "(doe + 1) div 146096 = 0" by simp
    with e div_next[of 1460 doe] div_next[of 36524 doe] show ?thesis by (simp add: year_days_def)
  qed
qed

lemma year_of_era:
  assumes "0 \<le> doe" "doe < 146097"
  defines "y \<equiv> year_days doe div 365"
  shows "0 \<le> y" "y < 400" "year_start y \<le> doe" "doe \<le> year_end y"
proof -
  have "\<exists>y. 0 \<le> y \<and> y < 400 \<and> year_start y \<le> doe \<and> doe \<le> year_end y"
  proof -
    have up_to: "\<exists>y. 0 \<le> y \<and> y \<le> k \<and> year_start y \<le> doe \<and> doe \<le> year_end y"
      if "0 \<le> k" "k < 400" "doe \<le> year_end k" for k
      using that
    proof (induction k rule: int_ge_induct)
      case base
      then show ?case using assms(1) by (intro exI[of _ 0]) (simp add: year_start_def)
    next
      case (step k)
      show ?case
      proof (cases "year_start (k + 1) \<le> doe")
        case True
        with step show ?thesis by (intro exI[of _ "k + 1"]) simp
      next
        case False
        with step.prems have "doe \<le> year_end k" by (simp add: year_end_def)
        with step show ?thesis by force
      qed
    qed
    have "doe \<le> year_end 399" using assms(2) by (simp add: year_end_def)
    with up_to[of 399] obtain y where "0 \<le> y" "y \<le> 399" "year_start y \<le> doe" "doe \<le> year_end y" by auto
    then show ?thesis by (intro exI[of _ y]) simp
  qed
  then obtain z where z: "0 \<le> z" "z < 400" "year_start z \<le> doe" "doe \<le> year_end z" by blast
  note tab = year_table[OF z(1,2)]
  have up: "year_days i \<le> year_days j" if "0 \<le> i" "i \<le> j" "j \<le> 146096" for i j
    using year_days_step that by (rule mono_from_steps[of 146096 year_days])
  have "year_days (year_start z) \<le> year_days doe" "year_days doe \<le> year_days (year_end z)"
    using z tab assms by (intro up; linarith)+
  with tab have "365 * z \<le> year_days doe" "year_days doe < 365 * (z + 1)" by simp_all
  then have "y = z"
    unfolding y_def by (intro int_div_pos_eq[where r = "year_days doe - 365 * z"]) simp_all
  with z show "0 \<le> y" "y < 400" "year_start y \<le> doe" "doe \<le> year_end y" by auto
qed

text \<open>A date as one number, in the order of (year, month, day).\<close>

fun date_code :: "int \<times> nat \<times> nat \<Rightarrow> int" where
  "date_code (y, m, d) = (y * 16 + int m) * 32 + int d"

text \<open>The date the code computes, in terms of the year of the era and the day of the year.\<close>

lemma civil_parts:
  fixes z :: int
  defines "doe \<equiv> (z + 719468) mod 146097" and "era \<equiv> (z + 719468) div 146097"
  defines "yoe \<equiv> year_days doe div 365"
  defines "doy \<equiv> doe - year_start yoe"
  defines "mp \<equiv> (5 * doy + 2) div 153"
  assumes "0 \<le> z"
  shows "civil_from_days z = (if mp < 10 then (yoe + era * 400, nat (mp + 3), nat (month_day doy - mp * 32))
      else (yoe + era * 400 + 1, nat (mp - 9), nat (month_day doy - mp * 32)))"
    and "0 \<le> doy" "doy \<le> 365" "0 \<le> mp" "mp \<le> 11" "1 \<le> month_day doy - mp * 32" "month_day doy - mp * 32 \<le> 31"
    and "0 \<le> yoe" "yoe < 400" "0 \<le> era" "0 \<le> doe" "doe < 146097"
proof -
  show doe: "0 \<le> doe" "doe < 146097" by (simp_all add: doe_def)
  note y = year_of_era[OF doe, folded yoe_def]
  then show "0 \<le> yoe" "yoe < 400" by simp_all
  show "0 \<le> era" using assms(6) by (simp add: era_def pos_imp_zdiv_nonneg_iff)
  show doy: "0 \<le> doy" "doy \<le> 365" using y year_table[OF y(1,2)] by (simp_all add: doy_def)
  note m = month_table[OF doy, folded mp_def]
  then show mp: "0 \<le> mp" "mp \<le> 11" by simp_all
  have md: "month_day doy - mp * 32 = doy - (153 * mp + 2) div 5 + 1" by (simp add: month_day_def mp_def)
  with m show d: "1 \<le> month_day doy - mp * 32" "month_day doy - mp * 32 \<le> 31" by simp_all
  have doe': "z + 719468 - era * 146097 = doe" by (simp add: doe_def era_def minus_div_mult_eq_mod)
  have yoe': "(doe - doe div 1460 + doe div 36524 - doe div 146096) div 365 = yoe"
    by (simp add: yoe_def year_days_def)
  have doy': "doe - (365 * yoe + yoe div 4 - yoe div 100) = doy" by (simp add: doy_def year_start_def)
  have z: "z + 719468 \<ge> 0" using assms(6) by simp
  show "civil_from_days z = (if mp < 10 then (yoe + era * 400, nat (mp + 3), nat (month_day doy - mp * 32))
      else (yoe + era * 400 + 1, nat (mp - 9), nat (month_day doy - mp * 32)))"
    unfolding civil_from_days_def Let_def if_P[OF z] era_def[symmetric] doe' yoe' doy' mp_def[symmetric] md
    using mp by auto
qed

lemma month_day_mono: "0 \<le> doy \<Longrightarrow> doy < doy' \<Longrightarrow> doy' \<le> 365 \<Longrightarrow> month_day doy < month_day doy'"
proof -
  have "month_day k < month_day (k + 1)" if "0 \<le> k" "k < 365" for k
    using month_table[of k] that by simp
  then show "0 \<le> doy \<Longrightarrow> doy < doy' \<Longrightarrow> doy' \<le> 365 \<Longrightarrow> ?thesis"
    by (rule strict_mono_from_steps[of 365 month_day])
qed

text \<open>Years in sequence: which year, and the day in it, determine the date.\<close>

lemma date_code_march:
  assumes "0 \<le> z"
  shows "\<exists>y md. date_code (civil_from_days z) = y * 512 + md + (if md < 320 then 96 else 224)
    \<and> 1 \<le> md \<and> md < 384 \<and> y = year_days ((z + 719468) mod 146097) div 365 + (z + 719468) div 146097 * 400
    \<and> md = month_day ((z + 719468) mod 146097 - year_start (year_days ((z + 719468) mod 146097) div 365))"
proof -
  define doe era yoe doy mp where "doe = (z + 719468) mod 146097" and "era = (z + 719468) div 146097"
    and "yoe = year_days doe div 365" and "doy = doe - year_start yoe" and "mp = (5 * doy + 2) div 153"
  note p = civil_parts[OF assms, folded doe_def era_def, folded yoe_def, folded doy_def, folded mp_def]
  have "date_code (civil_from_days z) = (yoe + era * 400) * 512 + month_day doy + (if month_day doy < 320 then 96 else 224)"
    using p(4-7) unfolding p(1) by (cases "mp < 10") (auto simp: algebra_simps)
  moreover have "1 \<le> month_day doy" "month_day doy < 384" using p(4-7) by linarith+
  ultimately show ?thesis unfolding doe_def era_def yoe_def doy_def by blast
qed

lemma date_order:
  assumes "0 \<le> z" "z < z'"
  shows "date_code (civil_from_days z) < date_code (civil_from_days z')"
proof -
  define doe era yoe where "doe z = (z + 719468) mod 146097" and "era z = (z + 719468) div 146097"
    and "yoe z = year_days (doe z) div 365" for z :: int
  have doe: "0 \<le> doe z" "doe z < 146097" for z by (simp_all add: doe_def)
  note y = year_of_era[OF doe, folded yoe_def]
  from date_code_march[OF assms(1)] obtain md where c: "date_code (civil_from_days z) = (yoe z + era z * 400) * 512 + md
      + (if md < 320 then 96 else 224)" "1 \<le> md" "md < 384" "md = month_day (doe z - year_start (yoe z))"
    unfolding doe_def era_def yoe_def by blast
  have z': "0 \<le> z'" using assms by simp
  from date_code_march[OF this] obtain md' where c': "date_code (civil_from_days z') = (yoe z' + era z' * 400) * 512 + md'
      + (if md' < 320 then 96 else 224)" "1 \<le> md'" "md' < 384" "md' = month_day (doe z' - year_start (yoe z'))"
    unfolding doe_def era_def yoe_def by blast
  have "era z \<le> era z'" using assms by (simp add: era_def zdiv_mono1)
  then consider (era) "era z < era z'" | (same) "era z = era z'" "doe z < doe z'"
  proof (cases "era z = era z'")
    case True
    have "z + 719468 = era z * 146097 + doe z" "z' + 719468 = era z' * 146097 + doe z'"
      by (simp_all add: era_def doe_def)
    with True assms same show thesis by simp
  qed auto
  then have "yoe z + era z * 400 < yoe z' + era z' * 400
    \<or> (yoe z + era z * 400 = yoe z' + era z' * 400 \<and> md < md')"
  proof cases
    case era
    with y(2)[of z] y(1)[of z'] show ?thesis by linarith
  next
    case same
    have "year_days (doe z) \<le> year_days (doe z')"
      by (rule mono_from_steps[of 146096 year_days]) (use year_days_step doe[of z] doe[of z'] same in auto)
    then have "yoe z \<le> yoe z'" by (simp add: yoe_def zdiv_mono1)
    moreover have "md < md'" if "yoe z = yoe z'"
      unfolding c(4) c'(4) that
      using same y[of z] y[of z'] year_table[OF y(1,2)[of z']] that by (intro month_day_mono) auto
    ultimately show ?thesis using same by auto
  qed
  with c(1-3) c'(1-3) show ?thesis by (auto split: if_splits)
qed

subsection \<open>Times as text\<close>

abbreviation dec :: "nat \<Rightarrow> char" where
  "dec i \<equiv> ''0123456789'' ! i"

lemma decimal_ordered: "ordered_digits dec 10"
proof -
  have "list_all (\<lambda>i. list_all (\<lambda>j. (dec i < dec j) = (i < j)) [0..<10]) [0..<10]"
    by code_simp
  then show ?thesis by (simp add: ordered_digits_def list_all_iff)
qed

lemma decimal_numeral: "n < 10 ^ w \<Longrightarrow> w > 0 \<Longrightarrow> length (decimal n) \<le> w \<and> padded w n = numeral_in dec 10 w n"
proof (induction w arbitrary: n)
  case (Suc w)
  show ?case
  proof (cases "w = 0")
    case True
    with Suc.prems show ?thesis by (simp add: padded_def decimal.simps)
  next
    case False
    have zeros: "numeral_in dec 10 k 0 = replicate k CHR ''0''" for k
      by (induction k) (auto simp flip: replicate_append_same)
    show ?thesis
    proof (cases "n < 10")
      case True
      then have "n div 10 = 0" by simp
      with True show ?thesis by (simp add: padded_def decimal.simps[of n] zeros)
    next
      case n: False
      have "n div 10 < 10 ^ w" using Suc.prems by (simp add: less_mult_imp_div_less mult.commute)
      from Suc.IH[OF this] False n show ?thesis
        by (simp add: padded_def decimal.simps[of n])
    qed
  qed
qed simp

text \<open>Two numerals of the same width, each followed by a separator and more text.\<close>

lemma field_order:
  assumes "n < 10 ^ w" "m < 10 ^ w" "w > 0"
  shows "(padded w n @ u < padded w m @ v) = (n < m \<or> (n = m \<and> u < v))"
  using decimal_numeral[of n w] decimal_numeral[of m w] numeral_in_less[OF decimal_ordered assms(1,2)] assms
  by (simp add: append_less_same_length)

lemma date_code_order:
  "1 \<le> m \<Longrightarrow> m \<le> 12 \<Longrightarrow> d \<le> 31 \<Longrightarrow> 1 \<le> m' \<Longrightarrow> m' \<le> 12 \<Longrightarrow> d' \<le> 31 \<Longrightarrow>
     date_code (y, m, d) < date_code (y', m', d')
       \<longleftrightarrow> y < y' \<or> (y = y' \<and> (m < m' \<or> (m = m' \<and> d < d')))"
  by auto

lemma civil_ranges:
  assumes "0 \<le> z" "civil_from_days z = (y, m, d)"
  shows "0 \<le> y" "1 \<le> m" "m \<le> 12" "1 \<le> d" "d \<le> 31"
proof -
  define doe era yoe doy mp where "doe = (z + 719468) mod 146097" and "era = (z + 719468) div 146097"
    and "yoe = year_days doe div 365" and "doy = doe - year_start yoe" and "mp = (5 * doy + 2) div 153"
  note p = civil_parts[OF assms(1), folded doe_def era_def, folded yoe_def, folded doy_def, folded mp_def]
  show "0 \<le> y" "1 \<le> m" "m \<le> 12" "1 \<le> d" "d \<le> 31"
    using p(4-10) assms(2) unfolding p(1) by (auto split: if_splits)
qed

text \<open>The first millisecond of the year 10000, from which the text is no longer of fixed width.\<close>

definition year_10000_ms :: nat where
  "year_10000_ms = 253402300800000"

lemma year_four_digits:
  assumes "0 \<le> z" "z < 2932897" "civil_from_days z = (y, m, d)"
  shows "y < 10000"
proof (rule ccontr)
  assume "\<not> y < 10000"
  have last: "civil_from_days 2932897 = (10000, 1, 1)" by code_simp
  have "date_code (y, m, d) < date_code (10000, 1, 1)"
    using date_order[of z 2932897] assms last by simp
  with \<open>\<not> y < 10000\<close> civil_ranges[OF assms(1,3)] show False by simp
qed

lemma clock_order:
  fixes s s' :: nat
  shows "s < s' \<longleftrightarrow> s div 3600 < s' div 3600 \<or> (s div 3600 = s' div 3600
    \<and> (s mod 3600 div 60 < s' mod 3600 div 60 \<or> (s mod 3600 div 60 = s' mod 3600 div 60 \<and> s mod 60 < s' mod 60)))"
proof -
  have m: "n mod 3600 mod 60 = n mod 60" for n :: nat by (rule mod_mod_cancel) simp
  have "s < s' \<longleftrightarrow> s div 3600 < s' div 3600 \<or> (s div 3600 = s' div 3600 \<and> s mod 3600 < s' mod 3600)"
    using digit_order(1)[of "s mod 3600" 3600 "s' mod 3600" "s div 3600" "s' div 3600"]
    by (simp only: div_mult_mod_eq)
  moreover have "s mod 3600 < s' mod 3600 \<longleftrightarrow> s mod 3600 div 60 < s' mod 3600 div 60
      \<or> (s mod 3600 div 60 = s' mod 3600 div 60 \<and> s mod 60 < s' mod 60)"
    using digit_order(1)[of "s mod 60" 60 "s' mod 60" "s mod 3600 div 60" "s' mod 3600 div 60"]
      div_mult_mod_eq[of "s mod 3600" 60] div_mult_mod_eq[of "s' mod 3600" 60]
    unfolding m by simp
  ultimately show ?thesis by blast
qed

lemma rfc3339_less:
  assumes "ms < ms'" "ms' < year_10000_ms"
  shows "rfc3339 ms < rfc3339 ms'"
proof -
  define days sod where "days ms = ms div 1000 div 86400" and "sod ms = ms div 1000 mod 86400" for ms :: nat
  obtain y m d where c: "civil_from_days (int (days ms)) = (y, m, d)" by (cases "civil_from_days (int (days ms))")
  obtain y' m' d' where c': "civil_from_days (int (days ms')) = (y', m', d')" by (cases "civil_from_days (int (days ms'))")
  have lim: "days ms \<le> days ms'" "days ms' < 2932897"
    using assms by (auto simp: days_def year_10000_ms_def div_le_mono less_mult_imp_div_less)
  have r: "0 \<le> y" "1 \<le> m" "m \<le> 12" "d \<le> 31" "y < 10000" "0 \<le> y'" "1 \<le> m'" "m' \<le> 12" "d' \<le> 31" "y' < 10000"
    using civil_ranges[OF _ c] civil_ranges[OF _ c'] year_four_digits[OF _ _ c] year_four_digits[OF _ _ c'] lim by auto
  have s: "sod ms < 86400" "sod ms' < 86400" by (simp_all add: sod_def)
  have t: "sod ms div 3600 < 100" "sod ms mod 3600 div 60 < 100" "sod ms mod 60 < 100" "ms mod 1000 < 1000"
    "sod ms' div 3600 < 100" "sod ms' mod 3600 div 60 < 100" "sod ms' mod 60 < 100" "ms' mod 1000 < 1000"
    using s by (simp_all add: less_mult_imp_div_less order_less_trans[OF mod_less_divisor])
  have split: "ms = (days ms * 86400 + sod ms) * 1000 + ms mod 1000" for ms
    by (simp add: days_def sod_def)
  have key: "days ms < days ms' \<or> (days ms = days ms' \<and> (sod ms < sod ms' \<or> (sod ms = sod ms' \<and> ms mod 1000 < ms' mod 1000)))"
  proof -
    have "(days ms * 86400 + sod ms) * 1000 + ms mod 1000 < (days ms' * 86400 + sod ms') * 1000 + ms' mod 1000"
      using assms(1) split[of ms] split[of ms'] by linarith
    with digit_order(1)[of "ms mod 1000" 1000 "ms' mod 1000" "days ms * 86400 + sod ms" "days ms' * 86400 + sod ms'"]
      digit_order[of "sod ms" 86400 "sod ms'" "days ms" "days ms'"] s
    show ?thesis by auto
  qed
  have clock: "sod ms < sod ms' \<longleftrightarrow> sod ms div 3600 < sod ms' div 3600 \<or> (sod ms div 3600 = sod ms' div 3600
      \<and> (sod ms mod 3600 div 60 < sod ms' mod 3600 div 60 \<or> (sod ms mod 3600 div 60 = sod ms' mod 3600 div 60
        \<and> sod ms mod 60 < sod ms' mod 60)))"
    by (rule clock_order)
  have fields: "rfc3339 ms < rfc3339 ms' \<longleftrightarrow> y < y' \<or> (y = y' \<and> (m < m' \<or> (m = m' \<and> (d < d' \<or> (d = d'
      \<and> (sod ms < sod ms' \<or> (sod ms = sod ms' \<and> ms mod 1000 < ms' mod 1000)))))))"
  proof -
    have "nat y < 10 ^ 4" "nat y' < 10 ^ 4" "m < 10 ^ 2" "m' < 10 ^ 2" "d < 10 ^ 2" "d' < 10 ^ 2" using r by auto
    moreover have "sod ms = sod ms' \<longleftrightarrow> sod ms div 3600 = sod ms' div 3600
        \<and> sod ms mod 3600 div 60 = sod ms' mod 3600 div 60 \<and> sod ms mod 60 = sod ms' mod 60"
      using clock_order[of "sod ms" "sod ms'"] clock_order[of "sod ms'" "sod ms"] by (metis linorder_neqE_nat nat_neq_iff)
    moreover have "nat y < nat y' \<longleftrightarrow> y < y'" "nat y = nat y' \<longleftrightarrow> y = y'" using r by auto
    ultimately show ?thesis
      using t unfolding rfc3339_def Let_def days_def[symmetric] sod_def[symmetric] c c' prod.case clock
      by (simp add: field_order) blast
  qed
  show ?thesis
    using key
  proof
    assume "days ms < days ms'"
    then have "date_code (y, m, d) < date_code (y', m', d')"
      using date_order[of "int (days ms)" "int (days ms')"] c c' by simp
    then show ?thesis unfolding fields date_code_order[OF r(2-4,7-9)] by auto
  next
    assume "days ms = days ms' \<and> (sod ms < sod ms' \<or> (sod ms = sod ms' \<and> ms mod 1000 < ms' mod 1000))"
    with c c' have "y = y'" "m = m'" "d = d'" by auto
    with \<open>days ms = days ms' \<and> _\<close> show ?thesis unfolding fields by simp
  qed
qed

text \<open>
  Timestamps sort as text. Up to the end of the year 9999 the RFC 3339 texts of two times
  compare as the times do, so the string comparisons of the readers (gaps after a turn, the
  newest turn, date bounds) are comparisons of times, and no two times have the same text.
\<close>

theorem timestamps_sort_as_text:
  assumes "ms < year_10000_ms" "ms' < year_10000_ms"
  shows "(rfc3339 ms < rfc3339 ms') = (ms < ms') \<and> (rfc3339 ms = rfc3339 ms') = (ms = ms')"
  using rfc3339_less[of ms ms'] rfc3339_less[of ms' ms] assms
  by (cases ms ms' rule: linorder_cases) auto

theorem timestamps_sort_as_text_witness:
  "rfc3339 1709208000000 < rfc3339 1783209600000"
  using timestamps_sort_as_text[of 1709208000000 1783209600000] by (simp add: year_10000_ms_def)

end
