(* ===== verification/Scrub.thy ===== *)
theory Scrub
  imports Text
begin

text \<open>
  Secrets (agentrec-core/src/scrub.rs): which files are never snapshotted, and the redaction of
  prompt text. Unicode lower-casing, the regular expressions (crate regex) and the floating-point
  entropy comparison are parameters; everything else is the code's.
\<close>

subsection \<open>String search\<close>

fun split_where :: "(char \<Rightarrow> bool) \<Rightarrow> string \<Rightarrow> string list" where
  "split_where P [] = [[]]"
| "split_where P (c # cs) = (if P c then [] # split_where P cs
     else case split_where P cs of [] \<Rightarrow> [[c]] | w # ws \<Rightarrow> (c # w) # ws)"

fun has_part :: "string \<Rightarrow> string \<Rightarrow> bool" where
  "has_part [] p = (p = [])"
| "has_part (c # cs) p = (starts_with (c # cs) p \<or> has_part cs p)"

subsection \<open>Secret files\<close>

definition SECRET_DIR_COMPONENTS :: "string list" where
  "SECRET_DIR_COMPONENTS =
     [''.aws'', ''.ssh'', ''.gnupg'', ''.kube'', ''.docker'', ''secrets'', ''.secrets'']"

definition SECRET_BASENAMES :: "string list" where
  "SECRET_BASENAMES =
     [''.netrc'', ''_netrc'', ''.git-credentials'', ''.pgpass'', ''.npmrc'', ''.pypirc'', ''.htpasswd'',
      ''.dockercfg'', ''kubeconfig'', ''terraform.tfstate'', ''terraform.tfstate.backup'']"

definition CONFIG_EXTENSIONS :: "string list" where
  "CONFIG_EXTENSIONS = [''.json'', ''.yaml'', ''.yml'', ''.toml'', ''.txt'', ''.ini'', ''.cfg'', ''.conf'']"

definition path_parts :: "(string \<Rightarrow> string) \<Rightarrow> string \<Rightarrow> string list" where
  "path_parts lower path =
     filter (\<lambda>c. c \<noteq> []) (map lower (split_where (\<lambda>c. c = CHR ''/'' \<or> c = CHR 0x5C) path))"

definition credential_word :: "string \<Rightarrow> bool" where
  "credential_word name \<longleftrightarrow>
     has_part name ''secret'' \<or> has_part name ''credential'' \<or> has_part name ''key''
     \<or> has_part name ''password'' \<or> has_part name ''passwd''
     \<or> hd (split_where (\<lambda>c. c = CHR ''.'') name) = ''auth''"

definition secret_name :: "string \<Rightarrow> bool" where
  "secret_name name \<longleftrightarrow>
     name \<in> set SECRET_BASENAMES
     \<or> name = ''.env'' \<or> name = ''.envrc'' \<or> starts_with name ''.env.'' \<or> ends_with name ''.env''
     \<or> ends_with name ''.pem'' \<or> ends_with name ''.p12'' \<or> ends_with name ''.pfx'' \<or> ends_with name ''.key''
     \<or> ends_with name ''.keystore'' \<or> ends_with name ''.p8'' \<or> ends_with name ''.jks'' \<or> ends_with name ''.ppk''
     \<or> starts_with name ''credentials'' \<or> has_part name ''id_rsa'' \<or> has_part name ''id_ed25519''
     \<or> has_part name ''id_dsa'' \<or> has_part name ''id_ecdsa''
     \<or> (list_ex (ends_with name) CONFIG_EXTENSIONS \<and> credential_word name)"

definition is_secret_path :: "(string \<Rightarrow> string) \<Rightarrow> string \<Rightarrow> bool" where
  "is_secret_path lower path =
     (let parts = path_parts lower path; name = (if parts = [] then [] else last parts) in
      list_ex (\<lambda>c. c \<in> set SECRET_DIR_COMPONENTS) (tl (rev parts)) \<or> secret_name name)"

subsection \<open>Redacting tokens\<close>

definition ENTROPY_MIN_LEN :: nat where
  "ENTROPY_MIN_LEN = 20"

definition is_digit :: "char \<Rightarrow> bool" where "is_digit c = byte_in 0x30 0x39 c"
definition is_upper :: "char \<Rightarrow> bool" where "is_upper c = byte_in 0x41 0x5A c"
definition is_lower :: "char \<Rightarrow> bool" where "is_lower c = byte_in 0x61 0x7A c"

definition is_alnum :: "char \<Rightarrow> bool" where
  "is_alnum c \<longleftrightarrow> is_digit c \<or> is_upper c \<or> is_lower c"

definition is_hexdigit :: "char \<Rightarrow> bool" where
  "is_hexdigit c \<longleftrightarrow> is_digit c \<or> byte_in 0x41 0x46 c \<or> byte_in 0x61 0x66 c"

definition alphabet_size :: "string \<Rightarrow> nat" where
  "alphabet_size token =
     (if list_all is_digit token then 10
      else if list_all is_hexdigit token then 16
      else if list_all is_alnum token then 62
      else 95)"

text \<open>
  \<open>over_ratio\<close> is the comparison of the token's Shannon entropy per character with 0.75 times the
  binary logarithm of the alphabet size, in \<open>f64\<close>.
\<close>

definition is_high_entropy_token :: "(string \<Rightarrow> nat \<Rightarrow> bool) \<Rightarrow> string \<Rightarrow> bool" where
  "is_high_entropy_token over_ratio token \<longleftrightarrow>
     \<not> length token < ENTROPY_MIN_LEN \<and> over_ratio token (alphabet_size token)"

text \<open>Characters of a UTF-8 text: its bytes that are no continuation bytes.\<close>

definition char_count :: "string \<Rightarrow> nat" where
  "char_count s = length (filter (\<lambda>c. \<not> byte_in 0x80 0xBF c) s)"

definition is_aws_secret_shape :: "string \<Rightarrow> bool" where
  "is_aws_secret_shape token \<longleftrightarrow>
     length token = 40 \<and> char_count token = 40
     \<and> list_all (\<lambda>c. is_alnum c \<or> c = CHR ''/'' \<or> c = CHR ''+'' \<or> c = CHR ''='') token
     \<and> list_ex is_upper token \<and> list_ex is_lower token \<and> list_ex is_digit token"

definition EDGE :: string where
  "EDGE = ''.,;:!?()[]{}'' @ [CHR 0x27, CHR 0x22]"

text \<open>Leading punctuation, core, trailing punctuation.\<close>

definition split_edge_punctuation :: "string \<Rightarrow> string \<times> string \<times> string" where
  "split_edge_punctuation token =
     (let rest = dropWhile (\<lambda>c. c \<in> set EDGE) token;
          core = rev (dropWhile (\<lambda>c. c \<in> set EDGE) (rev rest));
          start = length token - length rest
      in (take start token, core, drop (start + length core) token))"

definition redact_token :: "(string \<Rightarrow> nat \<Rightarrow> bool) \<Rightarrow> string \<Rightarrow> string" where
  "redact_token over_ratio token =
     (if starts_with token ''[redacted:'' then token
      else case split_edge_punctuation token of (lead, core, tail) \<Rightarrow>
        if is_aws_secret_shape core then lead @ ''[redacted:aws-secret-key]'' @ tail
        else if is_high_entropy_token over_ratio token then ''[redacted:high-entropy]''
        else token)"

subsection \<open>Walking the text\<close>

text \<open>The white space character a text starts with, if any.\<close>

definition leading_ws :: "string \<Rightarrow> string option" where
  "leading_ws s = List.find (starts_with s) ws_encodings"

lemma leading_ws_Some: "leading_ws s = Some w \<Longrightarrow> w \<noteq> [] \<and> starts_with s w \<and> w \<in> set ws_encodings"
  by (auto simp: leading_ws_def ws_encodings_def byte_string_def find_Some_iff split: if_splits)

text \<open>The text as a list of white space characters (Inl) and maximal tokens (Inr).\<close>

function split_ws :: "string \<Rightarrow> string \<Rightarrow> (string + string) list" where
  "split_ws tok s =
     (if s = [] then (if tok = [] then [] else [Inr tok])
      else case leading_ws s of
        Some w \<Rightarrow> (if tok = [] then [] else [Inr tok]) @ Inl w # split_ws [] (drop (length w) s)
      | None \<Rightarrow> split_ws (tok @ [hd s]) (tl s))"
  by auto
termination
  by (relation "measure (\<lambda>(tok, s). length s)") (auto dest!: leading_ws_Some)

declare split_ws.simps [simp del]

definition redact_entropy_preserving_whitespace :: "(string \<Rightarrow> nat \<Rightarrow> bool) \<Rightarrow> string \<Rightarrow> string" where
  "redact_entropy_preserving_whitespace over_ratio s =
     concat (map (\<lambda>p. case p of Inl w \<Rightarrow> w | Inr t \<Rightarrow> redact_token over_ratio t) (split_ws [] s))"

text \<open>\<open>rules\<close> are the replacements of the regular expressions, in the order of the table.\<close>

definition scrub :: "(string \<Rightarrow> string) list \<Rightarrow> (string \<Rightarrow> nat \<Rightarrow> bool) \<Rightarrow> string \<Rightarrow> string" where
  "scrub rules over_ratio s = redact_entropy_preserving_whitespace over_ratio (foldl (\<lambda>out rule. rule out) s rules)"

fun tokens_of :: "(string + string) list \<Rightarrow> string list" where
  "tokens_of [] = []"
| "tokens_of (Inl w # ps) = tokens_of ps"
| "tokens_of (Inr t # ps) = t # tokens_of ps"

text \<open>The first \<open>n\<close> characters.\<close>

fun take_chars :: "nat \<Rightarrow> string \<Rightarrow> string" where
  "take_chars n [] = []"
| "take_chars n (c # cs) =
     (if byte_in 0x80 0xBF c then c # take_chars n cs
      else case n of 0 \<Rightarrow> [] | Suc m \<Rightarrow> c # take_chars m cs)"

fun join_with :: "string \<Rightarrow> string list \<Rightarrow> string" where
  "join_with sep [] = []"
| "join_with sep [w] = w"
| "join_with sep (w # ws) = w @ sep @ join_with sep ws"

definition excerpt :: "(string \<Rightarrow> string) list \<Rightarrow> (string \<Rightarrow> nat \<Rightarrow> bool) \<Rightarrow> string \<Rightarrow> string" where
  "excerpt rules over_ratio s =
     (let flat = join_with '' '' (tokens_of (split_ws [] (scrub rules over_ratio s))) in
      trim (take_chars 120 flat))"

end
