(* ===== verification/Scrub_Props.thy ===== *)
theory Scrub_Props
  imports Scrub
begin

text \<open>Which paths are withheld, as a rule over directories; redaction works piece by piece.\<close>

lemma split_where_nonempty [simp]: "split_where P s \<noteq> []"
  by (cases s) (auto split: list.splits)

lemma split_where_append_sep: "P c \<Longrightarrow> split_where P (d @ c # p) = split_where P d @ split_where P p"
proof (induction d)
  case (Cons x d)
  obtain w ws where "split_where P d = w # ws" by (meson list.exhaust split_where_nonempty)
  with Cons show ?case by simp
qed simp

lemma path_parts_join: "path_parts lower (d @ CHR ''/'' # p) = path_parts lower d @ path_parts lower p"
  by (simp add: path_parts_def split_where_append_sep)

lemma no_name_not_secret: "\<not> secret_name []"
  by (simp add: secret_name_def SECRET_BASENAMES_def ends_with_def CONFIG_EXTENSIONS_def)

text \<open>
  Withholding is decided by the directories above a file and by its name alone. A path below
  a directory is withheld exactly when it is withheld by itself or some part of the directory
  names a secret directory; so no added directory ever makes a secret file recordable, and nothing
  below a secret directory is recorded.
\<close>

theorem secret_path_join:
  "is_secret_path lower (d @ CHR ''/'' # p) =
     (if path_parts lower p = [] then is_secret_path lower d
      else is_secret_path lower p \<or> list_ex (\<lambda>c. c \<in> set SECRET_DIR_COMPONENTS) (path_parts lower d))"
proof (cases "path_parts lower p" rule: rev_cases)
  case Nil
  then show ?thesis by (simp add: is_secret_path_def path_parts_join Let_def)
next
  case (snoc ps name)
  then show ?thesis by (auto simp: is_secret_path_def path_parts_join Let_def list_ex_iff)
qed

text \<open>The pieces of a text, in order, are the text.\<close>

lemma split_ws_concat: "concat (map (case_sum id id) (split_ws tok s)) = tok @ s"
proof (induction tok s rule: split_ws.induct)
  case (1 tok s)
  show ?case
  proof (cases "s = []")
    case True
    then show ?thesis by (simp add: split_ws.simps[of tok "[]"])
  next
    case False
    show ?thesis
    proof (cases "leading_ws s")
      case None
      with 1 False show ?thesis by (simp add: split_ws.simps[of tok s])
    next
      case (Some w)
      then have "s = w @ drop (length w) s" using leading_ws_Some[OF Some] by (auto simp: starts_with_iff)
      with 1 False Some show ?thesis by (simp add: split_ws.simps[of tok s])
    qed
  qed
qed

text \<open>A text none of whose tokens is suspicious is kept as it is, white space included.\<close>

lemma redaction_keeps_plain_text:
  assumes "list_all (\<lambda>t. redact_token r t = t) (tokens_of (split_ws [] s))"
  shows "redact_entropy_preserving_whitespace r s = s"
proof -
  have "map (\<lambda>p. case p of Inl w \<Rightarrow> w | Inr t \<Rightarrow> redact_token r t) ps = map (case_sum id id) ps"
    if "list_all (\<lambda>t. redact_token r t = t) (tokens_of ps)" for ps
    using that by (induction ps rule: tokens_of.induct) auto
  from arg_cong[OF this[OF assms], of concat] split_ws_concat[of "[]" s] show ?thesis
    by (simp only: redact_entropy_preserving_whitespace_def append_Nil)
qed

end
