(* ===== verification/Memory.thy ===== *)
theory Memory
  imports Complex_Main Undo_Plan Scrub "HOL-Library.Product_Lexorder"
begin

text \<open>
  Hash-pinned memories (agentrec-core/src/memory.rs): the records of \<open>memory.jsonl\<close>, the fold to
  effective memories, pin validation and freshness against the working tree, and recall. The BM25
  score (\<open>f64\<close>), tokenization (Unicode lower-casing) and scrubbing's parameters are arguments.
\<close>

definition FACT_MAX_CHARS :: nat where
  "FACT_MAX_CHARS = 500"

definition PINS_MAX :: nat where
  "PINS_MAX = 8"

definition RECALL_VERIFY_CAP :: nat where
  "RECALL_VERIFY_CAP = 128"

subsection \<open>Records\<close>

record pin =
  pin_path :: string
  pin_hash :: hash

datatype memory_op = Assert | Reverify | Retract

record memory_record =
  mr_v :: "32 word"
  mr_kind :: string
  mr_id :: string
  mr_op :: memory_op
  mr_fact :: string
  mr_pins :: "pin list"
  mr_source_turns :: "string list"
  mr_origin :: string
  mr_ts :: nat
  mr_reason :: "string option"

definition dec_pin :: "json \<Rightarrow> pin option" where
  "dec_pin j = (case j of
     JObj fs \<Rightarrow> do { p \<leftarrow> req dec_str ''path'' fs; h \<leftarrow> req dec_str ''hash'' fs;
                     Some \<lparr>pin_path = p, pin_hash = h\<rparr> }
   | _ \<Rightarrow> None)"

definition dec_op :: "json \<Rightarrow> memory_op option" where
  "dec_op j = (if j = JStr ''assert'' then Some Assert else if j = JStr ''reverify'' then Some Reverify
     else if j = JStr ''retract'' then Some Retract else None)"

definition memory_fields :: "(string \<times> json) list \<Rightarrow> memory_record option" where
  "memory_fields fs = do {
     v \<leftarrow> req dec_u32 ''v'' fs;
     kind \<leftarrow> req dec_str ''type'' fs;
     i \<leftarrow> req dec_str ''id'' fs;
     op \<leftarrow> req dec_op ''op'' fs;
     fact \<leftarrow> req dec_str ''fact'' fs;
     pins \<leftarrow> req (dec_arr dec_pin) ''pins'' fs;
     turns \<leftarrow> dflt [] (dec_arr dec_str) ''source_turns'' fs;
     origin \<leftarrow> req dec_str ''origin'' fs;
     ts \<leftarrow> req dec_u64 ''ts'' fs;
     reason \<leftarrow> optf dec_str ''reason'' fs;
     Some \<lparr>mr_v = v, mr_kind = kind, mr_id = i, mr_op = op, mr_fact = fact, mr_pins = pins,
       mr_source_turns = turns, mr_origin = origin, mr_ts = ts, mr_reason = reason\<rparr> }"

fun dec_memory :: "json \<Rightarrow> memory_record option" where
  "dec_memory (JObj fs) = memory_fields fs"
| "dec_memory _ = None"

record effective_memory =
  em_id :: string
  em_fact :: string
  em_pins :: "pin list"
  em_origin :: string
  em_ts :: nat
  em_retracted :: bool

subsection \<open>Pins\<close>

datatype freshness = Fresh | MemoryStale | Orphaned

datatype pin_error = PinAbsolute | PinParent | PinRootMissing | PinMissing | PinEscapes | PinSecret

text \<open>\<open>canon\<close> also resolves files here: None when the path does not exist.\<close>

definition validate_pin_path :: "canonicalizer \<Rightarrow> (string \<Rightarrow> string) \<Rightarrow> string list \<Rightarrow> string \<Rightarrow> pin_error + string" where
  "validate_pin_path canon low base path =
     (if is_absolute path then Inl PinAbsolute
      else if ''..'' \<in> set (components path) then Inl PinParent
      else case canon base of
        None \<Rightarrow> Inl PinRootMissing
      | Some canonical_root \<Rightarrow>
          (case canon (base @ components path) of
             None \<Rightarrow> Inl PinMissing
           | Some target \<Rightarrow>
               if \<not> starts_with target canonical_root then Inl PinEscapes
               else if is_secret_path low path then Inl PinSecret
               else Inr path))"

definition hash_pin :: "(string \<Rightarrow> string) \<Rightarrow> worktree \<Rightarrow> string \<Rightarrow> hash option" where
  "hash_pin sha w rel = (case read_regular w rel of Content bs \<Rightarrow> Some (hash_bytes sha bs) | _ \<Rightarrow> None)"

fun pin_walk :: "(string \<Rightarrow> string) \<Rightarrow> worktree \<Rightarrow> bool \<Rightarrow> pin list \<Rightarrow> freshness" where
  "pin_walk sha w any_stale [] = (if any_stale then MemoryStale else Fresh)"
| "pin_walk sha w any_stale (p # ps) = (case hash_pin sha w (pin_path p) of
     Some current \<Rightarrow> pin_walk sha w (any_stale \<or> current \<noteq> pin_hash p) ps
   | None \<Rightarrow> Orphaned)"

definition pin_freshness :: "(string \<Rightarrow> string) \<Rightarrow> worktree \<Rightarrow> pin list \<Rightarrow> freshness" where
  "pin_freshness sha w pins = pin_walk sha w False pins"

subsection \<open>Appending\<close>

datatype memory_error = EmptyId | FactTooLong nat | NoPins | TooManyPins nat | FactScrubbedAway | AppendFailed

text \<open>\<open>scrubber\<close> is \<open>scrub\<close> with its parameters; the file holds records, \<open>ok\<close> is the append's outcome.\<close>

definition append_memory :: "(string \<Rightarrow> string) \<Rightarrow> bool \<Rightarrow> memory_record list \<Rightarrow> memory_record
    \<Rightarrow> (memory_error + unit) \<times> memory_record list" where
  "append_memory scrubber ok recs r =
     (if trim (mr_id r) = [] then (Inl EmptyId, recs)
      else if char_count (mr_fact r) > FACT_MAX_CHARS then (Inl (FactTooLong (char_count (mr_fact r))), recs)
      else if mr_pins r = [] then (Inl NoPins, recs)
      else if length (mr_pins r) > PINS_MAX then (Inl (TooManyPins (length (mr_pins r))), recs)
      else let scrubbed = scrubber (mr_fact r) in
        if trim scrubbed = [] then (Inl FactScrubbedAway, recs)
        else if ok then (Inr (), recs @ [r\<lparr>mr_fact := scrubbed\<rparr>]) else (Inl AppendFailed, recs))"

subsection \<open>The fold\<close>

fun op_rank :: "memory_op \<Rightarrow> nat" where
  "op_rank Assert = 0"
| "op_rank Reverify = 1"
| "op_rank Retract = 2"

definition content_key :: "memory_record \<Rightarrow> (string \<times> string) list \<times> string \<times> string" where
  "content_key r = (sort (map (\<lambda>p. (pin_path p, pin_hash p)) (mr_pins r)), mr_fact r, mr_origin r)"

definition fold_key :: "memory_record \<Rightarrow> nat \<times> nat \<times> (string \<times> string) list \<times> string \<times> string" where
  "fold_key r = (mr_ts r, op_rank (mr_op r), content_key r)"

definition fold_op :: "effective_memory \<Rightarrow> memory_record \<Rightarrow> effective_memory" where
  "fold_op m r = (case mr_op r of
     Retract \<Rightarrow> m\<lparr>em_retracted := True, em_origin := mr_origin r, em_ts := mr_ts r\<rparr>
   | _ \<Rightarrow> m\<lparr>em_fact := mr_fact r, em_pins := mr_pins r, em_origin := mr_origin r, em_ts := mr_ts r,
            em_retracted := False\<rparr>)"

definition blank_memory :: "string \<Rightarrow> effective_memory" where
  "blank_memory i = \<lparr>em_id = i, em_fact = [], em_pins = [], em_origin = [], em_ts = 0, em_retracted = False\<rparr>"

definition fold_group :: "memory_record list \<Rightarrow> string \<Rightarrow> effective_memory" where
  "fold_group recs i = foldl fold_op (blank_memory i) (sort_key fold_key (filter (\<lambda>r. mr_id r = i) recs))"

definition fold_records :: "memory_record list \<Rightarrow> effective_memory list" where
  "fold_records recs = map (fold_group recs) (dedup (map mr_id recs))"

subsection \<open>Loading under a deadline\<close>

text \<open>
  The deadline is looked at once per loop turn and stays passed once it is: a budget of \<open>k\<close>
  looks, or none. \<open>spend n\<close> is \<open>n\<close> looks in a row, None when one of them finds it passed.
\<close>

type_synonym budget = "nat option"

definition spend :: "nat \<Rightarrow> budget \<Rightarrow> budget option" where
  "spend n b = (case b of None \<Rightarrow> Some None | Some k \<Rightarrow> if n \<le> k then Some (Some (k - n)) else None)"

datatype memory_file = MemAbsent | MemUnreadable | MemBytes string

definition memory_line :: "(string \<Rightarrow> json option) \<Rightarrow> string \<Rightarrow> memory_record option" where
  "memory_line from_str line =
     (if \<not> utf8_valid line \<or> trim line = [] then None else Option.bind (from_str (trim line)) dec_memory)"

definition bad_line :: "(string \<Rightarrow> json option) \<Rightarrow> string \<Rightarrow> bool" where
  "bad_line from_str line \<longleftrightarrow> \<not> utf8_valid line \<or> (trim line \<noteq> [] \<and> memory_line from_str line = None)"

text \<open>The effective memories and the corruption flag, with what is left of the budget.\<close>

definition load_effective_checked :: "(string \<Rightarrow> json option) \<Rightarrow> memory_file \<Rightarrow> budget
    \<Rightarrow> (effective_memory list \<times> bool \<times> budget) option" where
  "load_effective_checked from_str f b = (case f of
     MemAbsent \<Rightarrow> Some ([], False, b)
   | MemUnreadable \<Rightarrow> Some ([], True, b)
   | MemBytes body \<Rightarrow>
       (case spend (length (lines body)) b of
          None \<Rightarrow> None
        | Some b1 \<Rightarrow>
            (let recs = List.map_filter (memory_line from_str) (lines body) in
             case spend (length (dedup (map mr_id recs))) b1 of
               None \<Rightarrow> None
             | Some b2 \<Rightarrow> Some (fold_records recs, list_ex (bad_line from_str) (lines body), b2))))"

definition load_effective :: "(string \<Rightarrow> json option) \<Rightarrow> memory_file \<Rightarrow> effective_memory list" where
  "load_effective from_str f = (case load_effective_checked from_str f None of
     Some (ms, _, _) \<Rightarrow> ms | None \<Rightarrow> [])"

subsection \<open>Ranking\<close>

definition doc_text :: "effective_memory \<Rightarrow> string" where
  "doc_text m = foldl (\<lambda>s p. s @ '' '' @ pin_path p) (em_fact m) (em_pins m)"

text \<open>
  \<open>tok\<close> tokenizes; \<open>score docs terms doc\<close> is the BM25 sum of a document's tokens for the distinct
  query terms over all documents, as the rational an \<open>f64\<close> is; \<open>floor\<close> is \<open>SCORE_FLOOR\<close>. The sort
  is descending by score, then ascending by index.
\<close>

record ranker =
  rk_tok :: "string \<Rightarrow> string list"
  rk_score :: "string list list \<Rightarrow> string list \<Rightarrow> string list \<Rightarrow> rat"
  rk_floor :: rat

definition bm25_rank_checked :: "ranker \<Rightarrow> effective_memory list \<Rightarrow> string \<Rightarrow> budget
    \<Rightarrow> ((nat \<times> rat) list \<times> budget) option" where
  "bm25_rank_checked rk corpus query b =
     (let q = rk_tok rk query in
      if q = [] then Some ([], b)
      else let cands = filter (\<lambda>(i, m). \<not> em_retracted m) (enumerate 0 corpus) in
        case spend (length cands) b of
          None \<Rightarrow> None
        | Some b1 \<Rightarrow>
            if cands = [] then Some ([], b1)
            else let docs = map (\<lambda>(i, m). (i, rk_tok rk (doc_text m))) cands; terms = dedup q in
              (case spend (length terms + length docs) b1 of
                 None \<Rightarrow> None
               | Some b2 \<Rightarrow>
                   Some (sort_key (\<lambda>(i, s). - s)
                     (filter (\<lambda>(i, s). s \<ge> rk_floor rk)
                       (map (\<lambda>(i, t). (i, rk_score rk (map snd docs) terms t)) docs)), b2)))"

subsection \<open>Recall\<close>

record recall_outcome =
  ro_hits :: "effective_memory list"
  ro_budget_exceeded :: bool
  ro_capped :: bool
  ro_store_corrupt :: bool

definition no_recall :: recall_outcome where
  "no_recall = \<lparr>ro_hits = [], ro_budget_exceeded = False, ro_capped = False, ro_store_corrupt = False\<rparr>"

text \<open>The verify walk at candidate \<open>i\<close> with the hits so far.\<close>

fun verify_walk :: "(string \<Rightarrow> string) \<Rightarrow> worktree \<Rightarrow> nat \<Rightarrow> nat \<Rightarrow> budget \<Rightarrow> effective_memory list
    \<Rightarrow> effective_memory list \<Rightarrow> recall_outcome" where
  "verify_walk sha w k i b hits [] = no_recall\<lparr>ro_hits := hits\<rparr>"
| "verify_walk sha w k i b hits (m # ms) =
     (if length hits \<ge> k then no_recall\<lparr>ro_hits := hits\<rparr>
      else if i \<ge> RECALL_VERIFY_CAP then no_recall\<lparr>ro_hits := hits, ro_capped := True\<rparr>
      else case spend 1 b of
        None \<Rightarrow> no_recall\<lparr>ro_budget_exceeded := True\<rparr>
      | Some b' \<Rightarrow> verify_walk sha w k (Suc i) b'
                     (if pin_freshness sha w (em_pins m) = Fresh then hits @ [m] else hits) ms)"

text \<open>Newest first: a stable sort by \<open>Reverse(ts)\<close>.\<close>

definition newest_first :: "effective_memory list \<Rightarrow> effective_memory list" where
  "newest_first ms = sort_key (\<lambda>m. - int (em_ts m)) ms"

definition recall_impl :: "(string \<Rightarrow> string) \<Rightarrow> (string \<Rightarrow> json option) \<Rightarrow> ranker \<Rightarrow> worktree \<Rightarrow> memory_file
    \<Rightarrow> string \<Rightarrow> nat \<Rightarrow> budget \<Rightarrow> recall_outcome" where
  "recall_impl sha from_str rk w f query k b =
     (case spend 1 b of
        None \<Rightarrow> no_recall\<lparr>ro_budget_exceeded := True\<rparr>
      | Some b1 \<Rightarrow>
        (case load_effective_checked from_str f b1 of
           None \<Rightarrow> no_recall\<lparr>ro_budget_exceeded := True\<rparr>
         | Some (all, corrupt, b2) \<Rightarrow>
             if corrupt then no_recall\<lparr>ro_store_corrupt := True\<rparr>
             else if rk_tok rk query = [] then
               verify_walk sha w k 0 b2 [] (newest_first (filter (\<lambda>m. \<not> em_retracted m) all))
             else case bm25_rank_checked rk all query b2 of
               None \<Rightarrow> no_recall\<lparr>ro_budget_exceeded := True\<rparr>
             | Some (ranked, b3) \<Rightarrow> verify_walk sha w k 0 b3 [] (map (\<lambda>(i, s). all ! i) ranked)))"

end
