(* ===== verification/Memory_Props.thy ===== *)
theory Memory_Props
  imports Memory "HOL-Library.Multiset"
begin

text \<open>
  Memories: the fold does not depend on the order of the lines, and recall returns exactly the
  fresh candidates in rank order, cut at \<open>k\<close> and at the verification cap.
\<close>

subsection \<open>Order independence\<close>

text \<open>
  Two memories say the same when they agree on everything but the order of their pins.
\<close>

definition same_memory :: "effective_memory \<Rightarrow> effective_memory \<Rightarrow> bool" where
  "same_memory a b \<longleftrightarrow> em_id a = em_id b \<and> em_fact a = em_fact b \<and> em_origin a = em_origin b
     \<and> em_ts a = em_ts b \<and> em_retracted a = em_retracted b
     \<and> mset (map (\<lambda>p. (pin_path p, pin_hash p)) (em_pins a)) = mset (map (\<lambda>p. (pin_path p, pin_hash p)) (em_pins b))"

lemma same_memory_refl [simp]: "same_memory m m"
  by (simp add: same_memory_def)

lemma op_rank_inj: "op_rank a = op_rank b \<Longrightarrow> a = b"
  by (cases a; cases b) simp_all

lemma fold_op_same:
  assumes "same_memory m m'" "fold_key r = fold_key r'"
  shows "same_memory (fold_op m r) (fold_op m' r')"
proof -
  have op: "mr_op r = mr_op r'" using assms(2) by (auto simp: fold_key_def intro: op_rank_inj)
  have "sort (map (\<lambda>p. (pin_path p, pin_hash p)) (mr_pins r)) = sort (map (\<lambda>p. (pin_path p, pin_hash p)) (mr_pins r'))"
    using assms(2) by (simp add: fold_key_def content_key_def)
  from arg_cong[OF this, of mset]
  have "mset (map (\<lambda>p. (pin_path p, pin_hash p)) (mr_pins r)) = mset (map (\<lambda>p. (pin_path p, pin_hash p)) (mr_pins r'))"
    by simp
  with assms op show ?thesis
    by (cases "mr_op r'") (auto simp: fold_op_def same_memory_def fold_key_def content_key_def)
qed

lemma foldl_same:
  "map fold_key rs = map fold_key rs' \<Longrightarrow> same_memory m m' \<Longrightarrow> same_memory (foldl fold_op m rs) (foldl fold_op m' rs')"
proof (induction rs arbitrary: rs' m m')
  case (Cons r rs)
  then obtain r' ss where "rs' = r' # ss" "fold_key r = fold_key r'" "map fold_key rs = map fold_key ss" by auto
  with Cons show ?case by (auto intro: fold_op_same)
qed simp

lemma map_key_sort: "map f (sort_key f xs) = sort (map f xs)"
proof (rule properties_for_sort[symmetric])
  show "sorted (map f (sort_key f xs))" by simp
  show "mset (map f (sort_key f xs)) = mset (map f xs)" by simp
qed

text \<open>
  C36: the effective memories do not depend on the order of the records in the file. For two
  files with the same records in any order, every id folds to the same state: fact, origin, time,
  retraction, and pins up to their order.
\<close>

theorem memory_fold_order_free:
  assumes "mset recs = mset recs'"
  shows "same_memory (fold_group recs i) (fold_group recs' i)
    \<and> set (map em_id (fold_records recs)) = set (map em_id (fold_records recs'))"
proof -
  let ?f = "filter (\<lambda>r. mr_id r = i)"
  have "mset (map fold_key (?f recs)) = mset (map fold_key (?f recs'))"
    using assms by (simp add: mset_filter)
  then have "sort (map fold_key (?f recs)) = sort (map fold_key (?f recs'))"
    by (intro properties_for_sort) simp_all
  then have "map fold_key (sort_key fold_key (?f recs)) = map fold_key (sort_key fold_key (?f recs'))"
    by (simp add: map_key_sort)
  then have "same_memory (fold_group recs i) (fold_group recs' i)"
    unfolding fold_group_def by (rule foldl_same) simp
  moreover have "em_id (foldl fold_op m rs) = em_id m" for m rs
    by (induction rs arbitrary: m) (auto simp: fold_op_def split: memory_op.splits)
  then have "em_id (fold_group rs j) = j" for rs j by (simp add: fold_group_def blank_memory_def)
  then have "map em_id (fold_records rs) = dedup (map mr_id rs)" for rs
    by (simp add: fold_records_def o_def)
  then have "set (map em_id (fold_records rs)) = mr_id ` set rs" for rs by simp
  moreover have "set recs = set recs'" using assms by (metis set_mset_mset)
  ultimately show ?thesis by metis
qed

definition sample_memory :: "memory_op \<Rightarrow> string \<Rightarrow> memory_record" where
  "sample_memory op h = \<lparr>mr_v = 1, mr_kind = ''memory'', mr_id = ''m'', mr_op = op, mr_fact = ''f'',
     mr_pins = [\<lparr>pin_path = ''a'', pin_hash = h\<rparr>], mr_source_turns = [], mr_origin = ''human'', mr_ts = 5,
     mr_reason = None\<rparr>"

theorem memory_fold_order_free_witness:
  "same_memory (fold_group [sample_memory Assert ''h1'', sample_memory Reverify ''h2'', sample_memory Reverify ''h3''] ''m'')
     (fold_group [sample_memory Reverify ''h3'', sample_memory Reverify ''h2'', sample_memory Assert ''h1''] ''m'')"
  using memory_fold_order_free[of
      "[sample_memory Assert ''h1'', sample_memory Reverify ''h2'', sample_memory Reverify ''h3'']"
      "[sample_memory Reverify ''h3'', sample_memory Reverify ''h2'', sample_memory Assert ''h1'']" "''m''"]
  by simp

text \<open>
  The order of the pins is the one thing the file order can decide: two records of the same time
  and operation whose pins differ in order only have the same key.
\<close>

lemma pin_order_follows_file_order:
  assumes "fold_key r = fold_key r'" "mr_op r = Reverify" "mr_op r' = Reverify" "mr_id r = i" "mr_id r' = i"
  shows "em_pins (fold_group [r, r'] i) = mr_pins r' \<and> em_pins (fold_group [r', r] i) = mr_pins r"
  using assms by (simp add: fold_group_def fold_op_def)

subsection \<open>Recall\<close>

text \<open>What recall ranks, without a deadline: best first, or newest first for a query of no tokens.\<close>

definition recall_candidates :: "ranker \<Rightarrow> effective_memory list \<Rightarrow> string \<Rightarrow> effective_memory list" where
  "recall_candidates rk all query =
     (if rk_tok rk query = [] then newest_first (filter (\<lambda>m. \<not> em_retracted m) all)
      else case bm25_rank_checked rk all query None of
        None \<Rightarrow> [] | Some (ranked, b) \<Rightarrow> map (\<lambda>(i, s). all ! i) ranked)"

definition is_fresh :: "(string \<Rightarrow> string) \<Rightarrow> worktree \<Rightarrow> effective_memory \<Rightarrow> bool" where
  "is_fresh sha w m \<longleftrightarrow> pin_freshness sha w (em_pins m) = Fresh"

definition recall_spec :: "(string \<Rightarrow> string) \<Rightarrow> (string \<Rightarrow> json option) \<Rightarrow> ranker \<Rightarrow> worktree \<Rightarrow> memory_file
    \<Rightarrow> string \<Rightarrow> nat \<Rightarrow> recall_outcome" where
  "recall_spec sha from_str rk w f query k =
     (case load_effective_checked from_str f None of
        None \<Rightarrow> no_recall
      | Some (all, corrupt, b) \<Rightarrow>
          if corrupt then no_recall\<lparr>ro_store_corrupt := True\<rparr>
          else let cands = recall_candidates rk all query;
                   fresh = filter (is_fresh sha w) (take RECALL_VERIFY_CAP cands)
               in no_recall\<lparr>ro_hits := take k fresh,
                    ro_capped := (length fresh < k \<and> RECALL_VERIFY_CAP < length cands)\<rparr>)"

lemma spend_None [simp]: "spend n None = Some None"
  by (simp add: spend_def)

lemma verify_walk_spec:
  "length hits \<le> k \<Longrightarrow> i \<le> RECALL_VERIFY_CAP \<Longrightarrow>
     verify_walk sha w k i None hits ms =
       (let fresh = filter (is_fresh sha w) (take (RECALL_VERIFY_CAP - i) ms) in
        no_recall\<lparr>ro_hits := hits @ take (k - length hits) fresh,
          ro_capped := (length hits + length fresh < k \<and> RECALL_VERIFY_CAP - i < length ms)\<rparr>)"
proof (induction ms arbitrary: i hits)
  case Nil
  then show ?case by (simp add: no_recall_def)
next
  case (Cons m ms)
  consider (full) "length hits = k" | (capped) "length hits < k" "i = RECALL_VERIFY_CAP"
    | (go) "length hits < k" "i < RECALL_VERIFY_CAP" using Cons.prems by linarith
  then show ?case
  proof cases
    case full
    then show ?thesis by (simp add: no_recall_def)
  next
    case capped
    then show ?thesis by (simp add: no_recall_def)
  next
    case go
    then have "take (RECALL_VERIFY_CAP - i) (m # ms) = m # take (RECALL_VERIFY_CAP - Suc i) ms"
      by (metis Suc_diff_Suc take_Suc_Cons)
    moreover have "RECALL_VERIFY_CAP - i < length (m # ms) \<longleftrightarrow> RECALL_VERIFY_CAP - Suc i < length ms"
      using go by auto
    moreover have "k - length hits = Suc (k - Suc (length hits))" using go by simp
    ultimately show ?thesis
      using go Cons.IH[of "hits @ [m]" "Suc i"] Cons.IH[of hits "Suc i"]
      by (auto simp: is_fresh_def Let_def)
  qed
qed

definition out_of_time :: recall_outcome where
  "out_of_time = no_recall\<lparr>ro_budget_exceeded := True\<rparr>"

lemma verify_walk_budget:
  "verify_walk sha w k i b hits ms = verify_walk sha w k i None hits ms
     \<or> verify_walk sha w k i b hits ms = out_of_time"
  by (induction ms arbitrary: i b hits) (auto simp: out_of_time_def split: option.splits)

lemma load_budget:
  "case load_effective_checked from_str f b of
     None \<Rightarrow> True
   | Some (all, corrupt, b') \<Rightarrow> \<exists>b''. load_effective_checked from_str f None = Some (all, corrupt, b'')"
  by (auto simp: load_effective_checked_def Let_def split: memory_file.splits option.splits)

lemma load_total: "\<exists>all corrupt b. load_effective_checked from_str f None = Some (all, corrupt, b)"
  by (auto simp: load_effective_checked_def split: memory_file.splits)

lemma rank_budget:
  "case bm25_rank_checked rk all q b of
     None \<Rightarrow> True
   | Some (ranked, b') \<Rightarrow> \<exists>b''. bm25_rank_checked rk all q None = Some (ranked, b'')"
  by (auto simp: bm25_rank_checked_def Let_def split: option.splits)

lemma rank_total: "\<exists>ranked b. bm25_rank_checked rk all q None = Some (ranked, b)"
  by (auto simp: bm25_rank_checked_def Let_def)

lemma recall_is_spec: "recall_impl sha from_str rk w f query k None = recall_spec sha from_str rk w f query k"
proof -
  obtain all corrupt b where l: "load_effective_checked from_str f None = Some (all, corrupt, b)"
    using load_total by blast
  have "b = None" using l by (auto simp: load_effective_checked_def split: memory_file.splits)
  moreover obtain ranked b' where r: "bm25_rank_checked rk all query None = Some (ranked, b')"
    using rank_total by blast
  moreover have "b' = None" using r by (auto simp: bm25_rank_checked_def Let_def split: if_splits)
  ultimately show ?thesis
    using l verify_walk_spec[of "[]" k 0 sha w]
    by (simp add: recall_impl_def recall_spec_def recall_candidates_def Let_def)
qed

lemma recall_budget:
  "recall_impl sha from_str rk w f query k b = recall_impl sha from_str rk w f query k None
     \<or> recall_impl sha from_str rk w f query k b = out_of_time"
proof (cases "spend 1 b")
  case None
  then show ?thesis by (simp add: recall_impl_def out_of_time_def)
next
  case (Some b1)
  show ?thesis
  proof (cases "load_effective_checked from_str f b1")
    case None
    with Some show ?thesis by (simp add: recall_impl_def out_of_time_def)
  next
    case l: (Some x)
    obtain all corrupt b2 where x: "x = (all, corrupt, b2)" by (cases x)
    with l load_budget[where f = f and b = b1 and from_str = from_str]
    obtain b' where l': "load_effective_checked from_str f None = Some (all, corrupt, b')" by auto
    have "b' = None" using l' by (auto simp: load_effective_checked_def split: memory_file.splits)
    show ?thesis
    proof (cases "bm25_rank_checked rk all query b2")
      case None
      with Some l x l' \<open>b' = None\<close> verify_walk_budget[of sha w k 0 b2 "[]"] show ?thesis
        by (auto simp: recall_impl_def out_of_time_def)
    next
      case r: (Some y)
      obtain ranked b3 where y: "y = (ranked, b3)" by (cases y)
      with r rank_budget[where rk = rk and all = all and q = query and b = b2]
      obtain b'' where r': "bm25_rank_checked rk all query None = Some (ranked, b'')" by auto
      have "b'' = None" using r' by (auto simp: bm25_rank_checked_def Let_def split: if_splits)
      with Some l x l' r y r' \<open>b' = None\<close> verify_walk_budget[of sha w k 0 b2 "[]"] verify_walk_budget[of sha w k 0 b3 "[]"]
      show ?thesis by (auto simp: recall_impl_def)
    qed
  qed
qed

lemma enumerate_nth: "(i, m) \<in> set (enumerate 0 xs) \<Longrightarrow> i < length xs \<and> xs ! i = m"
  by (auto simp: in_set_enumerate_eq)

lemma candidates_live: "m \<in> set (recall_candidates rk all query) \<Longrightarrow> m \<in> set all \<and> \<not> em_retracted m"
proof -
  assume m: "m \<in> set (recall_candidates rk all query)"
  show ?thesis
  proof (cases "rk_tok rk query = []")
    case True
    with m show ?thesis by (auto simp: recall_candidates_def newest_first_def)
  next
    case False
    obtain ranked b where r: "bm25_rank_checked rk all query None = Some (ranked, b)" using rank_total by blast
    with False m obtain i s where i: "(i, s) \<in> set ranked" "m = all ! i" by (auto simp: recall_candidates_def)
    have "\<exists>m'. (i, m') \<in> set (enumerate 0 all) \<and> \<not> em_retracted m'"
      using r i(1) False by (auto simp: bm25_rank_checked_def Let_def split: if_splits)
    with i(2) show ?thesis by (auto dest!: enumerate_nth)
  qed
qed

text \<open>
  Recall returns exactly the fresh candidates. Without a deadline the hits are the first
  \<open>k\<close> of the fresh ones among the best 128 candidates, the cap is reported exactly when it
  may have hidden one, and a corrupt store gives no hits; every hit is an effective memory that is
  not retracted and whose pins all match the working tree. A deadline changes nothing but that
  recall may give up with no hits at all.
\<close>

theorem recall_exactly_fresh:
  "recall_impl sha from_str rk w f query k None = recall_spec sha from_str rk w f query k
   \<and> (recall_impl sha from_str rk w f query k b = recall_spec sha from_str rk w f query k
      \<or> recall_impl sha from_str rk w f query k b = out_of_time)
   \<and> list_all (\<lambda>m. m \<in> set (load_effective from_str f) \<and> \<not> em_retracted m
         \<and> list_all (\<lambda>p. hash_pin sha w (pin_path p) = Some (pin_hash p)) (em_pins m))
       (ro_hits (recall_impl sha from_str rk w f query k b))"
proof -
  have walk: "pin_walk sha w st ps = Fresh \<Longrightarrow> \<not> st \<and> list_all (\<lambda>p. hash_pin sha w (pin_path p) = Some (pin_hash p)) ps"
    for st ps by (induction ps arbitrary: st) (auto split: option.splits if_splits)
  have "list_all (\<lambda>m. m \<in> set (load_effective from_str f) \<and> \<not> em_retracted m
         \<and> list_all (\<lambda>p. hash_pin sha w (pin_path p) = Some (pin_hash p)) (em_pins m))
       (ro_hits (recall_spec sha from_str rk w f query k))"
  proof -
    obtain all corrupt b where l: "load_effective_checked from_str f None = Some (all, corrupt, b)"
      using load_total by blast
    have "m \<in> set all \<and> \<not> em_retracted m \<and> list_all (\<lambda>p. hash_pin sha w (pin_path p) = Some (pin_hash p)) (em_pins m)"
      if "m \<in> set (ro_hits (recall_spec sha from_str rk w f query k))" for m
    proof -
      from that l have "m \<in> set (recall_candidates rk all query)" "is_fresh sha w m"
        by (auto simp: recall_spec_def no_recall_def Let_def split: if_splits dest!: in_set_takeD)
      with candidates_live walk[of False "em_pins m"] show ?thesis by (auto simp: is_fresh_def pin_freshness_def)
    qed
    with l show ?thesis by (auto simp: list_all_iff load_effective_def)
  qed
  moreover have "ro_hits out_of_time = []" by (simp add: out_of_time_def no_recall_def)
  ultimately show ?thesis
    using recall_is_spec[of sha from_str rk w f query k] recall_budget[of sha from_str rk w f query k b] by auto
qed

end
