(* ===== verification/Bisect.thy ===== *)
theory Bisect
  imports Undo_Plan Ids_Time
begin

text \<open>
  Bisection over turns (agentrec-core/src/bisect.rs, cli/src/bisectcmd.rs): the searched
  sequence, the probe state of a point, its materialization, and the search. The runs of the test
  command and the outcome of making and filling the scratch directory are parameters.
\<close>

subsection \<open>The sequence\<close>

definition sequence :: "ledger \<Rightarrow> bool \<Rightarrow> turn_record list" where
  "sequence lg include_bare =
     (let turns = ledger_turns lg; superseded = set (concat (map tr_merges turns)) in
      filter (\<lambda>t. tr_grade t = ''rich'' \<or> (include_bare \<and> tr_grade t = ''bare''))
        (filter (\<lambda>t. tr_imported t \<noteq> Some True)
          (filter (\<lambda>t. tr_id t \<notin> superseded) turns)))"

definition subtracted :: "turn_record list \<Rightarrow> nat option \<Rightarrow> turn_record list" where
  "subtracted seq after =
     (let start = (case after of None \<Rightarrow> 0 | Some i \<Rightarrow> i + 1) in
      if start \<ge> length seq then [] else drop start seq)"

subsection \<open>Probe states\<close>

datatype unanswerable_reason =
    SkippedEntry | WithheldEntry | MissingBefore | DanglingBlob | SynthesizedAfter | NonRegularEntry
  | UnsafePath | FlakyDisagreement

record unanswerable =
  ua_turn :: string
  ua_path :: "string option"
  ua_reason :: unanswerable_reason

datatype file_action = WriteBytes string | DeleteFile

text \<open>
  All components are normal: not empty, not absolute, no dot-dot, no dot in front (dots and empty
  pieces further on are not components).
\<close>

definition safe_relative :: "string \<Rightarrow> bool" where
  "safe_relative path \<longleftrightarrow> path \<noteq> [] \<and> \<not> is_absolute path \<and> ''..'' \<notin> set (components path)
     \<and> hd (split_on CHR ''/'' path) \<noteq> ''.''"

definition action_for :: "(string \<Rightarrow> string) \<Rightarrow> store \<Rightarrow> file_entry \<Rightarrow> unanswerable_reason + file_action" where
  "action_for sha s e =
     (if \<not> safe_relative (fe_path e) then Inl UnsafePath
      else if fe_link_kind e \<noteq> None then Inl NonRegularEntry
      else if fe_after_synthesized e = Some True then Inl SynthesizedAfter
      else if fe_skipped e then Inl SkippedEntry
      else if fe_withheld e then Inl WithheldEntry
      else if fe_op e = ''create'' then Inr DeleteFile
      else case fe_before e of
        None \<Rightarrow> Inl MissingBefore
      | Some h \<Rightarrow> (case get sha s h of Inr bs \<Rightarrow> Inr (WriteBytes bs) | Inl _ \<Rightarrow> Inl DanglingBlob))"

type_synonym probe_acc = "(string \<rightharpoonup> file_action) \<times> unanswerable list"

definition probe_entry :: "(string \<Rightarrow> string) \<Rightarrow> store \<Rightarrow> string \<Rightarrow> probe_acc \<Rightarrow> file_entry \<Rightarrow> probe_acc" where
  "probe_entry sha s turn acc e = (case acc of (files, blocked) \<Rightarrow>
     (case action_for sha s e of
        Inr a \<Rightarrow> (files(fe_path e \<mapsto> a), blocked)
      | Inl r \<Rightarrow> (files, blocked @ [\<lparr>ua_turn = turn, ua_path = Some (fe_path e), ua_reason = r\<rparr>])))"

definition probe_turn :: "(string \<Rightarrow> string) \<Rightarrow> store \<Rightarrow> probe_acc \<Rightarrow> turn_record \<Rightarrow> probe_acc" where
  "probe_turn sha s acc t = foldl (probe_entry sha s (tr_id t)) acc (tr_files t)"

definition probe_state :: "(string \<Rightarrow> string) \<Rightarrow> turn_record list \<Rightarrow> nat option \<Rightarrow> store
    \<Rightarrow> unanswerable list + (string \<rightharpoonup> file_action)" where
  "probe_state sha seq after s =
     (case foldl (probe_turn sha s) (Map.empty, []) (rev (subtracted seq after)) of
        (files, blocked) \<Rightarrow> if blocked = [] then Inr files else Inl blocked)"

subsection \<open>Materialization\<close>

text \<open>
  What the test command sees, as contents by path, when the copy and the writes succeed: ordinary
  files outside the recorder's own directory, then the edits. Deleting what is absent succeeds.
\<close>

definition copied_content :: "worktree \<Rightarrow> string \<Rightarrow> string option" where
  "copied_content w p =
     (if take 1 (components p) = [''.agentrec''] then None
      else case w p of Some (RegFile bs n) \<Rightarrow> Some bs | _ \<Rightarrow> None)"

definition materialize :: "worktree \<Rightarrow> (string \<rightharpoonup> file_action) \<Rightarrow> string \<Rightarrow> string option" where
  "materialize w files p = (case files p of
     Some (WriteBytes bs) \<Rightarrow> Some bs
   | Some DeleteFile \<Rightarrow> None
   | None \<Rightarrow> copied_content w p)"

subsection \<open>Gaps\<close>

record gap_window =
  gwin_since :: string
  gwin_kind :: string

fun gap_kind_name :: "gap_kind \<Rightarrow> string" where
  "gap_kind_name Crash = ''crash''"
| "gap_kind_name Restart = ''restart''"
| "gap_kind_name TrailingStop = ''trailing_stop''"

definition gap_windows :: "log_record list \<Rightarrow> string \<Rightarrow> string \<Rightarrow> gap_window list" where
  "gap_windows records start till =
     map (\<lambda>g. \<lparr>gwin_since = gap_since g, gwin_kind = gap_kind_name (gap_kind g)\<rparr>)
       (filter (\<lambda>g. case gap_kind g of TrailingStop \<Rightarrow> gap_since g \<le> till | _ \<Rightarrow> gap_since g \<ge> start)
         (recording_gaps records))"

subsection \<open>One probe\<close>

datatype outcome = ProbeGood | ProbeBad | ProbeFlaky

text \<open>
  The results of the command in the scratch directory: \<open>test k\<close> is its run number k, an error or
  whether it exits with 0. An error of any run ends the search.
\<close>

fun run_tests :: "(nat \<Rightarrow> string + bool) \<Rightarrow> nat list \<Rightarrow> string + bool list" where
  "run_tests test [] = Inr []"
| "run_tests test (k # ks) = (case test k of
     Inl e \<Rightarrow> Inl e
   | Inr v \<Rightarrow> (case run_tests test ks of Inl e \<Rightarrow> Inl e | Inr vs \<Rightarrow> Inr (v # vs)))"

definition judge_runs :: "bool list \<Rightarrow> outcome" where
  "judge_runs verdicts =
     (if list_ex (\<lambda>v. v \<noteq> hd verdicts) verdicts then ProbeFlaky
      else if hd verdicts then ProbeGood else ProbeBad)"

record driver =
  dr_unanswerable :: "unanswerable list"
  dr_probes :: nat
  dr_copy_skipped :: nat

text \<open>
  \<open>scratch\<close> is the result of making the scratch directory and filling it: an error, or the number
  of entries that could not be copied.
\<close>

definition run_probe :: "string + nat \<Rightarrow> (nat \<Rightarrow> string + bool) \<Rightarrow> nat \<Rightarrow> driver \<Rightarrow> (string + outcome) \<times> driver" where
  "run_probe scratch test flaky_retries dr = (case scratch of
     Inl e \<Rightarrow> (Inl e, dr)
   | Inr skipped \<Rightarrow>
       (let dr1 = dr\<lparr>dr_copy_skipped := max (dr_copy_skipped dr) skipped, dr_probes := dr_probes dr + 1\<rparr> in
        case run_tests test [0 ..< flaky_retries + 1] of
          Inl e \<Rightarrow> (Inl e, dr1)
        | Inr verdicts \<Rightarrow> (Inr (judge_runs verdicts), dr1)))"

subsection \<open>The search\<close>

text \<open>The candidates in the order they are tried: outward from the middle.\<close>

definition outward :: "nat \<Rightarrow> nat \<Rightarrow> nat list" where
  "outward mid n = concat (map (\<lambda>d. (mid + d) # (if d \<le> mid then [mid - d] else [])) [0 ..< n + 1])"

definition pick_candidate :: "int \<Rightarrow> nat \<Rightarrow> nat list \<Rightarrow> nat option" where
  "pick_candidate lo hi tried =
     (let first = nat (lo + 1); last = hi - 1; mid = first + (last - first) div 2 in
      List.find (\<lambda>c. first \<le> c \<and> c \<le> last \<and> c \<notin> set tried) (outward mid (last - first)))"

lemma pick_candidate_Some:
  "pick_candidate lo hi tried = Some mid \<Longrightarrow> nat (lo + 1) \<le> mid \<and> mid \<le> hi - 1 \<and> mid \<notin> set tried"
  by (auto simp: pick_candidate_def Let_def dest!: find_Some_set)

text \<open>The verdict of the search, over positions in the sequence or over turn ids.\<close>

datatype 'a verdict = FirstBad 'a | AmbiguousSpan "'a list"

definition record_unanswerable :: "unanswerable list \<Rightarrow> driver \<Rightarrow> driver" where
  "record_unanswerable blocked dr =
     foldl (\<lambda>d u. if u \<in> set (dr_unanswerable d) then d
                  else d\<lparr>dr_unanswerable := dr_unanswerable d @ [u]\<rparr>) dr blocked"

definition record_flaky :: "string \<Rightarrow> driver \<Rightarrow> driver" where
  "record_flaky turn dr = dr\<lparr>dr_unanswerable := dr_unanswerable dr
     @ [\<lparr>ua_turn = turn, ua_path = None, ua_reason = FlakyDisagreement\<rparr>]\<rparr>"

text \<open>
  Everything a search uses of the points it probes: their ids, the state or what blocks it, and
  the probe run with that state.
\<close>

record points =
  pt_id :: "nat \<Rightarrow> string"
  pt_state :: "nat \<Rightarrow> unanswerable list + (string \<rightharpoonup> file_action)"
  pt_run :: "(string \<rightharpoonup> file_action) \<Rightarrow> driver \<Rightarrow> (string + outcome) \<times> driver"

lemma fewer_candidates:
  assumes "pick_candidate lo hi tried = Some mid" "lo \<le> lo'" "hi' \<le> hi"
  shows "card ({nat (lo' + 1) .. hi'} - set (tried @ [mid])) < card ({nat (lo + 1) .. hi} - set tried)"
proof (rule psubset_card_mono)
  have "mid \<in> {nat (lo + 1) .. hi} - set tried"
    using pick_candidate_Some[OF assms(1)] by auto
  moreover have "{nat (lo' + 1) .. hi'} - set (tried @ [mid]) \<subseteq> ({nat (lo + 1) .. hi} - set tried) - {mid}"
    using assms(2,3) by auto
  ultimately show "{nat (lo' + 1) .. hi'} - set (tried @ [mid]) \<subset> {nat (lo + 1) .. hi} - set tried"
    by blast
qed simp

text \<open>The two nested loops of the code as one: the inner one goes on with the same end points.\<close>

function search :: "points \<Rightarrow> int \<Rightarrow> nat \<Rightarrow> nat list \<Rightarrow> driver \<Rightarrow> (string + nat verdict) \<times> driver" where
  "search pts lo hi tried dr =
     (if int hi - lo \<le> 1 then (Inr (FirstBad hi), dr)
      else case pick_candidate lo hi tried of
        None \<Rightarrow> (Inr (AmbiguousSpan [nat (lo + 1) ..< hi + 1]), dr)
      | Some mid \<Rightarrow>
          (case pt_state pts mid of
             Inl blocked \<Rightarrow> search pts lo hi (tried @ [mid]) (record_unanswerable blocked dr)
           | Inr state \<Rightarrow>
               (case pt_run pts state dr of
                  (Inl e, dr') \<Rightarrow> (Inl e, dr')
                | (Inr ProbeFlaky, dr') \<Rightarrow> search pts lo hi (tried @ [mid]) (record_flaky (pt_id pts mid) dr')
                | (Inr ProbeGood, dr') \<Rightarrow> search pts (int mid) hi (tried @ [mid]) dr'
                | (Inr ProbeBad, dr') \<Rightarrow> search pts lo mid (tried @ [mid]) dr')))"
  by auto
termination
proof (relation "measure (\<lambda>(_, lo, hi, tried, _). card ({nat (lo + 1) .. hi} - set tried))", goal_cases)
  case 1
  then show ?case by simp
next
  case (2 pts lo hi tried dr mid blocked)
  then show ?case using fewer_candidates[of lo hi tried mid lo hi] by simp
next
  case (3 pts lo hi tried dr mid state out dr' oc)
  then have "lo \<le> int mid"
    using pick_candidate_Some[of lo hi tried mid] by linarith
  with 3 show ?case using fewer_candidates[of lo hi tried mid "int mid" hi] by simp
next
  case (4 pts lo hi tried dr mid state out dr' oc)
  then have "mid \<le> hi"
    using pick_candidate_Some[of lo hi tried mid] by linarith
  with 4 show ?case using fewer_candidates[of lo hi tried mid lo mid] by simp
next
  case (5 pts lo hi tried dr mid state out dr' oc)
  then show ?case using fewer_candidates[of lo hi tried mid lo hi] by simp
qed

declare search.simps [simp del]

subsection \<open>The command\<close>

record bisect_result =
  br_verdict :: "string verdict"
  br_unanswerable :: "unanswerable list"
  br_gap_windows :: "gap_window list"
  br_probes :: nat
  br_copy_skipped :: nat
  br_include_bare_warning :: "string option"
  br_fidelity :: string

definition FIDELITY :: string where
  "FIDELITY = ''a probe state is the working tree minus later agent turns; not a historical snapshot''"

definition INCLUDE_BARE_WARNING :: string where
  "INCLUDE_BARE_WARNING = ''--include-bare: bare turns are unattributed activity windows '' @ em_dash
     @ '' a human edit produces the same filesystem signature '' @ em_dash
     @ '' so a verdict naming a bare turn is not evidence an agent wrote it''"

definition resolve_index :: "turn_record list \<Rightarrow> turn_record list \<Rightarrow> string \<Rightarrow> string \<Rightarrow> string + nat" where
  "resolve_index all_turns seq turn_ref flag = (case resolve_turn all_turns turn_ref of
     Inl NoTurns \<Rightarrow> Inl (flag @ '' '' @ turn_ref @ '': no turns recorded'')
   | Inl UnknownTurn \<Rightarrow> Inl (flag @ '' '' @ turn_ref @ '': unknown turn id'')
   | Inl (Ambiguous matched) \<Rightarrow>
       Inl (flag @ '' '' @ turn_ref @ '': ambiguous turn id '' @ em_dash @ '' '' @ decimal matched @ '' turns match'')
   | Inr turn \<Rightarrow> (case position (\<lambda>t. tr_id t = tr_id turn) seq of
       Some i \<Rightarrow> Inr i
     | None \<Rightarrow> Inl (flag @ '' '' @ turn_ref @ '': turn '' @ tr_id turn
         @ '' is not in the searched sequence (bare and imported turns are excluded; see --include-bare)'')))"

text \<open>
  The world of a run: the store, the working tree, and for a probe (counted from 0) the result of
  making its scratch directory and the results of the command there, given what it sees.
\<close>

record bisect_env =
  be_store :: store
  be_tree :: worktree
  be_scratch :: "nat \<Rightarrow> (string \<rightharpoonup> file_action) \<Rightarrow> string + nat"
  be_test :: "nat \<Rightarrow> (string \<Rightarrow> string option) \<Rightarrow> nat \<Rightarrow> string + bool"

definition points_of :: "(string \<Rightarrow> string) \<Rightarrow> bisect_env \<Rightarrow> nat \<Rightarrow> turn_record list \<Rightarrow> points" where
  "points_of sha env flaky_retries seq =
     \<lparr>pt_id = (\<lambda>i. tr_id (seq ! i)),
      pt_state = (\<lambda>i. probe_state sha seq (Some i) (be_store env)),
      pt_run = (\<lambda>state dr. run_probe (be_scratch env (dr_probes dr) state)
                  (be_test env (dr_probes dr) (materialize (be_tree env) state)) flaky_retries dr)\<rparr>"

definition known_good :: "nat option \<Rightarrow> int" where
  "known_good good_idx = (case good_idx of Some i \<Rightarrow> int i | None \<Rightarrow> -1)"

definition bisect_with :: "(string \<Rightarrow> string) \<Rightarrow> bisect_env \<Rightarrow> ledger \<Rightarrow> turn_record list \<Rightarrow> nat option \<Rightarrow> nat
    \<Rightarrow> bool \<Rightarrow> nat \<Rightarrow> string + bisect_result" where
  "bisect_with sha env lg seq good_idx bad_idx include_bare flaky_retries =
     (let lo0 = known_good good_idx in
      if lo0 \<ge> int bad_idx then
        Inl (''--good must name a turn older than --bad ('' @ tr_id (seq ! (case good_idx of Some i \<Rightarrow> i | None \<Rightarrow> 0))
          @ '' is not before '' @ tr_id (seq ! bad_idx) @ '')'')
      else case search (points_of sha env flaky_retries seq) lo0 bad_idx []
                  \<lparr>dr_unanswerable = [], dr_probes = 0, dr_copy_skipped = 0\<rparr> of
        (Inl e, _) \<Rightarrow> Inl e
      | (Inr v, dr) \<Rightarrow> Inr
          \<lparr>br_verdict = map_verdict (\<lambda>i. tr_id (seq ! i)) v,
           br_unanswerable = dr_unanswerable dr,
           br_gap_windows = gap_windows (lg_records lg)
             (case good_idx of Some i \<Rightarrow> tr_ended (seq ! i) | None \<Rightarrow> []) (tr_ended (seq ! bad_idx)),
           br_probes = dr_probes dr,
           br_copy_skipped = dr_copy_skipped dr,
           br_include_bare_warning = (if include_bare then Some INCLUDE_BARE_WARNING else None),
           br_fidelity = FIDELITY\<rparr>)"

definition bisect :: "(string \<Rightarrow> string) \<Rightarrow> bisect_env \<Rightarrow> ledger \<Rightarrow> string option \<Rightarrow> string option
    \<Rightarrow> bool \<Rightarrow> nat \<Rightarrow> string + bisect_result" where
  "bisect sha env lg good bad include_bare flaky_retries =
     (let seq = sequence lg include_bare in
      if seq = [] then Inl ''no turns to bisect (bare and imported turns are excluded; see --include-bare)''
      else case (case good of None \<Rightarrow> Inr None
                 | Some r \<Rightarrow> map_sum id Some (resolve_index (ledger_turns lg) seq r ''--good'')) of
        Inl e \<Rightarrow> Inl e
      | Inr good_idx \<Rightarrow> (case (case bad of None \<Rightarrow> Inr (length seq - 1)
                 | Some r \<Rightarrow> resolve_index (ledger_turns lg) seq r ''--bad'') of
          Inl e \<Rightarrow> Inl e
        | Inr bad_idx \<Rightarrow> bisect_with sha env lg seq good_idx bad_idx include_bare flaky_retries))"

subsection \<open>The report\<close>

fun reason_text :: "unanswerable_reason \<Rightarrow> string" where
  "reason_text SkippedEntry = ''snapshot skipped (over cap)''"
| "reason_text WithheldEntry = ''withheld (secret-pattern file)''"
| "reason_text MissingBefore = ''no recorded before state''"
| "reason_text DanglingBlob = ''before snapshot no longer in the store''"
| "reason_text SynthesizedAfter = ''derived (imported) bytes, not observed''"
| "reason_text NonRegularEntry = ''not an ordinary file''"
| "reason_text UnsafePath = ''recorded path is not repo-relative''"
| "reason_text FlakyDisagreement = ''test command disagreed with itself''"

definition line :: "string \<Rightarrow> string" where
  "line s = s @ ''\<newline>''"

definition render_verdict :: "string verdict \<Rightarrow> string" where
  "render_verdict v = (case v of
     FirstBad t \<Rightarrow> line (''first bad turn: '' @ t)
   | AmbiguousSpan ids \<Rightarrow> line ''ambiguous span (every probe point inside this span was unanswerable):''
       @ concat (map (\<lambda>i. line (''  '' @ i)) ids))"

definition render_unanswerable :: "unanswerable \<Rightarrow> string" where
  "render_unanswerable u = line (''unanswerable: '' @ ua_turn u @ '' '' @ reason_text (ua_reason u)
     @ (case ua_path u of Some p \<Rightarrow> '' ('' @ p @ '')'' | None \<Rightarrow> []))"

definition render_text :: "bisect_result \<Rightarrow> string" where
  "render_text r =
     (case br_include_bare_warning r of Some w \<Rightarrow> line (''warning: '' @ w) | None \<Rightarrow> [])
     @ render_verdict (br_verdict r)
     @ line (''probes: '' @ decimal (br_probes r))
     @ (if br_copy_skipped r > 0 then line (decimal (br_copy_skipped r) @ '' working-tree entr''
          @ (if br_copy_skipped r = 1 then ''y'' else ''ies'')
          @ '' could not be copied into the probe state (not ordinary files)'') else [])
     @ concat (map render_unanswerable (br_unanswerable r))
     @ concat (map (\<lambda>g. line (''recording gap ('' @ gwin_kind g @ '') since '' @ gwin_since g @ '' ''
          @ em_dash @ '' edits in that window are unrecorded'')) (br_gap_windows r))
     @ line (br_fidelity r)"

end
