(* ===== verification/Bisect_Props.thy ===== *)
theory Bisect_Props
  imports Bisect Undo_Props
begin

text \<open>
  The bisection: what the search certifies, that it finds the first bad turn when the answers are
  conclusive and monotone, how many probes it runs, and that a probe state is the recorded history.
\<close>

subsection \<open>Candidates\<close>

lemma outward_covers: "mid \<le> c + n \<Longrightarrow> c \<le> mid + n \<Longrightarrow> c \<in> set (outward mid n)"
proof (cases "mid \<le> c")
  case True
  assume "c \<le> mid + n"
  with True have "c = mid + (c - mid)" "c - mid \<in> set [0 ..< n + 1]" by auto
  then show ?thesis unfolding outward_def by (auto intro!: bexI[of _ "c - mid"])
next
  case False
  assume "mid \<le> c + n"
  with False have "c = mid - (mid - c)" "mid - c \<le> mid" "mid - c \<in> set [0 ..< n + 1]" by auto
  then show ?thesis unfolding outward_def by (auto intro!: bexI[of _ "mid - c"])
qed

lemma pick_candidate_None:
  assumes "pick_candidate lo hi tried = None" "lo < int i" "i < hi"
  shows "i \<in> set tried"
proof (rule ccontr)
  let ?first = "nat (lo + 1)" and ?last = "hi - 1"
  let ?mid = "?first + (?last - ?first) div 2"
  assume "i \<notin> set tried"
  moreover have "?first \<le> i" "i \<le> ?last" using assms(2,3) by auto
  moreover from this have "i \<in> set (outward ?mid (?last - ?first))"
    by (intro outward_covers) auto
  ultimately show False
    using assms(1) unfolding pick_candidate_def Let_def find_None_set by blast
qed

lemma pick_candidate_inside:
  "-1 \<le> lo \<Longrightarrow> 1 < int hi - lo \<Longrightarrow> pick_candidate lo hi tried = Some mid \<Longrightarrow> lo < int mid \<and> mid < hi"
  using pick_candidate_Some[of lo hi tried mid] by linarith

lemma pick_candidate_middle:
  assumes "-1 \<le> lo" "1 < int hi - lo" "\<forall>i \<in> set tried. int i \<le> lo \<or> hi \<le> i"
  shows "pick_candidate lo hi tried = Some (nat (lo + 1) + (hi - 1 - nat (lo + 1)) div 2)"
proof -
  let ?first = "nat (lo + 1)" and ?last = "hi - 1"
  let ?mid = "?first + (?last - ?first) div 2"
  have "outward ?mid (?last - ?first)
      = ?mid # tl (outward ?mid (?last - ?first))"
    by (simp add: outward_def upt_rec[of 0])
  moreover have "?mid \<le> ?last" using assms(1,2) by linarith
  moreover have "lo < int ?mid" "?mid < hi" using assms(1,2) by linarith+
  then have "?mid \<notin> set tried" using assms(3) by (meson leD)
  ultimately show ?thesis
    unfolding pick_candidate_def Let_def by (metis (no_types, lifting) List.find.simps(2) le_add1)
qed

subsection \<open>The search over any points\<close>

definition answers :: "points \<Rightarrow> nat \<Rightarrow> outcome \<Rightarrow> bool" where
  "answers pts i oc \<longleftrightarrow> (\<exists>state dr dr'. pt_state pts i = Inr state \<and> pt_run pts state dr = (Inr oc, dr'))"

definition unanswered :: "points \<Rightarrow> nat \<Rightarrow> bool" where
  "unanswered pts i \<longleftrightarrow> (\<exists>us. pt_state pts i = Inl us) \<or> answers pts i ProbeFlaky"

text \<open>
  What a verdict between \<open>lo\<close> and \<open>hi\<close> rests on: each end of what it names is an end that was given
  or a point that answered so, and a span that is not narrowed has no answered point inside.
\<close>

definition certified :: "points \<Rightarrow> int \<Rightarrow> nat \<Rightarrow> nat verdict \<Rightarrow> bool" where
  "certified pts lo hi v = (case v of
     FirstBad k \<Rightarrow> lo < int k \<and> k \<le> hi \<and> (k = hi \<or> answers pts k ProbeBad)
       \<and> (int k = lo + 1 \<or> answers pts (k - 1) ProbeGood)
   | AmbiguousSpan ks \<Rightarrow> (\<exists>l h. lo \<le> l \<and> l + 1 < int h \<and> h \<le> hi \<and> ks = [nat (l + 1) ..< h + 1]
       \<and> (h = hi \<or> answers pts h ProbeBad) \<and> (l = lo \<or> answers pts (nat l) ProbeGood)
       \<and> (\<forall>i. l < int i \<longrightarrow> i < h \<longrightarrow> unanswered pts i)))"

lemma certified_good:
  assumes "certified pts (int mid) hi v" "lo < int mid" "answers pts mid ProbeGood"
  shows "certified pts lo hi v"
proof (cases v)
  case (FirstBad k)
  with assms(1) have k: "mid < k" "k \<le> hi" "k = hi \<or> answers pts k ProbeBad"
    "k = mid + 1 \<or> answers pts (k - 1) ProbeGood"
    by (auto simp: certified_def)
  moreover have "answers pts (k - 1) ProbeGood" using k(4) assms(3) by auto
  moreover have "lo < int k" using k(1) assms(2) by simp
  ultimately show ?thesis by (simp add: certified_def FirstBad)
next
  case (AmbiguousSpan ks)
  with assms(1) obtain l h where lh: "int mid \<le> l" "l + 1 < int h" "h \<le> hi" "ks = [nat (l + 1) ..< h + 1]"
    "h = hi \<or> answers pts h ProbeBad" "l = int mid \<or> answers pts (nat l) ProbeGood"
    "\<forall>i. l < int i \<longrightarrow> i < h \<longrightarrow> unanswered pts i"
    by (auto simp: certified_def)
  moreover have "answers pts (nat l) ProbeGood" using lh(6) assms(3) by auto
  moreover have "lo \<le> l" using lh(1) assms(2) by simp
  ultimately show ?thesis unfolding certified_def AmbiguousSpan verdict.case
    by (intro exI[of _ l] exI[of _ h]) simp
qed

lemma certified_bad:
  assumes "certified pts lo mid v" "mid < hi" "answers pts mid ProbeBad"
  shows "certified pts lo hi v"
proof (cases v)
  case (FirstBad k)
  with assms show ?thesis by (auto simp: certified_def)
next
  case (AmbiguousSpan ks)
  with assms(1) obtain l h where lh: "lo \<le> l" "l + 1 < int h" "h \<le> mid" "ks = [nat (l + 1) ..< h + 1]"
    "h = mid \<or> answers pts h ProbeBad" "l = lo \<or> answers pts (nat l) ProbeGood"
    "\<forall>i. l < int i \<longrightarrow> i < h \<longrightarrow> unanswered pts i"
    by (auto simp: certified_def)
  moreover have "answers pts h ProbeBad" "h \<le> hi" using lh(3,5) assms(2,3) by auto
  ultimately show ?thesis unfolding certified_def AmbiguousSpan verdict.case
    by (intro exI[of _ l] exI[of _ h]) simp
qed

text \<open>The induction over a search, one case per way a step goes.\<close>

lemma search_induct [case_names ends span blocked broken flaky good bad]:
  assumes "\<And>lo hi tried dr. int hi - lo \<le> 1 \<Longrightarrow> P lo hi tried dr (Inr (FirstBad hi), dr)"
    and "\<And>lo hi tried dr. 1 < int hi - lo \<Longrightarrow> pick_candidate lo hi tried = None
      \<Longrightarrow> P lo hi tried dr (Inr (AmbiguousSpan [nat (lo + 1) ..< hi + 1]), dr)"
    and "\<And>lo hi tried dr mid us r. 1 < int hi - lo \<Longrightarrow> pick_candidate lo hi tried = Some mid
      \<Longrightarrow> pt_state pts mid = Inl us \<Longrightarrow> P lo hi (tried @ [mid]) (record_unanswerable us dr) r \<Longrightarrow> P lo hi tried dr r"
    and "\<And>lo hi tried dr mid st e dr'. 1 < int hi - lo \<Longrightarrow> pick_candidate lo hi tried = Some mid
      \<Longrightarrow> pt_state pts mid = Inr st \<Longrightarrow> pt_run pts st dr = (Inl e, dr') \<Longrightarrow> P lo hi tried dr (Inl e, dr')"
    and "\<And>lo hi tried dr mid st dr' r. 1 < int hi - lo \<Longrightarrow> pick_candidate lo hi tried = Some mid
      \<Longrightarrow> pt_state pts mid = Inr st \<Longrightarrow> pt_run pts st dr = (Inr ProbeFlaky, dr')
      \<Longrightarrow> P lo hi (tried @ [mid]) (record_flaky (pt_id pts mid) dr') r \<Longrightarrow> P lo hi tried dr r"
    and "\<And>lo hi tried dr mid st dr' r. 1 < int hi - lo \<Longrightarrow> pick_candidate lo hi tried = Some mid
      \<Longrightarrow> pt_state pts mid = Inr st \<Longrightarrow> pt_run pts st dr = (Inr ProbeGood, dr')
      \<Longrightarrow> P (int mid) hi (tried @ [mid]) dr' r \<Longrightarrow> P lo hi tried dr r"
    and "\<And>lo hi tried dr mid st dr' r. 1 < int hi - lo \<Longrightarrow> pick_candidate lo hi tried = Some mid
      \<Longrightarrow> pt_state pts mid = Inr st \<Longrightarrow> pt_run pts st dr = (Inr ProbeBad, dr')
      \<Longrightarrow> P lo mid (tried @ [mid]) dr' r \<Longrightarrow> P lo hi tried dr r"
  shows "P lo hi tried dr (search pts lo hi tried dr)"
proof (induction pts\<equiv>pts lo hi tried dr rule: search.induct)
  case (1 lo hi tried dr)
  note step = search.simps[of pts lo hi tried dr]
  show ?case
  proof (cases "int hi - lo \<le> 1")
    case True
    then show ?thesis using assms(1) by (simp add: step)
  next
    case wide: False
    then have w: "1 < int hi - lo" by simp
    show ?thesis
    proof (cases "pick_candidate lo hi tried")
      case None
      with wide show ?thesis using assms(2)[OF w None] by (simp add: step)
    next
      case (Some mid)
      show ?thesis
      proof (cases "pt_state pts mid")
        case (Inl us)
        have "search pts lo hi tried dr = search pts lo hi (tried @ [mid]) (record_unanswerable us dr)"
          using wide Some Inl by (simp add: step)
        then show ?thesis using assms(3)[OF w Some Inl 1(1)[OF wide Some Inl]] by simp
      next
        case st: (Inr st)
        obtain oc dr' where run: "pt_run pts st dr = (oc, dr')" by fastforce
        show ?thesis
        proof (cases oc)
          case (Inl e)
          with wide Some st run show ?thesis using assms(4)[OF w Some st, of dr e dr'] by (simp add: step)
        next
          case oc: (Inr out)
          show ?thesis
          proof (cases out)
            case ProbeGood
            have "search pts lo hi tried dr = search pts (int mid) hi (tried @ [mid]) dr'"
              using wide Some st run oc ProbeGood by (simp add: step)
            with 1(2)[OF wide Some st run[symmetric] oc ProbeGood] assms(6)[OF w Some st] run oc ProbeGood
            show ?thesis by simp
          next
            case ProbeBad
            have "search pts lo hi tried dr = search pts lo mid (tried @ [mid]) dr'"
              using wide Some st run oc ProbeBad by (simp add: step)
            with 1(3)[OF wide Some st run[symmetric] oc ProbeBad] assms(7)[OF w Some st] run oc ProbeBad
            show ?thesis by simp
          next
            case ProbeFlaky
            have "search pts lo hi tried dr = search pts lo hi (tried @ [mid]) (record_flaky (pt_id pts mid) dr')"
              using wide Some st run oc ProbeFlaky by (simp add: step)
            with 1(4)[OF wide Some st run[symmetric] oc ProbeFlaky] assms(5)[OF w Some st] run oc ProbeFlaky
            show ?thesis by simp
          qed
        qed
      qed
    qed
  qed
qed

lemma search_certifies:
  assumes "-1 \<le> lo" "lo < int hi" "\<forall>i \<in> set tried. lo < int i \<longrightarrow> i < hi \<longrightarrow> unanswered pts i"
    and "search pts lo hi tried dr = (Inr v, dr')"
  shows "certified pts lo hi v"
proof -
  let ?P = "\<lambda>lo hi tried (dr :: driver) r. -1 \<le> lo \<longrightarrow> lo < int hi
    \<longrightarrow> (\<forall>i \<in> set tried. lo < int i \<longrightarrow> i < hi \<longrightarrow> unanswered pts i)
    \<longrightarrow> (\<forall>v dr'. r = (Inr v :: string + nat verdict, dr' :: driver) \<longrightarrow> certified pts lo hi v)"
  have "?P lo hi tried dr (search pts lo hi tried dr)"
  proof (rule search_induct[where P = ?P])
    fix lo hi tried and dr :: driver
    assume "int hi - lo \<le> 1"
    then show "?P lo hi tried dr (Inr (FirstBad hi), dr)" by (auto simp: certified_def)
  next
    fix lo hi tried and dr :: driver
    assume w: "1 < int hi - lo" "pick_candidate lo hi tried = None"
    show "?P lo hi tried dr (Inr (AmbiguousSpan [nat (lo + 1) ..< hi + 1]), dr)"
    proof (intro impI allI)
      fix v dr'
      assume u: "\<forall>i \<in> set tried. lo < int i \<longrightarrow> i < hi \<longrightarrow> unanswered pts i"
        and v: "(Inr (AmbiguousSpan [nat (lo + 1) ..< hi + 1]), dr) = (Inr v :: string + nat verdict, dr')"
      have "\<forall>i. lo < int i \<longrightarrow> i < hi \<longrightarrow> unanswered pts i"
        using u pick_candidate_None[OF w(2)] by blast
      with w(1) have "certified pts lo hi (AmbiguousSpan [nat (lo + 1) ..< hi + 1])"
        unfolding certified_def verdict.case by (intro exI[of _ lo] exI[of _ hi]) simp
      with v show "certified pts lo hi v" by simp
    qed
  next
    fix lo hi tried and dr :: driver and mid us r
    assume "pt_state pts mid = Inl us" "?P lo hi (tried @ [mid]) (record_unanswerable us dr) r"
    then show "?P lo hi tried dr r" by (auto simp: unanswered_def)
  next
    fix lo hi tried and dr dr' :: driver and e
    show "?P lo hi tried dr (Inl e, dr')" by simp
  next
    fix lo hi tried and dr dr' :: driver and mid st r
    assume "pt_state pts mid = Inr st" "pt_run pts st dr = (Inr ProbeFlaky, dr')"
      "?P lo hi (tried @ [mid]) (record_flaky (pt_id pts mid) dr') r"
    moreover from this(1,2) have "unanswered pts mid" unfolding unanswered_def answers_def by blast
    ultimately show "?P lo hi tried dr r" by auto
  next
    fix lo hi tried and dr dr' :: driver and mid st r
    assume c: "1 < int hi - lo" "pick_candidate lo hi tried = Some mid" "pt_state pts mid = Inr st"
      "pt_run pts st dr = (Inr ProbeGood, dr')" and ih: "?P (int mid) hi (tried @ [mid]) dr' r"
    have a: "answers pts mid ProbeGood" using c(3,4) unfolding answers_def by blast
    note m = pick_candidate_inside[OF _ c(1,2)]
    show "?P lo hi tried dr r"
      using ih m certified_good[OF _ _ a] by (auto 0 3)
  next
    fix lo hi tried and dr dr' :: driver and mid st r
    assume c: "1 < int hi - lo" "pick_candidate lo hi tried = Some mid" "pt_state pts mid = Inr st"
      "pt_run pts st dr = (Inr ProbeBad, dr')" and ih: "?P lo mid (tried @ [mid]) dr' r"
    have a: "answers pts mid ProbeBad" using c(3,4) unfolding answers_def by blast
    note m = pick_candidate_inside[OF _ c(1,2)]
    show "?P lo hi tried dr r"
      using ih m certified_bad[OF _ _ a] by (auto 0 3)
  qed
  with assms show ?thesis by blast
qed

text \<open>Points that all answer, good before \<open>f\<close> and bad from it on.\<close>

definition turning :: "points \<Rightarrow> int \<Rightarrow> nat \<Rightarrow> nat \<Rightarrow> bool" where
  "turning pts lo hi f \<longleftrightarrow> (\<forall>i. lo < int i \<longrightarrow> i < hi \<longrightarrow> (\<exists>state. pt_state pts i = Inr state
     \<and> (\<forall>dr. fst (pt_run pts state dr) = Inr (if i < f then ProbeGood else ProbeBad))))"

lemma search_finds_turn:
  assumes "-1 \<le> lo" "lo < int f" "f \<le> hi" "turning pts lo hi f"
    and "\<forall>i \<in> set tried. int i \<le> lo \<or> hi \<le> i"
  shows "fst (search pts lo hi tried dr) = Inr (FirstBad f)"
proof -
  let ?P = "\<lambda>lo hi tried (dr :: driver) (r :: (string + nat verdict) \<times> driver). -1 \<le> lo \<longrightarrow> lo < int f \<longrightarrow> f \<le> hi
    \<longrightarrow> turning pts lo hi f \<longrightarrow> (\<forall>i \<in> set tried. int i \<le> lo \<or> hi \<le> i) \<longrightarrow> fst r = Inr (FirstBad f)"
  have inside: "\<exists>state. pt_state pts mid = Inr state
      \<and> (\<forall>dr. fst (pt_run pts state dr) = Inr (if mid < f then ProbeGood else ProbeBad))"
    if "turning pts lo hi f" "-1 \<le> lo" "1 < int hi - lo" "pick_candidate lo hi tried = Some mid" for lo hi tried mid
    using pick_candidate_inside[OF that(2-4)] that(1) unfolding turning_def by blast
  have "?P lo hi tried dr (search pts lo hi tried dr)"
  proof (rule search_induct[where P = ?P])
    fix lo hi tried and dr :: driver
    assume "int hi - lo \<le> 1"
    then show "?P lo hi tried dr (Inr (FirstBad hi), dr)" by auto
  next
    fix lo hi tried and dr :: driver
    assume "1 < int hi - lo" "pick_candidate lo hi tried = None"
    then show "?P lo hi tried dr (Inr (AmbiguousSpan [nat (lo + 1) ..< hi + 1]), dr)"
      using pick_candidate_middle[of lo hi tried] by auto
  next
    fix lo hi tried and dr :: driver and mid us r
    assume c: "1 < int hi - lo" "pick_candidate lo hi tried = Some mid" "pt_state pts mid = Inl us"
    show "?P lo hi tried dr r" using inside[OF _ _ c(1,2)] c(3) by auto
  next
    fix lo hi tried and dr dr' :: driver and mid st e
    assume c: "1 < int hi - lo" "pick_candidate lo hi tried = Some mid" "pt_state pts mid = Inr st"
      "pt_run pts st dr = (Inl e, dr')"
    show "?P lo hi tried dr (Inl e, dr')" using inside[OF _ _ c(1,2)] c(3,4)
      by (metis (mono_tags, lifting) Inl_Inr_False fst_conv sum.inject(2))
  next
    fix lo hi tried and dr dr' :: driver and mid st r
    assume c: "1 < int hi - lo" "pick_candidate lo hi tried = Some mid" "pt_state pts mid = Inr st"
      "pt_run pts st dr = (Inr ProbeFlaky, dr')"
    show "?P lo hi tried dr r" using inside[OF _ _ c(1,2)] c(3,4)
      by (metis (mono_tags, lifting) fst_conv outcome.distinct sum.inject(2))
  next
    fix lo hi tried and dr dr' :: driver and mid st r
    assume c: "1 < int hi - lo" "pick_candidate lo hi tried = Some mid" "pt_state pts mid = Inr st"
      "pt_run pts st dr = (Inr ProbeGood, dr')" and ih: "?P (int mid) hi (tried @ [mid]) dr' r"
    show "?P lo hi tried dr r"
    proof (intro impI)
      assume p: "-1 \<le> lo" "lo < int f" "f \<le> hi" "turning pts lo hi f" "\<forall>i \<in> set tried. int i \<le> lo \<or> hi \<le> i"
      from inside[OF p(4,1) c(1,2)] c(3,4) have "mid < f"
        by (metis fst_conv outcome.distinct(1) sum.inject(2))
      moreover have "lo < int mid" using pick_candidate_inside[OF p(1) c(1,2)] by simp
      moreover from this p(4) have "turning pts (int mid) hi f" unfolding turning_def by auto
      ultimately show "fst r = Inr (FirstBad f)" using ih p by (auto 0 3)
    qed
  next
    fix lo hi tried and dr dr' :: driver and mid st r
    assume c: "1 < int hi - lo" "pick_candidate lo hi tried = Some mid" "pt_state pts mid = Inr st"
      "pt_run pts st dr = (Inr ProbeBad, dr')" and ih: "?P lo mid (tried @ [mid]) dr' r"
    show "?P lo hi tried dr r"
    proof (intro impI)
      assume p: "-1 \<le> lo" "lo < int f" "f \<le> hi" "turning pts lo hi f" "\<forall>i \<in> set tried. int i \<le> lo \<or> hi \<le> i"
      from inside[OF p(4,1) c(1,2)] c(3,4) have "\<not> mid < f"
        by (metis fst_conv outcome.distinct(1) sum.inject(2))
      moreover have "mid < hi" using pick_candidate_inside[OF p(1) c(1,2)] by simp
      moreover from this p(4) have "turning pts lo mid f" unfolding turning_def by auto
      ultimately show "fst r = Inr (FirstBad f)" using ih p by (auto 0 3)
    qed
  qed
  with assms show ?thesis by blast
qed

subsection \<open>How many probes\<close>

text \<open>The interface of points whose runs are counted: a run adds at most one to the probes.\<close>

locale counted_points =
  fixes pts :: points
  assumes counted: "pt_run pts state dr = (r, dr') \<Longrightarrow> dr_probes dr' \<le> dr_probes dr + 1"
begin

lemma probes_at_most_points:
  assumes "-1 \<le> lo"
  shows "dr_probes (snd (search pts lo hi tried dr)) \<le> dr_probes dr + card ({nat (lo + 1) ..< hi} - set tried)"
proof -
  let ?P = "\<lambda>lo hi tried (dr :: driver) (r :: (string + nat verdict) \<times> driver). -1 \<le> lo
    \<longrightarrow> dr_probes (snd r) \<le> dr_probes dr + card ({nat (lo + 1) ..< hi} - set tried)"
  have fewer: "card ({nat (lo' + 1) ..< hi'} - set (tried @ [mid])) + 1 \<le> card ({nat (lo + 1) ..< hi} - set tried)"
    if "-1 \<le> lo" "1 < int hi - lo" "pick_candidate lo hi tried = Some mid" "lo \<le> lo'" "hi' \<le> hi" for lo hi tried mid lo' hi'
  proof -
    have "mid \<in> {nat (lo + 1) ..< hi} - set tried"
      using pick_candidate_inside[OF that(1-3)] pick_candidate_Some[OF that(3)] by simp
    moreover have "{nat (lo' + 1) ..< hi'} - set (tried @ [mid]) \<subseteq> ({nat (lo + 1) ..< hi} - set tried) - {mid}"
      using that(4,5) by auto
    ultimately have "card ({nat (lo' + 1) ..< hi'} - set (tried @ [mid])) < card ({nat (lo + 1) ..< hi} - set tried)"
      by (intro psubset_card_mono) blast+
    then show ?thesis by simp
  qed
  have "?P lo hi tried dr (search pts lo hi tried dr)"
  proof (rule search_induct[where P = ?P])
    fix lo hi tried and dr :: driver and mid us r
    assume c: "1 < int hi - lo" "pick_candidate lo hi tried = Some mid"
      and ih: "?P lo hi (tried @ [mid]) (record_unanswerable us dr) r"
    have "dr_probes (record_unanswerable us dr) = dr_probes dr"
      unfolding record_unanswerable_def by (rule foldl_inv) simp_all
    with ih fewer[OF _ c, of lo hi] show "?P lo hi tried dr r" by fastforce
  next
    fix lo hi tried and dr dr' :: driver and mid st e
    assume c: "1 < int hi - lo" "pick_candidate lo hi tried = Some mid" "pt_run pts st dr = (Inl e, dr')"
    show "?P lo hi tried dr (Inl e, dr')" using fewer[OF _ c(1,2), of lo hi] counted[OF c(3)] by fastforce
  next
    fix lo hi tried and dr dr' :: driver and mid st r
    assume c: "1 < int hi - lo" "pick_candidate lo hi tried = Some mid" "pt_run pts st dr = (Inr ProbeFlaky, dr')"
      and ih: "?P lo hi (tried @ [mid]) (record_flaky (pt_id pts mid) dr') r"
    show "?P lo hi tried dr r" using ih fewer[OF _ c(1,2), of lo hi] counted[OF c(3)]
      by (fastforce simp: record_flaky_def)
  next
    fix lo hi tried and dr dr' :: driver and mid st r
    assume c: "1 < int hi - lo" "pick_candidate lo hi tried = Some mid" "pt_run pts st dr = (Inr ProbeGood, dr')"
      and ih: "?P (int mid) hi (tried @ [mid]) dr' r"
    show "?P lo hi tried dr r"
      using ih fewer[OF _ c(1,2), of "int mid" hi] pick_candidate_inside[OF _ c(1,2)] counted[OF c(3)] by fastforce
  next
    fix lo hi tried and dr dr' :: driver and mid st r
    assume c: "1 < int hi - lo" "pick_candidate lo hi tried = Some mid" "pt_run pts st dr = (Inr ProbeBad, dr')"
      and ih: "?P lo mid (tried @ [mid]) dr' r"
    show "?P lo hi tried dr r"
      using ih fewer[OF _ c(1,2), of lo mid] pick_candidate_inside[OF _ c(1,2)] counted[OF c(3)] by fastforce
  qed simp_all
  with assms show ?thesis by blast
qed

lemma probes_logarithmic:
  assumes "-1 \<le> lo" "int hi - lo \<le> 2 ^ k" "\<forall>i. lo < int i \<longrightarrow> i < hi \<longrightarrow> \<not> unanswered pts i"
    and "\<forall>i \<in> set tried. int i \<le> lo \<or> hi \<le> i"
  shows "dr_probes (snd (search pts lo hi tried dr)) \<le> dr_probes dr + k"
  using assms
proof (induction k arbitrary: lo hi tried dr)
  case 0
  then show ?case by (simp add: search.simps)
next
  case (Suc k)
  show ?case
  proof (cases "int hi - lo \<le> 1")
    case True
    then show ?thesis by (simp add: search.simps)
  next
    case False
    then have w: "1 < int hi - lo" by simp
    define mid where "mid = nat (lo + 1) + (hi - 1 - nat (lo + 1)) div 2"
    have pick: "pick_candidate lo hi tried = Some mid"
      using pick_candidate_middle[OF Suc.prems(1) w Suc.prems(4)] by (simp add: mid_def)
    note m = pick_candidate_inside[OF Suc.prems(1) w pick]
    have halves: "int mid - lo \<le> 2 ^ k" "int hi - int mid \<le> 2 ^ k"
      using Suc.prems(1,2) w unfolding mid_def power_Suc by linarith+
    have "\<not> unanswered pts mid" using Suc.prems(3) m by blast
    then obtain st where st: "pt_state pts mid = Inr st" "\<And>dr dr'. pt_run pts st dr \<noteq> (Inr ProbeFlaky, dr')"
      unfolding unanswered_def answers_def by (cases "pt_state pts mid") auto
    obtain r dr' where run: "pt_run pts st dr = (r, dr')" by fastforce
    note c = counted[OF run]
    consider e where "r = Inl e" | "r = Inr ProbeGood" | "r = Inr ProbeBad"
      using st(2) run by (cases r) (metis outcome.exhaust)+
    then show ?thesis
    proof cases
      case 1
      with False pick st(1) run c show ?thesis by (simp add: search.simps[of pts lo hi tried dr])
    next
      case 2
      have "dr_probes (snd (search pts (int mid) hi (tried @ [mid]) dr')) \<le> dr_probes dr' + k"
        using Suc.prems m halves by (intro Suc.IH) (auto 0 3)
      with 2 False pick st(1) run c show ?thesis by (simp add: search.simps[of pts lo hi tried dr])
    next
      case 3
      have "dr_probes (snd (search pts lo mid (tried @ [mid]) dr')) \<le> dr_probes dr' + k"
        using Suc.prems m halves by (intro Suc.IH) (auto 0 3)
      with 3 False pick st(1) run c show ?thesis by (simp add: search.simps[of pts lo hi tried dr])
    qed
  qed
qed

end

lemma run_probe_counts: "run_probe scratch test n dr = (r, dr') \<Longrightarrow> dr_probes dr' \<le> dr_probes dr + 1"
  by (auto simp: run_probe_def Let_def split: sum.splits)

interpretation bisect_points: counted_points "points_of sha env n seq" for sha env n seq
  by unfold_locales (auto simp: points_of_def dest: run_probe_counts)

subsection \<open>The verdict\<close>

lemma known_good_ge [simp]: "-1 \<le> known_good g"
  by (simp add: known_good_def split: option.splits)

lemma bisect_with_Inr:
  assumes "bisect_with sha env lg seq good_idx bad_idx include_bare n = Inr r"
  obtains v dr where "known_good good_idx < int bad_idx"
    "search (points_of sha env n seq) (known_good good_idx) bad_idx []
       \<lparr>dr_unanswerable = [], dr_probes = 0, dr_copy_skipped = 0\<rparr> = (Inr v, dr)"
    "br_verdict r = map_verdict (\<lambda>i. tr_id (seq ! i)) v" "br_probes r = dr_probes dr"
  using assms by (auto simp: bisect_with_def Let_def split: if_splits prod.splits sum.splits)

text \<open>
  C33: whatever the command and the store answer, a verdict rests on them: the turn it names fails, or
  is the given bad end, the one before it passes, or is the given good end, and when the search gives
  up, no point strictly inside the span it names could be answered.
\<close>

theorem bisect_verdict_certified:
  "case bisect_with sha env lg seq good_idx bad_idx include_bare n of
     Inl e \<Rightarrow> True
   | Inr r \<Rightarrow> (\<exists>v. br_verdict r = map_verdict (\<lambda>i. tr_id (seq ! i)) v
       \<and> certified (points_of sha env n seq) (known_good good_idx) bad_idx v)"
proof (cases "bisect_with sha env lg seq good_idx bad_idx include_bare n")
  case (Inr r)
  then obtain v dr where lo: "known_good good_idx < int bad_idx"
    and found: "search (points_of sha env n seq) (known_good good_idx) bad_idx []
       \<lparr>dr_unanswerable = [], dr_probes = 0, dr_copy_skipped = 0\<rparr> = (Inr v, dr)"
    and v: "br_verdict r = map_verdict (\<lambda>i. tr_id (seq ! i)) v"
    by (rule bisect_with_Inr)
  have "certified (points_of sha env n seq) (known_good good_idx) bad_idx v"
    by (rule search_certifies[OF known_good_ge lo _ found]) simp
  with v have "\<exists>v. br_verdict r = map_verdict (\<lambda>i. tr_id (seq ! i)) v
      \<and> certified (points_of sha env n seq) (known_good good_idx) bad_idx v" by blast
  with Inr show ?thesis by simp
qed simp

text \<open>
  The command is run at no more points than lie strictly between the ends, whatever happens:
  each point at most once.
\<close>

theorem bisect_probes_each_point_once:
  "case bisect_with sha env lg seq good_idx bad_idx include_bare n of
     Inl e \<Rightarrow> True
   | Inr r \<Rightarrow> br_probes r \<le> card {i. known_good good_idx < int i \<and> i < bad_idx}"
proof (cases "bisect_with sha env lg seq good_idx bad_idx include_bare n")
  case (Inr r)
  then obtain v dr where "search (points_of sha env n seq) (known_good good_idx) bad_idx []
       \<lparr>dr_unanswerable = [], dr_probes = 0, dr_copy_skipped = 0\<rparr> = (Inr v, dr)" "br_probes r = dr_probes dr"
    by (rule bisect_with_Inr)
  moreover have "{nat (known_good good_idx + 1) ..< bad_idx} = {i. known_good good_idx < int i \<and> i < bad_idx}"
    using known_good_ge[of good_idx] by auto
  ultimately show ?thesis
    using bisect_points.probes_at_most_points[OF known_good_ge[of good_idx], of sha env n seq bad_idx "[]"
        "\<lparr>dr_unanswerable = [], dr_probes = 0, dr_copy_skipped = 0\<rparr>"] Inr
    by simp
qed simp

lemma run_tests_constant: "(\<And>k. test k = Inr b) \<Longrightarrow> run_tests test ks = Inr (replicate (length ks) b)"
  by (induction ks) auto

lemma run_probe_constant:
  assumes "\<And>k. test k = Inr b"
  shows "fst (run_probe (Inr c) test n dr) = Inr (if b then ProbeGood else ProbeBad)"
  using run_tests_constant[of test b, OF assms]
  by (simp add: run_probe_def judge_runs_def list_ex_iff)

text \<open>
  C34: when every probe state between the ends can be made, its directory can be filled, and the command
  passes exactly at the points before f, bisect names turn f, after at most as many probes as the
  distance of the ends has binary digits.
\<close>

theorem bisect_finds_first_bad:
  assumes "known_good good_idx < int f" "f \<le> bad_idx"
    and "\<And>i. known_good good_idx < int i \<Longrightarrow> i < bad_idx \<Longrightarrow> \<exists>state. probe_state sha seq (Some i) (be_store env) = Inr state
      \<and> (\<forall>p. \<exists>c. be_scratch env p state = Inr c)
      \<and> (\<forall>p k. be_test env p (materialize (be_tree env) state) k = Inr (i < f))"
    and "int bad_idx - known_good good_idx \<le> 2 ^ k"
  shows "\<exists>r. bisect_with sha env lg seq good_idx bad_idx include_bare n = Inr r
    \<and> br_verdict r = FirstBad (tr_id (seq ! f)) \<and> br_probes r \<le> k"
proof -
  let ?pts = "points_of sha env n seq" and ?lo = "known_good good_idx"
  let ?dr = "\<lparr>dr_unanswerable = [], dr_probes = 0, dr_copy_skipped = 0\<rparr>"
  have run: "\<exists>state. pt_state ?pts i = Inr state
      \<and> (\<forall>dr. fst (pt_run ?pts state dr) = Inr (if i < f then ProbeGood else ProbeBad))"
    if i: "?lo < int i" "i < bad_idx" for i
  proof -
    obtain state where st: "probe_state sha seq (Some i) (be_store env) = Inr state"
      "\<And>p. \<exists>c. be_scratch env p state = Inr c"
      "\<And>p k. be_test env p (materialize (be_tree env) state) k = Inr (i < f)"
      using assms(3)[OF i] by blast
    have "fst (pt_run ?pts state dr) = Inr (if i < f then ProbeGood else ProbeBad)" for dr
    proof -
      obtain c where "be_scratch env (dr_probes dr) state = Inr c" using st(2) by blast
      with run_probe_constant[of "be_test env (dr_probes dr) (materialize (be_tree env) state)" "i < f" c n dr, OF st(3)]
      show ?thesis by (simp add: points_of_def)
    qed
    with st(1) show ?thesis by (simp add: points_of_def)
  qed
  then have "turning ?pts ?lo bad_idx f" unfolding turning_def by blast
  from search_finds_turn[OF known_good_ge assms(1,2) this, of "[]" ?dr]
  have found: "fst (search ?pts ?lo bad_idx [] ?dr) = Inr (FirstBad f)" by simp
  have "\<not> unanswered ?pts i" if i: "?lo < int i" "i < bad_idx" for i
  proof -
    obtain state where "pt_state ?pts i = Inr state"
      "\<And>dr. fst (pt_run ?pts state dr) = Inr (if i < f then ProbeGood else ProbeBad)"
      using run[OF i] by blast
    then show ?thesis unfolding unanswered_def answers_def
      by (auto, metis fst_conv outcome.distinct(3,5) sum.inject(2))
  qed
  then have "\<forall>i. ?lo < int i \<longrightarrow> i < bad_idx \<longrightarrow> \<not> unanswered ?pts i" by blast
  from bisect_points.probes_logarithmic[OF known_good_ge assms(4) this, of "[]" ?dr]
  have few: "dr_probes (snd (search ?pts ?lo bad_idx [] ?dr)) \<le> k" by simp
  obtain x dr where s: "search ?pts ?lo bad_idx [] ?dr = (x, dr)" by fastforce
  with found few assms(1,2) show ?thesis by (simp add: bisect_with_def Let_def)
qed

subsection \<open>Probe states\<close>

text \<open>
  A recorded history: the contents before the turn \<open>t\<close> are what its entries say, and only the paths
  of its entries change.
\<close>

definition honest_entry :: "(string \<Rightarrow> string) \<Rightarrow> store \<Rightarrow> (string \<rightharpoonup> string) \<Rightarrow> file_entry \<Rightarrow> bool" where
  "honest_entry sha s was e \<longleftrightarrow> safe_relative (fe_path e) \<and> fe_link_kind e = None
     \<and> fe_after_synthesized e \<noteq> Some True \<and> \<not> fe_skipped e \<and> \<not> fe_withheld e
     \<and> (case was (fe_path e) of
          None \<Rightarrow> fe_op e = ''create''
        | Some bs \<Rightarrow> fe_op e \<noteq> ''create'' \<and> (\<exists>h. fe_before e = Some h \<and> get sha s h = Inr bs))"

fun recorded_history :: "(string \<Rightarrow> string) \<Rightarrow> store \<Rightarrow> (string \<rightharpoonup> string) \<Rightarrow> turn_record list \<Rightarrow> (string \<rightharpoonup> string) \<Rightarrow> bool" where
  "recorded_history sha s was [] now \<longleftrightarrow> now = was"
| "recorded_history sha s was (t # ts) now \<longleftrightarrow> list_all (honest_entry sha s was) (tr_files t)
     \<and> (\<exists>mid. (\<forall>p. p \<notin> fe_path ` set (tr_files t) \<longrightarrow> mid p = was p) \<and> recorded_history sha s mid ts now)"

definition action_of :: "string option \<Rightarrow> file_action" where
  "action_of c = (case c of None \<Rightarrow> DeleteFile | Some bs \<Rightarrow> WriteBytes bs)"

lemma action_for_honest: "honest_entry sha s was e \<Longrightarrow> action_for sha s e = Inr (action_of (was (fe_path e)))"
  by (auto simp: honest_entry_def action_for_def action_of_def split: option.splits)

lemma probe_entries_honest:
  assumes "list_all (honest_entry sha s was) es"
  shows "foldl (probe_entry sha s t) (files, []) es
    = (\<lambda>p. if p \<in> fe_path ` set es then Some (action_of (was p)) else files p, [])"
  using assms
proof (induction es rule: rev_induct)
  case (snoc e es)
  then show ?case by (auto simp: probe_entry_def action_for_honest fun_eq_iff)
qed simp

lemma probe_turns_honest:
  assumes "recorded_history sha s was ts (copied_content w)"
  shows "\<exists>files. foldl (probe_turn sha s) (Map.empty, []) (rev ts) = (files, []) \<and> materialize w files = was"
  using assms
proof (induction ts arbitrary: was)
  case Nil
  then have "copied_content w = was" by simp
  then have "materialize w Map.empty = was" by (simp add: materialize_def fun_eq_iff)
  then show ?case by simp
next
  case (Cons t ts)
  then obtain mid where mid: "list_all (honest_entry sha s was) (tr_files t)"
    "\<And>p. p \<notin> fe_path ` set (tr_files t) \<Longrightarrow> mid p = was p" "recorded_history sha s mid ts (copied_content w)"
    by auto
  from Cons.IH[OF mid(3)] obtain files where
    f: "foldl (probe_turn sha s) (Map.empty, []) (rev ts) = (files, [])" "materialize w files = mid" by blast
  let ?files = "\<lambda>p. if p \<in> fe_path ` set (tr_files t) then Some (action_of (was p)) else files p"
  have "materialize w ?files p = was p" for p
    using mid(2)[of p] fun_cong[OF f(2), of p] by (auto simp: materialize_def action_of_def split: option.splits)
  then have "materialize w ?files = was" by blast
  moreover have "foldl (probe_turn sha s) (Map.empty, []) (rev (t # ts)) = (?files, [])"
    by (simp add: f(1) probe_turn_def probe_entries_honest[OF mid(1)])
  ultimately show ?case by blast
qed

text \<open>
  C35: when the turns after a point were recorded as they happened, every blob is still there and the
  tree holds what the last one left, the probe state exists, and what the command sees is the contents
  at that point, of every path.
\<close>

theorem probe_state_restores_history:
  assumes "recorded_history sha s was (drop (case after of None \<Rightarrow> 0 | Some i \<Rightarrow> i + 1) seq) (copied_content w)"
  shows "\<exists>files. probe_state sha seq after s = Inr files \<and> materialize w files = was"
proof -
  have "subtracted seq after = drop (case after of None \<Rightarrow> 0 | Some i \<Rightarrow> i + 1) seq"
    by (auto simp: subtracted_def Let_def)
  with probe_turns_honest[OF assms] show ?thesis by (auto simp: probe_state_def)
qed

subsection \<open>A small history\<close>

text \<open>Three turns: each writes a file, the second one replaces the content of a file by a bad one.\<close>

definition small_seq :: "turn_record list" where
  "small_seq = [plain_turn ''t0'' [(plain_entry ''a'' None None)\<lparr>fe_op := ''create''\<rparr>],
     plain_turn ''t1'' [plain_entry ''b'' (Some zero_hash) None],
     plain_turn ''t2'' [(plain_entry ''c'' None None)\<lparr>fe_op := ''create''\<rparr>]]"

definition small_tree :: worktree where
  "small_tree = [''a'' \<mapsto> RegFile ''1'' 1, ''b'' \<mapsto> RegFile ''bad'' 1, ''c'' \<mapsto> RegFile ''3'' 1]"

definition small_env :: bisect_env where
  "small_env = \<lparr>be_store = zero_store, be_tree = small_tree, be_scratch = (\<lambda>p st. Inr 0),
     be_test = (\<lambda>p seen k. Inr (seen ''b'' = Some ''x''))\<rparr>"

lemma get_zero_store: "get zero_sha zero_store zero_hash = Inr ''x''"
  by (simp add: get_def zero_store_def zero_hash_path zero_hash_eq)

lemma small_actions [simp]:
  "action_for zero_sha zero_store ((plain_entry ''c'' None None)\<lparr>fe_op := ''create''\<rparr>) = Inr DeleteFile"
  "action_for zero_sha zero_store (plain_entry ''b'' (Some zero_hash) None) = Inr (WriteBytes ''x'')"
  by (simp_all add: action_for_def plain_entry_def get_zero_store safe_relative_def is_absolute_def components_def)

lemma small_probes:
  "probe_state zero_sha small_seq (Some 0) zero_store = Inr [''c'' \<mapsto> DeleteFile, ''b'' \<mapsto> WriteBytes ''x'']"
  "probe_state zero_sha small_seq (Some 1) zero_store = Inr [''c'' \<mapsto> DeleteFile]"
  by (simp_all add: probe_state_def subtracted_def small_seq_def probe_turn_def probe_entry_def plain_turn_def)
    (simp_all add: plain_entry_def)

lemma small_tree_seen: "copied_content small_tree p = (case small_tree p of Some (RegFile bs n) \<Rightarrow> Some bs | _ \<Rightarrow> None)"
  by (auto simp: copied_content_def small_tree_def components_def split: if_splits)

lemma small_points:
  assumes "-1 < int i" "i < 2"
  shows "\<exists>state. probe_state zero_sha small_seq (Some i) (be_store small_env) = Inr state
      \<and> (\<forall>p. \<exists>c. be_scratch small_env p state = Inr c)
      \<and> (\<forall>p k. be_test small_env p (materialize (be_tree small_env) state) k = Inr (i < 1))"
proof -
  have "i = 0 \<or> i = 1" using assms(2) by auto
  then show ?thesis
    using small_probes by (auto simp: small_env_def materialize_def small_tree_seen) (simp_all add: small_tree_def)
qed

theorem bisect_finds_first_bad_witness:
  "\<exists>r. bisect_with zero_sha small_env empty_ledger small_seq None 2 False 0 = Inr r
    \<and> br_verdict r = FirstBad ''t1'' \<and> br_probes r \<le> 2"
proof -
  have "tr_id (small_seq ! 1) = ''t1''" by (simp add: small_seq_def plain_turn_def)
  then show ?thesis
    using bisect_finds_first_bad[of None 1 2 zero_sha small_seq small_env 2 empty_ledger False 0] small_points
    by (simp add: known_good_def)
qed

theorem probe_state_restores_history_witness:
  "\<exists>files. probe_state zero_sha small_seq (Some 0) zero_store = Inr files
    \<and> materialize small_tree files = [''a'' \<mapsto> ''1'', ''b'' \<mapsto> ''x'']"
proof (rule probe_state_restores_history)
  have now: "copied_content small_tree = [''a'' \<mapsto> ''1'', ''b'' \<mapsto> ''bad'', ''c'' \<mapsto> ''3'']"
    by (rule ext) (simp only: small_tree_seen, simp add: small_tree_def)
  have "recorded_history zero_sha zero_store [''a'' \<mapsto> ''1'', ''b'' \<mapsto> ''bad'']
      (drop 2 small_seq) [''a'' \<mapsto> ''1'', ''b'' \<mapsto> ''bad'', ''c'' \<mapsto> ''3'']"
    by (simp add: small_seq_def plain_turn_def plain_entry_def honest_entry_def safe_relative_def is_absolute_def
        components_def numeral_2_eq_2)
  then show "recorded_history zero_sha zero_store [''a'' \<mapsto> ''1'', ''b'' \<mapsto> ''x'']
      (drop (case Some 0 of None \<Rightarrow> 0 | Some i \<Rightarrow> i + 1) small_seq) (copied_content small_tree)"
    unfolding now
    by (simp add: small_seq_def plain_turn_def plain_entry_def honest_entry_def safe_relative_def is_absolute_def
        components_def get_zero_store numeral_2_eq_2)
      (intro exI[of _ "[''a'' \<mapsto> ''1'', ''b'' \<mapsto> ''bad'']"], simp)
qed

end
