(* ===== verification/Recorder_State.thy ===== *)
theory Recorder_State
  imports Json
begin

text \<open>
  The recorder's operational state (cli/src/state.rs): the fields of \<open>state.json\<close>, the reader that
  degrades field by field, the writer's JSON form, and the counters' updates. Counters are \<open>u64\<close>.
\<close>

record state =
  st_pid :: "32 word"
  st_signal_offset :: nat
  st_snapshot_failures :: nat
  st_io_failed :: "string list"
  st_memory_rejects :: nat
  st_unknown_signal_ignored :: nat
  st_non_utf8_path_skips :: nat
  st_prompt_put_failures :: nat
  st_ignore_rebuilds :: nat
  st_last_ignore_rebuild_ms :: nat
  st_epoch_ignore_rebuilds :: nat
  st_epoch_nonce :: string
  st_epoch_reload_nonce :: string
  st_state_parse_failures :: nat
  st_last_bad_field :: "string option"
  st_watcher_armed_nonce :: string
  st_dedup_hits :: nat
  st_dedup_reread_bytes :: nat
  st_last_emitter_turn_key :: "string option"
  st_duplicate_emitter_turn_signals :: nat
  st_mismatched_stop_emitter_turns :: nat
  st_last_emitter_turn_fingerprint :: "string option"

definition default_state :: state where
  "default_state = \<lparr>st_pid = 0, st_signal_offset = 0, st_snapshot_failures = 0, st_io_failed = [], st_memory_rejects = 0, st_unknown_signal_ignored = 0, st_non_utf8_path_skips = 0, st_prompt_put_failures = 0, st_ignore_rebuilds = 0, st_last_ignore_rebuild_ms = 0, st_epoch_ignore_rebuilds = 0, st_epoch_nonce = [], st_epoch_reload_nonce = [], st_state_parse_failures = 0, st_last_bad_field = None, st_watcher_armed_nonce = [], st_dedup_hits = 0, st_dedup_reread_bytes = 0, st_last_emitter_turn_key = None, st_duplicate_emitter_turn_signals = 0, st_mismatched_stop_emitter_turns = 0, st_last_emitter_turn_fingerprint = None\<rparr>"

definition WHOLE_FILE_SENTINEL :: string where
  "WHOLE_FILE_SENTINEL = ''<state.json: unreadable or not a JSON object>''"

subsection \<open>Reading\<close>

text \<open>The macro \<open>field!\<close>: a missing or wrongly typed member is the default; the latter is counted.\<close>

definition field :: "(json \<Rightarrow> 'a option) \<Rightarrow> 'a \<Rightarrow> json \<Rightarrow> string \<Rightarrow> 'a" where
  "field d x obj name = (case value_get name obj of
     None \<Rightarrow> x
   | Some v \<Rightarrow> (case d v of Some y \<Rightarrow> y | None \<Rightarrow> x))"

definition field_bad :: "(json \<Rightarrow> 'a option) \<Rightarrow> json \<Rightarrow> string \<Rightarrow> bool" where
  "field_bad d obj name = (case value_get name obj of None \<Rightarrow> False | Some v \<Rightarrow> d v = None)"

text \<open>The names of the wrongly typed members, in the order the fields are read.\<close>

definition STATE_FIELDS :: "(string \<times> (json \<Rightarrow> string \<Rightarrow> bool)) list" where
  "STATE_FIELDS =
     [(''pid'', field_bad dec_u32),
      (''signal_offset'', field_bad dec_u64),
      (''snapshot_failures'', field_bad dec_u64),
      (''io_failed'', field_bad (dec_arr dec_str)),
      (''memory_rejects'', field_bad dec_u64),
      (''unknown_signal_ignored'', field_bad dec_u64),
      (''non_utf8_path_skips'', field_bad dec_u64),
      (''prompt_put_failures'', field_bad dec_u64),
      (''ignore_rebuilds'', field_bad dec_u64),
      (''last_ignore_rebuild_ms'', field_bad dec_u64),
      (''state_parse_failures'', field_bad dec_u64),
      (''last_bad_field'', field_bad (dec_opt dec_str)),
      (''epoch_ignore_rebuilds'', field_bad dec_u64),
      (''epoch_nonce'', field_bad dec_str),
      (''epoch_reload_nonce'', field_bad dec_str),
      (''watcher_armed_nonce'', field_bad dec_str),
      (''dedup_hits'', field_bad dec_u64),
      (''dedup_reread_bytes'', field_bad dec_u64),
      (''last_emitter_turn_key'', field_bad (dec_opt dec_str)),
      (''duplicate_emitter_turn_signals'', field_bad dec_u64),
      (''mismatched_stop_emitter_turns'', field_bad dec_u64),
      (''last_emitter_turn_fingerprint'', field_bad (dec_opt dec_str))]"

definition bad_fields :: "json \<Rightarrow> string list" where
  "bad_fields obj = map fst (filter (\<lambda>(name, bad). bad obj name) STATE_FIELDS)"

definition fields_of :: "json \<Rightarrow> state" where
  "fields_of obj =
     \<lparr>st_pid = field dec_u32 0 obj ''pid'',
      st_signal_offset = field dec_u64 0 obj ''signal_offset'',
      st_snapshot_failures = field dec_u64 0 obj ''snapshot_failures'',
      st_io_failed = field (dec_arr dec_str) [] obj ''io_failed'',
      st_memory_rejects = field dec_u64 0 obj ''memory_rejects'',
      st_unknown_signal_ignored = field dec_u64 0 obj ''unknown_signal_ignored'',
      st_non_utf8_path_skips = field dec_u64 0 obj ''non_utf8_path_skips'',
      st_prompt_put_failures = field dec_u64 0 obj ''prompt_put_failures'',
      st_ignore_rebuilds = field dec_u64 0 obj ''ignore_rebuilds'',
      st_last_ignore_rebuild_ms = field dec_u64 0 obj ''last_ignore_rebuild_ms'',
      st_epoch_ignore_rebuilds = field dec_u64 0 obj ''epoch_ignore_rebuilds'',
      st_epoch_nonce = field dec_str [] obj ''epoch_nonce'',
      st_epoch_reload_nonce = field dec_str [] obj ''epoch_reload_nonce'',
      st_state_parse_failures = field dec_u64 0 obj ''state_parse_failures'',
      st_last_bad_field = field (dec_opt dec_str) None obj ''last_bad_field'',
      st_watcher_armed_nonce = field dec_str [] obj ''watcher_armed_nonce'',
      st_dedup_hits = field dec_u64 0 obj ''dedup_hits'',
      st_dedup_reread_bytes = field dec_u64 0 obj ''dedup_reread_bytes'',
      st_last_emitter_turn_key = field (dec_opt dec_str) None obj ''last_emitter_turn_key'',
      st_duplicate_emitter_turn_signals = field dec_u64 0 obj ''duplicate_emitter_turn_signals'',
      st_mismatched_stop_emitter_turns = field dec_u64 0 obj ''mismatched_stop_emitter_turns'',
      st_last_emitter_turn_fingerprint = field (dec_opt dec_str) None obj ''last_emitter_turn_fingerprint''\<rparr>"

datatype state_file = StateMissing | StateUnreadable | StateText string

definition whole_file_failure :: state where
  "whole_file_failure = default_state\<lparr>st_state_parse_failures := 1, st_last_bad_field := Some WHOLE_FILE_SENTINEL\<rparr>"

definition read_fields :: "json \<Rightarrow> state" where
  "read_fields obj =
     (let s = fields_of obj; bad = bad_fields obj;
          s1 = s\<lparr>st_state_parse_failures := u64_add (st_state_parse_failures s) (length bad)\<rparr> in
      if bad = [] then s1 else s1\<lparr>st_last_bad_field := Some (last bad)\<rparr>)"

definition read_state :: "(string \<Rightarrow> json option) \<Rightarrow> state_file \<Rightarrow> state" where
  "read_state from_str f = (case f of
     StateMissing \<Rightarrow> default_state
   | StateUnreadable \<Rightarrow> whole_file_failure
   | StateText s \<Rightarrow>
       (if \<not> utf8_valid s then whole_file_failure
        else case from_str s of
          Some (JObj fs) \<Rightarrow> read_fields (JObj fs)
        | _ \<Rightarrow> whole_file_failure))"

subsection \<open>Writing\<close>

definition state_members :: "state \<Rightarrow> (string \<times> json) list" where
  "state_members s =
     [(''pid'', enc_u32 (st_pid s)),
      (''signal_offset'', enc_u64 (st_signal_offset s)),
      (''snapshot_failures'', enc_u64 (st_snapshot_failures s)),
      (''io_failed'', (\<lambda>xs. JArr (map JStr xs)) (st_io_failed s)),
      (''memory_rejects'', enc_u64 (st_memory_rejects s)),
      (''unknown_signal_ignored'', enc_u64 (st_unknown_signal_ignored s)),
      (''non_utf8_path_skips'', enc_u64 (st_non_utf8_path_skips s)),
      (''prompt_put_failures'', enc_u64 (st_prompt_put_failures s)),
      (''ignore_rebuilds'', enc_u64 (st_ignore_rebuilds s)),
      (''last_ignore_rebuild_ms'', enc_u64 (st_last_ignore_rebuild_ms s)),
      (''epoch_ignore_rebuilds'', enc_u64 (st_epoch_ignore_rebuilds s)),
      (''epoch_nonce'', JStr (st_epoch_nonce s)),
      (''epoch_reload_nonce'', JStr (st_epoch_reload_nonce s)),
      (''state_parse_failures'', enc_u64 (st_state_parse_failures s)),
      (''last_bad_field'', (enc_opt JStr) (st_last_bad_field s)),
      (''watcher_armed_nonce'', JStr (st_watcher_armed_nonce s)),
      (''dedup_hits'', enc_u64 (st_dedup_hits s)),
      (''dedup_reread_bytes'', enc_u64 (st_dedup_reread_bytes s)),
      (''last_emitter_turn_key'', (enc_opt JStr) (st_last_emitter_turn_key s)),
      (''duplicate_emitter_turn_signals'', enc_u64 (st_duplicate_emitter_turn_signals s)),
      (''mismatched_stop_emitter_turns'', enc_u64 (st_mismatched_stop_emitter_turns s)),
      (''last_emitter_turn_fingerprint'', (enc_opt JStr) (st_last_emitter_turn_fingerprint s))]"

text \<open>
  The new file replaces the old one by renaming; \<open>ok\<close> is whether every step up to that succeeds.
\<close>

definition write_state :: "(json \<Rightarrow> string) \<Rightarrow> bool \<Rightarrow> state_file \<Rightarrow> state \<Rightarrow> state_file" where
  "write_state to_string ok f s = (if ok then StateText (to_string (JObj (state_members s))) else f)"

subsection \<open>Updates\<close>

definition record_io_failure :: "string \<Rightarrow> state \<Rightarrow> state" where
  "record_io_failure rel_path s =
     s\<lparr>st_snapshot_failures := u64_add (st_snapshot_failures s) 1,
       st_io_failed := (if rel_path \<in> set (st_io_failed s) then st_io_failed s else st_io_failed s @ [rel_path])\<rparr>"

definition record_non_utf8_path_skip :: "state \<Rightarrow> state" where
  "record_non_utf8_path_skip s = s\<lparr>st_non_utf8_path_skips := u64_add (st_non_utf8_path_skips s) 1\<rparr>"

definition record_prompt_put_failure :: "state \<Rightarrow> state" where
  "record_prompt_put_failure s = s\<lparr>st_prompt_put_failures := u64_add (st_prompt_put_failures s) 1\<rparr>"

definition record_ignore_rebuild :: "nat \<Rightarrow> state \<Rightarrow> state" where
  "record_ignore_rebuild wall_ms s =
     (let s1 = (if st_epoch_reload_nonce s \<noteq> st_epoch_nonce s
                then s\<lparr>st_epoch_ignore_rebuilds := 0, st_epoch_reload_nonce := st_epoch_nonce s\<rparr> else s) in
      s1\<lparr>st_ignore_rebuilds := u64_add (st_ignore_rebuilds s1) 1,
         st_epoch_ignore_rebuilds := u64_add (st_epoch_ignore_rebuilds s1) 1,
         st_last_ignore_rebuild_ms := wall_ms\<rparr>)"

definition current_epoch_reloads :: "state \<Rightarrow> nat" where
  "current_epoch_reloads s =
     (if st_epoch_nonce s \<noteq> [] \<and> st_epoch_reload_nonce s = st_epoch_nonce s
      then st_epoch_ignore_rebuilds s else 0)"

subsection \<open>Epochs (daemon.rs)\<close>

text \<open>What taking and releasing the recorder lock and arming the watcher write.\<close>

definition lock_state :: "32 word \<Rightarrow> string \<Rightarrow> state \<Rightarrow> state" where
  "lock_state pid nonce s = s\<lparr>st_pid := pid, st_epoch_nonce := nonce\<rparr>"

definition release_lock :: "32 word \<Rightarrow> state \<Rightarrow> state" where
  "release_lock pid s =
     (if st_pid s = pid then s\<lparr>st_pid := 0, st_epoch_nonce := [], st_watcher_armed_nonce := []\<rparr> else s)"

definition stamp_watcher_armed :: "state \<Rightarrow> state" where
  "stamp_watcher_armed s = s\<lparr>st_watcher_armed_nonce := st_epoch_nonce s\<rparr>"

end
