(* ===== verification/Recorder_State_Props.thy ===== *)
theory Recorder_State_Props
  imports Recorder_State
begin

text \<open>
  \<open>state.json\<close>: a wrongly typed field costs that field only, what is written is read back, and the
  reload count shown is the current epoch's.
\<close>

lemma value_get_filter:
  "value_get k (JObj (filter (\<lambda>(k, _). P k) fs)) = (if P k then value_get k (JObj fs) else None)"
proof -
  have "members k (filter (\<lambda>(k, _). P k) fs) = (if P k then members k fs else [])"
    by (induction fs) auto
  then show ?thesis by simp
qed

lemma field_filter:
  "P name \<or> field_bad d (JObj fs) name
    \<Longrightarrow> field d x (JObj (filter (\<lambda>(k, _). P k) fs)) name = field d x (JObj fs) name"
  by (auto simp: field_def field_bad_def value_get_filter simp del: value_get.simps split: option.splits)

lemma distinct_state_fields: "distinct (map fst STATE_FIELDS)"
  by (simp add: STATE_FIELDS_def)

lemma bad_fields_iff: "(name, bad) \<in> set STATE_FIELDS \<Longrightarrow> name \<in> set (bad_fields obj) \<longleftrightarrow> bad obj name"
proof -
  assume m: "(name, bad) \<in> set STATE_FIELDS"
  have "name \<in> set (bad_fields obj) \<longleftrightarrow> (\<exists>bad'. (name, bad') \<in> set STATE_FIELDS \<and> bad' obj name)"
    by (auto simp: bad_fields_def image_iff split: prod.splits)
  also have "\<dots> \<longleftrightarrow> bad obj name"
    using m eq_key_imp_eq_value[OF distinct_state_fields m] by blast
  finally show ?thesis .
qed

text \<open>The object without its wrongly typed members.\<close>

definition well_typed_part :: "(string \<times> json) list \<Rightarrow> (string \<times> json) list" where
  "well_typed_part fs = filter (\<lambda>(k, _). k \<notin> set (bad_fields (JObj fs))) fs"

lemma field_well_typed:
  "(name, field_bad d) \<in> set STATE_FIELDS
    \<Longrightarrow> field d x (JObj (well_typed_part fs)) name = field d x (JObj fs) name"
  unfolding well_typed_part_def by (rule field_filter) (auto simp: bad_fields_iff)

lemma fields_of_well_typed: "fields_of (JObj (well_typed_part fs)) = fields_of (JObj fs)"
  unfolding fields_of_def by (simp add: field_well_typed STATE_FIELDS_def)

lemma field_bad_filter:
  "\<not> P name \<or> \<not> field_bad d (JObj fs) name \<Longrightarrow> \<not> field_bad d (JObj (filter (\<lambda>(k, _). P k) fs)) name"
  by (auto simp: field_bad_def value_get_filter simp del: value_get.simps split: option.splits)

lemma field_bad_well_typed:
  "(name, field_bad d) \<in> set STATE_FIELDS \<Longrightarrow> field_bad d (JObj (well_typed_part fs)) name = False"
  using bad_fields_iff[of name "field_bad d" "JObj fs"]
  unfolding well_typed_part_def by (simp add: field_bad_filter)

lemma bad_fields_well_typed: "bad_fields (JObj (well_typed_part fs)) = []"
  unfolding bad_fields_def by (simp add: field_bad_well_typed STATE_FIELDS_def)

text \<open>
  A wrongly typed member of \<open>state.json\<close> costs that member only. What is read is what the
  file without the wrongly typed members gives, every other field with its value, and the failures
  are counted on top of what was counted before, with the name of the last one.
\<close>

theorem state_degrades_per_field:
  "read_fields (JObj fs) =
     (let s = read_fields (JObj (well_typed_part fs)); bad = bad_fields (JObj fs) in
      s\<lparr>st_state_parse_failures := u64_add (st_state_parse_failures s) (length bad),
        st_last_bad_field := (if bad = [] then st_last_bad_field s else Some (last bad))\<rparr>)"
  by (simp add: read_fields_def fields_of_well_typed bad_fields_well_typed Let_def u64_add_def mod_simps)

text \<open>The values a state can hold: its numbers are machine numbers.\<close>

definition state_in_range :: "state \<Rightarrow> bool" where
  "state_in_range s \<longleftrightarrow> list_all (\<lambda>n. n < 2 ^ 64)
     [st_signal_offset s, st_snapshot_failures s, st_memory_rejects s, st_unknown_signal_ignored s,
      st_non_utf8_path_skips s, st_prompt_put_failures s, st_ignore_rebuilds s, st_last_ignore_rebuild_ms s,
      st_epoch_ignore_rebuilds s, st_state_parse_failures s, st_dedup_hits s, st_dedup_reread_bytes s,
      st_duplicate_emitter_turn_signals s, st_mismatched_stop_emitter_turns s]"

lemma dec_enc_simps [simp]:
  "dec_u32 (enc_u32 w) = Some w"
  "n < 2 ^ 64 \<Longrightarrow> dec_u64 (enc_u64 n) = Some n"
  "dec_opt dec_str (enc_opt JStr x) = Some x"
  "dec_all dec_str (map JStr xs) = Some xs"
  using u32.dec_enc[of w] str.dec_opt_enc[of x] str.dec_arr_enc[of xs] by (simp_all add: enc_u64_def)

text \<open>
  The written state is read back, so long as \<open>from_str\<close> inverts \<open>to_string\<close> on it.
\<close>

theorem state_read_back:
  assumes "state_in_range s" "from_str (to_string (JObj (state_members s))) = Some (JObj (state_members s))"
    "utf8_valid (to_string (JObj (state_members s)))"
  shows "read_state from_str (write_state to_string True f s) = s"
proof -
  have bad: "bad_fields (JObj (state_members s)) = []"
    using assms(1)
    by (simp add: bad_fields_def STATE_FIELDS_def field_bad_def state_members_def state_in_range_def)
  have "fields_of (JObj (state_members s)) = s"
    using assms(1)
    by (simp add: fields_of_def field_def state_members_def state_in_range_def)
  then have "read_fields (JObj (state_members s)) = s"
    using assms(1) by (simp add: read_fields_def bad u64_add_def state_in_range_def)
  then show ?thesis using assms(2,3) by (simp add: read_state_def write_state_def)
qed

end
