(* ===== verification/Watch.thy ===== *)
theory Watch
  imports Text
begin

text \<open>
  The daemon's filter of watcher events (cli/src/daemon.rs): gitignore precedence, the classes of
  paths, and what an event adds to the pending set. Paths are absolute, as their components. The
  matching of one gitignore file (crate ignore), the file kinds and directory walks are parameters.
\<close>

type_synonym path = "string list"

definition under :: "path \<Rightarrow> path \<Rightarrow> path option" where
  "under dir p = (if starts_with p dir then Some (drop (length dir) p) else None)"

subsection \<open>Gitignore\<close>

datatype gi_match = GiIgnore | GiWhitelist | GiNone

type_synonym ignore_set = "(path \<times> (path \<Rightarrow> bool \<Rightarrow> gi_match)) list"

text \<open>\<open>found\<close>: the directories with a usable gitignore file, in the order of the walk.\<close>

definition build_ignore_set :: "ignore_set \<Rightarrow> ignore_set" where
  "build_ignore_set found = sort_key (\<lambda>(dir, gi). - int (length dir)) found"

fun is_ignored :: "ignore_set \<Rightarrow> path \<Rightarrow> bool \<Rightarrow> bool" where
  "is_ignored [] p is_dir = False"
| "is_ignored ((dir, gi) # ms) p is_dir = (case under dir p of
     None \<Rightarrow> is_ignored ms p is_dir
   | Some rel \<Rightarrow> (case gi rel is_dir of
       GiIgnore \<Rightarrow> True
     | GiWhitelist \<Rightarrow> False
     | GiNone \<Rightarrow> is_ignored ms p is_dir))"

definition maybe_rebuild :: "bool \<Rightarrow> ignore_set \<Rightarrow> bool \<times> ignore_set option" where
  "maybe_rebuild dirty found = (if dirty then (False, Some (build_ignore_set found)) else (False, None))"

subsection \<open>Classes\<close>

datatype path_class = GitRef | WatchPath | IgnorePath

definition DENYLIST :: "string list" where
  "DENYLIST = [''.agentrec'', ''node_modules'', ''target'', ''dist'']"

definition GIT_REFS :: "string list" where
  "GIT_REFS = [''HEAD'', ''ORIG_HEAD'', ''index'', ''refs'', ''packed-refs'']"

definition classify :: "path \<Rightarrow> (path \<Rightarrow> bool) \<Rightarrow> ignore_set \<Rightarrow> path \<Rightarrow> path_class" where
  "classify base is_dir ignores p = (case under base p of
     None \<Rightarrow> IgnorePath
   | Some rel \<Rightarrow> (case filter utf8_valid rel of
       [] \<Rightarrow> IgnorePath
     | c # cs \<Rightarrow>
         if c = ''.git'' then
           (case cs of [] \<Rightarrow> IgnorePath | d # _ \<Rightarrow> if d \<in> set GIT_REFS then GitRef else IgnorePath)
         else if list_ex (\<lambda>d. d \<in> set DENYLIST) (c # cs) then IgnorePath
         else if is_ignored ignores p (is_dir p) then IgnorePath
         else WatchPath))"

subsection \<open>Events\<close>

datatype event_kind = CreateKind | RemoveFolder | NameKind | OtherKind

record watch_event =
  we_kind :: event_kind
  we_paths :: "path list"

record watching =
  wa_pending :: "path list"
  wa_last_event :: "nat option"
  wa_first_event :: "nat option"
  wa_git_hit :: bool
  wa_gitignore_dirty :: bool
  wa_admitted :: "path list"

definition not_watching :: watching where
  "not_watching = \<lparr>wa_pending = [], wa_last_event = None, wa_first_event = None, wa_git_hit = False,
     wa_gitignore_dirty = False, wa_admitted = []\<rparr>"

text \<open>
  What the operating system says: directories, the files a walk of a directory yields, whether
  the platform is Linux, and the time.
\<close>

record watch_env =
  wv_base :: path
  wv_is_dir :: "path \<Rightarrow> bool"
  wv_walk :: "path \<Rightarrow> path list"
  wv_linux :: bool
  wv_now :: nat

definition arm :: "nat \<Rightarrow> watching \<Rightarrow> watching" where
  "arm now w = w\<lparr>wa_first_event := (case wa_first_event w of None \<Rightarrow> Some now | Some t \<Rightarrow> Some t),
     wa_last_event := Some now\<rparr>"

definition add_pending :: "path \<Rightarrow> watching \<Rightarrow> watching" where
  "add_pending p w = (if p \<in> set (wa_pending w) then w else w\<lparr>wa_pending := wa_pending w @ [p]\<rparr>)"

definition admit_existing_contents :: "watch_env \<Rightarrow> ignore_set \<Rightarrow> path \<Rightarrow> watching \<Rightarrow> watching" where
  "admit_existing_contents env ignores dir w =
     foldl (\<lambda>w p. if classify (wv_base env) (wv_is_dir env) ignores p = WatchPath
                  then add_pending p (arm (wv_now env) w) else w) w (wv_walk env dir)"

definition admits :: "watch_env \<Rightarrow> event_kind \<Rightarrow> path \<Rightarrow> bool" where
  "admits env kind p \<longleftrightarrow> wv_is_dir env p \<and> (kind = NameKind \<or> (wv_linux env \<and> kind = CreateKind))"

definition apply_path :: "watch_env \<Rightarrow> ignore_set \<Rightarrow> event_kind \<Rightarrow> watching \<Rightarrow> path \<Rightarrow> watching" where
  "apply_path env ignores kind w p =
     (let w1 = (if p \<noteq> [] \<and> last p = ''.gitignore'' then w\<lparr>wa_gitignore_dirty := True\<rparr> else w);
          w2 = (if kind = RemoveFolder \<or> kind = NameKind
                then w1\<lparr>wa_admitted := removeAll p (wa_admitted w1)\<rparr> else w1) in
      case classify (wv_base env) (wv_is_dir env) ignores p of
        GitRef \<Rightarrow> w2\<lparr>wa_git_hit := True\<rparr>
      | IgnorePath \<Rightarrow> w2
      | WatchPath \<Rightarrow>
          (let w3 = arm (wv_now env) w2;
               w4 = (if admits env kind p \<and> p \<notin> set (wa_admitted w3)
                     then admit_existing_contents env ignores p (w3\<lparr>wa_admitted := wa_admitted w3 @ [p]\<rparr>)
                     else w3)
           in add_pending p w4))"

text \<open>A watcher error only counts a failure in \<open>state.json\<close>.\<close>

definition apply_watch_result :: "watch_env \<Rightarrow> ignore_set \<Rightarrow> watch_event option \<Rightarrow> watching \<Rightarrow> watching" where
  "apply_watch_result env ignores res w = (case res of
     None \<Rightarrow> w
   | Some ev \<Rightarrow> foldl (apply_path env ignores (we_kind ev)) w (we_paths ev))"

text \<open>One message or none after the poll interval, then everything already queued.\<close>

definition drain_watch_events :: "watch_env \<Rightarrow> ignore_set \<Rightarrow> watch_event option list \<Rightarrow> watching \<Rightarrow> watching" where
  "drain_watch_events env ignores queue w = foldl (\<lambda>w res. apply_watch_result env ignores res w) w queue"

subsection \<open>The burst\<close>

definition DEBOUNCE :: nat where "DEBOUNCE = 1500"
definition MAX_DEBOUNCE :: nat where "MAX_DEBOUNCE = 10000"

definition burst_due :: "nat \<Rightarrow> watching \<Rightarrow> bool" where
  "burst_due now w \<longleftrightarrow>
     (case wa_last_event w of Some t \<Rightarrow> now - t \<ge> DEBOUNCE | None \<Rightarrow> False)
     \<or> (case wa_first_event w of Some t \<Rightarrow> now - t \<ge> MAX_DEBOUNCE | None \<Rightarrow> False)"

definition burst_taken :: "watching \<Rightarrow> watching" where
  "burst_taken w = w\<lparr>wa_pending := [], wa_last_event := None, wa_first_event := None\<rparr>"

end
