(* ===== verification/Watch_Props.thy ===== *)
theory Watch_Props
  imports Watch
begin

text \<open>
  The filter: the deepest gitignore file that decides is the one that counts, and whatever the
  watcher reports, nothing of the recorder's own directory ever becomes pending.
\<close>

subsection \<open>Gitignore precedence\<close>

definition decides :: "ignore_set \<Rightarrow> path \<Rightarrow> bool \<Rightarrow> path \<Rightarrow> gi_match \<Rightarrow> bool" where
  "decides found p is_dir dir v \<longleftrightarrow> v \<noteq> GiNone
     \<and> (\<exists>gi rel. (dir, gi) \<in> set found \<and> under dir p = Some rel \<and> gi rel is_dir = v)"

lemma decides_Cons: "decides ((dir, gi) # ms) p d dir' v
    \<longleftrightarrow> (dir' = dir \<and> v \<noteq> GiNone \<and> (\<exists>rel. under dir p = Some rel \<and> gi rel d = v)) \<or> decides ms p d dir' v"
  by (auto simp: decides_def)

lemma under_same_length:
  "under a p = Some x \<Longrightarrow> under b p = Some y \<Longrightarrow> length a = length b \<Longrightarrow> a = b"
  by (auto simp: under_def starts_with_iff split: if_splits)

lemma is_ignored_deepest:
  assumes "sorted (map (\<lambda>(dir, gi). - int (length dir)) ms)" "distinct (map fst ms)"
  shows "is_ignored ms p d \<longleftrightarrow>
    (\<exists>dir. decides ms p d dir GiIgnore \<and> (\<forall>dir' v. decides ms p d dir' v \<longrightarrow> length dir' \<le> length dir))"
  using assms
proof (induction ms p d rule: is_ignored.induct)
  case (1 p d)
  then show ?case by (simp add: decides_def)
next
  case (2 dir gi ms p d)
  have below: "length dir' \<le> length dir" if "decides ms p d dir' v" for dir' v
    using that "2.prems"(1) by (auto simp: decides_def)
  have once: "dir' \<noteq> dir" if "decides ms p d dir' v" for dir' v
    using that "2.prems"(2) by (force simp: decides_def)
  show ?case
  proof (cases "under dir p")
    case None
    with 2 show ?thesis by (simp add: decides_Cons)
  next
    case rel: (Some rel)
    have same: "\<not> decides ms p d dir' v \<or> length dir' < length dir" for dir' v
      using below[of dir' v] once[of dir' v] under_same_length[OF _ rel, of dir']
      by (fastforce simp: decides_def)
    show ?thesis
    proof (cases "gi rel d")
      case GiIgnore
      then have "decides ((dir, gi) # ms) p d dir GiIgnore" using rel by (simp add: decides_Cons)
      moreover have "length dir' \<le> length dir" if "decides ((dir, gi) # ms) p d dir' v" for dir' v
        using that below by (auto simp: decides_Cons)
      ultimately show ?thesis using rel GiIgnore by auto
    next
      case GiWhitelist
      have "\<not> (decides ((dir, gi) # ms) p d dir' GiIgnore
        \<and> (\<forall>dir'' v. decides ((dir, gi) # ms) p d dir'' v \<longrightarrow> length dir'' \<le> length dir'))" for dir'
        using rel GiWhitelist same[of dir' GiIgnore] by (auto simp: decides_Cons intro!: exI[of _ dir] exI[of _ GiWhitelist])
      then show ?thesis using rel GiWhitelist by auto
    next
      case GiNone
      then have "decides ((dir, gi) # ms) p d = decides ms p d"
        using rel by (auto simp: decides_Cons fun_eq_iff)
      with 2 rel GiNone show ?thesis by simp
    qed
  qed
qed

text \<open>
  A path is ignored exactly when, of all gitignore files above it whose rules say anything about
  it, the deepest one says ignore; the order in which the directories were found does not matter.
\<close>

theorem deepest_gitignore_wins:
  assumes "distinct (map fst found)"
  shows "is_ignored (build_ignore_set found) p d \<longleftrightarrow>
    (\<exists>dir. decides found p d dir GiIgnore \<and> (\<forall>dir' v. decides found p d dir' v \<longrightarrow> length dir' \<le> length dir))"
proof -
  have "distinct (map fst (build_ignore_set found))"
    using assms by (simp add: build_ignore_set_def distinct_map)
  moreover have "decides (build_ignore_set found) = decides found"
    by (simp add: decides_def build_ignore_set_def fun_eq_iff)
  ultimately show ?thesis
    using is_ignored_deepest[of "build_ignore_set found" p d] by (simp add: build_ignore_set_def)
qed

theorem deepest_gitignore_wins_witness:
  "\<not> is_ignored (build_ignore_set [([''r''], \<lambda>rel d. GiIgnore), ([''r'', ''a''], \<lambda>rel d. GiWhitelist)]) [''r'', ''a'', ''f''] False"
proof -
  let ?found = "[([''r''], \<lambda>(rel :: path) (d :: bool). GiIgnore), ([''r'', ''a''], \<lambda>rel d. GiWhitelist)]"
  have w: "decides ?found [''r'', ''a'', ''f''] False [''r'', ''a''] GiWhitelist"
    by (simp add: decides_def under_def)
  have "dir = [''r'']" if "decides ?found [''r'', ''a'', ''f''] False dir GiIgnore" for dir
    using that by (auto simp: decides_def)
  with w show ?thesis
    using deepest_gitignore_wins[of ?found "[''r'', ''a'', ''f'']" False] by force
qed

subsection \<open>What becomes pending\<close>

datatype watch_move = Drain watch_env ignore_set "watch_event option list" | Flush

fun watch_step :: "path \<Rightarrow> watching \<Rightarrow> watch_move \<Rightarrow> watching" where
  "watch_step base w (Drain env ignores queue) = drain_watch_events (env\<lparr>wv_base := base\<rparr>) ignores queue w"
| "watch_step base w Flush = burst_taken w"

text \<open>Inside the root, not below \<open>.git\<close>, and no directory of the denylist on the way.\<close>

definition recordable :: "path \<Rightarrow> path \<Rightarrow> bool" where
  "recordable base p \<longleftrightarrow> (case under base p of
     None \<Rightarrow> False
   | Some rel \<Rightarrow> (case filter utf8_valid rel of
       [] \<Rightarrow> False
     | c # cs \<Rightarrow> c \<noteq> ''.git'' \<and> list_all (\<lambda>d. d \<notin> set DENYLIST) (c # cs)))"

definition armed :: "watching \<Rightarrow> bool" where
  "armed w \<longleftrightarrow> wa_pending w = [] \<or> (wa_first_event w \<noteq> None \<and> wa_last_event w \<noteq> None)"

definition pending_ok :: "path \<Rightarrow> watching \<Rightarrow> bool" where
  "pending_ok base w \<longleftrightarrow> list_all (recordable base) (wa_pending w) \<and> armed w"

lemma classify_recordable: "classify base is_dir ignores p = WatchPath \<Longrightarrow> recordable base p"
  by (auto simp: classify_def recordable_def list_ex_iff list_all_iff split: option.splits list.splits if_splits)

lemma pending_ok_simps:
  "pending_ok base (w\<lparr>wa_git_hit := b\<rparr>) = pending_ok base w"
  "pending_ok base (w\<lparr>wa_gitignore_dirty := b\<rparr>) = pending_ok base w"
  "pending_ok base (w\<lparr>wa_admitted := ds\<rparr>) = pending_ok base w"
  by (simp_all add: pending_ok_def armed_def)

lemma pending_ok_arm: "pending_ok base w \<Longrightarrow> pending_ok base (arm now w)"
  by (auto simp: pending_ok_def armed_def arm_def split: option.splits)

lemma pending_ok_add:
  "pending_ok base w \<Longrightarrow> recordable base p \<Longrightarrow> pending_ok base (add_pending p (arm now w))"
  by (auto simp: pending_ok_def armed_def arm_def add_pending_def split: option.splits)

lemma armed_after_admit:
  assumes "pending_ok base w" "wv_base env = base" "wa_first_event w \<noteq> None" "wa_last_event w \<noteq> None"
  shows "pending_ok base (admit_existing_contents env ignores p w)
    \<and> wa_first_event (admit_existing_contents env ignores p w) \<noteq> None
    \<and> wa_last_event (admit_existing_contents env ignores p w) \<noteq> None"
  unfolding admit_existing_contents_def
proof (rule foldl_inv)
  show "pending_ok base w \<and> wa_first_event w \<noteq> None \<and> wa_last_event w \<noteq> None" using assms by blast
next
  fix w p
  assume "pending_ok base w \<and> wa_first_event w \<noteq> None \<and> wa_last_event w \<noteq> None"
  with assms(2) show "pending_ok base (if classify (wv_base env) (wv_is_dir env) ignores p = WatchPath
        then add_pending p (arm (wv_now env) w) else w)
      \<and> wa_first_event (if classify (wv_base env) (wv_is_dir env) ignores p = WatchPath
        then add_pending p (arm (wv_now env) w) else w) \<noteq> None
      \<and> wa_last_event (if classify (wv_base env) (wv_is_dir env) ignores p = WatchPath
        then add_pending p (arm (wv_now env) w) else w) \<noteq> None"
    by (auto simp: pending_ok_add classify_recordable) (auto simp: arm_def add_pending_def)
qed

lemma pending_ok_apply:
  assumes "pending_ok base w" "wv_base env = base"
  shows "pending_ok base (apply_path env ignores kind w p)"
proof -
  define w2 where "w2 = (let w1 = (if p \<noteq> [] \<and> last p = ''.gitignore'' then w\<lparr>wa_gitignore_dirty := True\<rparr> else w)
    in if kind = RemoveFolder \<or> kind = NameKind then w1\<lparr>wa_admitted := removeAll p (wa_admitted w1)\<rparr> else w1)"
  have w2: "pending_ok base w2" using assms(1) by (simp add: w2_def Let_def pending_ok_simps)
  show ?thesis
  proof (cases "classify (wv_base env) (wv_is_dir env) ignores p")
    case WatchPath
    then have rec: "recordable base p" using assms(2) classify_recordable by blast
    define w4 where "w4 = (if admits env kind p \<and> p \<notin> set (wa_admitted (arm (wv_now env) w2))
      then admit_existing_contents env ignores p
        ((arm (wv_now env) w2)\<lparr>wa_admitted := wa_admitted (arm (wv_now env) w2) @ [p]\<rparr>)
      else arm (wv_now env) w2)"
    have a: "pending_ok base (arm (wv_now env) w2)" "wa_first_event (arm (wv_now env) w2) \<noteq> None"
      "wa_last_event (arm (wv_now env) w2) \<noteq> None"
      using pending_ok_arm[OF w2] by (simp_all add: arm_def split: option.splits)
    then have "pending_ok base w4 \<and> wa_first_event w4 \<noteq> None \<and> wa_last_event w4 \<noteq> None"
      unfolding w4_def using armed_after_admit[OF _ assms(2)] by (simp add: pending_ok_simps)
    then have "pending_ok base (add_pending p w4)"
      using rec by (auto simp: pending_ok_def armed_def add_pending_def)
    moreover have "apply_path env ignores kind w p = add_pending p w4"
      unfolding apply_path_def w4_def w2_def Let_def by (simp only: WatchPath path_class.case)
    ultimately show ?thesis by simp
  qed (use w2 in \<open>simp_all add: apply_path_def w2_def Let_def pending_ok_simps\<close>)
qed

text \<open>
  Nothing of the recorder's own making, of git's, or of the denylisted directories ever becomes
  pending, whatever the watcher reports and whatever the ignore files say; and pending changes always
  have the debounce running.
\<close>

theorem own_writes_never_pending:
  "pending_ok base (foldl (watch_step base) not_watching steps)"
proof (rule foldl_inv)
  show "pending_ok base not_watching" by (simp add: pending_ok_def armed_def not_watching_def)
next
  fix w st
  assume w: "pending_ok base w"
  show "pending_ok base (watch_step base w st)"
  proof (cases st)
    case (Drain env ignores queue)
    have "pending_ok base (apply_watch_result (env\<lparr>wv_base := base\<rparr>) ignores res w)"
      if "pending_ok base w" for res w
      unfolding apply_watch_result_def
      by (cases res) (auto simp: that intro!: foldl_inv[where P = "pending_ok base"] pending_ok_apply)
    then show ?thesis
      unfolding Drain watch_step.simps drain_watch_events_def
      by (intro foldl_inv[where P = "pending_ok base"]) (use w in blast)+
  next
    case Flush
    then show ?thesis by (simp add: pending_ok_def armed_def burst_taken_def)
  qed
qed

text \<open>What is pending is due at the latest when the burst is as old as its limit.\<close>

lemma pending_due_in_time:
  assumes "pending_ok base w" "wa_pending w \<noteq> []"
  shows "\<exists>t. wa_first_event w = Some t \<and> burst_due (t + MAX_DEBOUNCE) w"
  using assms by (auto simp: pending_ok_def armed_def burst_due_def)

end
