(* ===== verification/Recorder.thy ===== *)
theory Recorder
  imports Engine Records Store Scrub Recorder_State Watch
begin

text \<open>
  The recorder of the daemon (cli/src/daemon.rs): the clock of the record stamps, the staging of
  pending paths into observations with their snapshots, and the file entries they resolve to. What
  the file system shows of a path and the outcomes of writing are arguments.
\<close>

subsection \<open>Clock\<close>

definition DRIFT_REANCHOR_MS :: nat where
  "DRIFT_REANCHOR_MS = 2000"

record wall_clock =
  wc_start_wall_ms :: nat
  wc_max_wall_ms :: nat

definition clock_start :: "nat \<Rightarrow> wall_clock" where
  "clock_start wall_now = \<lparr>wc_start_wall_ms = wall_now, wc_max_wall_ms = wall_now\<rparr>"

definition abs_diff :: "nat \<Rightarrow> nat \<Rightarrow> nat" where
  "abs_diff a b = (if a < b then b - a else a - b)"

definition reanchor :: "nat \<Rightarrow> nat \<Rightarrow> wall_clock \<Rightarrow> wall_clock" where
  "reanchor elapsed actual c =
     (let predicted = u64_add (wc_start_wall_ms c) elapsed in
      if abs_diff actual predicted > DRIFT_REANCHOR_MS then c\<lparr>wc_start_wall_ms := actual - elapsed\<rparr> else c)"

text \<open>The stamp of a time of the monotonic clock, and the floor it leaves for later stamps.\<close>

definition wall_ms :: "nat \<Rightarrow> wall_clock \<Rightarrow> nat \<times> wall_clock" where
  "wall_ms mono_ms c =
     (let clamped = max (u64_add (wc_start_wall_ms c) mono_ms) (wc_max_wall_ms c) in
      (clamped, c\<lparr>wc_max_wall_ms := clamped\<rparr>))"

subsection \<open>State\<close>

record recorder =
  rc_known :: "path set"
  rc_baseline :: "path \<rightharpoonup> hash"
  rc_after :: "string \<rightharpoonup> hash option"
  rc_link_kinds :: "string set"
  rc_models :: "string \<rightharpoonup> string"
  rc_io_failures :: "(string \<times> string) list"
  rc_non_utf8_skips :: nat
  rc_dedup_hits :: nat
  rc_dedup_reread_bytes :: nat
  rc_dedup_stats_dirty :: bool

text \<open>\<open>files\<close> are the regular files the walk of the root finds.\<close>

definition recorder_scan :: "path \<Rightarrow> path list \<Rightarrow> recorder" where
  "recorder_scan base files =
     \<lparr>rc_known = set (List.map_filter (under base) files), rc_baseline = Map.empty, rc_after = Map.empty,
      rc_link_kinds = {}, rc_models = Map.empty, rc_io_failures = [], rc_non_utf8_skips = 0,
      rc_dedup_hits = 0, rc_dedup_reread_bytes = 0, rc_dedup_stats_dirty = False\<rparr>"

definition set_model :: "string \<Rightarrow> string \<Rightarrow> recorder \<Rightarrow> recorder" where
  "set_model session model rc = rc\<lparr>rc_models := (rc_models rc)(session \<mapsto> model)\<rparr>"

definition model_for :: "string option \<Rightarrow> recorder \<Rightarrow> string option" where
  "model_for session rc = Option.bind session (rc_models rc)"

subsection \<open>Staging\<close>

text \<open>
  What a path shows: its kind by \<open>symlink_metadata\<close>, a link's target, the bytes a guarded read
  gives, and the outcomes of storing them.
\<close>

datatype path_meta = MetaNotFound | MetaError | MetaDir | MetaLink | MetaOther

record look =
  lk_meta :: path_meta
  lk_target :: "string option"
  lk_bytes :: "string option"
  lk_io :: io
  lk_touch_ok :: bool
  lk_now :: nat

definition sat_add :: "nat \<Rightarrow> nat \<Rightarrow> nat" where
  "sat_add a b = min (a + b) u64_max"

definition count_dedup :: "bool \<Rightarrow> nat \<Rightarrow> recorder \<Rightarrow> recorder" where
  "count_dedup deduped reread rc =
     (if deduped then rc\<lparr>rc_dedup_hits := sat_add (rc_dedup_hits rc) 1,
        rc_dedup_reread_bytes := sat_add (rc_dedup_reread_bytes rc) reread, rc_dedup_stats_dirty := True\<rparr>
      else rc)"

text \<open>The \<open>after\<close> snapshot: hash, snapshotted, withheld, cause of a skip.\<close>

type_synonym snapshot = "hash option \<times> bool \<times> bool \<times> string option"

definition symlink_change :: "(string \<Rightarrow> string) \<Rightarrow> look \<Rightarrow> store \<Rightarrow> (snapshot \<times> bool \<times> nat) \<times> store" where
  "symlink_change sha lk s = (case lk_target lk of
     Some target \<Rightarrow>
       (case put_result sha (lk_io lk) (lk_touch_ok lk) (lk_now lk) (utf8_lossy target) s of
          (Stored h deduped reread, s') \<Rightarrow> (((Some h, True, False, None), deduped, reread), s')
        | (_, s') \<Rightarrow> (((None, True, False, None), False, 0), s'))
   | None \<Rightarrow> (((None, False, False, Some ''unreadable''), False, 0), s))"

definition file_change :: "(string \<Rightarrow> string) \<Rightarrow> look \<Rightarrow> string \<Rightarrow> recorder \<times> store \<Rightarrow> snapshot \<times> recorder \<times> store" where
  "file_change sha lk rel rs = (case rs of (rc, s) \<Rightarrow>
     (case lk_bytes lk of
        None \<Rightarrow> ((None, False, False, Some ''unreadable''), rc, s)
      | Some bytes \<Rightarrow>
          if length bytes \<le> MAX_SNAPSHOT_BYTES then
            (case put_result sha (lk_io lk) (lk_touch_ok lk) (lk_now lk) bytes s of
               (Stored h deduped reread, s') \<Rightarrow> ((Some h, True, False, None), count_dedup deduped reread rc, s')
             | (OverCap, s') \<Rightarrow> ((Some (hash_bytes sha bytes), False, False, Some ''over_cap''), rc, s')
             | (IoError cause, s') \<Rightarrow> ((Some (hash_bytes sha bytes), False, False, Some ''io_failed''),
                 rc\<lparr>rc_io_failures := rc_io_failures rc @ [(rel, cause)]\<rparr>, s'))
          else ((Some (hash_bytes sha bytes), False, False, Some ''over_cap''), rc, s)))"

definition take_snapshot :: "(string \<Rightarrow> string) \<Rightarrow> (string \<Rightarrow> string) \<Rightarrow> look \<Rightarrow> string \<Rightarrow> recorder \<times> store
    \<Rightarrow> snapshot \<times> recorder \<times> store" where
  "take_snapshot sha lower lk rel rs =
     (if is_secret_path lower rel then ((None, False, True, None), rs)
      else if lk_meta lk = MetaNotFound then ((None, True, False, None), rs)
      else if lk_meta lk = MetaLink then
        (case symlink_change sha lk (snd rs) of ((sn, deduped, reread), s') \<Rightarrow>
          (sn, count_dedup deduped reread (fst rs), s'))
      else file_change sha lk rel rs)"

definition rel_string :: "path \<Rightarrow> string" where
  "rel_string rel = join_with ''/'' rel"

text \<open>The recorder after a path was staged: baseline and known paths, \<open>after\<close>, link marks.\<close>

definition advance :: "path \<Rightarrow> path_meta \<Rightarrow> hash option \<Rightarrow> recorder \<Rightarrow> recorder" where
  "advance rel meta after rc =
     (let rc1 = (case after of
            Some h \<Rightarrow> rc\<lparr>rc_baseline := (rc_baseline rc)(rel \<mapsto> h), rc_known := insert rel (rc_known rc)\<rparr>
          | None \<Rightarrow> if meta = MetaNotFound
                    then rc\<lparr>rc_baseline := (rc_baseline rc)(rel := None), rc_known := rc_known rc - {rel}\<rparr>
                    else rc);
          rc2 = rc1\<lparr>rc_after := (rc_after rc1)(rel_string rel \<mapsto> after)\<rparr>
      in if meta = MetaLink then rc2\<lparr>rc_link_kinds := insert (rel_string rel) (rc_link_kinds rc2)\<rparr>
         else if meta \<noteq> MetaNotFound then rc2\<lparr>rc_link_kinds := rc_link_kinds rc2 - {rel_string rel}\<rparr>
         else rc2)"

definition stage_path :: "(string \<Rightarrow> string) \<Rightarrow> (string \<Rightarrow> string) \<Rightarrow> path \<Rightarrow> (path \<Rightarrow> look)
    \<Rightarrow> (recorder \<times> store) \<times> change_obs list \<Rightarrow> path \<Rightarrow> (recorder \<times> store) \<times> change_obs list" where
  "stage_path sha lower base look acc p = (case acc of ((rc, s), out) \<Rightarrow>
     (case under base p of
        None \<Rightarrow> acc
      | Some rel \<Rightarrow>
          if \<not> utf8_valid (rel_string rel)
          then ((rc\<lparr>rc_non_utf8_skips := u64_add (rc_non_utf8_skips rc) 1\<rparr>, s), out)
          else if lk_meta (look p) = MetaDir then acc
          else (case take_snapshot sha lower (look p) (rel_string rel) (rc, s) of
            ((after, snapshotted, withheld, skip_cause), rc1, s1) \<Rightarrow>
              (let deleted = (lk_meta (look p) = MetaNotFound);
                   before = rc_baseline rc1 rel;
                   baseline_unknown = (before = None \<and> rel \<in> rc_known rc1) in
               if before = None \<and> \<not> baseline_unknown \<and> after = None \<and> deleted then ((rc1, s1), out)
               else ((advance rel (lk_meta (look p)) after rc1, s1),
                     out @ [\<lparr>co_path = rel_string rel, co_before_hash = before, co_snapshotted = snapshotted,
                       co_withheld = withheld, co_baseline_unknown = baseline_unknown, co_deleted = deleted,
                       co_skip_reason = skip_cause\<rparr>])))))"

text \<open>\<open>paths\<close> is the pending set, in the order its iteration visits it.\<close>

definition stage :: "(string \<Rightarrow> string) \<Rightarrow> (string \<Rightarrow> string) \<Rightarrow> path \<Rightarrow> (path \<Rightarrow> look) \<Rightarrow> path list
    \<Rightarrow> recorder \<times> store \<Rightarrow> (recorder \<times> store) \<times> change_obs list" where
  "stage sha lower base look paths rs = foldl (stage_path sha lower base look) (rs, []) paths"

subsection \<open>File entries\<close>

definition resolve :: "recorder \<Rightarrow> change_obs \<Rightarrow> file_entry" where
  "resolve rc obs =
     \<lparr>fe_path = co_path obs,
      fe_before = co_before_hash obs,
      fe_after = (case rc_after rc (co_path obs) of Some a \<Rightarrow> a | None \<Rightarrow> None),
      fe_op = (if co_deleted obs then ''delete''
               else if co_before_hash obs = None \<and> \<not> co_baseline_unknown obs then ''create'' else ''modify''),
      fe_skipped = (\<not> co_snapshotted obs \<and> \<not> co_withheld obs),
      fe_withheld = co_withheld obs,
      fe_baseline_unknown = co_baseline_unknown obs,
      fe_skipped_reason = co_skip_reason obs,
      fe_after_synthesized = None,
      fe_link_kind = (if co_path obs \<in> rc_link_kinds rc then Some ''symlink'' else None),
      fe_attribution = None\<rparr>"

subsection \<open>Statistics\<close>

text \<open>\<open>ok\<close> is whether \<open>state.json\<close> is written; the recorder's counters are drained either way.\<close>

definition drain_recorder_stats :: "bool \<Rightarrow> recorder \<times> state \<Rightarrow> recorder \<times> state" where
  "drain_recorder_stats ok rs = (case rs of (rc, st) \<Rightarrow>
     (if rc_io_failures rc = [] \<and> rc_non_utf8_skips rc = 0 \<and> \<not> rc_dedup_stats_dirty rc then (rc, st)
      else let st1 = foldl (\<lambda>s f. record_io_failure (fst f) s) st (rc_io_failures rc);
               st2 = (record_non_utf8_path_skip ^^ rc_non_utf8_skips rc) st1;
               st3 = (if rc_dedup_stats_dirty rc
                      then st2\<lparr>st_dedup_hits := rc_dedup_hits rc, st_dedup_reread_bytes := rc_dedup_reread_bytes rc\<rparr>
                      else st2)
           in (rc\<lparr>rc_io_failures := [], rc_non_utf8_skips := 0, rc_dedup_stats_dirty := False\<rparr>,
               if ok then st3 else st)))"

end
