(* ===== verification/Recorder_Props.thy ===== *)
theory Recorder_Props
  imports Recorder Store_Props
begin

text \<open>
  What the recorder writes down: every hash of an entry is of a content its path showed, the entries
  of a path chain, and what is not marked skipped or withheld can be read from the store.
\<close>

subsection \<open>Staging, one path at a time\<close>

type_synonym showing = "look \<times> path"

definition stage_move :: "(string \<Rightarrow> string) \<Rightarrow> (string \<Rightarrow> string) \<Rightarrow> path \<Rightarrow> recorder \<times> store \<Rightarrow> showing
    \<Rightarrow> (recorder \<times> store) \<times> (path \<times> file_entry) list" where
  "stage_move sha lower base rs m =
     (case stage_path sha lower base (\<lambda>_. fst m) (rs, []) (snd m) of (rs', out) \<Rightarrow>
       (rs', map (\<lambda>obs. (the (under base (snd m)), resolve (fst rs') obs)) out))"

lemma stage_path_acc:
  "stage_path sha lower base look (rs, out) p =
     (case stage_path sha lower base (\<lambda>_. look p) (rs, []) p of (rs', new) \<Rightarrow> (rs', out @ new))"
proof (cases "under base p")
  case (Some rel)
  obtain rc s where rs: "rs = (rc, s)" by fastforce
  obtain after snapshotted withheld cause rc1 s1 where
    "take_snapshot sha lower (look p) (rel_string rel) (rc, s) = ((after, snapshotted, withheld, cause), rc1, s1)"
    by (metis prod.exhaust)
  with Some show ?thesis by (simp add: stage_path_def rs Let_def) auto
qed (simp add: stage_path_def split: prod.split)

text \<open>A batch is its paths one after another; each gives at most one entry.\<close>

lemma stage_moves_from:
  "fst (foldl (stage_path sha lower base look) (rs, obs) paths)
    = fst (run_machine (stage_move sha lower base) rs out (map (\<lambda>p. (look p, p)) paths))"
proof (induction paths arbitrary: rs obs out)
  case (Cons p paths)
  obtain rs1 new where s: "stage_path sha lower base (\<lambda>_. look p) (rs, []) p = (rs1, new)" by fastforce
  have "stage_path sha lower base look (rs, obs) p = (rs1, obs @ new)"
    by (subst stage_path_acc) (simp add: s)
  with Cons.IH show ?case by (simp add: s stage_move_def)
qed simp

lemma stage_is_moves:
  "fst (stage sha lower base look paths rs)
    = fst (run_machine (stage_move sha lower base) rs out (map (\<lambda>p. (look p, p)) paths))"
  unfolding stage_def by (rule stage_moves_from)

text \<open>The contents a path shows: the bytes read, or a link's target.\<close>

definition shown :: "path \<Rightarrow> showing list \<Rightarrow> (path \<times> string) set" where
  "shown base ms = (\<Union>(lk, p) \<in> set ms. case under base p of None \<Rightarrow> {}
     | Some rel \<Rightarrow> Pair rel ` (set_option (lk_bytes lk) \<union> utf8_lossy ` set_option (lk_target lk)))"

definition shown_hashes :: "(string \<Rightarrow> string) \<Rightarrow> path \<Rightarrow> showing list \<Rightarrow> (path \<times> hash) set" where
  "shown_hashes sha base ms = map_prod id (hash_bytes sha) ` shown base ms"

text \<open>The hash an entry leaves for its path, and what the entries so far left for it.\<close>

definition left_by :: "hash option \<Rightarrow> file_entry \<Rightarrow> hash option" where
  "left_by old e = (if fe_op e = ''delete'' then None
     else case fe_after e of Some h \<Rightarrow> Some h | None \<Rightarrow> old)"

definition left_for :: "path \<Rightarrow> (path \<times> file_entry) list \<Rightarrow> hash option" where
  "left_for rel out = foldl left_by None (map snd (filter (\<lambda>x. fst x = rel) out))"

fun chained_rev :: "(path \<times> file_entry) list \<Rightarrow> bool" where
  "chained_rev [] = True"
| "chained_rev (x # xs) = (fe_before (snd x) = left_for (fst x) (rev xs) \<and> chained_rev xs)"

definition chained :: "(path \<times> file_entry) list \<Rightarrow> bool" where
  "chained out = chained_rev (rev out)"

definition entry_hashes :: "(path \<times> file_entry) list \<Rightarrow> (path \<times> hash) set" where
  "entry_hashes out = (\<Union>(rel, e) \<in> set out. Pair rel ` (set_option (fe_before e) \<union> set_option (fe_after e)))"

definition readable_entry :: "(string \<Rightarrow> string) \<Rightarrow> store \<Rightarrow> file_entry \<Rightarrow> bool" where
  "readable_entry sha s e \<longleftrightarrow> (if fe_skipped e \<or> fe_withheld e then True
     else case fe_after e of None \<Rightarrow> True | Some h \<Rightarrow> get_ok sha s h \<noteq> None)"

subsection \<open>One move\<close>

definition keeps_blobs :: "(string \<Rightarrow> string) \<Rightarrow> store \<Rightarrow> store \<Rightarrow> bool" where
  "keeps_blobs sha s s' \<longleftrightarrow> (\<forall>h c. get_ok sha s h = Some c \<longrightarrow> get_ok sha s' h = Some c)"

lemma keeps_blobs_refl [simp]: "keeps_blobs sha s s"
  by (simp add: keeps_blobs_def)

lemma put_result_keeps_blobs: "put_result sha io touch now bs s = (r, s') \<Longrightarrow> keeps_blobs sha s s'"
  by (auto simp: keeps_blobs_def dest: put_result_keeps)

lemma count_dedup_same [simp]:
  "rc_baseline (count_dedup d n rc) = rc_baseline rc" "rc_known (count_dedup d n rc) = rc_known rc"
  by (simp_all add: count_dedup_def)

text \<open>What a snapshot says is of a content shown, and stored when it says so.\<close>

definition good_snapshot :: "(string \<Rightarrow> string) \<Rightarrow> look \<Rightarrow> snapshot \<Rightarrow> store \<Rightarrow> bool" where
  "good_snapshot sha lk sn s \<longleftrightarrow> (case sn of (after, snapshotted, withheld, cause) \<Rightarrow>
     (case after of None \<Rightarrow> True
      | Some h \<Rightarrow> h \<in> hash_bytes sha ` (set_option (lk_bytes lk) \<union> utf8_lossy ` set_option (lk_target lk))
          \<and> lk_meta lk \<noteq> MetaNotFound \<and> (snapshotted \<longrightarrow> get_ok sha s h \<noteq> None)))"

lemma symlink_change_good:
  assumes "symlink_change sha lk s = ((sn, deduped, reread), s')" "lk_meta lk \<noteq> MetaNotFound"
  shows "good_snapshot sha lk sn s' \<and> keeps_blobs sha s s'"
proof (cases "lk_target lk")
  case None
  with assms show ?thesis by (auto simp: symlink_change_def good_snapshot_def)
next
  case (Some target)
  obtain r s1 where r: "put_result sha (lk_io lk) (lk_touch_ok lk) (lk_now lk) (utf8_lossy target) s = (r, s1)"
    by fastforce
  show ?thesis
  proof (cases r)
    case (Stored h d n)
    with Some r assms put_gets[of sha _ _ _ _ s h d n s1] put_result_keeps_blobs[OF r] show ?thesis
      by (auto simp: symlink_change_def good_snapshot_def)
  qed (use Some r assms put_result_keeps_blobs[OF r] in
      \<open>auto simp: symlink_change_def good_snapshot_def\<close>)
qed

lemma file_change_good:
  assumes "file_change sha lk rel (rc, s) = (sn, rc', s')" "lk_meta lk \<noteq> MetaNotFound"
  shows "good_snapshot sha lk sn s' \<and> keeps_blobs sha s s'
    \<and> rc_baseline rc' = rc_baseline rc \<and> rc_known rc' = rc_known rc"
proof (cases "lk_bytes lk")
  case None
  with assms show ?thesis by (auto simp: file_change_def good_snapshot_def)
next
  case (Some bytes)
  obtain r s1 where r: "put_result sha (lk_io lk) (lk_touch_ok lk) (lk_now lk) bytes s = (r, s1)"
    by fastforce
  show ?thesis
  proof (cases r)
    case (Stored h d n)
    with Some r assms put_gets[of sha _ _ _ _ s h d n s1] put_result_keeps_blobs[OF r] show ?thesis
      by (auto simp: file_change_def good_snapshot_def split: if_splits)
  qed (use Some r assms put_result_keeps_blobs[OF r] in
      \<open>auto simp: file_change_def good_snapshot_def split: if_splits\<close>)
qed

lemma take_snapshot_good:
  assumes "take_snapshot sha lower lk rel (rc, s) = (sn, rc', s')"
  shows "good_snapshot sha lk sn s' \<and> keeps_blobs sha s s'
    \<and> rc_baseline rc' = rc_baseline rc \<and> rc_known rc' = rc_known rc"
proof -
  consider "is_secret_path lower rel \<or> lk_meta lk = MetaNotFound"
    | (link) "\<not> is_secret_path lower rel" "lk_meta lk = MetaLink"
    | (plain) "\<not> is_secret_path lower rel" "lk_meta lk \<noteq> MetaNotFound" "lk_meta lk \<noteq> MetaLink"
    by blast
  then show ?thesis
  proof cases
    case 1
    with assms show ?thesis by (auto simp: take_snapshot_def good_snapshot_def split: if_splits)
  next
    case link
    obtain sn1 d n s1 where c: "symlink_change sha lk s = ((sn1, d, n), s1)" by (metis prod.exhaust)
    with link assms symlink_change_good[OF c] show ?thesis by (auto simp: take_snapshot_def)
  next
    case plain
    with assms file_change_good[of sha lk rel rc s sn rc' s'] show ?thesis by (simp add: take_snapshot_def)
  qed
qed

lemma stage_move_cases:
  assumes "stage_move sha lower base (rc, s) (lk, p) = ((rc', s'), new)"
  obtains (quiet) "new = []" "rc_baseline rc' = rc_baseline rc" "keeps_blobs sha s s'"
  | (entry) rel e where "under base p = Some rel" "new = [(rel, e)]" "fe_before e = rc_baseline rc rel"
      "rc_baseline rc' = (rc_baseline rc)(rel := left_by (rc_baseline rc rel) e)" "keeps_blobs sha s s'"
      "set_option (fe_after e) \<subseteq> hash_bytes sha ` (set_option (lk_bytes lk) \<union> utf8_lossy ` set_option (lk_target lk))"
      "readable_entry sha s' e"
proof (cases "under base p")
  case None
  with assms quiet show ?thesis by (simp add: stage_move_def stage_path_def)
next
  case rel: (Some rel)
  show ?thesis
  proof (cases "\<not> utf8_valid (rel_string rel) \<or> lk_meta lk = MetaDir")
    case True
    with rel assms quiet show ?thesis
      by (cases "utf8_valid (rel_string rel)") (auto simp: stage_move_def stage_path_def)
  next
    case False
    obtain after snapshotted withheld cause rc1 s1 where
      sn: "take_snapshot sha lower lk (rel_string rel) (rc, s) = ((after, snapshotted, withheld, cause), rc1, s1)"
      by (metis prod.exhaust)
    note g = take_snapshot_good[OF sn]
    let ?deleted = "lk_meta lk = MetaNotFound"
    define unknown where "unknown = (rc_baseline rc1 rel = None \<and> rel \<in> rc_known rc1)"
    define obs where "obs = \<lparr>co_path = rel_string rel, co_before_hash = rc_baseline rc1 rel,
      co_snapshotted = snapshotted, co_withheld = withheld, co_baseline_unknown = unknown,
      co_deleted = ?deleted, co_skip_reason = cause\<rparr>"
    show ?thesis
    proof (cases "rc_baseline rc1 rel = None \<and> \<not> unknown \<and> after = None \<and> ?deleted")
      case True
      then have "((rc', s'), new) = ((rc1, s1), [])"
        using assms rel False sn by (auto simp: stage_move_def stage_path_def Let_def unknown_def)
      with g quiet show ?thesis by simp
    next
      case emitted: False
      define e where "e = resolve (advance rel (lk_meta lk) after rc1) obs"
      have res: "rc' = advance rel (lk_meta lk) after rc1" "s' = s1" "new = [(rel, e)]"
        using assms rel False sn emitted unfolding e_def obs_def unknown_def
        by (simp_all add: stage_move_def stage_path_def Let_def split: if_splits) auto
      have after: "fe_after e = after" by (simp add: e_def resolve_def obs_def advance_def Let_def)
      have before: "fe_before e = rc_baseline rc rel" using g by (simp add: e_def resolve_def obs_def)
      have del: "fe_op e = ''delete'' \<longleftrightarrow> ?deleted" by (simp add: e_def resolve_def obs_def)
      have gone: "?deleted \<Longrightarrow> after = None" using g by (auto simp: good_snapshot_def split: option.splits)
      have base: "rc_baseline rc' = (rc_baseline rc)(rel := left_by (rc_baseline rc rel) e)"
        using g gone unfolding res(1) left_by_def after del
        by (cases after) (auto simp: advance_def Let_def)
      have "readable_entry sha s' e"
        using g res(2) unfolding readable_entry_def after
        by (auto simp: e_def resolve_def obs_def good_snapshot_def split: option.splits)
      moreover have "set_option after \<subseteq> hash_bytes sha ` (set_option (lk_bytes lk) \<union> utf8_lossy ` set_option (lk_target lk))"
        using g by (cases after) (simp_all add: good_snapshot_def)
      ultimately show ?thesis using entry[OF rel res(3) before base] g res(2) after by simp
    qed
  qed
qed

subsection \<open>Any sequence of moves\<close>

definition recorder_inv :: "(string \<Rightarrow> string) \<Rightarrow> path \<Rightarrow> recorder \<times> store \<Rightarrow> (path \<times> file_entry) list
    \<Rightarrow> showing list \<Rightarrow> bool" where
  "recorder_inv sha base rs out past \<longleftrightarrow> (case rs of (rc, s) \<Rightarrow>
     chained out \<and> rc_baseline rc = (\<lambda>rel. left_for rel out)
     \<and> entry_hashes out \<subseteq> shown_hashes sha base past
     \<and> list_all (readable_entry sha s) (map snd out))"

lemma left_for_snoc: "left_for rel (out @ [(rel', e)])
    = (if rel' = rel then left_by (left_for rel out) e else left_for rel out)"
  by (simp add: left_for_def)

lemma left_for_shown: "left_for rel out = Some h \<Longrightarrow> (rel, h) \<in> entry_hashes out"
proof (induction out rule: rev_induct)
  case (snoc x out)
  obtain rel' e where x: "x = (rel', e)" by fastforce
  from snoc show ?case
    by (auto simp: x left_for_snoc left_by_def entry_hashes_def split: if_splits option.splits)
qed (simp add: left_for_def)

lemma shown_snoc: "shown_hashes sha base (past @ [(lk, p)]) = shown_hashes sha base past
    \<union> (case under base p of None \<Rightarrow> {} | Some rel \<Rightarrow>
        Pair rel ` hash_bytes sha ` (set_option (lk_bytes lk) \<union> utf8_lossy ` set_option (lk_target lk)))"
proof (cases "under base p")
  case None
  then show ?thesis by (auto simp: shown_hashes_def shown_def)
next
  case (Some rel)
  then have "shown base (past @ [(lk, p)]) = shown base past
      \<union> Pair rel ` (set_option (lk_bytes lk) \<union> utf8_lossy ` set_option (lk_target lk))"
    unfolding shown_def set_append by (simp add: Un_commute)
  with Some show ?thesis by (simp add: shown_hashes_def image_Un image_image)
qed

lemma readable_entry_keeps: "keeps_blobs sha s s' \<Longrightarrow> readable_entry sha s e \<Longrightarrow> readable_entry sha s' e"
  by (auto simp: readable_entry_def keeps_blobs_def split: option.splits if_splits)

lemma entry_hashes_snoc: "entry_hashes (out @ [(rel, e)])
    = entry_hashes out \<union> Pair rel ` (set_option (fe_before e) \<union> set_option (fe_after e))"
  unfolding entry_hashes_def set_append by (simp add: Un_commute)

lemma recorder_inv_step:
  assumes "recorder_inv sha base (rc, s) out past" "stage_move sha lower base (rc, s) (lk, p) = ((rc', s'), new)"
  shows "recorder_inv sha base (rc', s') (out @ new) (past @ [(lk, p)])"
  using assms(2)
proof (cases rule: stage_move_cases)
  case quiet
  have "list_all (readable_entry sha s') (map snd out)"
    using assms(1) readable_entry_keeps[OF quiet(3)] by (auto simp: recorder_inv_def list_all_iff)
  with assms(1) quiet show ?thesis by (auto simp: recorder_inv_def shown_snoc)
next
  case (entry rel e)
  have inv: "chained out" "rc_baseline rc = (\<lambda>rel. left_for rel out)"
    "entry_hashes out \<subseteq> shown_hashes sha base past" "list_all (readable_entry sha s) (map snd out)"
    using assms(1) by (simp_all add: recorder_inv_def)
  have "list_all (readable_entry sha s') (map snd (out @ new))"
    using inv(4) readable_entry_keeps[OF entry(5)] entry(2,7) by (auto simp: list_all_iff)
  moreover have "chained (out @ new)"
    using inv(1) entry(2,3) unfolding inv(2) by (simp add: chained_def)
  moreover have "rc_baseline rc' = (\<lambda>rel. left_for rel (out @ new))"
    unfolding entry(2,4) inv(2) by (auto simp: left_for_snoc)
  moreover have "Pair rel ` set_option (fe_before e) \<subseteq> shown_hashes sha base past"
    using inv(3) left_for_shown[of rel out] unfolding entry(3) inv(2) by auto
  then have "entry_hashes (out @ new) \<subseteq> shown_hashes sha base (past @ [(lk, p)])"
    using inv(3) entry(6) unfolding entry(2) entry_hashes_snoc shown_snoc entry(1) by auto
  ultimately show ?thesis by (simp add: recorder_inv_def)
qed

interpretation recorder_run: machine_invariant "(recorder_scan base files, s0)" "stage_move sha lower base"
    "\<lambda>past e. True" "recorder_inv sha base" for base files s0 sha lower
proof
  show "recorder_inv sha base (recorder_scan base files, s0) [] []"
    by (simp add: recorder_inv_def recorder_scan_def chained_def left_for_def entry_hashes_def)
next
  fix s out past e s' new
  assume "recorder_inv sha base s out past" "stage_move sha lower base s e = (s', new)"
  then show "recorder_inv sha base s' (out @ new) (past @ [e])"
    by (cases s; cases e; cases s') (auto intro: recorder_inv_step)
qed


text \<open>
  After any sequence of stagings, every entry that is not marked skipped or withheld still has
  its content in the store.
\<close>

theorem recorded_entries_readable:
  "case run_machine (stage_move sha lower base) (recorder_scan base files, s0) [] ms of
     ((rc, s), out) \<Rightarrow> list_all (readable_entry sha s) (map snd out)"
  using recorder_run.run_inv[of ms sha base lower files s0]
  by (auto simp: recorder_inv_def split: prod.splits)

end
