(* ===== verification/Signals.thy ===== *)
theory Signals
  imports Recorder Memory
begin

text \<open>
  Hook signals in the daemon (cli/src/daemon.rs): tailing the inbox from a persisted offset, what a
  signal's transcript adds, declared writes, resend detection, routing to the engine, and the
  ingestion of memory candidates with the replay of the gap before a start.
\<close>

subsection \<open>The inbox\<close>

text \<open>
  What opening \<open>signal.jsonl\<close> gives: nothing, no length, a length but no content, or the length and
  the bytes that are then read (a writer may append in between).
\<close>

datatype inbox = NoInbox | NoLength | InboxUnreadable nat | InboxBytes nat string

definition persisted :: "bool \<Rightarrow> state \<Rightarrow> state \<Rightarrow> state" where
  "persisted ok new old = (if ok then new else old)"

definition resync_shrunk_signal_offset :: "bool \<Rightarrow> nat \<Rightarrow> state \<Rightarrow> state" where
  "resync_shrunk_signal_offset ok len st =
     persisted ok (record_io_failure ''signal.jsonl (truncated)'' (st\<lparr>st_signal_offset := len\<rparr>)) st"

text \<open>The bytes up to and with the last newline (\<open>rposition\<close>), None when there is none.\<close>

definition complete_lines :: "string \<Rightarrow> string option" where
  "complete_lines fresh = (case dropWhile (\<lambda>c. c \<noteq> NL) (rev fresh) of [] \<Rightarrow> None | r \<Rightarrow> Some (rev r))"

definition poll :: "(string \<Rightarrow> json option) \<Rightarrow> bool \<Rightarrow> inbox \<Rightarrow> nat \<times> state \<Rightarrow> signal_event list \<times> nat \<times> state" where
  "poll from_str ok inbox ts = (case ts of (off, st) \<Rightarrow>
     (case inbox of
        NoInbox \<Rightarrow> ([], off, st)
      | NoLength \<Rightarrow> ([], off, st)
      | InboxUnreadable len \<Rightarrow>
          if len < off then ([], len, resync_shrunk_signal_offset ok len st) else ([], off, st)
      | InboxBytes len body \<Rightarrow>
          if len < off then ([], len, resync_shrunk_signal_offset ok len st)
          else if len = off then ([], off, st)
          else (case complete_lines (drop off body) of
            None \<Rightarrow> ([], off, st)
          | Some consumable \<Rightarrow>
              (parse_signals from_str (utf8_lossy consumable), u64_add off (length consumable),
               persisted ok (st\<lparr>st_signal_offset := u64_add off (length consumable)\<rparr>) st))))"

subsection \<open>Transcripts\<close>

fun as_str :: "json option \<Rightarrow> string option" where
  "as_str (Some (JStr s)) = Some s"
| "as_str _ = None"

fun as_array :: "json option \<Rightarrow> json list option" where
  "as_array (Some (JArr js)) = Some js"
| "as_array _ = None"

definition block_text :: "json \<Rightarrow> string" where
  "block_text block = (if as_str (value_get ''type'' block) = Some ''text''
     then (case as_str (value_get ''text'' block) of Some t \<Rightarrow> t | None \<Rightarrow> []) else [])"

definition transcript_text :: "json \<Rightarrow> string option" where
  "transcript_text message = (case value_get ''content'' message of
     Some (JStr s) \<Rightarrow> Some s
   | Some (JArr blocks) \<Rightarrow>
       (let out = concat (map block_text blocks) in if out = [] then None else Some out)
   | _ \<Rightarrow> None)"

definition message_of :: "json \<Rightarrow> json" where
  "message_of v = (case value_get ''message'' v of Some m \<Rightarrow> m | None \<Rightarrow> v)"

definition role_of :: "json \<Rightarrow> string option" where
  "role_of v = (case as_str (value_get ''role'' (message_of v)) of
     Some r \<Rightarrow> Some r | None \<Rightarrow> as_str (value_get ''type'' v))"

definition user_prompt :: "json \<Rightarrow> string option" where
  "user_prompt v = (if role_of v = Some ''user''
     then (case transcript_text (message_of v) of
             Some t \<Rightarrow> if trim t = [] then None else Some t | None \<Rightarrow> None)
     else None)"

definition assistant_model :: "json \<Rightarrow> string option" where
  "assistant_model v = (if role_of v = Some ''assistant'' then as_str (value_get ''model'' (message_of v)) else None)"

definition keep_latest :: "'a option \<Rightarrow> 'a option \<Rightarrow> 'a option" where
  "keep_latest old new = (case new of Some x \<Rightarrow> Some x | None \<Rightarrow> old)"

definition transcript_values :: "(string \<Rightarrow> json option) \<Rightarrow> string \<Rightarrow> json list" where
  "transcript_values from_str s = List.map_filter (\<lambda>l. from_str (trim l)) (lines s)"

definition parse_transcript :: "(string \<Rightarrow> json option) \<Rightarrow> string \<Rightarrow> string option \<times> string option" where
  "parse_transcript from_str s =
     foldl (\<lambda>(user, model) v. (keep_latest user (user_prompt v), keep_latest model (assistant_model v)))
       (None, None) (transcript_values from_str s)"

text \<open>\<open>read\<close> is the transcript as UTF-8 text, None when it cannot be read; \<open>scrubber\<close> is \<open>scrub\<close>.\<close>

definition signal_context :: "(string \<Rightarrow> json option) \<Rightarrow> (string \<Rightarrow> string) \<Rightarrow> (string \<Rightarrow> string option)
    \<Rightarrow> signal_event \<Rightarrow> string option \<times> string option \<times> string option" where
  "signal_context from_str scrubber read sig =
     (let (prompt, model, transcript) = (case Option.bind (se_transcript sig) read of
            None \<Rightarrow> (se_prompt sig, se_model sig, None)
          | Some body \<Rightarrow> (case parse_transcript from_str body of (tp, tm) \<Rightarrow>
              (if se_prompt sig = None then tp else se_prompt sig,
               if se_model sig = None then tm else se_model sig, Some body)))
      in (map_option scrubber prompt, model, transcript))"

subsection \<open>Declared writes\<close>

definition DECLARING_TOOLS :: "string list" where
  "DECLARING_TOOLS = [''Write'', ''Edit'', ''MultiEdit'', ''NotebookEdit'']"

datatype declared_tier = SignalField | TranscriptFallback

record declared_writes =
  dw_paths :: "string set"
  dw_tier :: declared_tier
  dw_out_of_root :: nat

text \<open>A path as whether it is absolute and its components without dots and dot-dots.\<close>

definition lexical_normalize :: "string \<Rightarrow> bool \<times> path" where
  "lexical_normalize p =
     (is_absolute p, foldl (\<lambda>out c. if c = ''..'' then butlast out else out @ [c]) [] (components p))"

definition normalize_one :: "path \<Rightarrow> string \<Rightarrow> string option" where
  "normalize_one base p = (case lexical_normalize p of (absolute, comps) \<Rightarrow>
     if \<not> absolute then None
     else case under base comps of
       None \<Rightarrow> None
     | Some rel \<Rightarrow> if rel = [] then None else Some (join_with ''/'' (map utf8_lossy rel)))"

definition normalize_declared :: "path \<Rightarrow> string list \<Rightarrow> string set \<times> nat" where
  "normalize_declared base ps =
     (set (List.map_filter (normalize_one base) ps), length (filter (\<lambda>p. normalize_one base p = None) ps))"

definition declares_write :: "json \<Rightarrow> bool" where
  "declares_write block \<longleftrightarrow> as_str (value_get ''type'' block) = Some ''tool_use''
     \<and> (case as_str (value_get ''name'' block) of Some n \<Rightarrow> n \<in> set DECLARING_TOOLS | None \<Rightarrow> False)"

definition declared_path :: "json \<Rightarrow> string option" where
  "declared_path block = as_str (Option.bind (value_get ''input'' block) (\<lambda>i.
     case value_get ''file_path'' i of Some p \<Rightarrow> Some p | None \<Rightarrow> value_get ''notebook_path'' i))"

type_synonym declared_acc = "string option \<times> (string option \<times> string) list"

definition declared_line :: "declared_acc \<Rightarrow> json \<Rightarrow> declared_acc" where
  "declared_line acc v = (case acc of (cutoff, writes) \<Rightarrow>
     (let ts = as_str (value_get ''timestamp'' v);
          cutoff' = (if user_prompt v \<noteq> None \<and> ts \<noteq> None then ts else cutoff);
          blocks = (case as_array (value_get ''content'' (message_of v)) of Some bs \<Rightarrow> bs | None \<Rightarrow> []);
          used = List.map_filter (\<lambda>b. if declares_write b then map_option (Pair ts) (declared_path b) else None) blocks;
          result = (case as_str (Option.bind (value_get ''toolUseResult'' v) (value_get ''filePath'')) of
                      Some p \<Rightarrow> [(ts, p)] | None \<Rightarrow> [])
      in (cutoff', writes @ used @ result)))"

definition declared_writes_from_transcript :: "(string \<Rightarrow> json option) \<Rightarrow> string \<Rightarrow> string list" where
  "declared_writes_from_transcript from_str s =
     (case foldl declared_line (None, []) (transcript_values from_str s) of (cutoff, writes) \<Rightarrow>
       dedup (map snd (filter (\<lambda>(ts, p). case (cutoff, ts) of (Some c, Some t) \<Rightarrow> t \<ge> c | _ \<Rightarrow> False) writes)))"

definition resolve_declared :: "(string \<Rightarrow> json option) \<Rightarrow> path \<Rightarrow> signal_event \<Rightarrow> string option
    \<Rightarrow> declared_writes option" where
  "resolve_declared from_str base sig transcript = (case se_files_written sig of
     Some listed \<Rightarrow> (case normalize_declared base listed of (ps, out) \<Rightarrow>
       Some \<lparr>dw_paths = ps, dw_tier = SignalField, dw_out_of_root = out\<rparr>)
   | None \<Rightarrow> (case transcript of
       None \<Rightarrow> None
     | Some body \<Rightarrow>
         (let found = declared_writes_from_transcript from_str body in
          if found = [] then None
          else case normalize_declared base found of (ps, out) \<Rightarrow>
            Some \<lparr>dw_paths = ps, dw_tier = TranscriptFallback, dw_out_of_root = out\<rparr>)))"

subsection \<open>Resends\<close>

definition UNIT_SEP :: string where
  "UNIT_SEP = [CHR 0x01]"

definition emitter_turn_dedup_key :: "signal_event \<Rightarrow> string option" where
  "emitter_turn_dedup_key sig = map_option (\<lambda>et.
     se_tool sig @ UNIT_SEP @ (case se_event sig of Some e \<Rightarrow> e | None \<Rightarrow> ''stop'')
     @ UNIT_SEP @ (case se_session sig of Some x \<Rightarrow> x | None \<Rightarrow> []) @ UNIT_SEP @ et) (se_emitter_turn sig)"

definition emitter_turn_content_fingerprint :: "signal_event \<Rightarrow> string option" where
  "emitter_turn_content_fingerprint sig = map_option (\<lambda>ev. ''v3:'' @ ev) (se_emitter_event sig)"

text \<open>Whether the signal was dealt with; \<open>ok\<close> and \<open>ok'\<close> are the writes of the two parts.\<close>

definition mismatched_stop :: "bool \<Rightarrow> turn_engine \<Rightarrow> signal_event \<Rightarrow> state \<Rightarrow> bool \<times> state" where
  "mismatched_stop ok e sig st =
     (if \<not> is_start sig \<and> se_emitter_turn sig \<noteq> None
         \<and> stop_mismatches_open_bracket e (se_tool sig) (se_emitter_turn sig)
      then (True, persisted ok (st\<lparr>st_mismatched_stop_emitter_turns :=
              u64_add (st_mismatched_stop_emitter_turns st) 1\<rparr>) st)
      else (False, st))"

definition handle_emitter_turn_signal :: "bool \<Rightarrow> bool \<Rightarrow> turn_engine \<Rightarrow> signal_event \<Rightarrow> state \<Rightarrow> bool \<times> state" where
  "handle_emitter_turn_signal ok ok' e sig st =
     (case (emitter_turn_dedup_key sig, emitter_turn_content_fingerprint sig) of
        (Some key, Some fp) \<Rightarrow>
          if st_last_emitter_turn_key st = Some key \<and> st_last_emitter_turn_fingerprint st = Some fp
          then (True, persisted ok (st\<lparr>st_duplicate_emitter_turn_signals :=
                  u64_add (st_duplicate_emitter_turn_signals st) 1\<rparr>) st)
          else mismatched_stop ok' e sig (persisted ok
                 (st\<lparr>st_last_emitter_turn_key := Some key, st_last_emitter_turn_fingerprint := Some fp\<rparr>) st)
      | _ \<Rightarrow> mismatched_stop ok' e sig st)"

subsection \<open>Routing\<close>

definition record_unknown_signal :: "bool \<Rightarrow> state \<Rightarrow> state" where
  "record_unknown_signal ok st =
     persisted ok (st\<lparr>st_unknown_signal_ignored := u64_add (st_unknown_signal_ignored st) 1\<rparr>) st"

definition apply_signal :: "bool \<Rightarrow> string \<Rightarrow> signal_event \<Rightarrow> string option \<Rightarrow> nat \<Rightarrow> turn_engine \<times> state
    \<Rightarrow> closed_turn list \<times> turn_engine \<times> state" where
  "apply_signal ok gid sig prompt now es = (case es of (e, st) \<Rightarrow>
     if is_start sig then
       (case observe_start e gid now (se_tool sig) prompt (se_session sig) (se_emitter_turn sig) of
          (e', turns) \<Rightarrow> (turns, e', st))
     else if se_kind sig \<noteq> None \<and> se_kind sig \<noteq> Some ''memory-candidate'' then
       ([], e, record_unknown_signal ok st)
     else (case observe_stop e gid now (se_tool sig) prompt (se_session sig) of
       (e', turns) \<Rightarrow> (turns, e', st)))"

subsection \<open>Memory candidates\<close>

definition normalize_fact :: "(string \<Rightarrow> string) \<Rightarrow> string \<Rightarrow> string" where
  "normalize_fact lower claim = join_with '' '' (tokens_of (split_ws [] (lower claim)))"

text \<open>
  The surroundings of an ingestion: canonicalize, lower-casing, the digest, the working tree, \<open>scrub\<close>,
  a fresh id, and whether the append and the write of \<open>state.json\<close> succeed.
\<close>

record ingest_env =
  in_canon :: canonicalizer
  in_lower :: "string \<Rightarrow> string"
  in_base :: path
  in_sha :: "string \<Rightarrow> string"
  in_tree :: worktree
  in_scrub :: "string \<Rightarrow> string"
  in_id :: string
  in_append_ok :: bool
  in_state_ok :: bool

fun candidate_pins :: "ingest_env \<Rightarrow> string list \<Rightarrow> pin list option" where
  "candidate_pins env [] = Some []"
| "candidate_pins env (raw # rs) =
     (case validate_pin_path (in_canon env) (in_lower env) (in_base env) raw of
        Inl _ \<Rightarrow> None
      | Inr p \<Rightarrow> (case hash_pin (in_sha env) (in_tree env) p of
          None \<Rightarrow> None
        | Some h \<Rightarrow> map_option (Cons \<lparr>pin_path = p, pin_hash = h\<rparr>) (candidate_pins env rs)))"

text \<open>A rejection counts, whether or not the count reaches the disk; the caller goes on with it.\<close>

definition reject_candidate :: "bool \<Rightarrow> state \<times> state \<Rightarrow> state \<times> state" where
  "reject_candidate ok ss = (case ss of (st, disk) \<Rightarrow>
     (let st' = st\<lparr>st_memory_rejects := u64_add (st_memory_rejects st) 1\<rparr> in (st', persisted ok st' disk)))"

definition duplicate_fact :: "ingest_env \<Rightarrow> memory_record list \<Rightarrow> string \<Rightarrow> pin list \<Rightarrow> bool" where
  "duplicate_fact env recs scrubbed pins \<longleftrightarrow> list_ex (\<lambda>m. \<not> em_retracted m
     \<and> normalize_fact (in_lower env) (em_fact m) = normalize_fact (in_lower env) scrubbed
     \<and> set (map pin_path (em_pins m)) = set (map pin_path pins)) (fold_records recs)"

definition candidate_record :: "ingest_env \<Rightarrow> signal_event \<Rightarrow> string \<Rightarrow> pin list \<Rightarrow> string option \<Rightarrow> memory_record" where
  "candidate_record env sig claim pins current_turn =
     \<lparr>mr_v = 1, mr_kind = ''memory'', mr_id = in_id env, mr_op = Assert, mr_fact = claim, mr_pins = pins,
      mr_source_turns = (case current_turn of Some t \<Rightarrow> [t] | None \<Rightarrow> []), mr_origin = ''agent'',
      mr_ts = se_ts sig, mr_reason = None\<rparr>"

definition ingest_candidate :: "ingest_env \<Rightarrow> signal_event \<Rightarrow> string option
    \<Rightarrow> (state \<times> state) \<times> memory_record list \<Rightarrow> (state \<times> state) \<times> memory_record list" where
  "ingest_candidate env sig current_turn sm = (case sm of (ss, recs) \<Rightarrow>
     (case candidate_pins env (case se_pins sig of Some ps \<Rightarrow> ps | None \<Rightarrow> []) of
        None \<Rightarrow> (reject_candidate (in_state_ok env) ss, recs)
      | Some pins \<Rightarrow>
          (let claim = (case se_fact sig of Some f \<Rightarrow> f | None \<Rightarrow> []); scrubbed = in_scrub env claim in
           if trim scrubbed = [] then (reject_candidate (in_state_ok env) ss, recs)
           else if duplicate_fact env recs scrubbed pins then (ss, recs)
           else (case append_memory (in_scrub env) (in_append_ok env) recs
                   (candidate_record env sig claim pins current_turn) of
             (Inr _, recs') \<Rightarrow> (ss, recs')
           | (Inl _, recs') \<Rightarrow> (reject_candidate (in_state_ok env) ss, recs')))))"

subsection \<open>The gap before a start\<close>

record replay_outcome =
  rp_consumed :: nat
  rp_dropped_signals :: nat

definition replay_at :: "nat \<Rightarrow> replay_outcome" where
  "replay_at consumed = \<lparr>rp_consumed = consumed, rp_dropped_signals = 0\<rparr>"

text \<open>One signal of the gap: candidates are ingested, turn boundaries counted (saturating at 32 bits).\<close>

definition replay_signal :: "(nat \<Rightarrow> ingest_env) \<Rightarrow> bool \<Rightarrow> string option
    \<Rightarrow> ((state \<times> state) \<times> memory_record list) \<times> nat \<Rightarrow> nat \<times> signal_event
    \<Rightarrow> ((state \<times> state) \<times> memory_record list) \<times> nat" where
  "replay_signal envs memory_enabled current_turn acc isig = (case (acc, isig) of ((sm, dropped), (i, sig)) \<Rightarrow>
     (if is_memory_candidate sig
      then (if memory_enabled then ingest_candidate (envs i) sig current_turn sm else sm, dropped)
      else if is_start sig \<or> se_kind sig = None then (sm, min (dropped + 1) (2 ^ 32 - 1))
      else (sm, dropped)))"

text \<open>
  The offset is read from \<open>state.json\<close>; the state in hand is written at the end, and by every
  rejection on the way.
\<close>

definition replay_pending_candidates :: "(string \<Rightarrow> json option) \<Rightarrow> (nat \<Rightarrow> ingest_env) \<Rightarrow> bool \<Rightarrow> bool
    \<Rightarrow> string option \<Rightarrow> inbox \<Rightarrow> state \<times> memory_record list \<Rightarrow> replay_outcome \<times> state \<times> memory_record list" where
  "replay_pending_candidates from_str envs ok memory_enabled current_turn inbox dm = (case dm of (disk, recs) \<Rightarrow>
     (let start = st_signal_offset disk in
      case inbox of
        NoInbox \<Rightarrow> (replay_at 0, if start > 0 then resync_shrunk_signal_offset ok 0 disk else disk, recs)
      | NoLength \<Rightarrow> (replay_at 0, disk, recs)
      | InboxUnreadable len \<Rightarrow>
          if len < start then (replay_at len, resync_shrunk_signal_offset ok len disk, recs)
          else (replay_at len, disk, recs)
      | InboxBytes len body \<Rightarrow>
          if len < start then (replay_at len, resync_shrunk_signal_offset ok len disk, recs)
          else if len = start then (replay_at len, disk, recs)
          else (case complete_lines (drop start body) of
            None \<Rightarrow> (replay_at start, disk, recs)
          | Some consumable \<Rightarrow>
              (case foldl (replay_signal envs memory_enabled current_turn) (((disk, disk), recs), 0)
                      (enumerate 0 (parse_signals from_str (utf8_lossy consumable))) of
                 (((st, disk'), recs'), dropped) \<Rightarrow>
                   (let consumed = u64_add start (length consumable) in
                    (\<lparr>rp_consumed = consumed, rp_dropped_signals = dropped\<rparr>,
                     persisted ok (st\<lparr>st_signal_offset := consumed\<rparr>) disk', recs'))))))"

end
