(* ===== verification/Signals_Props.thy ===== *)
theory Signals_Props
  imports Signals
begin

text \<open>
  Polling the inbox: however a growing inbox is cut into polls, its complete lines are read once.
\<close>

subsection \<open>Decoding up to a newline\<close>

lemma NL_no_continuation: "\<not> byte_in 0x80 0xBF NL" "\<not> second_ok a NL" "byte_in 0 0x7F NL"
  by (simp_all add: byte_in_def NL_def second_ok_def)

lemma chunk_newline: "utf8_chunk ((a # r) @ NL # b) = utf8_chunk ((a # r) @ [NL])
    \<and> fst (utf8_chunk ((a # r) @ [NL])) \<le> length (a # r)"
proof (cases r)
  case Nil
  then show ?thesis by (simp add: NL_no_continuation split: list.split)
next
  case r: (Cons b1 r1)
  show ?thesis
  proof (cases r1)
    case Nil
    with r show ?thesis by (simp add: NL_no_continuation split: list.split)
  next
    case r1: (Cons b2 r2)
    then show ?thesis using r by (cases r2) (simp_all add: NL_no_continuation)
  qed
qed

lemma lossy_newline: "\<exists>x. utf8_lossy (a @ [NL]) = x @ [NL] \<and> (\<forall>b. utf8_lossy (a @ NL # b) = x @ NL # utf8_lossy b)"
proof (induction a rule: length_induct)
  case (1 a)
  show ?case
  proof (cases a)
    case Nil
    have "utf8_lossy (NL # b) = NL # utf8_lossy b" for b
      by (subst utf8_lossy.simps) (simp add: NL_no_continuation)
    then show ?thesis using Nil by (intro exI[of _ "[]"]) simp
  next
    case (Cons c r)
    obtain n good where n: "utf8_chunk (a @ [NL]) = (n, good)" by fastforce
    have c: "utf8_chunk (a @ NL # b) = (n, good)" "n \<le> length a" for b
      using chunk_newline[of c r b] n Cons by simp_all
    have "0 < n" using utf8_chunk_pos[of "a @ [NL]"] n by simp
    then have "length (drop n a) < length a" using Cons by simp
    then obtain x where x: "utf8_lossy (drop n a @ [NL]) = x @ [NL]"
      "\<forall>b. utf8_lossy (drop n a @ NL # b) = x @ NL # utf8_lossy b" using 1 by blast
    define pre where "pre = (if good then take n a else byte_string [0xEF, 0xBF, 0xBD])"
    have "utf8_lossy (a @ NL # b) = pre @ utf8_lossy (drop n a @ NL # b)" for b
      by (subst utf8_lossy.simps) (simp add: c pre_def)
    from this this[of "[]"] x show ?thesis by (intro exI[of _ "pre @ x"]) simp
  qed
qed

lemma whole_last: "whole_lines a \<Longrightarrow> a \<noteq> [] \<Longrightarrow> a = butlast a @ [NL]"
  by (metis append_butlast_last_id whole_lines_def)

lemma whole_lossy: "whole_lines a \<Longrightarrow> whole_lines (utf8_lossy a)"
proof (cases "a = []")
  case False
  assume "whole_lines a"
  from whole_last[OF this False] obtain x where "utf8_lossy a = x @ [NL]" using lossy_newline by metis
  then show ?thesis by (simp add: whole_lines_def)
qed simp

lemma lossy_whole: "whole_lines a \<Longrightarrow> utf8_lossy (a @ b) = utf8_lossy a @ utf8_lossy b"
proof (cases "a = []")
  case False
  assume "whole_lines a"
  then have a: "a = butlast a @ [NL]" using whole_last False by blast
  obtain x where x: "utf8_lossy (butlast a @ [NL]) = x @ [NL]"
    "\<forall>b. utf8_lossy (butlast a @ NL # b) = x @ NL # utf8_lossy b" using lossy_newline by blast
  have "utf8_lossy (a @ b) = utf8_lossy (butlast a @ NL # b)" using a by (metis append.assoc append_Cons append_Nil)
  with x a show ?thesis by simp
qed simp

lemma parse_signals_append:
  "whole_lines a \<Longrightarrow> parse_signals from_str (utf8_lossy (a @ b))
    = parse_signals from_str (utf8_lossy a) @ parse_signals from_str (utf8_lossy b)"
  by (simp add: parse_signals_def lossy_whole lines_whole[OF whole_lossy] List.map_filter_def)

lemma parse_signals_nil [simp]: "parse_signals from_str [] = []"
  by (simp add: parse_signals_def List.map_filter_simps)

subsection \<open>Polls\<close>

lemma complete_lines_Some: "complete_lines fresh = Some c \<Longrightarrow>
    (\<exists>rest. fresh = c @ rest \<and> NL \<notin> set rest) \<and> whole_lines c"
proof -
  assume "complete_lines fresh = Some c"
  then have c: "dropWhile (\<lambda>c. c \<noteq> NL) (rev fresh) \<noteq> []" "c = rev (dropWhile (\<lambda>c. c \<noteq> NL) (rev fresh))"
    by (simp_all add: complete_lines_def del: dropWhile_eq_Nil_conv split: list.splits)
  define d where "d = dropWhile (\<lambda>c. c \<noteq> NL) (rev fresh)"
  define t where "t = takeWhile (\<lambda>c. c \<noteq> NL) (rev fresh)"
  have "rev fresh = t @ d" by (simp add: t_def d_def)
  then have "fresh = rev d @ rev t" by (metis rev_append rev_rev_ident)
  moreover have "NL \<notin> set t" by (auto simp: t_def dest: set_takeWhileD)
  moreover have "hd d = NL" using hd_dropWhile[of "\<lambda>c. c \<noteq> NL" "rev fresh"] c(1) by (auto simp: d_def)
  ultimately show ?thesis using c(1) unfolding c(2) d_def[symmetric] by (auto simp: whole_lines_def last_rev)
qed

lemma complete_lines_None: "complete_lines fresh = None \<Longrightarrow> NL \<notin> set fresh"
  by (auto simp: complete_lines_def split: list.splits)

text \<open>A poll after each piece that another process appends to the inbox.\<close>

fun poll_run :: "(string \<Rightarrow> json option) \<Rightarrow> string \<Rightarrow> (bool \<times> string) list \<Rightarrow> nat \<times> state \<Rightarrow> signal_event list \<times> nat \<times> state" where
  "poll_run from_str body [] ts = ([], ts)"
| "poll_run from_str body ((ok, new) # ps) ts =
     (case poll from_str ok (InboxBytes (length (body @ new)) (body @ new)) ts of
        (sigs, ts') \<Rightarrow> (case poll_run from_str (body @ new) ps ts' of (sigs', ts'') \<Rightarrow> (sigs @ sigs', ts'')))"

definition read_up_to :: "(string \<Rightarrow> json option) \<Rightarrow> string \<Rightarrow> signal_event list \<Rightarrow> nat \<Rightarrow> bool" where
  "read_up_to from_str body sigs off \<longleftrightarrow> off \<le> length body \<and> whole_lines (take off body)
     \<and> sigs = parse_signals from_str (utf8_lossy (take off body)) \<and> NL \<notin> set (drop off body)"

lemma poll_reads:
  assumes "off \<le> length body" "whole_lines (take off body)" "length (body @ new) < 2 ^ 64"
    and "poll from_str ok (InboxBytes (length (body @ new)) (body @ new)) (off, st) = (sigs, off', st')"
    and "NL \<notin> set (drop off body)"
  shows "read_up_to from_str (body @ new) (parse_signals from_str (utf8_lossy (take off body)) @ sigs) off'"
proof -
  have t: "take off (body @ new) = take off body" using assms(1) by simp
  show ?thesis
  proof (cases "length (body @ new) = off")
    case True
    then have "length body + length new = off" by simp
    then have "length new = 0" using assms(1) by linarith
    then have "new = []" by simp
    then have "sigs = []" "off' = off" "new = []" using True assms(1,4) by (simp_all add: poll_def)
    with assms t show ?thesis by (simp add: read_up_to_def)
  next
    case False
    then have off: "\<not> length (body @ new) < off" using assms(1) by simp
    show ?thesis
    proof (cases "complete_lines (drop off (body @ new))")
      case None
      then have "sigs = []" "off' = off" using assms(4) off False by (simp_all add: poll_def del: length_append drop_append)
      with assms t complete_lines_None[OF None] show ?thesis by (simp add: read_up_to_def)
    next
      case (Some c)
      then obtain rest where c: "drop off (body @ new) = c @ rest" "NL \<notin> set rest" "whole_lines c"
        using complete_lines_Some by blast
      then have b: "body @ new = (take off body @ c) @ rest" using t by (metis append.assoc append_take_drop_id)
      have len: "length (take off body) = off" using assms(1) by simp
      have "off + length c \<le> length (body @ new)" using b len by (metis length_append le_add1)
      then have "off' = off + length c" "sigs = parse_signals from_str (utf8_lossy c)"
        using assms(3,4) off False Some by (simp_all add: poll_def del: length_append drop_append)
      moreover have "take (off + length c) (body @ new) = take off body @ c"
        "drop (off + length c) (body @ new) = rest" unfolding b using len by simp_all
      moreover have "whole_lines (take off body @ c)" using c(3) assms(2) by (cases "c = []") (simp_all add: whole_lines_def)
      ultimately show ?thesis
        using parse_signals_append[OF assms(2)] c(2) \<open>off + length c \<le> length (body @ new)\<close> unfolding read_up_to_def by simp
    qed
  qed
qed

lemma poll_run_reads:
  assumes "read_up_to from_str body sigs off" "length (body @ concat (map snd ps)) < 2 ^ 64"
    and "poll_run from_str body ps (off, st) = (sigs', off', st')"
  shows "read_up_to from_str (body @ concat (map snd ps)) (sigs @ sigs') off'"
  using assms
proof (induction ps arbitrary: body sigs off st sigs')
  case (Cons p ps)
  obtain ok new where p: "p = (ok, new)" by fastforce
  obtain s1 off1 st1 where po: "poll from_str ok (InboxBytes (length (body @ new)) (body @ new)) (off, st) = (s1, off1, st1)"
    by (metis prod.exhaust)
  obtain s2 where r: "poll_run from_str (body @ new) ps (off1, st1) = (s2, off', st')" "sigs' = s1 @ s2"
    using Cons.prems(3) po by (auto simp: p split: prod.splits)
  have "read_up_to from_str (body @ new) (sigs @ s1) off1"
    using poll_reads[OF _ _ _ po] Cons.prems(1,2) by (simp add: read_up_to_def p)
  from Cons.IH[OF this _ r(1)] Cons.prems(2) r(2) show ?case by (simp add: p)
qed simp

text \<open>
  C37: a signal is seen once. However writers append to the inbox and however the polls fall between
  (in the middle of a line, of a character, with \<open>state.json\<close> failing to be written), the signals of
  all polls together are those of one reading of the lines complete so far; nothing of the rest is.
\<close>

theorem polls_read_each_signal_once:
  assumes "length (concat (map snd ps)) < 2 ^ 64"
  shows "case poll_run from_str [] ps (0, st) of (sigs, off, st') \<Rightarrow>
    sigs = parse_signals from_str (utf8_lossy (take off (concat (map snd ps)))) \<and> NL \<notin> set (drop off (concat (map snd ps)))"
proof -
  obtain sigs off st' where r: "poll_run from_str [] ps (0, st) = (sigs, off, st')" by (metis prod.exhaust)
  have "read_up_to from_str [] [] 0" by (simp add: read_up_to_def whole_lines_def)
  from poll_run_reads[OF this _ r] assms r show ?thesis by (simp add: read_up_to_def)
qed

text \<open>A line in two pieces, the second with the start of another.\<close>

theorem polls_read_each_signal_once_witness:
  "case poll_run (\<lambda>_. None) [] [(True, ''{''), (False, ''}'' @ [NL] @ ''{'')] (0, default_state) of (sigs, off, st') \<Rightarrow>
    sigs = parse_signals (\<lambda>_. None) (utf8_lossy (take off (''{}'' @ [NL] @ ''{''))) \<and> NL \<notin> set (drop off (''{}'' @ [NL] @ ''{''))"
  using polls_read_each_signal_once[of "[(True, ''{''), (False, ''}'' @ [NL] @ ''{'')]" "\<lambda>_. None" default_state] by simp

end
