(* ===== verification/Journal.thy ===== *)
theory Journal
  imports Signals Ids_Time Undo_Apply
begin

text \<open>
  What the daemon writes about turns (cli/src/daemon.rs): \<open>persist\<close> of closed turns, the epoch
  records, the crash journal \<open>open.json\<close> of the open turn and its recovery, the undo guard it reads.
  The clock stamps are those of Recorder; the outcome of each write is an argument.
\<close>

subsection \<open>The disk\<close>

text \<open>
  The files the daemon owns: the blob store, \<open>state.json\<close> as its value, the text of \<open>log.jsonl\<close>
  (empty when absent), the journal when a regular file stands there, and the memories.
\<close>

record disk =
  dk_store :: store
  dk_state :: state
  dk_log :: string
  dk_journal :: "string option"
  dk_memories :: "memory_record list"

text \<open>JSON (serde_json), SHA-256, \<open>scrub\<close> and \<open>excerpt\<close>, and the root's text.\<close>

record daemon_env =
  de_to_string :: "json \<Rightarrow> string"
  de_from_str :: "string \<Rightarrow> json option"
  de_sha :: "string \<Rightarrow> string"
  de_scrub :: "string \<Rightarrow> string"
  de_excerpt :: "string \<Rightarrow> string"
  de_root :: string

text \<open>What one turn's writes meet: the blob, \<open>state.json\<close>, the log, and the removal of the journal.\<close>

record write_outcome =
  wo_io :: io
  wo_touch_ok :: bool
  wo_now :: nat
  wo_state_ok :: bool
  wo_log_ok :: bool
  wo_remove_ok :: bool

definition append_to_log :: "daemon_env \<Rightarrow> bool \<Rightarrow> log_record \<Rightarrow> disk \<Rightarrow> (string + unit) \<times> disk" where
  "append_to_log env ok r dk = (case append_log (de_to_string env) (\<not> ok) (dk_log dk) r of
     None \<Rightarrow> (Inl ''log'', dk)
   | Some body \<Rightarrow> (Inr (), dk\<lparr>dk_log := body\<rparr>))"

definition logged :: "daemon_env \<Rightarrow> disk \<Rightarrow> log_record list" where
  "logged env dk = load_log (de_from_str env) (Some (dk_log dk))"

definition append_epoch :: "daemon_env \<Rightarrow> bool \<Rightarrow> string \<Rightarrow> nat \<Rightarrow> 32 word \<Rightarrow> disk \<Rightarrow> (string + unit) \<times> disk" where
  "append_epoch env ok event wall dropped_signals dk = append_to_log env ok
     (Epoch \<lparr>ep_v = 1, ep_event = event, ep_ts = rfc3339 wall, ep_dropped_signals = dropped_signals\<rparr>) dk"

definition undo_guard_paths :: "undo_guard option \<Rightarrow> nat \<Rightarrow> string set" where
  "undo_guard_paths guard now_wall_ms = (case guard of
     None \<Rightarrow> {}
   | Some g \<Rightarrow> if ug_until_ms g < now_wall_ms then {} else set (ug_paths g))"

subsection \<open>Closed turns\<close>

text \<open>A prompt is scrubbed before anything of it is stored: its reference and excerpt.\<close>

definition persist_prompt :: "daemon_env \<Rightarrow> write_outcome \<Rightarrow> string option \<Rightarrow> disk
    \<Rightarrow> (hash option \<times> string option) \<times> disk" where
  "persist_prompt env o' prompt dk = (case prompt of
     None \<Rightarrow> ((None, None), dk)
   | Some body \<Rightarrow>
       (case put_result (de_sha env) (wo_io o') (wo_touch_ok o') (wo_now o') (de_scrub env body) (dk_store dk) of
          (Stored h _ _, s') \<Rightarrow> ((Some h, Some (de_excerpt env body)), dk\<lparr>dk_store := s'\<rparr>)
        | (OverCap, s') \<Rightarrow> ((None, Some (de_excerpt env body)), dk\<lparr>dk_store := s'\<rparr>)
        | (IoError _, s') \<Rightarrow> ((None, Some (de_excerpt env body)), dk\<lparr>dk_store := s',
             dk_state := persisted (wo_state_ok o') (record_prompt_put_failure (dk_state dk)) (dk_state dk)\<rparr>)))"

definition attributed :: "declared_writes option \<Rightarrow> file_entry \<Rightarrow> file_entry" where
  "attributed declared e = (case declared of
     None \<Rightarrow> e
   | Some d \<Rightarrow> e\<lparr>fe_attribution := Some (if fe_path e \<in> dw_paths d then ''declared'' else ''undeclared'')\<rparr>)"

definition turn_stamps :: "closed_turn \<Rightarrow> wall_clock \<Rightarrow> (nat \<times> nat) \<times> wall_clock" where
  "turn_stamps turn clock =
     (let (started, clock1) = wall_ms (ct_opened_at turn) clock; (ended, clock2) = wall_ms (ct_closed_at turn) clock1
      in ((started, ended), clock2))"

definition closed_record :: "daemon_env \<Rightarrow> recorder \<Rightarrow> declared_writes option \<Rightarrow> closed_turn
    \<Rightarrow> hash option \<times> string option \<Rightarrow> nat \<times> nat \<Rightarrow> turn_record" where
  "closed_record env rc declared turn prompt stamps =
     \<lparr>tr_v = 1, tr_id = ct_id turn, tr_grade = ct_grade turn, tr_truncated = ct_truncated turn,
      tr_started = rfc3339 (fst stamps), tr_ended = rfc3339 (snd stamps), tr_tool = ct_tool turn,
      tr_model = model_for (ct_session turn) rc, tr_session = ct_session turn,
      tr_root = de_root env, tr_prompt_ref = fst prompt, tr_prompt_excerpt = snd prompt,
      tr_merges = ct_merges turn, tr_imported = None, tr_files_complete = None, tr_origin = None,
      tr_files = map (\<lambda>obs. attributed declared (resolve rc obs)) (ct_files turn)\<rparr>"

definition persist_turn :: "daemon_env \<Rightarrow> write_outcome \<Rightarrow> recorder \<Rightarrow> declared_writes option \<Rightarrow> closed_turn
    \<Rightarrow> wall_clock \<times> disk \<Rightarrow> (string + unit) \<times> wall_clock \<times> disk" where
  "persist_turn env o' rc declared turn cd = (case cd of (clock, dk) \<Rightarrow>
     (case persist_prompt env o' (ct_prompt turn) dk of (prompt, dk1) \<Rightarrow>
     (case turn_stamps turn clock of (stamps, clock') \<Rightarrow>
     (case append_to_log env (wo_log_ok o') (Turn (closed_record env rc declared turn prompt stamps)) dk1 of
        (r, dk2) \<Rightarrow> (r, clock', dk2)))))"

text \<open>\<open>outs\<close> gives each turn's outcome; a declaration attributes the last turn only.\<close>

fun persist :: "daemon_env \<Rightarrow> (nat \<Rightarrow> write_outcome) \<Rightarrow> recorder \<Rightarrow> declared_writes option \<Rightarrow> closed_turn list
    \<Rightarrow> wall_clock \<times> disk \<Rightarrow> (string + unit) \<times> wall_clock \<times> disk" where
  "persist env outs rc declared [] cd = (Inr (), cd)"
| "persist env outs rc declared (t # ts) cd =
     (case persist_turn env (outs 0) rc (if ts = [] then declared else None) t cd of
        (Inl e, cd') \<Rightarrow> (Inl e, cd')
      | (Inr _, cd') \<Rightarrow> persist env (\<lambda>n. outs (Suc n)) rc declared ts cd')"

subsection \<open>Crash journal\<close>

record orphan_journal =
  oj_source :: string
  oj_tool :: "string option"
  oj_prompt :: "string option"
  oj_session :: "string option"
  oj_opened_wall_ms :: nat
  oj_last_change_wall_ms :: nat
  oj_root :: string
  oj_files :: "file_entry list"
  oj_id :: string

definition enc_journal :: "orphan_journal \<Rightarrow> json" where
  "enc_journal j = JObj
     [(''source'', JStr (oj_source j)),
      (''tool'', enc_opt JStr (oj_tool j)),
      (''prompt'', enc_opt JStr (oj_prompt j)),
      (''session'', enc_opt JStr (oj_session j)),
      (''opened_wall_ms'', enc_u64 (oj_opened_wall_ms j)),
      (''last_change_wall_ms'', enc_u64 (oj_last_change_wall_ms j)),
      (''root'', JStr (oj_root j)),
      (''files'', JArr (map enc_file (oj_files j))),
      (''id'', JStr (oj_id j))]"

text \<open>\<open>fresh\<close> is the id a journal without one gets (\<open>turn_id\<close>).\<close>

definition journal_fields :: "string \<Rightarrow> (string \<times> json) list \<Rightarrow> orphan_journal option" where
  "journal_fields fresh fs = do {
     source \<leftarrow> req dec_str ''source'' fs;
     tool \<leftarrow> optf dec_str ''tool'' fs;
     prompt \<leftarrow> optf dec_str ''prompt'' fs;
     session \<leftarrow> optf dec_str ''session'' fs;
     opened \<leftarrow> req dec_u64 ''opened_wall_ms'' fs;
     changed \<leftarrow> req dec_u64 ''last_change_wall_ms'' fs;
     base \<leftarrow> req dec_str ''root'' fs;
     entries \<leftarrow> req (dec_arr dec_file) ''files'' fs;
     i \<leftarrow> dflt fresh dec_str ''id'' fs;
     Some \<lparr>oj_source = source, oj_tool = tool, oj_prompt = prompt, oj_session = session,
       oj_opened_wall_ms = opened, oj_last_change_wall_ms = changed, oj_root = base, oj_files = entries,
       oj_id = i\<rparr> }"

fun dec_journal :: "string \<Rightarrow> json \<Rightarrow> orphan_journal option" where
  "dec_journal fresh (JObj fs) = journal_fields fresh fs"
| "dec_journal _ _ = None"

definition journal_of :: "daemon_env \<Rightarrow> recorder \<Rightarrow> open_snapshot \<Rightarrow> wall_clock \<Rightarrow> orphan_journal \<times> wall_clock" where
  "journal_of env rc snap clock =
     (let (opened, clock1) = wall_ms (os_opened_at snap) clock;
          (changed, clock2) = wall_ms (os_last_change_at snap) clock1
      in (\<lparr>oj_source = os_source snap, oj_tool = os_tool snap, oj_prompt = os_prompt snap,
           oj_session = os_session snap, oj_opened_wall_ms = opened, oj_last_change_wall_ms = changed,
           oj_root = de_root env, oj_files = map (resolve rc) (os_files snap), oj_id = os_id snap\<rparr>, clock2))"

record sync_outcome =
  so_nonregular :: bool
  so_write_ok :: bool
  so_rename_ok :: bool
  so_remove_ok :: bool

definition sync_journal :: "daemon_env \<Rightarrow> sync_outcome \<Rightarrow> turn_engine \<Rightarrow> recorder
    \<Rightarrow> wall_clock \<times> string option \<times> disk \<Rightarrow> wall_clock \<times> string option \<times> disk" where
  "sync_journal env o' e rc ccd = (case ccd of (clock, cache, dk) \<Rightarrow>
     (case snapshot_open e of
        Some snap \<Rightarrow>
          (let (j, clock') = journal_of env rc snap clock; body = de_to_string env (enc_journal j) in
           if cache = Some body \<or> so_nonregular o' \<or> \<not> so_write_ok o' \<or> \<not> so_rename_ok o'
           then (clock', cache, dk)
           else (clock', Some body, dk\<lparr>dk_journal := Some body\<rparr>))
      | None \<Rightarrow> (clock, None, if so_remove_ok o' then dk\<lparr>dk_journal := None\<rparr> else dk)))"

subsection \<open>Recovery\<close>

definition files_match :: "file_entry list \<Rightarrow> file_entry list \<Rightarrow> bool" where
  "files_match a b \<longleftrightarrow> length a = length b \<and> set (map fe_path a) = set (map fe_path b)"

fun describes :: "orphan_journal \<Rightarrow> string \<Rightarrow> string \<Rightarrow> log_record \<Rightarrow> bool" where
  "describes j started ended (Turn t) \<longleftrightarrow> tr_id t = oj_id j
     \<or> (tr_root t = oj_root j \<and> tr_started t = started \<and> tr_ended t = ended \<and> files_match (tr_files t) (oj_files j))"
| "describes j started ended (Epoch _) \<longleftrightarrow> False"

definition already_logged :: "daemon_env \<Rightarrow> disk \<Rightarrow> orphan_journal \<Rightarrow> string \<Rightarrow> string \<Rightarrow> bool" where
  "already_logged env dk j started ended \<longleftrightarrow> list_ex (describes j started ended) (take 50 (rev (logged env dk)))"

definition recovery_grade :: "string \<Rightarrow> string \<times> bool" where
  "recovery_grade source =
     (if source = ''bracket'' then (''rich'', True)
      else if source = ''git'' then (''rich'', False)
      else (''bare'', False))"

definition remove_journal :: "bool \<Rightarrow> disk \<Rightarrow> disk" where
  "remove_journal ok dk = (if ok then dk\<lparr>dk_journal := None\<rparr> else dk)"

definition recovered_turn :: "orphan_journal \<Rightarrow> hash option \<times> string option \<Rightarrow> turn_record" where
  "recovered_turn j prompt = (case recovery_grade (oj_source j) of (grade, truncated) \<Rightarrow>
     \<lparr>tr_v = 1, tr_id = oj_id j, tr_grade = grade, tr_truncated = truncated,
      tr_started = rfc3339 (oj_opened_wall_ms j),
      tr_ended = rfc3339 (max (oj_last_change_wall_ms j) (oj_opened_wall_ms j)),
      tr_tool = (if grade = ''bare'' then None else oj_tool j), tr_model = None,
      tr_session = (if grade = ''bare'' then None else oj_session j), tr_root = oj_root j,
      tr_prompt_ref = fst prompt, tr_prompt_excerpt = snd prompt, tr_merges = [], tr_imported = None,
      tr_files_complete = None, tr_origin = None, tr_files = oj_files j\<rparr>)"

text \<open>A bare recovery carries no prompt.\<close>

definition recovery_prompt :: "daemon_env \<Rightarrow> write_outcome \<Rightarrow> orphan_journal \<Rightarrow> disk
    \<Rightarrow> (hash option \<times> string option) \<times> disk" where
  "recovery_prompt env o' j dk =
     (if fst (recovery_grade (oj_source j)) = ''bare'' then ((None, None), dk)
      else persist_prompt env o' (oj_prompt j) dk)"

definition recover_journal :: "daemon_env \<Rightarrow> write_outcome \<Rightarrow> orphan_journal \<Rightarrow> disk \<Rightarrow> (string + unit) \<times> disk" where
  "recover_journal env o' j dk =
     (let t = recovered_turn j (None, None) in
      if already_logged env dk j (tr_started t) (tr_ended t) then (Inr (), remove_journal (wo_remove_ok o') dk)
      else (case recovery_prompt env o' j dk of (prompt, dk1) \<Rightarrow>
        (case append_to_log env (wo_log_ok o') (Turn (recovered_turn j prompt)) dk1 of
          (Inl e, dk2) \<Rightarrow> (Inl e, dk2)
        | (Inr _, dk2) \<Rightarrow> (Inr (), remove_journal (wo_remove_ok o') dk2))))"

definition recover_orphan :: "daemon_env \<Rightarrow> write_outcome \<Rightarrow> string \<Rightarrow> disk \<Rightarrow> (string + unit) \<times> disk" where
  "recover_orphan env o' fresh dk = (case dk_journal dk of
     None \<Rightarrow> (Inr (), dk)
   | Some body \<Rightarrow>
       if \<not> utf8_valid body then (Inr (), dk)
       else (case Option.bind (de_from_str env body) (dec_journal fresh) of
         None \<Rightarrow> (Inr (), remove_journal (wo_remove_ok o') dk)
       | Some j \<Rightarrow> recover_journal env o' j dk))"

end
