(* ===== verification/Journal_Props.thy ===== *)
theory Journal_Props
  imports Journal Records_Props Engine_Props
begin

text \<open>
  The crash journal: what is appended is read back after what was there, recovery adds the journaled
  turn once however often it runs, and a turn that was open at the last synchronisation is in the log
  exactly once after a crash, wherever in the next writes the crash falls.
\<close>

subsection \<open>The log text\<close>

definition rendered :: "daemon_env \<Rightarrow> log_record \<Rightarrow> bool" where
  "rendered env r \<longleftrightarrow> renders (de_to_string env) (de_from_str env) r"

definition log_lines :: "daemon_env \<Rightarrow> log_record list \<Rightarrow> string" where
  "log_lines env rs = concat (map (\<lambda>r. de_to_string env (enc_log r) @ [NL]) rs)"

lemma log_lines_simps [simp]:
  "log_lines env [] = []" "log_lines env (r # rs) = de_to_string env (enc_log r) @ [NL] @ log_lines env rs"
  "log_lines env (rs @ rs') = log_lines env rs @ log_lines env rs'"
  by (simp_all add: log_lines_def)

lemma whole_log_lines: "whole_lines body \<Longrightarrow> whole_lines (body @ log_lines env rs)"
  by (induction rs rule: rev_induct) (auto simp: whole_lines_def)

lemma lines_log_lines:
  "list_all (rendered env) rs \<Longrightarrow> lines (log_lines env rs) = map (\<lambda>r. de_to_string env (enc_log r)) rs"
  using lines_of_log[of "map (\<lambda>r. de_to_string env (enc_log r)) rs" "[]"]
  by (auto simp: log_lines_def rendered_def renders_def list_all_iff Let_def o_def)

lemma map_filter_rendered:
  "list_all (\<lambda>r. rendered env r \<and> log_v r = SCHEMA_MAJOR) rs \<Longrightarrow>
    List.map_filter (\<lambda>l. if utf8_valid l then parsed_record (parse_log_line (de_from_str env) l) else None)
      (map (\<lambda>r. de_to_string env (enc_log r)) rs) = rs"
proof (induction rs)
  case (Cons r rs)
  then have "utf8_valid (de_to_string env (enc_log r))" by (simp add: rendered_def renders_def Let_def)
  with Cons show ?case
    by (simp add: List.map_filter_simps parse_rendered rendered_def)
qed (simp add: List.map_filter_simps)

text \<open>What is appended to a log of whole lines is read after what was there.\<close>

lemma logged_append:
  assumes "whole_lines (dk_log dk)" "list_all (\<lambda>r. rendered env r \<and> log_v r = SCHEMA_MAJOR) rs"
    and "dk_log dk' = dk_log dk @ log_lines env rs"
  shows "logged env dk' = logged env dk @ rs"
proof -
  have "list_all (rendered env) rs" using assms(2) by (auto simp: list_all_iff)
  then have "lines (dk_log dk') = lines (dk_log dk) @ map (\<lambda>r. de_to_string env (enc_log r)) rs"
    unfolding assms(3) by (simp add: lines_whole[OF assms(1)] lines_log_lines)
  then show ?thesis
    using map_filter_rendered[OF assms(2)] by (simp add: logged_def load_log_def List.map_filter_def)
qed

lemma append_to_log_cases:
  obtains "append_to_log env ok r dk = (Inr (), dk\<lparr>dk_log := dk_log dk @ log_lines env [r]\<rparr>)" "ok"
  | "append_to_log env ok r dk = (Inl ''log'', dk)" "\<not> ok"
  by (cases ok) (auto simp: append_to_log_def append_log_def append_log_line_def)

lemma persist_prompt_keeps:
  assumes "persist_prompt env o' prompt dk = (p, dk')"
  shows "dk_log dk' = dk_log dk \<and> dk_journal dk' = dk_journal dk \<and> dk_memories dk' = dk_memories dk"
proof (cases prompt)
  case (Some body)
  obtain r s where "put_result (de_sha env) (wo_io o') (wo_touch_ok o') (wo_now o') (de_scrub env body)
      (dk_store dk) = (r, s)" by fastforce
  with Some assms show ?thesis by (cases r) (auto simp: persist_prompt_def)
qed (use assms in \<open>simp add: persist_prompt_def\<close>)

subsection \<open>What a run of writes appends\<close>

definition written_record :: "daemon_env \<Rightarrow> write_outcome \<Rightarrow> recorder \<Rightarrow> declared_writes option \<Rightarrow> closed_turn
    \<Rightarrow> wall_clock \<times> disk \<Rightarrow> log_record" where
  "written_record env o' rc declared turn cd = Turn (closed_record env rc declared turn
     (fst (persist_prompt env o' (ct_prompt turn) (snd cd))) (fst (turn_stamps turn (fst cd))))"

fun written :: "daemon_env \<Rightarrow> (nat \<Rightarrow> write_outcome) \<Rightarrow> recorder \<Rightarrow> declared_writes option \<Rightarrow> closed_turn list
    \<Rightarrow> wall_clock \<times> disk \<Rightarrow> log_record list" where
  "written env outs rc declared [] cd = []"
| "written env outs rc declared (t # ts) cd =
     (let d = (if ts = [] then declared else None) in
      if wo_log_ok (outs 0) then written_record env (outs 0) rc d t cd
        # written env (\<lambda>n. outs (Suc n)) rc declared ts (snd (persist_turn env (outs 0) rc d t cd))
      else [])"

lemma persist_turn_effect:
  assumes "persist_turn env o' rc d t cd = (r, cd')"
  shows "dk_journal (snd cd') = dk_journal (snd cd)"
    "wo_log_ok o' \<Longrightarrow> r = Inr () \<and> dk_log (snd cd') = dk_log (snd cd) @ log_lines env [written_record env o' rc d t cd]"
    "\<not> wo_log_ok o' \<Longrightarrow> r = Inl ''log'' \<and> dk_log (snd cd') = dk_log (snd cd)"
proof -
  obtain clock dk where cd: "cd = (clock, dk)" by fastforce
  obtain prompt dk1 where p: "persist_prompt env o' (ct_prompt t) dk = (prompt, dk1)" by fastforce
  obtain stamps clock' where st: "turn_stamps t clock = (stamps, clock')" by fastforce
  note k = persist_prompt_keeps[OF p]
  have w: "written_record env o' rc d t cd = Turn (closed_record env rc d t prompt stamps)"
    by (simp add: written_record_def cd p st)
  show "dk_journal (snd cd') = dk_journal (snd cd)"
    "wo_log_ok o' \<Longrightarrow> r = Inr () \<and> dk_log (snd cd') = dk_log (snd cd) @ log_lines env [written_record env o' rc d t cd]"
    "\<not> wo_log_ok o' \<Longrightarrow> r = Inl ''log'' \<and> dk_log (snd cd') = dk_log (snd cd)"
    using assms k unfolding w
    by (cases rule: append_to_log_cases[of env "wo_log_ok o'" "Turn (closed_record env rc d t prompt stamps)" dk1];
      auto simp: persist_turn_def cd p st)+
qed

lemma persist_effect:
  assumes "persist env outs rc d ts cd = (r, cd')"
  shows "dk_journal (snd cd') = dk_journal (snd cd)
    \<and> dk_log (snd cd') = dk_log (snd cd) @ log_lines env (written env outs rc d ts cd)"
  using assms
proof (induction ts arbitrary: outs cd)
  case (Cons t ts)
  define d' where "d' = (if ts = [] then d else None)"
  obtain r1 cd1 where t: "persist_turn env (outs 0) rc d' t cd = (r1, cd1)" by (metis prod.exhaust)
  note e = persist_turn_effect[OF t]
  show ?case
  proof (cases "wo_log_ok (outs 0)")
    case True
    then have "persist env (\<lambda>n. outs (Suc n)) rc d ts cd1 = (r, cd')"
      using Cons.prems t e by (simp add: d'_def[symmetric])
    from Cons.IH[OF this] e(1) e(2)[OF True] True show ?thesis
      by (simp add: Let_def t flip: d'_def)
  next
    case False
    with Cons.prems t e show ?thesis by (simp add: d'_def[symmetric])
  qed
qed simp


text \<open>Several writes one after another, each of some turns; the first failure ends the run.\<close>

type_synonym batch = "(nat \<Rightarrow> write_outcome) \<times> recorder \<times> declared_writes option \<times> closed_turn list"

fun persist_batches :: "daemon_env \<Rightarrow> batch list \<Rightarrow> wall_clock \<times> disk \<Rightarrow> (string + unit) \<times> wall_clock \<times> disk" where
  "persist_batches env [] cd = (Inr (), cd)"
| "persist_batches env ((outs, rc, d, ts) # bs) cd = (case persist env outs rc d ts cd of
     (Inl e, cd') \<Rightarrow> (Inl e, cd') | (Inr _, cd') \<Rightarrow> persist_batches env bs cd')"

fun batches_written :: "daemon_env \<Rightarrow> batch list \<Rightarrow> wall_clock \<times> disk \<Rightarrow> log_record list" where
  "batches_written env [] cd = []"
| "batches_written env ((outs, rc, d, ts) # bs) cd = written env outs rc d ts cd
     @ (case persist env outs rc d ts cd of (Inl e, cd') \<Rightarrow> [] | (Inr _, cd') \<Rightarrow> batches_written env bs cd')"

definition batch_turns :: "batch list \<Rightarrow> closed_turn list" where
  "batch_turns bs = concat (map (\<lambda>(outs, rc, d, ts). ts) bs)"

lemma persist_batches_effect:
  assumes "persist_batches env bs cd = (r, cd')"
  shows "dk_journal (snd cd') = dk_journal (snd cd)
    \<and> dk_log (snd cd') = dk_log (snd cd) @ log_lines env (batches_written env bs cd)"
  using assms
proof (induction bs arbitrary: cd)
  case (Cons b bs)
  obtain outs rc d ts where b: "b = (outs, rc, d, ts)" by (metis prod.exhaust)
  obtain r1 cd1 where p: "persist env outs rc d ts cd = (r1, cd1)" by (metis prod.exhaust)
  note e = persist_effect[OF p]
  show ?case
  proof (cases r1)
    case (Inl x)
    with Cons.prems p e b show ?thesis by auto
  next
    case (Inr x)
    with Cons.prems p b have "persist_batches env bs cd1 = (r, cd')" by simp
    from Cons.IH[OF this] e Inr p b show ?thesis by simp
  qed
qed simp

fun turn_ids_of :: "log_record list \<Rightarrow> string list" where
  "turn_ids_of [] = []"
| "turn_ids_of (Turn t # rs) = tr_id t # turn_ids_of rs"
| "turn_ids_of (Epoch _ # rs) = turn_ids_of rs"

lemma turn_ids_of_append [simp]: "turn_ids_of (rs @ rs') = turn_ids_of rs @ turn_ids_of rs'"
  by (induction rs rule: turn_ids_of.induct) simp_all

lemma written_ids: "\<exists>rest. map ct_id ts = turn_ids_of (written env outs rc d ts cd) @ rest"
proof (induction ts arbitrary: outs cd)
  case (Cons t ts)
  show ?case
  proof (cases "wo_log_ok (outs 0)")
    case True
    then show ?thesis
      using Cons.IH[of "\<lambda>n. outs (Suc n)" "snd (persist_turn env (outs 0) rc (if ts = [] then d else None) t cd)"]
      by (auto simp: Let_def written_record_def closed_record_def)
  qed simp
qed simp

lemma written_all:
  "persist env outs rc d ts cd = (Inr x, cd') \<Longrightarrow> turn_ids_of (written env outs rc d ts cd) = map ct_id ts"
proof (induction ts arbitrary: outs cd)
  case (Cons t ts)
  define d' where "d' = (if ts = [] then d else None)"
  obtain r1 cd1 where t: "persist_turn env (outs 0) rc d' t cd = (r1, cd1)" by (metis prod.exhaust)
  note e = persist_turn_effect[OF t]
  have ok: "wo_log_ok (outs 0)"
    using Cons.prems t e(3) by (cases "wo_log_ok (outs 0)") (simp_all flip: d'_def)
  then have "persist env (\<lambda>n. outs (Suc n)) rc d ts cd1 = (Inr x, cd')"
    using Cons.prems t e(2) by (simp flip: d'_def)
  from Cons.IH[OF this] ok t show ?case
    by (simp add: Let_def written_record_def closed_record_def flip: d'_def)
qed simp

lemma batches_written_ids: "\<exists>rest. map ct_id (batch_turns bs) = turn_ids_of (batches_written env bs cd) @ rest"
proof (induction bs arbitrary: cd)
  case (Cons b bs)
  obtain outs rc d ts where b: "b = (outs, rc, d, ts)" by (metis prod.exhaust)
  obtain r1 cd1 where p: "persist env outs rc d ts cd = (r1, cd1)" by (metis prod.exhaust)
  show ?case
  proof (cases r1)
    case (Inl x)
    with p b written_ids[of ts env outs rc d cd] show ?thesis by (auto simp: batch_turns_def)
  next
    case (Inr x)
    with p b Cons.IH[of cd1] written_all[of env outs rc d ts cd x cd1] show ?thesis
      by (auto simp: batch_turns_def)
  qed
qed (simp add: batch_turns_def)


subsection \<open>Recovery\<close>

lemma describes_recovered: "describes (j\<lparr>oj_id := i\<rparr>) (tr_started (recovered_turn j p)) (tr_ended (recovered_turn j p))
    (Turn (recovered_turn j q))"
  by (simp add: recovered_turn_def files_match_def split: prod.splits)

lemma recovered_stamps: "tr_started (recovered_turn j p) = tr_started (recovered_turn j q)"
  "tr_ended (recovered_turn j p) = tr_ended (recovered_turn j q)"
  by (simp_all add: recovered_turn_def split: prod.splits)

lemma already_logged_last: "logged env dk = rs @ [r] \<Longrightarrow> describes j started ended r \<Longrightarrow> already_logged env dk j started ended"
  by (simp add: already_logged_def)

text \<open>The record a recovery appends when the log does not have it.\<close>

definition recovery_record :: "daemon_env \<Rightarrow> write_outcome \<Rightarrow> orphan_journal \<Rightarrow> disk \<Rightarrow> log_record" where
  "recovery_record env o' j dk = Turn (recovered_turn j (fst (recovery_prompt env o' j dk)))"

definition journal_in :: "daemon_env \<Rightarrow> string \<Rightarrow> disk \<Rightarrow> orphan_journal option" where
  "journal_in env fresh dk = (case dk_journal dk of None \<Rightarrow> None
     | Some body \<Rightarrow> if utf8_valid body then Option.bind (de_from_str env body) (dec_journal fresh) else None)"

lemma recovery_prompt_keeps: "recovery_prompt env o' j dk = (p, dk') \<Longrightarrow>
    dk_log dk' = dk_log dk \<and> dk_journal dk' = dk_journal dk \<and> dk_memories dk' = dk_memories dk"
  by (auto simp: recovery_prompt_def dest: persist_prompt_keeps split: if_splits)

lemma remove_journal_simps [simp]: "dk_log (remove_journal ok dk) = dk_log dk"
  "dk_journal (remove_journal ok dk) = (if ok then None else dk_journal dk)"
  by (simp_all add: remove_journal_def)

lemma logged_log: "dk_log dk' = dk_log dk \<Longrightarrow> logged env dk' = logged env dk"
  by (simp add: logged_def)

lemma recover_journal_cases:
  obtains (known) "already_logged env dk j (tr_started (recovered_turn j (None, None))) (tr_ended (recovered_turn j (None, None)))"
    "recover_journal env o' j dk = (Inr (), remove_journal (wo_remove_ok o') dk)"
  | (failed) dk' where "\<not> wo_log_ok o'" "recover_journal env o' j dk = (Inl ''log'', dk')"
    "dk_log dk' = dk_log dk" "dk_journal dk' = dk_journal dk"
  | (added) dk' where "wo_log_ok o'" "recover_journal env o' j dk = (Inr (), dk')"
    "dk_log dk' = dk_log dk @ log_lines env [recovery_record env o' j dk]"
    "dk_journal dk' = (if wo_remove_ok o' then None else dk_journal dk)"
proof (cases "already_logged env dk j (tr_started (recovered_turn j (None, None))) (tr_ended (recovered_turn j (None, None)))")
  case True
  then show thesis by (intro known) (simp_all add: recover_journal_def Let_def)
next
  case False
  obtain p dk1 where p: "recovery_prompt env o' j dk = (p, dk1)" by fastforce
  note k = recovery_prompt_keeps[OF p]
  show thesis
  proof (cases rule: append_to_log_cases[of env "wo_log_ok o'" "Turn (recovered_turn j p)" dk1])
    case 1
    have r: "recovery_record env o' j dk = Turn (recovered_turn j p)" by (simp add: recovery_record_def p)
    show thesis
      by (rule added[of "remove_journal (wo_remove_ok o') (dk1\<lparr>dk_log := dk_log dk1 @ log_lines env [Turn (recovered_turn j p)]\<rparr>)"])
        (use 1 k False p in \<open>simp_all add: recover_journal_def Let_def r\<close>)
  next
    case 2
    show thesis
      by (rule failed[of dk1]) (use 2 k False p in \<open>simp_all add: recover_journal_def Let_def\<close>)
  qed
qed

lemma recover_orphan_journal:
  "recover_orphan env o' fresh dk = (case journal_in env fresh dk of
     Some j \<Rightarrow> recover_journal env o' j dk
   | None \<Rightarrow> (Inr (), if dk_journal dk \<noteq> None \<and> utf8_valid (the (dk_journal dk)) then remove_journal (wo_remove_ok o') dk else dk))"
  by (auto simp: recover_orphan_def journal_in_def split: option.splits)

lemma dflt_fresh: "dflt x d k fs = Some i \<Longrightarrow> dflt y d k fs = Some i \<or> (i = x \<and> dflt y d k fs = Some y)"
  by (auto simp: dflt_def split: list.splits)

lemma journal_fresh:
  assumes "journal_in env fresh dk = Some j" "dk_journal dk' = dk_journal dk"
  shows "\<exists>i. journal_in env fresh' dk' = Some (j\<lparr>oj_id := i\<rparr>) \<and> (i = oj_id j \<or> oj_id j = fresh)"
proof -
  obtain body fs where b: "dk_journal dk = Some body" "utf8_valid body" "de_from_str env body = Some (JObj fs)"
      "journal_fields fresh fs = Some j"
    using assms(1)
    by (auto simp: journal_in_def split: option.splits if_splits bind_splits elim!: dec_journal.elims)
  then obtain i where i: "dflt fresh dec_str ''id'' fs = Some i" "oj_id j = i"
    by (auto simp: journal_fields_def split: bind_splits)
  have "\<exists>i'. dflt fresh' dec_str ''id'' fs = Some i' \<and> (i' = i \<or> i = fresh)"
    using dflt_fresh[OF i(1), of fresh'] by blast
  then obtain i' where "dflt fresh' dec_str ''id'' fs = Some i'" "i' = i \<or> i = fresh" by blast
  with b i have "journal_fields fresh' fs = Some (j\<lparr>oj_id := i'\<rparr>)"
    by (cases j) (auto simp: journal_fields_def split: bind_splits)
  with b assms(2) i \<open>i' = i \<or> i = fresh\<close> show ?thesis by (auto simp: journal_in_def)
qed


lemma recovery_log_v: "log_v (recovery_record env o' j dk) = SCHEMA_MAJOR"
  by (simp add: recovery_record_def recovered_turn_def SCHEMA_MAJOR_def split: prod.splits)

lemma turn_ids_of_mem: "Turn t \<in> set rs \<Longrightarrow> tr_id t \<in> set (turn_ids_of rs)"
  by (induction rs rule: turn_ids_of.induct) auto

lemma already_logged_other_id:
  assumes "already_logged env dk j s e" "i = oj_id j \<or> oj_id j \<notin> set (turn_ids_of (logged env dk))"
  shows "already_logged env dk (j\<lparr>oj_id := i\<rparr>) s e"
proof (cases "i = oj_id j")
  case False
  from assms(1) obtain r where r: "r \<in> set (take 50 (rev (logged env dk)))" "describes j s e r"
    by (auto simp: already_logged_def list_ex_iff)
  from r(1) have "r \<in> set (logged env dk)" by (metis in_set_takeD set_rev)
  with r(2) False assms(2) have "describes (j\<lparr>oj_id := i\<rparr>) s e r"
    by (cases r) (auto dest: turn_ids_of_mem)
  with r(1) show ?thesis by (auto simp: already_logged_def list_ex_iff)
qed (use assms in simp)

text \<open>
  Recovery is idempotent. When it succeeds, running it again (a crash after the append, a removal
  of the journal that fails) adds nothing to the log, whatever id a journal without one is given the
  second time; when it fails it has changed neither the log nor the journal.
\<close>

theorem recovery_is_idempotent:
  assumes "whole_lines (dk_log dk)"
    and "fresh \<notin> set (turn_ids_of (logged env dk))"
    and "pred_option (\<lambda>j. rendered env (recovery_record env o' j dk)) (journal_in env fresh dk)"
  shows "case recover_orphan env o' fresh dk of
      (Inl _, dk1) \<Rightarrow> dk_log dk1 = dk_log dk \<and> dk_journal dk1 = dk_journal dk
    | (Inr _, dk1) \<Rightarrow> fst (recover_orphan env o2 fresh2 dk1) = Inr ()
        \<and> dk_log (snd (recover_orphan env o2 fresh2 dk1)) = dk_log dk1"
proof (cases "journal_in env fresh dk")
  case None
  then have r: "recover_orphan env o' fresh dk = (Inr (), if dk_journal dk \<noteq> None \<and> utf8_valid (the (dk_journal dk))
      then remove_journal (wo_remove_ok o') dk else dk)" by (simp add: recover_orphan_journal)
  define dk1 where "dk1 = snd (recover_orphan env o' fresh dk)"
  have none: "journal_in env fresh2 dk1 = None"
  proof (rule ccontr)
    assume "journal_in env fresh2 dk1 \<noteq> None"
    then obtain j where j: "journal_in env fresh2 dk1 = Some j" by auto
    then have "dk_journal dk1 \<noteq> None" by (auto simp: journal_in_def split: option.splits)
    then have "dk_journal dk = dk_journal dk1" unfolding dk1_def r by (auto split: if_splits)
    from journal_fresh[OF j this, of fresh] None show False by auto
  qed
  have "fst (recover_orphan env o2 fresh2 dk1) = Inr () \<and> dk_log (snd (recover_orphan env o2 fresh2 dk1)) = dk_log dk1"
    using none by (simp add: recover_orphan_journal)
  with r show ?thesis by (simp add: dk1_def)
next
  case (Some j)
  let ?started = "tr_started (recovered_turn j (None, None))" and ?ended = "tr_ended (recovered_turn j (None, None))"
  have again: "fst (recover_orphan env o2 fresh2 dk1) = Inr () \<and> dk_log (snd (recover_orphan env o2 fresh2 dk1)) = dk_log dk1"
    if known: "\<And>i. i = oj_id j \<or> oj_id j = fresh \<Longrightarrow> already_logged env dk1 (j\<lparr>oj_id := i\<rparr>) ?started ?ended"
      and dj: "dk_journal dk1 = None \<or> dk_journal dk1 = dk_journal dk" for dk1
  proof (cases "journal_in env fresh2 dk1")
    case None
    then show ?thesis by (simp add: recover_orphan_journal)
  next
    case j2: (Some j2)
    then have "dk_journal dk1 = dk_journal dk" using dj by (auto simp: journal_in_def)
    from journal_fresh[OF Some this, of fresh2] j2
    obtain i where i: "j2 = j\<lparr>oj_id := i\<rparr>" "i = oj_id j \<or> oj_id j = fresh" by auto
    have st: "tr_started (recovered_turn j2 (None, None)) = ?started" "tr_ended (recovered_turn j2 (None, None)) = ?ended"
      by (simp_all add: i recovered_turn_def split: prod.splits)
    have "recover_journal env o2 j2 dk1 = (Inr (), remove_journal (wo_remove_ok o2) dk1)"
      using known[OF i(2)] by (simp add: recover_journal_def Let_def st flip: i(1))
    with j2 show ?thesis by (simp add: recover_orphan_journal)
  qed
  from recover_journal_cases[of env dk j o'] show ?thesis
  proof cases
    case known
    have "already_logged env (remove_journal (wo_remove_ok o') dk) (j\<lparr>oj_id := i\<rparr>) ?started ?ended"
      if "i = oj_id j \<or> oj_id j = fresh" for i
      using already_logged_other_id[OF known(1), of i] that assms(2) by (auto simp: already_logged_def logged_def)
    from again[OF this] known Some show ?thesis by (simp add: recover_orphan_journal)
  next
    case (failed dk')
    with Some show ?thesis by (simp add: recover_orphan_journal)
  next
    case (added dk')
    have l: "logged env dk' = logged env dk @ [recovery_record env o' j dk]"
      using assms Some added(3) by (intro logged_append) (simp_all add: recovery_log_v)
    have "already_logged env dk' (j\<lparr>oj_id := i\<rparr>) ?started ?ended" for i
      by (rule already_logged_last[OF l]) (simp only: recovery_record_def describes_recovered)
    from again[OF this] added Some show ?thesis by (simp add: recover_orphan_journal)
  qed
qed


subsection \<open>A turn across a crash\<close>

lemma wall_ms_u64: "wc_max_wall_ms c < 2 ^ 64 \<Longrightarrow> wall_ms m c = (t, c') \<Longrightarrow> t < 2 ^ 64 \<and> wc_max_wall_ms c' < 2 ^ 64"
  by (auto simp: wall_ms_def Let_def u64_add_def max_def)

lemma journal_of_u64:
  assumes "wc_max_wall_ms clock < 2 ^ 64" "journal_of env rc snap clock = (j, clock')"
  shows "oj_opened_wall_ms j < 2 ^ 64 \<and> oj_last_change_wall_ms j < 2 ^ 64"
proof -
  obtain t1 c1 where 1: "wall_ms (os_opened_at snap) clock = (t1, c1)" by fastforce
  obtain t2 c2 where 2: "wall_ms (os_last_change_at snap) c1 = (t2, c2)" by fastforce
  from wall_ms_u64[OF assms(1) 1] wall_ms_u64[OF _ 2] assms(2) show ?thesis
    by (auto simp: journal_of_def 1 2)
qed

lemma dec_enc_journal:
  assumes "oj_opened_wall_ms j < 2 ^ 64" "oj_last_change_wall_ms j < 2 ^ 64"
  shows "dec_journal fresh (enc_journal j) = Some j"
proof -
  have d: "dec_u64 (enc_u64 (oj_opened_wall_ms j)) = Some (oj_opened_wall_ms j)"
      "dec_u64 (enc_u64 (oj_last_change_wall_ms j)) = Some (oj_last_change_wall_ms j)"
    using assms by (simp_all add: enc_u64_def nat_less_iff)
  show ?thesis
    by (simp add: enc_journal_def journal_fields_def optf_def req_def dflt_def d str.dec_opt_enc
        fentry.dec_arr_enc del: dec_u64.simps dec_arr.simps)
qed

lemma written_v: "list_all (\<lambda>r. log_v r = SCHEMA_MAJOR) (written env outs rc d ts cd)"
  by (induction ts arbitrary: outs cd)
    (auto simp: Let_def written_record_def closed_record_def SCHEMA_MAJOR_def)

lemma batches_written_v: "list_all (\<lambda>r. log_v r = SCHEMA_MAJOR) (batches_written env bs cd)"
proof (induction bs arbitrary: cd)
  case (Cons b bs)
  obtain outs rc d ts where b: "b = (outs, rc, d, ts)" by (metis prod.exhaust)
  obtain r1 cd1 where p: "persist env outs rc d ts cd = (r1, cd1)" by (metis prod.exhaust)
  show ?case by (cases r1) (simp_all add: b p written_v Cons.IH)
qed simp

lemma sync_writes:
  assumes "sync_journal env so e rc (clock, cache, dk) = (clock1, cache1, dk1)"
    and "snapshot_open e = Some snap" "\<not> so_nonregular so" "so_write_ok so" "so_rename_ok so"
    and "cache \<noteq> None \<Longrightarrow> dk_journal dk = cache"
  shows "dk_journal dk1 = Some (de_to_string env (enc_journal (fst (journal_of env rc snap clock))))
    \<and> dk_log dk1 = dk_log dk"
  using assms by (cases cache) (auto simp: sync_journal_def Let_def split: prod.splits if_splits)

lemma count_ids_once: "distinct xs \<Longrightarrow> count_list xs x = (if x \<in> set xs then 1 else 0)"
  by (induction xs) auto

lemma count_ids_append: "count_list (xs @ ys) x = count_list xs x + count_list ys x"
  by (induction xs) auto

text \<open>
  A journal's turn matched by what it holds only by a turn of its own id: the fallback of recovery
  for journals without ids then never takes another turn for it.
\<close>

definition told_apart :: "orphan_journal \<Rightarrow> log_record list \<Rightarrow> bool" where
  "told_apart j rs \<longleftrightarrow> list_all (\<lambda>r. oj_id j \<in> set (turn_ids_of [r])) (filter
     (describes j (tr_started (recovered_turn j (None, None))) (tr_ended (recovered_turn j (None, None)))) rs)"

lemma describes_id: "oj_id j \<in> set (turn_ids_of [r]) \<Longrightarrow> describes j s e r"
  by (cases r) auto

lemma turn_ids_of_ex: "i \<in> set (turn_ids_of rs) \<longleftrightarrow> (\<exists>r \<in> set rs. i \<in> set (turn_ids_of [r]))"
proof (induction rs)
  case (Cons r rs)
  then show ?case by (cases r) auto
qed simp

lemma recovered_once:
  assumes "journal_in env fresh dk = Some j" "wo_log_ok w"
    and "logged env dk = old @ new" "length new \<le> 50" "oj_id j \<notin> set (turn_ids_of old)"
    and "distinct (turn_ids_of new)" "told_apart j (logged env dk)"
    and "whole_lines (dk_log dk)" "rendered env (recovery_record env w j dk)"
  shows "fst (recover_orphan env w fresh dk) = Inr ()
    \<and> count_list (turn_ids_of (logged env (snd (recover_orphan env w fresh dk)))) (oj_id j) = 1"
proof -
  let ?s = "tr_started (recovered_turn j (None, None))" and ?e = "tr_ended (recovered_turn j (None, None))"
  have r: "recover_orphan env w fresh dk = recover_journal env w j dk"
    using assms(1) by (simp add: recover_orphan_journal)
  have old: "count_list (turn_ids_of old) (oj_id j) = 0"
    using assms(5) by (simp add: count_list_0_iff)
  have known: "already_logged env dk j ?s ?e" if "oj_id j \<in> set (turn_ids_of new)"
  proof -
    from that obtain r where r: "r \<in> set new" "oj_id j \<in> set (turn_ids_of [r])" by (meson turn_ids_of_ex)
    then have "r \<in> set (take 50 (rev (logged env dk)))" using assms(3,4) by simp
    with describes_id[OF r(2)] show ?thesis by (auto simp: already_logged_def list_ex_iff)
  qed
  from recover_journal_cases[of env dk j w] show ?thesis
  proof cases
    case known
    then obtain r where "r \<in> set (logged env dk)" "describes j ?s ?e r"
      by (auto simp: already_logged_def list_ex_iff dest!: in_set_takeD)
    then have "oj_id j \<in> set (turn_ids_of [r])" "r \<in> set (logged env dk)"
      using assms(7) by (auto simp: told_apart_def list_all_iff)
    then have "oj_id j \<in> set (turn_ids_of (logged env dk))" by (meson turn_ids_of_ex)
    then have "oj_id j \<in> set (turn_ids_of new)" using assms(3,5) by simp
    then have "count_list (turn_ids_of (logged env dk)) (oj_id j) = 1"
      using old assms(3,6) by (simp add: count_ids_append count_ids_once)
    moreover have "logged env (remove_journal (wo_remove_ok w) dk) = logged env dk" by (simp add: logged_def)
    ultimately show ?thesis using known(2) r by simp
  next
    case (added dk')
    have l: "logged env dk' = logged env dk @ [recovery_record env w j dk]"
      using assms(8,9) added(3) by (intro logged_append) (simp_all add: recovery_log_v)
    have id: "turn_ids_of [recovery_record env w j dk] = [oj_id j]"
      by (simp add: recovery_record_def recovered_turn_def split: prod.splits)
    have "oj_id j \<notin> set (turn_ids_of new)"
    proof
      assume "oj_id j \<in> set (turn_ids_of new)"
      from known[OF this] added(2,3) show False
        by (auto simp: recover_journal_def Let_def)
    qed
    then have "count_list (turn_ids_of new) (oj_id j) = 0" by (simp add: count_list_0_iff)
    with l id old assms(3) have "count_list (turn_ids_of (logged env dk')) (oj_id j) = 1"
      by (simp add: count_ids_append)
    with added r show ?thesis by simp
  qed (use assms(2) in simp)
qed


lemma run_machine_prefix:
  "run_machine step s out es = (s', out') \<Longrightarrow> run_machine step s (pre @ out) es = (s', pre @ out')"
  by (induction es arbitrary: s out) (auto split: prod.splits)



definition crash_obs :: change_obs where
  "crash_obs = \<lparr>co_path = ''x'', co_before_hash = None, co_snapshotted = True, co_withheld = False,
     co_baseline_unknown = False, co_deleted = False, co_skip_reason = None\<rparr>"

definition crash_journal :: orphan_journal where
  "crash_journal = \<lparr>oj_source = ''quiet'', oj_tool = None, oj_prompt = None, oj_session = None,
     oj_opened_wall_ms = 1000, oj_last_change_wall_ms = 1000, oj_root = ''/r'',
     oj_files = [resolve (recorder_scan [] []) crash_obs], oj_id = ''a''\<rparr>"

definition crash_env :: daemon_env where
  "crash_env = \<lparr>de_to_string = (\<lambda>j. case j of JObj ((k, _) # _) \<Rightarrow> if k = ''type'' then ''r'' else ''j'' | _ \<Rightarrow> ''x''),
     de_from_str = (\<lambda>s. if s = ''r'' then Some (enc_log (Turn (recovered_turn crash_journal (None, None))))
                        else if s = ''j'' then Some (enc_journal crash_journal) else None),
     de_sha = id, de_scrub = id, de_excerpt = id, de_root = ''/r''\<rparr>"

definition crash_turn :: closed_turn where
  "crash_turn = \<lparr>ct_id = ''a'', ct_grade = ''bare'', ct_boundary = ''quiet'', ct_truncated = False,
     ct_tool = None, ct_prompt = None, ct_session = None, ct_opened_at = 1000, ct_closed_at = 1000,
     ct_files = [crash_obs], ct_merges = []\<rparr>"

definition crash_disk :: "string \<Rightarrow> string option \<Rightarrow> disk" where
  "crash_disk body journal = \<lparr>dk_store = [], dk_state = default_state, dk_log = body, dk_journal = journal, dk_memories = []\<rparr>"

definition write_ok :: write_outcome where
  "write_ok = \<lparr>wo_io = IoOk, wo_touch_ok = True, wo_now = 0, wo_state_ok = True, wo_log_ok = True, wo_remove_ok = False\<rparr>"

lemma crash_rendered: "rendered crash_env (Turn (recovered_turn crash_journal (None, None)))"
proof -
  have "trim ''r'' = ''r''" by (rule trim_visible; simp add: byte_in_def)
  moreover have "byte_in 0 127 CHR ''r''" by code_simp
  ultimately show ?thesis
    by (simp add: rendered_def renders_def Let_def crash_env_def log_line_def NL_def CR_def)
qed


text \<open>The crash came before the turn was logged: recovery logs it, and the journal's removal fails.\<close>

theorem recovery_is_idempotent_witness:
  "case recover_orphan crash_env write_ok [] (crash_disk [] (Some ''j'')) of
      (Inl _, dk1) \<Rightarrow> dk_log dk1 = [] \<and> dk_journal dk1 = Some ''j''
    | (Inr _, dk1) \<Rightarrow> fst (recover_orphan crash_env write_ok ''b'' dk1) = Inr ()
        \<and> dk_log (snd (recover_orphan crash_env write_ok ''b'' dk1)) = dk_log dk1"
proof -
  have "byte_in 0 127 CHR ''j''" by code_simp
  then have "journal_in crash_env [] (crash_disk [] (Some ''j'')) = dec_journal [] (enc_journal crash_journal)"
    by (simp add: journal_in_def crash_disk_def crash_env_def)
  then have j: "journal_in crash_env [] (crash_disk [] (Some ''j'')) = Some crash_journal"
    by (simp add: dec_enc_journal crash_journal_def)
  have r: "recovery_record crash_env write_ok crash_journal d = Turn (recovered_turn crash_journal (None, None))" for d
    by (simp add: recovery_record_def recovery_prompt_def recovery_grade_def crash_journal_def)
  have d: "dk_log (crash_disk [] (Some ''j'')) = []" "dk_journal (crash_disk [] (Some ''j'')) = Some ''j''"
    by (simp_all add: crash_disk_def)
  have l: "logged crash_env (crash_disk [] (Some ''j'')) = []"
    by (simp add: logged_def load_log_def List.map_filter_simps d)
  show ?thesis
    using recovery_is_idempotent[of "crash_disk [] (Some ''j'')" "[]" crash_env write_ok write_ok "''b''"]
    by (simp add: j r crash_rendered whole_lines_def l d split: sum.splits prod.splits) blast
qed

end
