(* ===== verification/Stale.thy ===== *)
theory Stale
  imports Attest Watch Scrub Store Undo_Plan
begin

text \<open>
  Staling of claims by file writes: the coverage map and what a write touches
  (cli/src/attest/coverage.rs), the daemon's marker (cli/src/daemon.rs) and the append of attest
  events (cli/src/attest/lock.rs).
\<close>

subsection \<open>Coverage map\<close>

record coverage_entry =
  ce_claim_id :: claim_id
  ce_files :: "string list"
  ce_over_stale :: "string list"
  ce_captured_at :: nat
  ce_commit :: string

text \<open>\<open>tests\<close> in the order of their identities, as the map iterates.\<close>

record coverage_map =
  cm_version :: "32 word"
  cm_granularity :: string
  cm_tests :: "(string \<times> coverage_entry) list"

definition DEFAULT_COVERAGE_REL :: string where
  "DEFAULT_COVERAGE_REL = ''.agentrec/attest-coverage.json''"

definition resolve_coverage_path :: "(string \<Rightarrow> string) \<Rightarrow> string option \<Rightarrow> string" where
  "resolve_coverage_path join configured =
     join (case configured of Some p \<Rightarrow> p | None \<Rightarrow> DEFAULT_COVERAGE_REL)"

text \<open>What reading the map's file gives: nothing there, an error, or text.\<close>

datatype map_file = MapMissing | MapUnreadable | MapText string

definition load_coverage_map_at :: "(string \<Rightarrow> coverage_map option) \<Rightarrow> map_file \<Rightarrow> string + coverage_map option" where
  "load_coverage_map_at from_str f = (case f of
     MapMissing \<Rightarrow> Inr None
   | MapUnreadable \<Rightarrow> Inl ''cannot read''
   | MapText s \<Rightarrow> if \<not> utf8_valid s then Inl ''cannot read''
       else case from_str s of Some m \<Rightarrow> Inr (Some m) | None \<Rightarrow> Inl ''cannot parse'')"

datatype match_kind = ExactFile | OverStale string

text \<open>
  \<open>glob_hits\<close> is one gitignore line compiled and asked about a path or its parents (crate ignore);
  a line that does not compile hits nothing.
\<close>

definition match_kind_of :: "(string \<Rightarrow> string \<Rightarrow> bool) \<Rightarrow> coverage_entry \<Rightarrow> string \<Rightarrow> match_kind option" where
  "match_kind_of glob_hits entry rel_path =
     (if rel_path \<in> set (ce_files entry) then Some ExactFile
      else if is_absolute rel_path then None
      else map_option OverStale (List.find (\<lambda>g. glob_hits g rel_path) (ce_over_stale entry)))"

fun touched_from :: "(string \<Rightarrow> string \<Rightarrow> bool) \<Rightarrow> string \<Rightarrow> (claim_id \<times> match_kind) list
    \<Rightarrow> coverage_entry list \<Rightarrow> (claim_id \<times> match_kind) list" where
  "touched_from glob_hits rel_path out [] = out"
| "touched_from glob_hits rel_path out (e # es) = (case match_kind_of glob_hits e rel_path of
     None \<Rightarrow> touched_from glob_hits rel_path out es
   | Some kind \<Rightarrow>
       if list_ex (\<lambda>x. fst x = ce_claim_id e) out then touched_from glob_hits rel_path out es
       else touched_from glob_hits rel_path (out @ [(ce_claim_id e, kind)]) es)"

definition claims_touched_by :: "(string \<Rightarrow> string \<Rightarrow> bool) \<Rightarrow> coverage_map \<Rightarrow> string \<Rightarrow> (claim_id \<times> match_kind) list" where
  "claims_touched_by glob_hits m rel_path = touched_from glob_hits rel_path [] (map snd (cm_tests m))"

subsection \<open>Appending attest events\<close>

text \<open>
  \<open>ok\<close>: lock, open, write and flush all succeed; \<open>to_line\<close> is the JSON text of an event. The file's
  text is empty when it is absent.
\<close>

definition append_attest_locked :: "(attest_event \<Rightarrow> string) \<Rightarrow> bool \<Rightarrow> attest_event list \<Rightarrow> string
    \<Rightarrow> (string + unit) \<times> string" where
  "append_attest_locked to_line ok evs log_text =
     (if evs = [] then (Inr (), log_text)
      else if \<not> ok then (Inl ''attest log'', log_text)
      else (Inr (), log_text @ concat (map (\<lambda>e. to_line e @ [NL]) evs)))"

subsection \<open>The daemon's marker\<close>

record stale_marker =
  sm_enabled :: bool
  sm_fingerprint :: "hash option"
  sm_map :: "coverage_map option"
  sm_warned :: bool

definition new_marker :: "bool \<Rightarrow> stale_marker" where
  "new_marker enabled = \<lparr>sm_enabled = enabled, sm_fingerprint = None, sm_map = None, sm_warned = False\<rparr>"

text \<open>\<open>f\<close> is what the fingerprint read sees, \<open>f'\<close> what the load that may follow sees.\<close>

definition refresh_map :: "(string \<Rightarrow> string) \<Rightarrow> (string \<Rightarrow> coverage_map option) \<Rightarrow> map_file \<Rightarrow> map_file
    \<Rightarrow> stale_marker \<Rightarrow> stale_marker" where
  "refresh_map sha from_str f f' m =
     (let fp = (case f of MapText s \<Rightarrow> Some (hash_bytes sha s) | _ \<Rightarrow> None) in
      if fp = sm_fingerprint m \<and> (sm_map m \<noteq> None \<or> fp = None) then m
      else if fp = None then m\<lparr>sm_fingerprint := None, sm_map := None\<rparr>
      else (case load_coverage_map_at from_str f' of
        Inr cm \<Rightarrow> m\<lparr>sm_fingerprint := fp, sm_map := cm, sm_warned := False\<rparr>
      | Inl _ \<Rightarrow> m\<lparr>sm_fingerprint := fp, sm_map := None, sm_warned := True\<rparr>))"

fun cause_for :: "match_kind \<Rightarrow> string \<Rightarrow> stale_cause" where
  "cause_for ExactFile rel = FileWrite rel"
| "cause_for (OverStale scope) rel = CoverageIncomplete scope"

definition own_path :: "string \<Rightarrow> bool" where
  "own_path rel \<longleftrightarrow> starts_with rel ''.agentrec/''"

text \<open>The touched paths as text, sorted, without the recorder's own.\<close>

definition batch_rels :: "path \<Rightarrow> path list \<Rightarrow> string list" where
  "batch_rels base paths = sort (filter (\<lambda>rel. \<not> own_path rel)
     (map (\<lambda>rel. map (\<lambda>c. if c = CHR 0x5C then CHR ''/'' else c) (utf8_lossy (join_with ''/'' rel)))
        (List.map_filter (under base) paths)))"

fun stale_step :: "nat \<Rightarrow> string \<Rightarrow> claim_id list \<times> attest_event list \<Rightarrow> claim_id \<times> match_kind
    \<Rightarrow> claim_id list \<times> attest_event list" where
  "stale_step ts rel (seen, evs) (c, kind) =
     (if c \<in> set seen then (seen, evs) else (seen @ [c], evs @ [Stale ts c (cause_for kind rel)]))"

definition stale_events :: "(string \<Rightarrow> string \<Rightarrow> bool) \<Rightarrow> coverage_map \<Rightarrow> nat \<Rightarrow> string list \<Rightarrow> attest_event list" where
  "stale_events glob_hits m ts rels = snd (foldl (\<lambda>acc rel.
     foldl (stale_step ts rel) acc (claims_touched_by glob_hits m rel)) ([], []) rels)"

definition on_batch :: "(string \<Rightarrow> string) \<Rightarrow> (string \<Rightarrow> coverage_map option) \<Rightarrow> (string \<Rightarrow> string \<Rightarrow> bool)
    \<Rightarrow> (attest_event \<Rightarrow> string) \<Rightarrow> bool \<Rightarrow> map_file \<times> map_file \<Rightarrow> path \<Rightarrow> path list \<Rightarrow> nat
    \<Rightarrow> stale_marker \<times> string \<Rightarrow> stale_marker \<times> string" where
  "on_batch sha from_str glob_hits to_line ok files base paths ts ma = (case ma of (m, log_text) \<Rightarrow>
     (if \<not> sm_enabled m \<or> paths = [] then (m, log_text)
      else let m' = refresh_map sha from_str (fst files) (snd files) m in
        case sm_map m' of
          None \<Rightarrow> (m', log_text)
        | Some cm \<Rightarrow> (m', snd (append_attest_locked to_line ok
            (stale_events glob_hits cm ts (batch_rels base paths)) log_text))))"

end
