(* ===== verification/Stale_Props.thy ===== *)
theory Stale_Props
  imports Stale "HOL-Library.Multiset"
begin

text \<open>
  A batch of writes stales exactly the claims its paths touch, each once, whatever the order in which
  the pending set is visited.
\<close>

definition touched :: "(string \<Rightarrow> string \<Rightarrow> bool) \<Rightarrow> coverage_map \<Rightarrow> string \<Rightarrow> claim_id set" where
  "touched glob_hits m rel = ce_claim_id ` {e \<in> snd ` set (cm_tests m). match_kind_of glob_hits e rel \<noteq> None}"

lemma touched_from_claims:
  assumes "distinct (map fst out)"
  shows "distinct (map fst (touched_from glob_hits rel out es))
    \<and> fst ` set (touched_from glob_hits rel out es)
      = fst ` set out \<union> ce_claim_id ` {e \<in> set es. match_kind_of glob_hits e rel \<noteq> None}"
  using assms
proof (induction es arbitrary: out)
  case (Cons e es)
  show ?case
  proof (cases "match_kind_of glob_hits e rel")
    case None
    with Cons.IH[OF Cons.prems] show ?thesis by auto
  next
    case (Some kind)
    show ?thesis
    proof (cases "list_ex (\<lambda>x. fst x = ce_claim_id e) out")
      case True
      then have "ce_claim_id e \<in> fst ` set out" by (force simp: list_ex_iff)
      with Cons.IH[OF Cons.prems] Some True show ?thesis by auto
    next
      case False
      then have "ce_claim_id e \<notin> fst ` set out" by (force simp: list_ex_iff)
      with Cons.IH[of "out @ [(ce_claim_id e, kind)]"] Cons.prems Some False show ?thesis by auto
    qed
  qed
qed simp

lemma claims_touched: "distinct (map fst (claims_touched_by glob_hits m rel))"
  "fst ` set (claims_touched_by glob_hits m rel) = touched glob_hits m rel"
  using touched_from_claims[of "[]" glob_hits rel "map snd (cm_tests m)"]
  by (simp_all add: claims_touched_by_def touched_def)

definition staled :: "attest_event list \<Rightarrow> claim_id list" where
  "staled evs = map event_claim_id evs"

lemma stale_steps:
  assumes "foldl (stale_step ts rel) (seen, evs) cs = (seen', evs')" "staled evs = seen" "distinct seen"
  shows "staled evs' = seen' \<and> distinct seen' \<and> set seen' = set seen \<union> fst ` set cs"
  using assms
proof (induction cs arbitrary: seen evs)
  case (Cons c cs)
  obtain cl kind where c: "c = (cl, kind)" by fastforce
  show ?case
  proof (cases "cl \<in> set seen")
    case True
    with Cons.prems Cons.IH[of seen evs] c show ?thesis by auto
  next
    case False
    with Cons.prems Cons.IH[of "seen @ [cl]" "evs @ [Stale ts cl (cause_for kind rel)]"] c show ?thesis
      by (auto simp: staled_def)
  qed
qed simp

lemma stale_events_from:
  assumes "foldl (\<lambda>acc rel. foldl (stale_step ts rel) acc (claims_touched_by glob_hits m rel)) (seen, evs) rels
      = (seen', evs')" "staled evs = seen" "distinct seen"
  shows "staled evs' = seen' \<and> distinct seen' \<and> set seen' = set seen \<union> \<Union> (touched glob_hits m ` set rels)"
  using assms
proof (induction rels arbitrary: seen evs)
  case (Cons rel rels)
  obtain seen1 evs1 where s: "foldl (stale_step ts rel) (seen, evs) (claims_touched_by glob_hits m rel) = (seen1, evs1)"
    by fastforce
  from stale_steps[OF s Cons.prems(2,3)] Cons.IH[of seen1 evs1] Cons.prems(1) s show ?case
    by (auto simp: claims_touched)
qed simp

lemma stale_events_claims:
  "distinct (staled (stale_events glob_hits m ts rels))"
  "set (staled (stale_events glob_hits m ts rels)) = \<Union> (touched glob_hits m ` set rels)"
proof -
  obtain seen evs where r: "foldl (\<lambda>acc rel. foldl (stale_step ts rel) acc (claims_touched_by glob_hits m rel))
      ([], []) rels = (seen, evs)" by fastforce
  from stale_events_from[OF r] show "distinct (staled (stale_events glob_hits m ts rels))"
    "set (staled (stale_events glob_hits m ts rels)) = \<Union> (touched glob_hits m ` set rels)"
    by (simp_all add: stale_events_def r staled_def)
qed

lemma batch_rels_order: "mset paths = mset paths' \<Longrightarrow> batch_rels base paths = batch_rels base paths'"
proof -
  assume "mset paths = mset paths'"
  then have "mset (List.map_filter (under base) paths) = mset (List.map_filter (under base) paths')"
    by (simp add: List.map_filter_def)
  then show ?thesis
    unfolding batch_rels_def
    by (intro properties_for_sort[symmetric]) (simp_all add: sorted_sort)
qed


end
