(* ===== verification/Purge.thy ===== *)
theory Purge
  imports Memory View Store Ids_Time Retention Recorder_State Signals
begin

text \<open>
  \<open>agentrec purge\<close> (cli/src/purgecmd.rs): each kind of removal as a function of the site's files, with
  the outcomes of the writes as arguments. Blobs are moved to an archive store, except that
  \<open>--snapshots-before\<close> deletes; files are archived before they are rewritten.
\<close>

subsection \<open>The site\<close>

text \<open>What reading a file gives: nothing there, not a regular file, unreadable, or its bytes.\<close>

datatype site_file = FileAbsent | FileIrregular | FileUnreadable | FileBytes string

datatype read_error = NotFound | Refused

definition read_text :: "site_file \<Rightarrow> read_error + string" where
  "read_text f = (case f of
     FileAbsent \<Rightarrow> Inl NotFound
   | FileBytes b \<Rightarrow> if utf8_valid b then Inr b else Inl Refused
   | _ \<Rightarrow> Inl Refused)"

definition file_bytes :: "site_file \<Rightarrow> string option" where
  "file_bytes f = (case f of FileBytes b \<Rightarrow> Some b | _ \<Rightarrow> None)"

text \<open>The archive store is the directory \<open>objects.archived.<ts>\<close> of this run; other archives by name.\<close>

record purge_site =
  ps_store :: store
  ps_archive :: store
  ps_log :: site_file
  ps_journal :: site_file
  ps_memory :: site_file
  ps_attest :: site_file
  ps_signal :: site_file
  ps_state :: "state option"
  ps_archived :: "string \<rightharpoonup> string"

datatype purge_error =
    DaemonRunning
  | ConfigError
  | InvalidDate
  | EmptyPattern
  | LivenessRefused
  | FileRefused
  | LockHeld
  | ArchiveFailed
  | ChangedMeanwhile
  | RewriteFailed
  | NoState
  | OffsetPastEnd
  | OffsetMidLine
  | RebaseFailed

text \<open>
  Whether the daemon runs, serde_json, \<open>ttl_days\<close> or the configuration's error, the time, which blob
  moves and removals succeed, the locks, the writes of an archive, of the rewrite and of
  \<open>state.json\<close>, and how many bytes a concurrent writer has appended when the length is looked at again.
\<close>

record purge_env =
  pe_running :: bool
  pe_from_str :: "string \<Rightarrow> json option"
  pe_ttl_days :: "nat option"
  pe_now :: nat
  pe_move_ok :: "hash \<Rightarrow> bool"
  pe_lock_ok :: bool
  pe_archive_ok :: bool
  pe_grown :: int
  pe_rewrite_ok :: bool
  pe_state_ok :: bool

definition DAY_MS :: nat where "DAY_MS = 86400000"

subsection \<open>References\<close>

fun owned_turns :: "log_record list \<Rightarrow> turn_record list" where
  "owned_turns [] = []"
| "owned_turns (Turn t # rs) = t # owned_turns rs"
| "owned_turns (Epoch _ # rs) = owned_turns rs"

definition site_turns :: "purge_env \<Rightarrow> purge_site \<Rightarrow> turn_record list" where
  "site_turns env s = owned_turns (load_log (pe_from_str env) (file_bytes (ps_log s)))"

definition snapshot_hashes :: "turn_record list \<Rightarrow> hash list" where
  "snapshot_hashes ts = concat (map turn_snapshot_hashes ts)"

definition prompt_hashes :: "turn_record list \<Rightarrow> hash list" where
  "prompt_hashes ts = List.map_filter tr_prompt_ref ts"

text \<open>One scan for the prefix and 64 lower-case hex digits; a hit skips past itself.\<close>

definition hex_ref :: "string \<Rightarrow> bool" where
  "hex_ref s \<longleftrightarrow> starts_with s ''sha256:'' \<and> length s \<ge> 71
     \<and> list_all (\<lambda>c. byte_in 0x30 0x39 c \<or> byte_in 0x61 0x66 c) (take 64 (drop 7 s))"

function harvest_refs :: "string \<Rightarrow> hash list" where
  "harvest_refs s = (if s = [] then []
     else if hex_ref s then take 71 s # harvest_refs (drop 71 s)
     else harvest_refs (tl s))"
  by pat_completeness auto
termination
  by (relation "measure length") (auto simp: hex_ref_def)

declare harvest_refs.simps [simp del]

text \<open>A file that feeds a liveness set: not regular is an error, anything unreadable is empty.\<close>

definition read_liveness_input :: "site_file \<Rightarrow> purge_error + string" where
  "read_liveness_input f = (case f of
     FileIrregular \<Rightarrow> Inl LivenessRefused
   | _ \<Rightarrow> (case read_text f of Inr b \<Rightarrow> Inr b | Inl _ \<Rightarrow> Inr []))"

fun harvest_files :: "site_file list \<Rightarrow> purge_error + hash list" where
  "harvest_files [] = Inr []"
| "harvest_files (f # fs) = (case read_liveness_input f of
     Inl e \<Rightarrow> Inl e
   | Inr b \<Rightarrow> (case harvest_files fs of Inl e \<Rightarrow> Inl e | Inr hs \<Rightarrow> Inr (harvest_refs b @ hs)))"

definition referenced_hashes_outside_log :: "purge_site \<Rightarrow> purge_error + hash list" where
  "referenced_hashes_outside_log s = harvest_files [ps_journal s, ps_memory s, ps_attest s]"

definition referenced_hashes :: "purge_site \<Rightarrow> purge_error + hash list" where
  "referenced_hashes s = harvest_files [ps_log s, ps_journal s, ps_memory s, ps_attest s]"

subsection \<open>Moving blobs\<close>

text \<open>Count and bytes of what moved; \<open>hs\<close> is the set in the order its iteration visits it.\<close>

definition archive_step :: "(hash \<Rightarrow> bool) \<Rightarrow> (nat \<times> nat) \<times> store \<times> store \<Rightarrow> hash \<Rightarrow> (nat \<times> nat) \<times> store \<times> store" where
  "archive_step ok acc h = (case acc of ((n, bytes), s, arch) \<Rightarrow>
     (case archive_blob (ok h) s arch h of
        (None, s', arch') \<Rightarrow> ((n, bytes), s', arch')
      | (Some freed, s', arch') \<Rightarrow> ((n + 1, bytes + freed), s', arch')))"

definition archive_all :: "(hash \<Rightarrow> bool) \<Rightarrow> hash list \<Rightarrow> store \<times> store \<Rightarrow> (nat \<times> nat) \<times> store \<times> store" where
  "archive_all ok hs sa = foldl (archive_step ok) ((0, 0), sa) hs"

definition delete_step :: "(hash \<Rightarrow> bool) \<Rightarrow> (nat \<times> nat) \<times> store \<Rightarrow> hash \<Rightarrow> (nat \<times> nat) \<times> store" where
  "delete_step ok acc h = (case acc of ((n, bytes), s) \<Rightarrow>
     (case remove_blob (ok h) s h of
        (None, s') \<Rightarrow> ((n, bytes), s')
      | (Some freed, s') \<Rightarrow> ((n + 1, bytes + freed), s')))"

definition delete_all :: "(hash \<Rightarrow> bool) \<Rightarrow> hash list \<Rightarrow> store \<Rightarrow> (nat \<times> nat) \<times> store" where
  "delete_all ok hs s = foldl (delete_step ok) ((0, 0), s) hs"

definition archive_hashes :: "purge_env \<Rightarrow> hash list \<Rightarrow> purge_site \<Rightarrow> (nat \<times> nat) \<times> purge_site" where
  "archive_hashes env hs s = (case archive_all (pe_move_ok env) hs (ps_store s, ps_archive s) of
     (nb, s', arch') \<Rightarrow> (nb, s\<lparr>ps_store := s', ps_archive := arch'\<rparr>))"

subsection \<open>Prompts and old snapshots\<close>

definition ttl_cutoff :: "nat \<Rightarrow> nat \<Rightarrow> string" where
  "ttl_cutoff now ttl_days = rfc3339 (now - min (ttl_days * DAY_MS) u64_max)"

definition prompt_keep :: "bool \<Rightarrow> string \<Rightarrow> turn_record list \<Rightarrow> hash set" where
  "prompt_keep all_prompts cutoff ts =
     (if all_prompts then {} else set (prompt_hashes (filter (\<lambda>t. tr_started t \<ge> cutoff) ts)))
     \<union> set (snapshot_hashes ts)"

definition prompt_candidates :: "bool \<Rightarrow> string \<Rightarrow> turn_record list \<Rightarrow> hash list" where
  "prompt_candidates all_prompts cutoff ts =
     dedup (filter (\<lambda>h. h \<notin> prompt_keep all_prompts cutoff ts)
       (prompt_hashes (filter (\<lambda>t. all_prompts \<or> tr_started t < cutoff) ts)))"

text \<open>\<open>ts\<close> are the turns read at the start of the command, the site's log is read again.\<close>

definition purge_prompts :: "purge_env \<Rightarrow> turn_record list \<Rightarrow> bool \<Rightarrow> purge_site \<Rightarrow> (purge_error + nat \<times> nat) \<times> purge_site" where
  "purge_prompts env ts all_prompts s =
     (if pe_running env then (Inl DaemonRunning, s)
      else case pe_ttl_days env of
        None \<Rightarrow> (Inl ConfigError, s)
      | Some ttl \<Rightarrow>
          (let cutoff = ttl_cutoff (pe_now env) ttl;
               hs = filter (\<lambda>h. h \<notin> prompt_keep all_prompts cutoff (site_turns env s))
                      (prompt_candidates all_prompts cutoff ts)
           in case archive_hashes env hs s of (nb, s') \<Rightarrow> (Inr nb, s')))"

text \<open>\<open>str::parse::<u32>\<close>: an optional plus sign and digits, in range.\<close>

definition parse_u32 :: "string \<Rightarrow> nat option" where
  "parse_u32 s =
     (let ds = (case s of CHR ''+'' # r \<Rightarrow> r | _ \<Rightarrow> s);
          n = foldl (\<lambda>acc c. acc * 10 + (of_char c - 48)) 0 ds in
      if ds = [] \<or> \<not> list_all (byte_in 0x30 0x39) ds \<or> n \<ge> 2 ^ 32 then None else Some n)"

definition parse_date_cutoff :: "string \<Rightarrow> purge_error + string" where
  "parse_date_cutoff date = (case split_on CHR ''-'' date of
     [ys, ms, ds] \<Rightarrow>
       (case (parse_u32 ys, parse_u32 ms, parse_u32 ds) of
          (Some y, Some m, Some d) \<Rightarrow>
            if \<not> (1 \<le> m \<and> m \<le> 12) \<or> \<not> (1 \<le> d \<and> d \<le> 31) then Inl InvalidDate
            else Inr (padded 4 y @ ''-'' @ padded 2 m @ ''-'' @ padded 2 d @ ''T00:00:00.000Z'')
        | _ \<Rightarrow> Inl InvalidDate)
   | _ \<Rightarrow> Inl InvalidDate)"

definition snapshot_keep :: "string \<Rightarrow> turn_record list \<Rightarrow> hash set" where
  "snapshot_keep cutoff ts =
     set (snapshot_hashes (filter (\<lambda>t. tr_started t \<ge> cutoff) ts)) \<union> set (prompt_hashes ts)"

definition snapshot_candidates :: "string \<Rightarrow> turn_record list \<Rightarrow> hash list" where
  "snapshot_candidates cutoff ts =
     dedup (filter (\<lambda>h. h \<notin> snapshot_keep cutoff ts) (snapshot_hashes (filter (\<lambda>t. \<not> tr_started t \<ge> cutoff) ts)))"

definition purge_snapshots_before :: "purge_env \<Rightarrow> turn_record list \<Rightarrow> string \<Rightarrow> purge_site
    \<Rightarrow> (purge_error + nat \<times> nat) \<times> purge_site" where
  "purge_snapshots_before env ts date s = (case parse_date_cutoff date of
     Inl e \<Rightarrow> (Inl e, s)
   | Inr cutoff \<Rightarrow>
       (let hs = filter (\<lambda>h. h \<notin> snapshot_keep cutoff (site_turns env s)) (snapshot_candidates cutoff ts)
        in case delete_all (pe_move_ok env) hs (ps_store s) of (nb, st') \<Rightarrow> (Inr nb, s\<lparr>ps_store := st'\<rparr>)))"


subsection \<open>Rewrites\<close>

text \<open>The lines, each with its end, as \<open>writeln!\<close> writes them.\<close>

definition joined :: "string list \<Rightarrow> string" where
  "joined ls = concat (map (\<lambda>l. l @ [NL]) ls)"

definition archive_name :: "purge_env \<Rightarrow> string \<Rightarrow> string" where
  "archive_name env what = what @ ''.archived.'' @ decimal (pe_now env div 1000) @ ''.jsonl''"

definition append_archive :: "string \<Rightarrow> string \<Rightarrow> purge_site \<Rightarrow> purge_site" where
  "append_archive name body s = s\<lparr>ps_archived := (ps_archived s)(name \<mapsto>
     (case ps_archived s name of Some old \<Rightarrow> old | None \<Rightarrow> []) @ body)\<rparr>"

definition write_archive :: "string \<Rightarrow> string \<Rightarrow> purge_site \<Rightarrow> purge_site" where
  "write_archive name body s = s\<lparr>ps_archived := (ps_archived s)(name \<mapsto> body)\<rparr>"

text \<open>What \<open>lines\<close> leaves of the raw lines, each with the id it parses to.\<close>

definition raw_lines :: "(string \<Rightarrow> json option) \<Rightarrow> string \<Rightarrow> (string \<times> string option) list" where
  "raw_lines from_str body = map (\<lambda>l. (l, map_option mr_id (Option.bind (from_str l) dec_memory)))
     (filter (\<lambda>l. trim l \<noteq> []) (lines body))"

definition expired_ids :: "(string \<Rightarrow> json option) \<Rightarrow> nat \<Rightarrow> string \<Rightarrow> string list" where
  "expired_ids from_str cutoff_ms body = map em_id (filter (\<lambda>m. em_retracted m \<and> em_ts m < cutoff_ms)
     (load_effective from_str (MemBytes body)))"

definition expired_line :: "string list \<Rightarrow> string \<times> string option \<Rightarrow> bool" where
  "expired_line ids l \<longleftrightarrow> (case snd l of Some i \<Rightarrow> i \<in> set ids | None \<Rightarrow> False)"

definition purge_memories_retracted :: "purge_env \<Rightarrow> purge_site \<Rightarrow> (purge_error + nat) \<times> purge_site" where
  "purge_memories_retracted env s =
     (if pe_running env then (Inl DaemonRunning, s)
      else if \<not> pe_lock_ok env then (Inl LockHeld, s)
      else case pe_ttl_days env of
        None \<Rightarrow> (Inl ConfigError, s)
      | Some ttl \<Rightarrow>
          (let cutoff_ms = pe_now env - min (ttl * DAY_MS) u64_max in
           case read_text (ps_memory s) of
             Inl NotFound \<Rightarrow> (Inr 0, s)
           | Inl Refused \<Rightarrow> (Inl FileRefused, s)
           | Inr body \<Rightarrow>
               (let ids = expired_ids (pe_from_str env) cutoff_ms body; raw = raw_lines (pe_from_str env) body in
                if ids = [] then (Inr 0, s)
                else if \<not> pe_archive_ok env then (Inl ArchiveFailed, s)
                else let s1 = append_archive (archive_name env ''memory'') (joined (map fst (filter (expired_line ids) raw))) s in
                  if \<not> pe_rewrite_ok env then (Inl RewriteFailed, s1)
                  else (Inr (length (dedup ids)),
                    s1\<lparr>ps_memory := FileBytes (joined (map fst (filter (\<lambda>l. \<not> expired_line ids l) raw)))\<rparr>))))"

text \<open>A turn is a tagged turn record, or an untyped object that decodes as one.\<close>

definition classify_turn_line :: "(string \<Rightarrow> json option) \<Rightarrow> string \<Rightarrow> turn_record option" where
  "classify_turn_line from_str line = (case Option.bind (from_str line) dec_log of
     Some (Turn t) \<Rightarrow> Some t
   | Some (Epoch _) \<Rightarrow> None
   | None \<Rightarrow>
       if (case from_str line of Some (JObj fs) \<Rightarrow> list_ex (\<lambda>f. fst f = ''type'') fs | _ \<Rightarrow> False) then None
       else Option.bind (from_str line) dec_turn)"

record repair =
  rr_survivors :: "string list"
  rr_kept :: "turn_record list"
  rr_scanned :: nat
  rr_removed :: nat

definition repair_line :: "(string \<Rightarrow> json option) \<Rightarrow> repair \<Rightarrow> string \<Rightarrow> repair" where
  "repair_line from_str r line =
     (if trim line = [] then r\<lparr>rr_survivors := rr_survivors r @ [line]\<rparr>
      else case classify_turn_line from_str line of
        None \<Rightarrow> r\<lparr>rr_survivors := rr_survivors r @ [line]\<rparr>
      | Some t \<Rightarrow>
          (if list_ex (\<lambda>kept. same_revert kept t) (rr_kept r)
           then r\<lparr>rr_scanned := rr_scanned r + 1, rr_removed := rr_removed r + 1\<rparr>
           else r\<lparr>rr_scanned := rr_scanned r + 1, rr_kept := rr_kept r @ [t],
                  rr_survivors := rr_survivors r @ [line]\<rparr>))"

definition repaired :: "(string \<Rightarrow> json option) \<Rightarrow> string \<Rightarrow> repair" where
  "repaired from_str body = foldl (repair_line from_str)
     \<lparr>rr_survivors = [], rr_kept = [], rr_scanned = 0, rr_removed = 0\<rparr> (lines body)"

definition purge_log_duplicates :: "purge_env \<Rightarrow> purge_site \<Rightarrow> (purge_error + nat) \<times> purge_site" where
  "purge_log_duplicates env s =
     (if pe_running env then (Inl DaemonRunning, s)
      else if \<not> pe_lock_ok env then (Inl LockHeld, s)
      else case read_text (ps_log s) of
        Inl NotFound \<Rightarrow> (Inr 0, s)
      | Inl Refused \<Rightarrow> (Inl FileRefused, s)
      | Inr body \<Rightarrow>
          (let r = repaired (pe_from_str env) body in
           if rr_removed r = 0 then (Inr 0, s)
           else if \<not> pe_archive_ok env then (Inl ArchiveFailed, s)
           else let s1 = write_archive (archive_name env ''log'') body s in
             if pe_grown env > 0 then (Inl ChangedMeanwhile, s1)
             else if \<not> pe_rewrite_ok env then (Inl RewriteFailed, s1)
             else (Inr (rr_removed r), s1\<lparr>ps_log := FileBytes (joined (rr_survivors r))\<rparr>)))"

text \<open>
  The consumed prefix of the inbox goes; the rename comes before the rebase of the offset. The
  archive's removal after a change may itself fail; it is taken to succeed.
\<close>

definition purge_signals_consumed :: "purge_env \<Rightarrow> purge_site \<Rightarrow> (purge_error + nat) \<times> purge_site" where
  "purge_signals_consumed env s =
     (if pe_running env then (Inl DaemonRunning, s)
      else case ps_state s of
        None \<Rightarrow> (Inl NoState, s)
      | Some st \<Rightarrow>
          (let offset = st_signal_offset st in
           case ps_signal s of
             FileAbsent \<Rightarrow> (Inr 0, s)
           | FileIrregular \<Rightarrow> (Inl FileRefused, s)
           | FileUnreadable \<Rightarrow> (Inl FileRefused, s)
           | FileBytes bytes \<Rightarrow>
               if offset = 0 then (Inr 0, s)
               else if offset > length bytes then (Inl OffsetPastEnd, s)
               else if bytes ! (offset - 1) \<noteq> NL then (Inl OffsetMidLine, s)
               else if \<not> pe_archive_ok env then (Inl ArchiveFailed, s)
               else if pe_grown env \<noteq> 0
               then (Inl ChangedMeanwhile, s\<lparr>ps_archived := (ps_archived s)(archive_name env ''signal'' := None)\<rparr>)
               else let s1 = write_archive (archive_name env ''signal'') (take offset bytes) s in
                 if \<not> pe_rewrite_ok env then (Inl RewriteFailed, s1)
                 else let s2 = s1\<lparr>ps_signal := FileBytes (drop offset bytes)\<rparr> in
                   if \<not> pe_state_ok env then (Inl RebaseFailed, s2)
                   else (Inr offset, s2\<lparr>ps_state := Some (st\<lparr>st_signal_offset := 0\<rparr>)\<rparr>)))"

subsection \<open>Forgetting a path\<close>

text \<open>The backtracking matcher: \<open>**\<close> crosses separators, \<open>*\<close> and \<open>?\<close> do not.\<close>

function glob_rec :: "string \<Rightarrow> string \<Rightarrow> bool" where
  "glob_rec p t = (case p of
     [] \<Rightarrow> t = []
   | c # q \<Rightarrow>
       if c = CHR ''*'' then
         (case q of
            c2 # q2 \<Rightarrow>
              if c2 = CHR ''*'' then
                (case q2 of c3 # q3 \<Rightarrow> c3 = CHR ''/'' \<and> glob_rec q3 t | [] \<Rightarrow> False)
                \<or> list_ex (\<lambda>i. glob_rec q2 (drop i t)) [0..<Suc (length t)]
              else list_ex (\<lambda>i. CHR ''/'' \<notin> set (take i t) \<and> glob_rec q (drop i t)) [0..<Suc (length t)]
          | [] \<Rightarrow> list_ex (\<lambda>i. CHR ''/'' \<notin> set (take i t) \<and> glob_rec q (drop i t)) [0..<Suc (length t)])
       else if c = CHR ''?'' then
         (case t of d # u \<Rightarrow> d \<noteq> CHR ''/'' \<and> glob_rec q u | [] \<Rightarrow> False)
       else (case t of d # u \<Rightarrow> c = d \<and> glob_rec q u | [] \<Rightarrow> False))"
  by pat_completeness auto
termination by (relation "measure (\<lambda>(p, t). length p)") auto

declare glob_rec.simps [simp del]

definition trim_slashes :: "string \<Rightarrow> string" where
  "trim_slashes s = rev (dropWhile (\<lambda>c. c = CHR ''/'') (rev s))"

definition path_matches :: "string \<Rightarrow> string \<Rightarrow> bool" where
  "path_matches pattern p =
     (if pattern = p then True
      else if CHR ''*'' \<notin> set pattern \<and> CHR ''?'' \<notin> set pattern then
        (let dir = trim_slashes pattern in
         dir \<noteq> [] \<and> length p > length dir \<and> starts_with p dir \<and> p ! length dir = CHR ''/'')
      else glob_rec pattern p)"

record path_scan =
  sc_candidates :: "hash list"
  sc_protect :: "hash list"
  sc_matched :: nat

definition entry_hashes_of :: "file_entry \<Rightarrow> hash list" where
  "entry_hashes_of e = opt_list (fe_before e) @ opt_list (fe_after e)"

definition scan_entry :: "string \<Rightarrow> path_scan \<Rightarrow> file_entry \<Rightarrow> path_scan" where
  "scan_entry pattern sc e =
     (if path_matches pattern (fe_path e)
      then sc\<lparr>sc_matched := sc_matched sc + 1, sc_candidates := sc_candidates sc @ entry_hashes_of e\<rparr>
      else sc\<lparr>sc_protect := sc_protect sc @ entry_hashes_of e\<rparr>)"

definition scan_line :: "(string \<Rightarrow> json option) \<Rightarrow> string \<Rightarrow> path_scan \<Rightarrow> string \<Rightarrow> path_scan" where
  "scan_line from_str pattern sc line =
     (if trim line = [] then sc
      else case classify_turn_line from_str line of
        None \<Rightarrow> sc\<lparr>sc_protect := sc_protect sc @ harvest_refs line\<rparr>
      | Some t \<Rightarrow> foldl (scan_entry pattern)
          (sc\<lparr>sc_protect := sc_protect sc @ opt_list (tr_prompt_ref t)\<rparr>) (tr_files t))"

definition scan_for_path :: "(string \<Rightarrow> json option) \<Rightarrow> string \<Rightarrow> purge_site \<Rightarrow> purge_error + path_scan" where
  "scan_for_path from_str pattern s = (case read_liveness_input (ps_log s) of
     Inl e \<Rightarrow> Inl e
   | Inr body \<Rightarrow>
       (let sc = foldl (scan_line from_str pattern)
              \<lparr>sc_candidates = [], sc_protect = [], sc_matched = 0\<rparr> (lines body)
        in case referenced_hashes_outside_log s of
             Inl e \<Rightarrow> Inl e
           | Inr hs \<Rightarrow> Inr (sc\<lparr>sc_protect := sc_protect sc @ hs\<rparr>)))"

text \<open>\<open>first\<close> is the site at the first scan; blobs archived, and those kept as shared.\<close>

definition purge_path :: "purge_env \<Rightarrow> purge_site \<Rightarrow> string \<Rightarrow> purge_site
    \<Rightarrow> (purge_error + (nat \<times> nat) \<times> nat) \<times> purge_site" where
  "purge_path env first pattern s =
     (if pe_running env then (Inl DaemonRunning, s)
      else if trim pattern = [] then (Inl EmptyPattern, s)
      else case scan_for_path (pe_from_str env) pattern first of
        Inl e \<Rightarrow> (Inl e, s)
      | Inr sc \<Rightarrow>
          if sc_matched sc = 0 then (Inr ((0, 0), 0), s)
          else (case scan_for_path (pe_from_str env) pattern s of
            Inl e \<Rightarrow> (Inl e, s)
          | Inr fresh \<Rightarrow>
              (let candidates = dedup (sc_candidates sc);
                   archivable = sort (filter (\<lambda>h. h \<notin> set (sc_protect sc) \<and> h \<notin> set (sc_protect fresh)) candidates)
               in case archive_hashes env archivable s of
                    (nb, s') \<Rightarrow> (Inr (nb, length candidates - length archivable), s'))))"

subsection \<open>Orphans\<close>

text \<open>\<open>pass_start\<close> is the time before the references were read, in the unit of the objects' times.\<close>

definition purge_orphans :: "purge_env \<Rightarrow> nat \<Rightarrow> purge_site \<Rightarrow> (purge_error + nat \<times> nat) \<times> purge_site" where
  "purge_orphans env pass_start s =
     (if pe_running env then (Inl DaemonRunning, s)
      else case referenced_hashes s of
        Inl e \<Rightarrow> (Inl e, s)
      | Inr refs \<Rightarrow>
          (let hs = filter (\<lambda>h. h \<notin> set refs
                 \<and> \<not> (case blob_mtime (ps_store s) h of Some m \<Rightarrow> m > pass_start | None \<Rightarrow> False)) (list_hashes (ps_store s))
           in case archive_hashes env hs s of (nb, s') \<Rightarrow> (Inr nb, s')))"

definition orphan_bytes :: "nat \<Rightarrow> purge_site \<Rightarrow> nat" where
  "orphan_bytes pass_start s = (case referenced_hashes s of
     Inl _ \<Rightarrow> 0
   | Inr refs \<Rightarrow> sum_list (List.map_filter (blob_size (ps_store s))
       (filter (\<lambda>h. h \<notin> set refs
          \<and> (case blob_mtime (ps_store s) h of Some m \<Rightarrow> m \<le> pass_start | None \<Rightarrow> True)) (list_hashes (ps_store s)))))"

subsection \<open>The command\<close>

record purge_flags =
  fl_all_prompts :: bool
  fl_snapshots_before :: "string option"
  fl_memories_retracted :: bool
  fl_log_duplicates :: bool
  fl_orphans :: bool
  fl_signals_consumed :: bool
  fl_path :: "string option"

text \<open>A step is run when asked for; its error ends the command with what was done so far.\<close>

definition purge_step :: "bool \<Rightarrow> (purge_site \<Rightarrow> (purge_error + 'a) \<times> purge_site)
    \<Rightarrow> (purge_error + unit) \<times> purge_site \<Rightarrow> (purge_error + unit) \<times> purge_site" where
  "purge_step wanted f rs = (case rs of
     (Inl e, s) \<Rightarrow> (Inl e, s)
   | (Inr _, s) \<Rightarrow> if wanted then (case f s of (Inl e, s') \<Rightarrow> (Inl e, s') | (Inr _, s') \<Rightarrow> (Inr (), s'))
                   else (Inr (), s))"

definition run_purge :: "purge_env \<Rightarrow> nat \<Rightarrow> purge_flags \<Rightarrow> purge_site \<Rightarrow> (purge_error + unit) \<times> purge_site" where
  "run_purge env pass_start fl s =
     (if pe_running env then (Inl DaemonRunning, s)
      else case fl_path fl of
        Some pattern \<Rightarrow> (case purge_path env s pattern s of (Inl e, s') \<Rightarrow> (Inl e, s') | (Inr _, s') \<Rightarrow> (Inr (), s'))
      | None \<Rightarrow>
          (let ts = site_turns env s in
           purge_step (fl_signals_consumed fl) (purge_signals_consumed env)
            (purge_step (fl_orphans fl) (purge_orphans env pass_start)
             (purge_step (fl_log_duplicates fl) (purge_log_duplicates env)
              (purge_step (fl_memories_retracted fl) (purge_memories_retracted env)
               (purge_step (fl_snapshots_before fl \<noteq> None)
                  (purge_snapshots_before env ts (case fl_snapshots_before fl of Some d \<Rightarrow> d | None \<Rightarrow> []))
                (purge_step True (purge_prompts env ts (fl_all_prompts fl)) (Inr (), s))))))))"

end
