(* ===== verification/Purge_Props.thy ===== *)
theory Purge_Props
  imports Purge Retention_Props "HOL-Library.Sublist" "HOL-Library.Multiset"
begin

text \<open>
  What purging keeps: the references it scans for are all there are, the glob matcher is the language
  of its pattern, what is cited outside stays, and nothing leaves the site except to an archive.
\<close>

subsection \<open>References\<close>

text \<open>Every place of a text where a reference stands.\<close>

definition refs_in :: "string \<Rightarrow> hash set" where
  "refs_in s = {take 71 (drop i s) |i. hex_ref (drop i s)}"

lemma prefix_length: "length ''sha256:'' = 7"
  by simp

lemma hex_ref_shape:
  assumes "hex_ref s"
  shows "\<exists>hex r. s = ''sha256:'' @ hex @ r \<and> length hex = 64
    \<and> (\<forall>c \<in> set hex. byte_in 0x30 0x39 c \<or> byte_in 0x61 0x66 c)"
proof -
  obtain r where r: "s = ''sha256:'' @ r" using assms by (auto simp: hex_ref_def starts_with_iff)
  have d: "drop 7 s = r" unfolding r by (metis append_eq_conv_conj prefix_length)
  have "length s = 7 + length r" unfolding r by simp
  then have "s = ''sha256:'' @ take 64 r @ drop 64 r" "length (take 64 r) = 64"
      "\<forall>c \<in> set (take 64 r). byte_in 0x30 0x39 c \<or> byte_in 0x61 0x66 c"
    using assms r by (simp_all add: hex_ref_def d list_all_iff)
  then show ?thesis by blast
qed

lemma not_s_hex: "byte_in 0x30 0x39 c \<or> byte_in 0x61 0x66 c \<Longrightarrow> c \<noteq> CHR ''s''"
  by (auto simp: byte_in_def)

lemma hex_ref_hd: "hex_ref s \<Longrightarrow> \<exists>r. s = CHR ''s'' # r"
  using hex_ref_shape[of s] by auto

text \<open>No reference begins inside another.\<close>

lemma no_overlap:
  assumes "hex_ref s" "0 < i" "i < 71"
  shows "\<not> hex_ref (drop i s)"
proof
  assume "hex_ref (drop i s)"
  then obtain r where r: "drop i s = CHR ''s'' # r" using hex_ref_hd by blast
  then have l: "i < length s" using not_le_imp_less by fastforce
  have si: "s ! i = CHR ''s''" using r nth_via_drop by metis
  obtain hex r' where s: "s = ''sha256:'' @ hex @ r'" "length hex = 64"
      "\<forall>c \<in> set hex. byte_in 0x30 0x39 c \<or> byte_in 0x61 0x66 c" using hex_ref_shape[OF assms(1)] by blast
  show False
  proof (cases "i < 7")
    case True
    then have "i \<in> {1, 2, 3, 4, 5, 6}" using assms(2) by auto
    with si s(1) show False by auto
  next
    case False
    then have "s ! i = (hex @ r') ! (i - 7)" unfolding s(1) nth_append[of "''sha256:''"] prefix_length by simp
    moreover have "i - 7 < 64" using False assms(3) by arith
    ultimately have "s ! i = hex ! (i - 7)" using s(2) by (simp add: nth_append)
    moreover have "hex ! (i - 7) \<in> set hex" using s(2) False assms(3) by simp
    ultimately show False using si s(3) not_s_hex by metis
  qed
qed

lemma ex_nat_cases: "(\<exists>i. P i) \<longleftrightarrow> P 0 \<or> (\<exists>i. P (Suc i))"
  by (metis not0_implies_Suc)

lemma refs_in_Cons: "refs_in (c # s) = (if hex_ref (c # s) then {take 71 (c # s)} else {}) \<union> refs_in s"
  unfolding refs_in_def by (subst ex_nat_cases) auto

lemma refs_in_skip: "\<forall>i < n. \<not> hex_ref (drop i s) \<Longrightarrow> refs_in s = refs_in (drop n s)"
proof (induction n arbitrary: s)
  case (Suc n)
  show ?case
  proof (cases s)
    case (Cons c r)
    have "\<not> hex_ref s" using Suc.prems by (metis drop_0 zero_less_Suc)
    moreover have "\<forall>i < n. \<not> hex_ref (drop i r)" using Suc.prems Cons by (metis Suc_mono drop_Suc_Cons)
    ultimately show ?thesis using Suc.IH[of r] Cons by (simp add: refs_in_Cons)
  qed simp
qed simp

lemma set_harvest: "set (harvest_refs s) = refs_in s"
proof (induction s rule: harvest_refs.induct)
  case (1 s)
  show ?case
  proof (cases s)
    case Nil
    then show ?thesis by (simp add: harvest_refs.simps refs_in_def hex_ref_def)
  next
    case (Cons c r)
    show ?thesis
    proof (cases "hex_ref s")
      case True
      have "refs_in r = refs_in (drop 70 r)"
      proof (rule refs_in_skip, intro allI impI)
        fix i :: nat assume "i < 70"
        then show "\<not> hex_ref (drop i r)" using no_overlap[OF True, of "Suc i"] Cons by simp
      qed
      with 1(1) True Cons show ?thesis
        by (subst harvest_refs.simps) (simp add: refs_in_Cons)
    next
      case False
      with 1(2) Cons show ?thesis by (subst harvest_refs.simps) (simp add: refs_in_Cons)
    qed
  qed
qed


text \<open>
  The scan for references misses none and invents none: it returns exactly the prefixed digests
  that stand anywhere in the text, torn lines and foreign records included.
\<close>

theorem harvest_refs_exact: "set (harvest_refs s) = {take 71 (drop i s) |i. hex_ref (drop i s)}"
  using set_harvest[of s] by (simp only: refs_in_def)

subsection \<open>Patterns\<close>

datatype glob_token = AnyDirs | Anything | Segment | OneChar | Literal char

fun glob_tokens :: "string \<Rightarrow> glob_token list" where
  "glob_tokens [] = []"
| "glob_tokens (c # q) =
     (if c = CHR ''*'' then
        (case q of
           c2 # q2 \<Rightarrow>
             if c2 = CHR ''*'' then
               (case q2 of c3 # q3 \<Rightarrow> if c3 = CHR ''/'' then AnyDirs # glob_tokens q3 else Anything # glob_tokens q2
                | [] \<Rightarrow> [Anything])
             else Segment # glob_tokens q
         | [] \<Rightarrow> [Segment])
      else if c = CHR ''?'' then OneChar # glob_tokens q
      else Literal c # glob_tokens q)"

fun token_lang :: "glob_token \<Rightarrow> string set" where
  "token_lang AnyDirs = insert [] (range (\<lambda>u. u @ ''/''))"
| "token_lang Anything = UNIV"
| "token_lang Segment = {u. CHR ''/'' \<notin> set u}"
| "token_lang OneChar = (\<lambda>c. [c]) ` (- {CHR ''/''})"
| "token_lang (Literal c) = {[c]}"

fun glob_lang :: "glob_token list \<Rightarrow> string set" where
  "glob_lang [] = {[]}"
| "glob_lang (t # ts) = {u @ v |u v. u \<in> token_lang t \<and> v \<in> glob_lang ts}"

lemma some_split: "list_ex (\<lambda>i. P (take i t) \<and> Q (drop i t)) [0..<Suc (length t)] \<longleftrightarrow> (\<exists>u v. t = u @ v \<and> P u \<and> Q v)"
proof
  assume "\<exists>u v. t = u @ v \<and> P u \<and> Q v"
  then obtain u v where "t = u @ v" "P u" "Q v" by blast
  then have "length u < Suc (length t)" "P (take (length u) t) \<and> Q (drop (length u) t)" by auto
  then show "list_ex (\<lambda>i. P (take i t) \<and> Q (drop i t)) [0..<Suc (length t)]"
    unfolding list_ex_iff by (intro bexI[of _ "length u"]) auto
next
  assume "list_ex (\<lambda>i. P (take i t) \<and> Q (drop i t)) [0..<Suc (length t)]"
  then obtain i where "P (take i t)" "Q (drop i t)" unfolding list_ex_iff by blast
  then show "\<exists>u v. t = u @ v \<and> P u \<and> Q v" by (metis append_take_drop_id)
qed

lemma some_suffix: "list_ex (\<lambda>i. Q (drop i t)) [0..<Suc (length t)] \<longleftrightarrow> (\<exists>u v. t = u @ v \<and> Q v)"
  using some_split[of "\<lambda>_. True" t Q] by (simp only: simp_thms)

lemma glob_nil: "glob_rec [] t \<longleftrightarrow> t = []"
  by (simp add: glob_rec.simps)

lemma glob_stars: "glob_rec (CHR ''*'' # CHR ''*'' # q) t \<longleftrightarrow>
    (case q of c # r \<Rightarrow> c = CHR ''/'' \<and> glob_rec r t | [] \<Rightarrow> False) \<or> (\<exists>u v. t = u @ v \<and> glob_rec q v)"
  by (subst glob_rec.simps) (simp only: list.case if_True some_suffix refl)

lemma glob_star: "(case q of c # _ \<Rightarrow> c \<noteq> CHR ''*'' | [] \<Rightarrow> True) \<Longrightarrow>
    glob_rec (CHR ''*'' # q) t \<longleftrightarrow> (\<exists>u v. t = u @ v \<and> CHR ''/'' \<notin> set u \<and> glob_rec q v)"
  by (subst glob_rec.simps)
    (cases q; simp only: list.case if_True if_False some_split[where P = "\<lambda>u. CHR ''/'' \<notin> set u"] refl)

lemma glob_one: "glob_rec (CHR ''?'' # q) t \<longleftrightarrow> (\<exists>d u. t = d # u \<and> d \<noteq> CHR ''/'' \<and> glob_rec q u)"
  by (subst glob_rec.simps) (cases t; simp)

lemma glob_char: "c \<noteq> CHR ''*'' \<Longrightarrow> c \<noteq> CHR ''?'' \<Longrightarrow> glob_rec (c # q) t \<longleftrightarrow> (\<exists>u. t = c # u \<and> glob_rec q u)"
  by (subst glob_rec.simps) (cases t; auto)

lemma any_dirs: "t \<in> glob_lang (AnyDirs # ts) \<longleftrightarrow> t \<in> glob_lang ts \<or> (\<exists>u v. t = (u @ ''/'') @ v \<and> v \<in> glob_lang ts)"
proof
  assume "t \<in> glob_lang (AnyDirs # ts)"
  then obtain u v where "t = u @ v" "u = [] \<or> u \<in> range (\<lambda>u. u @ ''/'')" "v \<in> glob_lang ts" by auto
  then show "t \<in> glob_lang ts \<or> (\<exists>u v. t = (u @ ''/'') @ v \<and> v \<in> glob_lang ts)" by auto
next
  assume "t \<in> glob_lang ts \<or> (\<exists>u v. t = (u @ ''/'') @ v \<and> v \<in> glob_lang ts)"
  then consider "t = [] @ t" "t \<in> glob_lang ts" | u v where "t = (u @ ''/'') @ v" "v \<in> glob_lang ts" by auto
  then show "t \<in> glob_lang (AnyDirs # ts)"
  proof cases
    case 1
    moreover have "[] \<in> token_lang AnyDirs" by simp
    ultimately show ?thesis unfolding glob_lang.simps by blast
  next
    case 2
    moreover have "u @ ''/'' \<in> token_lang AnyDirs" by simp
    ultimately show ?thesis unfolding glob_lang.simps by blast
  qed
qed

lemma one_char: "t \<in> glob_lang (OneChar # ts) \<longleftrightarrow> (\<exists>d u. t = d # u \<and> d \<noteq> CHR ''/'' \<and> u \<in> glob_lang ts)"
proof
  assume "\<exists>d u. t = d # u \<and> d \<noteq> CHR ''/'' \<and> u \<in> glob_lang ts"
  then obtain d u where "t = [d] @ u" "d \<noteq> CHR ''/''" "u \<in> glob_lang ts" by auto
  moreover from this have "[d] \<in> token_lang OneChar" by simp
  ultimately show "t \<in> glob_lang (OneChar # ts)" unfolding glob_lang.simps by blast
qed auto

lemma glob_rec_lang: "glob_rec p t \<longleftrightarrow> t \<in> glob_lang (glob_tokens p)"
proof (induction p arbitrary: t rule: length_induct)
  case (1 p)
  show ?case
  proof (cases p)
    case Nil
    then show ?thesis by (simp add: glob_nil)
  next
    case p: (Cons c q)
  have IH: "glob_rec q' t \<longleftrightarrow> t \<in> glob_lang (glob_tokens q')" if "length q' < length (c # q)" for q' t
    using 1 that p by blast
  consider (dirs) q3 where "c = CHR ''*''" "q = CHR ''*'' # CHR ''/'' # q3"
    | (any) q2 where "c = CHR ''*''" "q = CHR ''*'' # q2" "\<And>q3. q2 \<noteq> CHR ''/'' # q3"
    | (star) "c = CHR ''*''" "case q of c # _ \<Rightarrow> c \<noteq> CHR ''*'' | [] \<Rightarrow> True"
    | (one) "c = CHR ''?''" | (char) "c \<noteq> CHR ''*''" "c \<noteq> CHR ''?''"
  proof (cases "c = CHR ''*'' \<and> (case q of c2 # q2 \<Rightarrow> c2 = CHR ''*'' | [] \<Rightarrow> False)")
    case True
    then obtain q2 where "c = CHR ''*''" "q = CHR ''*'' # q2" by (cases q) auto
    then show thesis using dirs any by (cases "\<exists>q3. q2 = CHR ''/'' # q3") auto
  next
    case False
    then show thesis using star one char by (cases "c = CHR ''*''"; cases "c = CHR ''?''"; cases q) auto
  qed
  then show ?thesis
  proof cases
    case dirs
    have "glob_rec (c # q) t \<longleftrightarrow> glob_rec q3 t \<or> (\<exists>u v. t = (u @ ''/'') @ v \<and> glob_rec q3 v)"
      using dirs by (auto simp: glob_stars glob_char)
    moreover have "t \<in> glob_lang (AnyDirs # ts) \<longleftrightarrow> t \<in> glob_lang ts \<or> (\<exists>u v. t = (u @ ''/'') @ v \<and> v \<in> glob_lang ts)" for ts
      by (rule any_dirs)
    moreover have "glob_tokens (c # q) = AnyDirs # glob_tokens q3" using dirs by simp
    ultimately show ?thesis unfolding p using IH[of q3] dirs by simp
  next
    case any
    have tk: "glob_tokens (c # q) = Anything # glob_tokens q2" using any by (cases q2) auto
    have "glob_rec (c # q) t \<longleftrightarrow> (\<exists>u v. t = u @ v \<and> glob_rec q2 v)"
      using any by (cases q2) (auto simp: glob_stars)
    then show ?thesis unfolding p tk using IH[of q2] any by simp
  next
    case star
    have tk: "glob_tokens (c # q) = Segment # glob_tokens q" using star by (cases q) auto
    show ?thesis unfolding p tk using star IH[of q] by (simp add: glob_star)
  next
    case one
    have "glob_tokens (c # q) = OneChar # glob_tokens q" using one by simp
    then show ?thesis unfolding p using one IH[of q] by (simp only: glob_one one_char) simp
  next
    case char
    show ?thesis unfolding p using char IH[of q] by (auto simp: glob_char)
  qed
  qed
qed

text \<open>
  The backtracking matcher accepts exactly the language of the pattern: \<open>**\<close> stands for any
  text, \<open>**/\<close> for any directories or none, \<open>*\<close> for text within a segment, \<open>?\<close> for one
  character that is no separator.
\<close>

theorem glob_is_its_language: "glob_rec p t \<longleftrightarrow> t \<in> glob_lang (glob_tokens p)"
  by (rule glob_rec_lang)


subsection \<open>Blobs\<close>

text \<open>Every object of a store, or else of its archive, is one of the second pair's.\<close>

definition objects_of :: "store \<times> store \<Rightarrow> object_key \<rightharpoonup> object" where
  "objects_of sa = map_of (snd sa) ++ map_of (fst sa)"

definition keeps_objects :: "store \<times> store \<Rightarrow> store \<times> store \<Rightarrow> bool" where
  "keeps_objects sa sa' \<longleftrightarrow> objects_of sa \<subseteq>\<^sub>m objects_of sa'"

lemma keeps_objects_refl [simp]: "keeps_objects sa sa"
  by (simp add: keeps_objects_def)

lemma keeps_objects_trans: "keeps_objects sa sb \<Longrightarrow> keeps_objects sb sc \<Longrightarrow> keeps_objects sa sc"
  unfolding keeps_objects_def by (rule map_le_trans)

lemma archive_blob_moves:
  assumes "archive_blob ok s arch h = (r, s', arch')"
  shows "map_of s' k = (if r \<noteq> None \<and> object_path h = Some k then None else map_of s k)"
    and "map_of arch' k = (if r \<noteq> None \<and> object_path h = Some k then map_of s k else map_of arch k)"
    and "r \<noteq> None \<Longrightarrow> object_path h = Some k \<Longrightarrow> map_of s k \<noteq> None"
  using assms
  by (auto simp: archive_blob_def delete_conv' update_conv' restrict_map_def fun_upd_def split: option.splits if_splits)

lemma archive_all_from:
  assumes "foldl (archive_step ok) (nb, s, arch) hs = (nb', s', arch')"
  shows "(\<forall>k. k \<notin> set (List.map_filter object_path hs) \<longrightarrow> map_of s' k = map_of s k \<and> map_of arch' k = map_of arch k)
    \<and> (\<forall>k o'. map_of s k = Some o' \<or> (map_of s k = None \<and> map_of arch k = Some o')
          \<longrightarrow> map_of s' k = Some o' \<or> (map_of s' k = None \<and> map_of arch' k = Some o'))
    \<and> (\<forall>k. map_of s k = None \<longrightarrow> map_of s' k = None)"
  using assms
proof (induction hs arbitrary: nb s arch)
  case (Cons h hs)
  obtain r s1 arch1 where b: "archive_blob (ok h) s arch h = (r, s1, arch1)" by (metis prod.exhaust)
  obtain nb1 where st: "archive_step ok (nb, s, arch) h = (nb1, s1, arch1)"
    by (cases r; cases nb) (simp_all add: archive_step_def b)
  have fold: "foldl (archive_step ok) (nb1, s1, arch1) hs = (nb', s', arch')" using Cons.prems st by simp
  note IH = Cons.IH[OF fold]
  note m = archive_blob_moves[OF b]
  show ?case
  proof (intro conjI allI impI)
    fix k assume "k \<notin> set (List.map_filter object_path (h # hs))"
    then have "object_path h \<noteq> Some k" "k \<notin> set (List.map_filter object_path hs)"
      by (auto simp: List.map_filter_simps split: option.splits)
    with IH[THEN conjunct1, rule_format, of k] m[of k]
    show "map_of s' k = map_of s k" "map_of arch' k = map_of arch k" by simp_all
  next
    fix k o' assume "map_of s k = Some o' \<or> (map_of s k = None \<and> map_of arch k = Some o')"
    then have "map_of s1 k = Some o' \<or> (map_of s1 k = None \<and> map_of arch1 k = Some o')"
      using m[of k] by (cases "r \<noteq> None \<and> object_path h = Some k") auto
    then show "map_of s' k = Some o' \<or> (map_of s' k = None \<and> map_of arch' k = Some o')"
      by (rule IH[THEN conjunct2, THEN conjunct1, rule_format, of k o'])
  next
    fix k assume "map_of s k = None"
    then have "map_of s1 k = None" using m(1)[of k] by simp
    then show "map_of s' k = None" by (rule IH[THEN conjunct2, THEN conjunct2, rule_format, of k])
  qed
qed simp

lemma archive_all_keeps:
  assumes "archive_all ok hs (s, arch) = (nb, s', arch')"
  shows "keeps_objects (s, arch) (s', arch')" "h \<notin> set hs \<Longrightarrow> object_at s' h = object_at s h"
proof -
  note a = archive_all_from[OF assms[unfolded archive_all_def]]
  show "keeps_objects (s, arch) (s', arch')" 
    unfolding keeps_objects_def objects_of_def fst_conv snd_conv map_le_def
  proof
    fix k assume "k \<in> dom (map_of arch ++ map_of s)"
    then obtain o' where o': "(map_of arch ++ map_of s) k = Some o'" by (metis domD)
    then have "map_of s k = Some o' \<or> (map_of s k = None \<and> map_of arch k = Some o')"
      by (auto simp: map_add_def split: option.splits)
    then have "map_of s' k = Some o' \<or> (map_of s' k = None \<and> map_of arch' k = Some o')"
      by (rule a[THEN conjunct2, THEN conjunct1, rule_format, of k o'])
    then show "(map_of arch ++ map_of s) k = (map_of arch' ++ map_of s') k"
      unfolding o' by (auto simp: map_add_def)
  qed
  assume h: "h \<notin> set hs"
  show "object_at s' h = object_at s h"
  proof (cases "object_path h")
    case (Some k)
    have "k \<notin> set (List.map_filter object_path hs)"
    proof
      assume "k \<in> set (List.map_filter object_path hs)"
      then obtain h' where "h' \<in> set hs" "object_path h' = Some k"
        by (auto simp: List.map_filter_def)
      with Some object_path_inj h show False by blast
    qed
    with a[THEN conjunct1, rule_format, of k] Some show ?thesis by (simp add: object_at_def)
  qed (simp add: object_at_def)
qed


lemma archive_blob_gone:
  assumes "archive_blob True s arch h = (r, s', arch')" "object_path h = Some k"
  shows "map_of s' k = None"
  using assms by (auto simp: archive_blob_def delete_conv' restrict_map_def split: option.splits)

lemma archive_all_gone_from:
  "foldl (archive_step (\<lambda>_. True)) (nb, s, arch) hs = (nb', s', arch') \<Longrightarrow> h \<in> set hs \<Longrightarrow> object_path h = Some k
    \<Longrightarrow> map_of s' k = None"
proof (induction hs arbitrary: nb s arch)
  case (Cons x hs)
  obtain r s1 arch1 where b: "archive_blob True s arch x = (r, s1, arch1)" by (metis prod.exhaust)
  obtain nb1 where st: "archive_step (\<lambda>_. True) (nb, s, arch) x = (nb1, s1, arch1)"
    by (cases r; cases nb) (simp_all add: archive_step_def b)
  have fold: "foldl (archive_step (\<lambda>_. True)) (nb1, s1, arch1) hs = (nb', s', arch')" using Cons.prems st by simp
  show ?case
  proof (cases "x = h")
    case True
    with b Cons.prems(3) have "map_of s1 k = None" using archive_blob_gone by blast
    then show ?thesis by (rule archive_all_from[OF fold, THEN conjunct2, THEN conjunct2, rule_format, of k])
  next
    case False
    with Cons.prems have "h \<in> set hs" by simp
    from Cons.IH[OF fold this Cons.prems(3)] show ?thesis .
  qed
qed simp

lemma archive_all_gone:
  "archive_all (\<lambda>_. True) hs (s, arch) = (nb, s', arch') \<Longrightarrow> h \<in> set hs \<Longrightarrow> object_at s' h = None"
  using archive_all_gone_from[of "(0, 0)" s arch hs nb s' arch' h]
  by (cases "object_path h") (auto simp: archive_all_def object_at_def)

subsection \<open>Forgetting a path\<close>

definition line_cites :: "(string \<Rightarrow> json option) \<Rightarrow> string \<Rightarrow> string \<Rightarrow> hash set" where
  "line_cites from_str pattern line =
     (if trim line = [] then {}
      else case classify_turn_line from_str line of
        None \<Rightarrow> refs_in line
      | Some t \<Rightarrow> set_option (tr_prompt_ref t)
          \<union> set (concat (map entry_hashes_of (filter (\<lambda>e. \<not> path_matches pattern (fe_path e)) (tr_files t)))))"

definition line_matched :: "(string \<Rightarrow> json option) \<Rightarrow> string \<Rightarrow> string \<Rightarrow> hash set" where
  "line_matched from_str pattern line =
     (if trim line = [] then {}
      else case classify_turn_line from_str line of
        None \<Rightarrow> {}
      | Some t \<Rightarrow> set (concat (map entry_hashes_of (filter (\<lambda>e. path_matches pattern (fe_path e)) (tr_files t)))))"

definition input_text :: "site_file \<Rightarrow> string" where
  "input_text f = (case read_text f of Inr b \<Rightarrow> b | Inl _ \<Rightarrow> [])"

text \<open>
  What refers to blobs besides the matching entries: other entries, every prompt, every reference of a
  line that is no turn, and every reference of the journal, the memories and the claims.
\<close>

definition cited_outside :: "(string \<Rightarrow> json option) \<Rightarrow> string \<Rightarrow> purge_site \<Rightarrow> hash set" where
  "cited_outside from_str pattern s = \<Union> (line_cites from_str pattern ` set (lines (input_text (ps_log s))))
     \<union> \<Union> (refs_in ` input_text ` {ps_journal s, ps_memory s, ps_attest s})"

definition matched_blobs :: "(string \<Rightarrow> json option) \<Rightarrow> string \<Rightarrow> purge_site \<Rightarrow> hash set" where
  "matched_blobs from_str pattern s = \<Union> (line_matched from_str pattern ` set (lines (input_text (ps_log s))))"

lemma set_opt_list [simp]: "set (opt_list x) = set_option x"
  by (cases x) (simp_all add: opt_list_def)

lemma liveness_text: "read_liveness_input f = Inr b \<Longrightarrow> b = input_text f"
  by (auto simp: read_liveness_input_def input_text_def read_text_def split: site_file.splits if_splits)

lemma harvest_files_refs: "harvest_files fs = Inr hs \<Longrightarrow> set hs = \<Union> (refs_in ` input_text ` set fs)"
  by (induction fs arbitrary: hs) (auto simp: set_harvest dest!: liveness_text split: sum.splits)

lemma scan_entries:
  "set (sc_protect (foldl (scan_entry pattern) sc es)) = set (sc_protect sc)
      \<union> set (concat (map entry_hashes_of (filter (\<lambda>e. \<not> path_matches pattern (fe_path e)) es)))"
  "set (sc_candidates (foldl (scan_entry pattern) sc es)) = set (sc_candidates sc)
      \<union> set (concat (map entry_hashes_of (filter (\<lambda>e. path_matches pattern (fe_path e)) es)))"
  "sc_matched (foldl (scan_entry pattern) sc es) = sc_matched sc + length (filter (\<lambda>e. path_matches pattern (fe_path e)) es)"
  by (induction es arbitrary: sc) (auto simp: scan_entry_def)

definition line_count :: "(string \<Rightarrow> json option) \<Rightarrow> string \<Rightarrow> string \<Rightarrow> nat" where
  "line_count from_str pattern line =
     (if trim line = [] then 0
      else case classify_turn_line from_str line of
        None \<Rightarrow> 0
      | Some t \<Rightarrow> length (filter (\<lambda>e. path_matches pattern (fe_path e)) (tr_files t)))"

lemma scan_line_effect:
  "set (sc_protect (scan_line from_str pattern sc l)) = set (sc_protect sc) \<union> line_cites from_str pattern l"
  "set (sc_candidates (scan_line from_str pattern sc l)) = set (sc_candidates sc) \<union> line_matched from_str pattern l"
  "sc_matched (scan_line from_str pattern sc l) = sc_matched sc + line_count from_str pattern l"
  by (auto simp: scan_line_def line_cites_def line_matched_def line_count_def scan_entries set_harvest
      simp del: set_concat split: option.splits)

lemma scan_lines:
  "set (sc_protect (foldl (scan_line from_str pattern) sc ls)) = set (sc_protect sc) \<union> \<Union> (line_cites from_str pattern ` set ls)"
  "set (sc_candidates (foldl (scan_line from_str pattern) sc ls)) = set (sc_candidates sc) \<union> \<Union> (line_matched from_str pattern ` set ls)"
  "sc_matched (foldl (scan_line from_str pattern) sc ls) = sc_matched sc + sum_list (map (line_count from_str pattern) ls)"
  by (induction ls arbitrary: sc) (simp_all add: scan_line_effect Un_assoc)

lemma line_count_0: "line_count from_str pattern l = 0 \<Longrightarrow> line_matched from_str pattern l = {}"
  by (auto simp: line_count_def line_matched_def filter_empty_conv split: if_splits option.splits)

lemma scan_sets:
  assumes "scan_for_path from_str pattern s = Inr sc"
  shows "set (sc_protect sc) = cited_outside from_str pattern s"
    "set (sc_candidates sc) = matched_blobs from_str pattern s"
    "sc_matched sc = 0 \<Longrightarrow> matched_blobs from_str pattern s = {}"
proof -
  obtain body hs where b: "read_liveness_input (ps_log s) = Inr body" "referenced_hashes_outside_log s = Inr hs"
      "sc = (foldl (scan_line from_str pattern) \<lparr>sc_candidates = [], sc_protect = [], sc_matched = 0\<rparr> (lines body))
         \<lparr>sc_protect := sc_protect (foldl (scan_line from_str pattern)
            \<lparr>sc_candidates = [], sc_protect = [], sc_matched = 0\<rparr> (lines body)) @ hs\<rparr>"
    using assms by (auto simp: scan_for_path_def Let_def split: sum.splits)
  have body: "body = input_text (ps_log s)" using liveness_text[OF b(1)] .
  have hs: "set hs = \<Union> (refs_in ` input_text ` {ps_journal s, ps_memory s, ps_attest s})"
    using harvest_files_refs[of "[ps_journal s, ps_memory s, ps_attest s]" hs] b(2)
    by (simp add: referenced_hashes_outside_log_def)
  show "set (sc_protect sc) = cited_outside from_str pattern s"
    unfolding b(3) cited_outside_def hs[symmetric] by (simp add: scan_lines body)
  show "set (sc_candidates sc) = matched_blobs from_str pattern s"
    unfolding b(3) matched_blobs_def by (simp add: scan_lines body)
  show "matched_blobs from_str pattern s = {}" if "sc_matched sc = 0"
    using that unfolding b(3) matched_blobs_def by (auto simp: scan_lines body dest: line_count_0)
qed

text \<open>
  C39: with no concurrent writer and every move succeeding, \<open>purge --path\<close> removes from the store
  exactly the blobs of matching entries that nothing outside the pattern cites; they all go to the
  archive, and no other file of the site changes.
\<close>

theorem purge_path_exact:
  "case purge_path (env\<lparr>pe_move_ok := \<lambda>_. True\<rparr>) s pattern s of
     (Inl _, s') \<Rightarrow> s' = s
   | (Inr _, s') \<Rightarrow>
       {h. contains (ps_store s) h \<and> \<not> contains (ps_store s') h}
         = {h \<in> matched_blobs (pe_from_str env) pattern s. contains (ps_store s) h} - cited_outside (pe_from_str env) pattern s
       \<and> keeps_objects (ps_store s, ps_archive s) (ps_store s', ps_archive s')
       \<and> s' = s\<lparr>ps_store := ps_store s', ps_archive := ps_archive s'\<rparr>"
proof (cases "pe_running env \<or> trim pattern = []")
  case True
  then show ?thesis by (auto simp: purge_path_def)
next
  case False
  show ?thesis
  proof (cases "scan_for_path (pe_from_str env) pattern s")
    case (Inl e)
    with False show ?thesis by (simp add: purge_path_def)
  next
    case (Inr sc)
    note S = scan_sets[OF Inr]
    show ?thesis
    proof (cases "sc_matched sc = 0")
      case True
      with False Inr S(3) show ?thesis by (simp add: purge_path_def)
    next
      case m: False
      define hs where "hs = sort (filter (\<lambda>h. h \<notin> set (sc_protect sc)) (dedup (sc_candidates sc)))"
      have hs: "set hs = matched_blobs (pe_from_str env) pattern s - cited_outside (pe_from_str env) pattern s"
        by (auto simp: hs_def S)
      obtain nb st arch where a: "archive_all (\<lambda>_. True) hs (ps_store s, ps_archive s) = (nb, st, arch)"
        by (metis prod.exhaust)
      have r: "purge_path (env\<lparr>pe_move_ok := \<lambda>_. True\<rparr>) s pattern s
          = (Inr (nb, length (dedup (sc_candidates sc)) - length hs), s\<lparr>ps_store := st, ps_archive := arch\<rparr>)"
        using False Inr m a unfolding purge_path_def archive_hashes_def Let_def hs_def by simp
      have gone: "contains st h \<longleftrightarrow> h \<notin> set hs \<and> contains (ps_store s) h" for h
        using archive_all_gone[OF a, of h] archive_all_keeps(2)[OF a, of h]
        by (cases "h \<in> set hs") (simp_all add: contains_def)
      show ?thesis
        unfolding r using archive_all_keeps(1)[OF a] by (auto simp: gone hs)
    qed
  qed
qed


subsection \<open>The whole command\<close>

definition log_kept :: "purge_site \<Rightarrow> purge_site \<Rightarrow> bool" where
  "log_kept s s' \<longleftrightarrow> ps_log s' = ps_log s \<or> (\<exists>b. ps_log s = FileBytes b \<and> b \<in> ran (ps_archived s'))"

definition signal_kept :: "purge_site \<Rightarrow> purge_site \<Rightarrow> bool" where
  "signal_kept s s' \<longleftrightarrow> ps_signal s' = ps_signal s
     \<or> (\<exists>a t. ps_signal s = FileBytes (a @ t) \<and> ps_signal s' = FileBytes t \<and> a \<in> ran (ps_archived s'))"

definition memory_kept :: "purge_site \<Rightarrow> purge_site \<Rightarrow> bool" where
  "memory_kept s s' \<longleftrightarrow> ps_memory s' = ps_memory s
     \<or> (\<exists>b kept gone old. ps_memory s = FileBytes b \<and> ps_memory s' = FileBytes (joined kept)
         \<and> old @ joined gone \<in> ran (ps_archived s')
         \<and> mset kept + mset gone = mset (filter (\<lambda>l. trim l \<noteq> []) (lines b)))"

definition nothing_lost :: "purge_site \<Rightarrow> purge_site \<Rightarrow> bool" where
  "nothing_lost s s' \<longleftrightarrow> keeps_objects (ps_store s, ps_archive s) (ps_store s', ps_archive s')
     \<and> log_kept s s' \<and> memory_kept s s' \<and> signal_kept s s'"

text \<open>What the steps leave alone: blob steps every file, a rewrite everything but its file and archive.\<close>

definition blob_frame :: "purge_site \<Rightarrow> purge_site \<Rightarrow> bool" where
  "blob_frame s s' \<longleftrightarrow> keeps_objects (ps_store s, ps_archive s) (ps_store s', ps_archive s')
     \<and> s' = s\<lparr>ps_store := ps_store s', ps_archive := ps_archive s'\<rparr>"

definition same_blobs :: "purge_site \<Rightarrow> purge_site \<Rightarrow> bool" where
  "same_blobs s s' \<longleftrightarrow> ps_store s' = ps_store s \<and> ps_archive s' = ps_archive s"

definition archived_but :: "string \<Rightarrow> purge_site \<Rightarrow> purge_site \<Rightarrow> bool" where
  "archived_but name s s' \<longleftrightarrow> (ps_archived s')(name := None) = (ps_archived s)(name := None)"

lemma blob_frame_archive: "archive_hashes env hs s = (nb, s') \<Longrightarrow> blob_frame s s'"
  by (auto simp: archive_hashes_def blob_frame_def dest: archive_all_keeps(1) split: prod.splits)

lemma blob_frame_refl [simp]: "blob_frame s s"
  by (simp add: blob_frame_def)

lemma prompts_frame: "blob_frame s (snd (purge_prompts env ts all_prompts s))"
  by (auto simp: purge_prompts_def Let_def dest: blob_frame_archive split: option.splits prod.splits)

lemma orphans_frame: "blob_frame s (snd (purge_orphans env pass_start s))"
  by (auto simp: purge_orphans_def Let_def dest: blob_frame_archive split: sum.splits prod.splits)

lemma path_frame: "blob_frame s (snd (purge_path env first pattern s))"
  by (auto simp: purge_path_def Let_def dest: blob_frame_archive split: sum.splits prod.splits)

definition memory_frame :: "string \<Rightarrow> purge_site \<Rightarrow> purge_site \<Rightarrow> bool" where
  "memory_frame name s s' \<longleftrightarrow> same_blobs s s' \<and> archived_but name s s' \<and> ps_log s' = ps_log s
     \<and> ps_signal s' = ps_signal s \<and> (ps_memory s' = ps_memory s
       \<or> (\<exists>b kept gone old. ps_memory s = FileBytes b \<and> ps_memory s' = FileBytes (joined kept)
           \<and> ps_archived s' name = Some (old @ joined gone)
           \<and> mset kept + mset gone = mset (filter (\<lambda>l. trim l \<noteq> []) (lines b))))"

definition log_frame :: "string \<Rightarrow> purge_site \<Rightarrow> purge_site \<Rightarrow> bool" where
  "log_frame name s s' \<longleftrightarrow> same_blobs s s' \<and> archived_but name s s' \<and> ps_memory s' = ps_memory s
     \<and> ps_signal s' = ps_signal s \<and> (ps_log s' = ps_log s
       \<or> (\<exists>b. ps_log s = FileBytes b \<and> ps_archived s' name = Some b))"

definition signal_frame :: "string \<Rightarrow> purge_site \<Rightarrow> purge_site \<Rightarrow> bool" where
  "signal_frame name s s' \<longleftrightarrow> same_blobs s s' \<and> archived_but name s s' \<and> ps_memory s' = ps_memory s
     \<and> ps_log s' = ps_log s \<and> (ps_signal s' = ps_signal s
       \<or> (\<exists>a t. ps_signal s = FileBytes (a @ t) \<and> ps_signal s' = FileBytes t \<and> ps_archived s' name = Some a))"

lemmas frames = memory_frame_def log_frame_def signal_frame_def same_blobs_def archived_but_def

lemma frames_refl [simp]: "memory_frame n s s" "log_frame n s s" "signal_frame n s s"
  by (simp_all add: frames)

lemma read_text_Inr: "read_text f = Inr b \<Longrightarrow> f = FileBytes b"
  by (auto simp: read_text_def split: site_file.splits if_splits)

lemma raw_lines_fst: "map fst (raw_lines from_str b) = filter (\<lambda>l. trim l \<noteq> []) (lines b)"
  by (simp add: raw_lines_def o_def)

lemma mset_raw_split: "mset (map fst (filter (\<lambda>l. \<not> P l) raw)) + mset (map fst (filter P raw)) = mset (map fst raw)"
  by (induction raw) auto

lemma memory_frame_archive: "memory_frame n s (append_archive n body s)"
  by (simp add: frames append_archive_def)

lemma memory_frame_rewrite:
  assumes "ps_memory s = FileBytes body"
  shows "memory_frame n s ((append_archive n (joined (map fst (filter P (raw_lines from_str body)))) s)
    \<lparr>ps_memory := FileBytes (joined (map fst (filter (\<lambda>l. \<not> P l) (raw_lines from_str body))))\<rparr>)"
proof -
  let ?gone = "map fst (filter P (raw_lines from_str body))" and ?kept = "map fst (filter (\<lambda>l. \<not> P l) (raw_lines from_str body))"
  let ?s' = "(append_archive n (joined ?gone) s)\<lparr>ps_memory := FileBytes (joined ?kept)\<rparr>"
  have "ps_archived ?s' n = Some ((case ps_archived s n of Some old \<Rightarrow> old | None \<Rightarrow> []) @ joined ?gone)"
    by (simp add: append_archive_def)
  moreover have "mset ?kept + mset ?gone = mset (filter (\<lambda>l. trim l \<noteq> []) (lines body))"
    using mset_raw_split[of P "raw_lines from_str body"] by (simp only: raw_lines_fst)
  moreover have "ps_memory ?s' = FileBytes (joined ?kept)" by simp
  ultimately have "\<exists>b kept gone old. ps_memory s = FileBytes b \<and> ps_memory ?s' = FileBytes (joined kept)
      \<and> ps_archived ?s' n = Some (old @ joined gone) \<and> mset kept + mset gone = mset (filter (\<lambda>l. trim l \<noteq> []) (lines b))"
    using assms by blast
  then show ?thesis unfolding memory_frame_def by (simp add: same_blobs_def archived_but_def append_archive_def)
qed

lemma memories_frame: "memory_frame (archive_name env ''memory'') s (snd (purge_memories_retracted env s))"
proof (cases "read_text (ps_memory s)")
  case (Inl e)
  then show ?thesis by (cases e) (auto simp: purge_memories_retracted_def Let_def split: option.split)
next
  case (Inr body)
  then have "ps_memory s = FileBytes body" by (rule read_text_Inr)
  from memory_frame_rewrite[OF this] Inr memory_frame_archive show ?thesis
    by (cases "pe_ttl_days env") (auto simp: purge_memories_retracted_def Let_def)
qed

lemma log_duplicates_frame: "log_frame (archive_name env ''log'') s (snd (purge_log_duplicates env s))"
  by (auto simp: purge_log_duplicates_def Let_def frames write_archive_def dest!: read_text_Inr
      split: sum.splits read_error.splits)

lemma signal_frame_archive: "signal_frame n s (write_archive n body s)"
  "signal_frame n s (s\<lparr>ps_archived := (ps_archived s)(n := None)\<rparr>)"
  by (simp_all add: frames write_archive_def)

lemma signal_frame_rewrite:
  assumes "ps_signal s = FileBytes bytes"
  shows "signal_frame n s ((write_archive n (take k bytes) s)\<lparr>ps_signal := FileBytes (drop k bytes)\<rparr>)"
    "signal_frame n s ((write_archive n (take k bytes) s)\<lparr>ps_signal := FileBytes (drop k bytes), ps_state := st\<rparr>)"
proof -
  have e: "\<exists>a t. ps_signal s = FileBytes (a @ t) \<and> drop k bytes = t \<and> take k bytes = a"
    using assms by (intro exI[of _ "take k bytes"] exI[of _ "drop k bytes"]) simp
  from e show "signal_frame n s ((write_archive n (take k bytes) s)\<lparr>ps_signal := FileBytes (drop k bytes)\<rparr>)"
    by (simp add: frames write_archive_def)
  from e show "signal_frame n s ((write_archive n (take k bytes) s)\<lparr>ps_signal := FileBytes (drop k bytes), ps_state := st\<rparr>)"
    by (simp add: frames write_archive_def)
qed

lemma signals_frame: "signal_frame (archive_name env ''signal'') s (snd (purge_signals_consumed env s))"
proof (cases "ps_state s")
  case (Some st)
  show ?thesis
  proof (cases "ps_signal s")
    case (FileBytes bytes)
    note u = purge_signals_consumed_def Some FileBytes Let_def
    let ?refused = "pe_running env \<or> st_signal_offset st = 0 \<or> length bytes < st_signal_offset st
      \<or> bytes ! (st_signal_offset st - 1) \<noteq> NL \<or> \<not> pe_archive_ok env"
    show ?thesis
    proof (cases ?refused)
      case True
      then have "snd (purge_signals_consumed env s) = s"
        by (elim disjE) (simp_all add: u)
      then show ?thesis by simp
    next
      case False
      note f = signal_frame_rewrite[OF FileBytes] signal_frame_archive[where s = s]
      from False show ?thesis
        by (cases "pe_grown env = 0"; cases "pe_rewrite_ok env"; cases "pe_state_ok env") (simp_all add: u f)
    qed
  qed (use Some in \<open>simp_all add: purge_signals_consumed_def Let_def\<close>)
qed (simp add: purge_signals_consumed_def)

text \<open>One after the other.\<close>

lemma purge_step_cases: "snd (purge_step wanted f rs) = snd rs \<or> snd (purge_step wanted f rs) = snd (f (snd rs))"
  by (auto simp: purge_step_def split: prod.splits sum.splits)

lemma archive_names: "archive_name env ''log'' \<noteq> archive_name env ''memory''"
  "archive_name env ''signal'' \<noteq> archive_name env ''memory''" "archive_name env ''signal'' \<noteq> archive_name env ''log''"
  by (simp_all add: archive_name_def)

lemma archived_but_other: "archived_but name s s' \<Longrightarrow> name \<noteq> n \<Longrightarrow> ps_archived s' n = ps_archived s n"
  unfolding archived_but_def by (metis fun_upd_apply)

lemma blob_frame_files: "blob_frame s s' \<Longrightarrow> (ps_log s', ps_memory s', ps_signal s', ps_archived s')
    = (ps_log s, ps_memory s, ps_signal s, ps_archived s)"
proof -
  assume "blob_frame s s'"
  then obtain st arch where "s' = s\<lparr>ps_store := st, ps_archive := arch\<rparr>" unfolding blob_frame_def by blast
  then show ?thesis by simp
qed

lemma frames_nothing_lost:
  assumes b1: "blob_frame s s1" and m: "memory_frame (archive_name env ''memory'') s1 s2"
    and l: "log_frame (archive_name env ''log'') s2 s3" and b2: "blob_frame s3 s4"
    and g: "signal_frame (archive_name env ''signal'') s4 s5"
  shows "nothing_lost s s5"
proof -
  let ?f = "\<lambda>x. (ps_log x, ps_memory x, ps_signal x, ps_archived x)"
  have f1: "?f s1 = ?f s" and f4: "?f s4 = ?f s3" using blob_frame_files[OF b1] blob_frame_files[OF b2] by simp_all
  have "keeps_objects (ps_store s, ps_archive s) (ps_store s4, ps_archive s4)"
  proof (rule keeps_objects_trans)
    show "keeps_objects (ps_store s, ps_archive s) (ps_store s1, ps_archive s1)" using b1 unfolding blob_frame_def by blast
    have "ps_store s3 = ps_store s1" "ps_archive s3 = ps_archive s1" using m l by (simp_all add: memory_frame_def log_frame_def same_blobs_def)
    then show "keeps_objects (ps_store s1, ps_archive s1) (ps_store s4, ps_archive s4)" using b2 unfolding blob_frame_def by metis
  qed
  then have objs: "keeps_objects (ps_store s, ps_archive s) (ps_store s5, ps_archive s5)"
    using g by (simp add: frames)
  note names = archive_names[of env]
  have log: "log_kept s s5"
  proof (cases "ps_log s3 = ps_log s2")
    case True
    then show ?thesis using f1 f4 m g by (simp add: log_kept_def frames)
  next
    case False
    then obtain b where b: "ps_log s2 = FileBytes b" "ps_archived s3 (archive_name env ''log'') = Some b"
      using l by (auto simp: log_frame_def)
    have "ps_archived s5 (archive_name env ''log'') = Some b"
      using b(2) f4 g names archived_but_other[of "archive_name env ''signal''" s4 s5] by (simp add: signal_frame_def)
    moreover have "ps_log s = FileBytes b" using b(1) f1 m by (simp add: memory_frame_def)
    ultimately show ?thesis by (auto simp: log_kept_def intro: ranI)
  qed
  have mem: "memory_kept s s5"
  proof (cases "ps_memory s2 = ps_memory s1")
    case True
    then show ?thesis using f1 f4 l g by (simp add: memory_kept_def frames)
  next
    case False
    then obtain b kept gone old where k: "ps_memory s1 = FileBytes b" "ps_memory s2 = FileBytes (joined kept)"
        "ps_archived s2 (archive_name env ''memory'') = Some (old @ joined gone)"
        "mset kept + mset gone = mset (filter (\<lambda>l. trim l \<noteq> []) (lines b))"
      using m by (auto simp: memory_frame_def)
    have "ps_archived s5 (archive_name env ''memory'') = Some (old @ joined gone)"
      using k(3) f4 l g names archived_but_other[of "archive_name env ''signal''" s4 s5]
        archived_but_other[of "archive_name env ''log''" s2 s3]
      by (simp add: signal_frame_def log_frame_def)
    moreover have "ps_memory s = FileBytes b" "ps_memory s5 = FileBytes (joined kept)"
      using k(1,2) f1 f4 l g by (simp_all add: frames)
    ultimately have "\<exists>b kept gone old. ps_memory s = FileBytes b \<and> ps_memory s5 = FileBytes (joined kept)
         \<and> old @ joined gone \<in> ran (ps_archived s5) \<and> mset kept + mset gone = mset (filter (\<lambda>l. trim l \<noteq> []) (lines b))"
      using k(4) by (blast intro: ranI)
    then show ?thesis by (simp add: memory_kept_def)
  qed
  have "signal_kept s s5"
    using g f1 f4 m l by (auto simp: signal_kept_def frames intro: ranI)
  with objs log mem show ?thesis by (simp add: nothing_lost_def)
qed

lemma purge_path_loses_nothing: "blob_frame s s' \<Longrightarrow> nothing_lost s s'"
  by (rule frames_nothing_lost[where env = undefined, OF _ frames_refl(1) frames_refl(2) blob_frame_refl frames_refl(3)])

text \<open>
  C9: except for the deletion of old snapshots, purging loses nothing, whichever flags are given and
  wherever it fails: every blob is in the store or in the archive, and what leaves the log, the
  memories or the inbox stands in an archive file.
\<close>

theorem purge_loses_nothing:
  "nothing_lost s (snd (run_purge env pass_start (fl\<lparr>fl_snapshots_before := None\<rparr>) s))"
proof (cases "pe_running env")
  case True
  then show ?thesis using purge_path_loses_nothing[of s s] by (simp add: run_purge_def)
next
  case False
  show ?thesis
  proof (cases "fl_path fl")
    case (Some pattern)
    obtain r s' where r: "purge_path env s pattern s = (r, s')" by fastforce
    have "nothing_lost s s'" using path_frame[of s env s pattern] purge_path_loses_nothing by (simp add: r)
    with False Some r show ?thesis by (cases r) (simp_all add: run_purge_def)
  next
    case None
    define ts where "ts = site_turns env s"
    define r1 where "r1 = purge_step True (purge_prompts env ts (fl_all_prompts fl)) (Inr (), s)"
    define r2 where "r2 = purge_step (fl_memories_retracted fl) (purge_memories_retracted env) r1"
    define r3 where "r3 = purge_step (fl_log_duplicates fl) (purge_log_duplicates env) r2"
    define r4 where "r4 = purge_step (fl_orphans fl) (purge_orphans env pass_start) r3"
    define r5 where "r5 = purge_step (fl_signals_consumed fl) (purge_signals_consumed env) r4"
    have skip: "purge_step False f rs = rs" for f :: "purge_site \<Rightarrow> (purge_error + nat \<times> nat) \<times> purge_site" and rs
      by (cases rs; cases "fst rs") (simp_all add: purge_step_def)
    have "snd (run_purge env pass_start (fl\<lparr>fl_snapshots_before := None\<rparr>) s) = snd r5"
      using False None by (simp add: run_purge_def Let_def skip r5_def r4_def r3_def r2_def r1_def ts_def)
    moreover have "nothing_lost s (snd r5)"
    proof (rule frames_nothing_lost)
      show "blob_frame s (snd r1)"
        using purge_step_cases[of True "purge_prompts env ts (fl_all_prompts fl)" "(Inr (), s)"] prompts_frame[of s]
        unfolding r1_def by (metis blob_frame_refl snd_conv)
      show "memory_frame (archive_name env ''memory'') (snd r1) (snd r2)"
        using purge_step_cases[of "fl_memories_retracted fl" "purge_memories_retracted env" r1] memories_frame
        unfolding r2_def by (metis frames_refl(1))
      show "log_frame (archive_name env ''log'') (snd r2) (snd r3)"
        using purge_step_cases[of "fl_log_duplicates fl" "purge_log_duplicates env" r2] log_duplicates_frame
        unfolding r3_def by (metis frames_refl(2))
      show "blob_frame (snd r3) (snd r4)"
        using purge_step_cases[of "fl_orphans fl" "purge_orphans env pass_start" r3] orphans_frame
        unfolding r4_def by (metis blob_frame_refl)
      show "signal_frame (archive_name env ''signal'') (snd r4) (snd r5)"
        using purge_step_cases[of "fl_signals_consumed fl" "purge_signals_consumed env" r4] signals_frame
        unfolding r5_def by (metis frames_refl(3))
    qed
    ultimately show ?thesis by simp
  qed
qed

end
