(* ===== verification/Daemon.thy ===== *)
theory Daemon
  imports Journal Stale Purge
begin

text \<open>
  The daemon (cli/src/daemon.rs, \<open>run\<close>): taking the lock, the eviction pass, one iteration of the
  loop, the start and the clean shutdown, over the parts modelled in Watch, Recorder, Signals, Journal,
  Stale and the engine. An error of a step ends the run with what was written so far.
\<close>

subsection \<open>Lock\<close>

definition EVICT_INTERVAL :: nat where "EVICT_INTERVAL = 600000"
definition POLL :: nat where "POLL = 250"

text \<open>What stands at \<open>daemon.lock\<close>; \<open>held\<close> is whether another process has the lock.\<close>

datatype lock_file = LockAbsent | LockIrregular | LockUnopenable | LockFile bool

datatype lock_error = LockNotRegular | LockNotOpened | AlreadyRecording "32 word" | LockStateFailed

definition acquire_lock :: "32 word \<Rightarrow> string \<Rightarrow> bool \<Rightarrow> lock_file \<Rightarrow> state \<Rightarrow> (lock_error + unit) \<times> state" where
  "acquire_lock pid nonce ok f st = (case f of
     LockIrregular \<Rightarrow> (Inl LockNotRegular, st)
   | LockUnopenable \<Rightarrow> (Inl LockNotOpened, st)
   | LockFile True \<Rightarrow> (Inl (AlreadyRecording (st_pid st)), st)
   | _ \<Rightarrow> if ok then (Inr (), lock_state pid nonce st) else (Inl LockStateFailed, st))"

text \<open>The probe takes the lock and gives it back; it creates nothing.\<close>

definition daemon_is_running :: "lock_file \<Rightarrow> bool" where
  "daemon_is_running f \<longleftrightarrow> f = LockFile True"

subsection \<open>Eviction\<close>

definition read_or_nothing :: "site_file \<Rightarrow> string" where
  "read_or_nothing f = (case read_text f of Inr b \<Rightarrow> b | Inl _ \<Rightarrow> [])"

text \<open>References of the journal, the memories, the claims, and of log lines that are no record (cmds.rs).\<close>

definition unparsed_refs :: "(string \<Rightarrow> json option) \<Rightarrow> string \<Rightarrow> hash list" where
  "unparsed_refs from_str line =
     (if trim line = [] then []
      else case Option.bind (from_str (trim line)) dec_log of Some _ \<Rightarrow> [] | None \<Rightarrow> harvest_refs (trim line))"

definition extra_protected_refs :: "(string \<Rightarrow> json option) \<Rightarrow> site_file \<Rightarrow> site_file \<Rightarrow> site_file \<Rightarrow> site_file \<Rightarrow> hash list" where
  "extra_protected_refs from_str journal memory attest log_file =
     concat (map (\<lambda>f. harvest_refs (read_or_nothing f)) [journal, memory, attest])
     @ concat (map (unparsed_refs from_str) (lines (read_or_nothing log_file)))"

text \<open>The time, the budget of the configuration, and which deletions succeed.\<close>

record eviction_env =
  ee_now :: nat
  ee_budget :: nat
  ee_rm_ok :: "hash \<Rightarrow> bool"

definition run_eviction_pass :: "(string \<Rightarrow> json option) \<Rightarrow> eviction_env \<Rightarrow> site_file \<Rightarrow> site_file \<Rightarrow> site_file \<Rightarrow> site_file
    \<Rightarrow> store \<Rightarrow> evicted \<times> store" where
  "run_eviction_pass from_str ev journal memory attest log_file s =
     (let turns = owned_turns (load_log from_str (file_bytes log_file));
          extra = set (extra_protected_refs from_str journal memory attest log_file)
      in execute_plan (ee_rm_ok ev) s (plan_eviction s (ee_now ev) turns (ee_budget ev) extra))"

subsection \<open>State\<close>

record daemon =
  dn_engine :: turn_engine
  dn_recorder :: recorder
  dn_clock :: wall_clock
  dn_offset :: nat
  dn_ignores :: ignore_set
  dn_watching :: watching
  dn_cache :: "string option"
  dn_marker :: stale_marker
  dn_attest :: string
  dn_disk :: disk

definition stamp :: "nat \<Rightarrow> daemon \<Rightarrow> nat \<times> daemon" where
  "stamp now dn = (case wall_ms now (dn_clock dn) of (t, c) \<Rightarrow> (t, dn\<lparr>dn_clock := c\<rparr>))"

definition update_state :: "bool \<Rightarrow> (state \<Rightarrow> state) \<Rightarrow> daemon \<Rightarrow> daemon" where
  "update_state ok f dn = dn\<lparr>dn_disk := (dn_disk dn)\<lparr>dk_state :=
     persisted ok (f (dk_state (dn_disk dn))) (dk_state (dn_disk dn))\<rparr>\<rparr>"

definition persist_closed :: "daemon_env \<Rightarrow> (nat \<Rightarrow> write_outcome) \<Rightarrow> declared_writes option \<Rightarrow> closed_turn list
    \<Rightarrow> daemon \<Rightarrow> (string + unit) \<times> daemon" where
  "persist_closed env outs declared turns dn =
     (case persist env outs (dn_recorder dn) declared turns (dn_clock dn, dn_disk dn) of
        (r, c, dk) \<Rightarrow> (r, dn\<lparr>dn_clock := c, dn_disk := dk\<rparr>))"

definition mirror_open :: "daemon_env \<Rightarrow> sync_outcome \<Rightarrow> daemon \<Rightarrow> daemon" where
  "mirror_open env so dn =
     (case sync_journal env so (dn_engine dn) (dn_recorder dn) (dn_clock dn, dn_cache dn, dn_disk dn) of
        (c, cache, dk) \<Rightarrow> dn\<lparr>dn_clock := c, dn_cache := cache, dn_disk := dk\<rparr>)"

subsection \<open>One signal\<close>

text \<open>
  What a signal meets: its transcript, the surroundings of an ingestion, the id the engine may mint,
  and the outcomes of the writes.
\<close>

record signal_env =
  sg_read :: "string \<Rightarrow> string option"
  sg_ingest :: ingest_env
  sg_gid :: string
  sg_sync :: sync_outcome
  sg_dedup_ok :: bool
  sg_mismatch_ok :: bool
  sg_unknown_ok :: bool
  sg_outs :: "nat \<Rightarrow> write_outcome"

definition take_candidate :: "daemon_env \<Rightarrow> signal_env \<Rightarrow> signal_event \<Rightarrow> daemon \<Rightarrow> daemon" where
  "take_candidate env sv sig dn =
     (let dn1 = (if open_turn_id (dn_engine dn) \<noteq> None then mirror_open env (sg_sync sv) dn else dn);
          dk = dn_disk dn1
      in case ingest_candidate (sg_ingest sv) sig (open_turn_id (dn_engine dn))
           ((dk_state (dn_disk dn), dk_state dk), dk_memories dk) of
         ((_, st'), recs') \<Rightarrow> dn1\<lparr>dn_disk := dk\<lparr>dk_state := st', dk_memories := recs'\<rparr>\<rparr>)"

definition learn_model :: "string option \<Rightarrow> string option \<Rightarrow> daemon \<Rightarrow> daemon" where
  "learn_model model session dn = (case (model, session) of
     (Some m, Some s) \<Rightarrow> dn\<lparr>dn_recorder := set_model s m (dn_recorder dn)\<rparr>
   | _ \<Rightarrow> dn)"

definition take_boundary :: "daemon_env \<Rightarrow> path \<Rightarrow> signal_env \<Rightarrow> nat \<Rightarrow> signal_event \<Rightarrow> daemon
    \<Rightarrow> (string + unit) \<times> daemon" where
  "take_boundary env base sv now sig dn =
     (case signal_context (de_from_str env) (de_scrub env) (sg_read sv) sig of (prompt, model, transcript) \<Rightarrow>
       (let dn1 = learn_model model (se_session sig) dn;
            declared = (if is_start sig then None else resolve_declared (de_from_str env) base sig transcript)
        in case apply_signal (sg_unknown_ok sv) (sg_gid sv) sig prompt now (dn_engine dn1, dk_state (dn_disk dn1)) of
             (turns, e', st') \<Rightarrow> persist_closed env (sg_outs sv) declared turns
               (dn1\<lparr>dn_engine := e', dn_disk := (dn_disk dn1)\<lparr>dk_state := st'\<rparr>\<rparr>)))"

definition handle_signal :: "daemon_env \<Rightarrow> path \<Rightarrow> bool \<Rightarrow> nat \<Rightarrow> signal_env \<times> signal_event \<Rightarrow> daemon
    \<Rightarrow> (string + unit) \<times> daemon" where
  "handle_signal env base memory_enabled now ss dn = (case ss of (sv, sig) \<Rightarrow>
     (if is_memory_candidate sig
      then (Inr (), if memory_enabled then take_candidate env sv sig dn else dn)
      else if se_kind sig = None then
        (case handle_emitter_turn_signal (sg_dedup_ok sv) (sg_mismatch_ok sv) (dn_engine dn) sig (dk_state (dn_disk dn)) of
           (dealt, st') \<Rightarrow>
             (let dn1 = dn\<lparr>dn_disk := (dn_disk dn)\<lparr>dk_state := st'\<rparr>\<rparr> in
              if dealt then (Inr (), dn1) else take_boundary env base sv now sig dn1))
      else take_boundary env base sv now sig dn))"

fun handle_signals :: "daemon_env \<Rightarrow> path \<Rightarrow> bool \<Rightarrow> nat \<Rightarrow> (signal_env \<times> signal_event) list \<Rightarrow> daemon
    \<Rightarrow> (string + unit) \<times> daemon" where
  "handle_signals env base memory_enabled now [] dn = (Inr (), dn)"
| "handle_signals env base memory_enabled now (ss # rest) dn =
     (case handle_signal env base memory_enabled now ss dn of
        (Inl e, dn') \<Rightarrow> (Inl e, dn')
      | (Inr _, dn') \<Rightarrow> handle_signals env base memory_enabled now rest dn')"

subsection \<open>A settled burst\<close>

text \<open>What the burst's staging and the staling of claims meet.\<close>

record burst_env =
  be_guard :: "undo_guard option"
  be_lower :: "string \<Rightarrow> string"
  be_look :: "path \<Rightarrow> look"
  be_gid :: string
  be_map_from_str :: "string \<Rightarrow> coverage_map option"
  be_glob_hits :: "string \<Rightarrow> string \<Rightarrow> bool"
  be_event_line :: "attest_event \<Rightarrow> string"
  be_attest_ok :: bool
  be_map_files :: "map_file \<times> map_file"
  be_stats_ok :: bool

text \<open>A pending path is spared when its relative path is one the undo writes, component by component.\<close>

definition unguarded :: "path \<Rightarrow> string set \<Rightarrow> path list \<Rightarrow> path list" where
  "unguarded base guarded paths = filter (\<lambda>p. case under base p of
     None \<Rightarrow> True
   | Some rel \<Rightarrow> rel \<notin> components ` {g \<in> guarded. \<not> is_absolute g \<and> hd (split_on CHR ''/'' g) \<noteq> ''.''}) paths"

definition stage_pending :: "daemon_env \<Rightarrow> path \<Rightarrow> burst_env \<Rightarrow> nat \<Rightarrow> daemon \<Rightarrow> daemon" where
  "stage_pending env base bv now dn =
     (case stage (de_sha env) (be_lower bv) base (be_look bv) (wa_pending (dn_watching dn))
            (dn_recorder dn, dk_store (dn_disk dn)) of
        ((rc, s), changes) \<Rightarrow>
          (case drain_recorder_stats (be_stats_ok bv) (rc, dk_state (dn_disk dn)) of
             (rc', st') \<Rightarrow> dn\<lparr>dn_engine := observe_changes (dn_engine dn) (be_gid bv) now changes,
               dn_recorder := rc', dn_disk := (dn_disk dn)\<lparr>dk_store := s, dk_state := st'\<rparr>\<rparr>))"

definition flush_burst :: "daemon_env \<Rightarrow> path \<Rightarrow> burst_env \<Rightarrow> nat \<Rightarrow> daemon \<Rightarrow> daemon" where
  "flush_burst env base bv now dn =
     (case stamp now dn of (wall, dn1) \<Rightarrow>
       (let w = dn_watching dn1;
            dn2 = dn1\<lparr>dn_watching := w\<lparr>wa_pending := unguarded base (undo_guard_paths (be_guard bv) wall) (wa_pending w)\<rparr>\<rparr>
        in case stamp now dn2 of (ts, dn3) \<Rightarrow>
          (case on_batch (de_sha env) (be_map_from_str bv) (be_glob_hits bv) (be_event_line bv) (be_attest_ok bv)
                 (be_map_files bv) base (wa_pending (dn_watching dn3)) ts (dn_marker dn3, dn_attest dn3) of
             (m, attest) \<Rightarrow>
               (let dn4 = stage_pending env base bv now (dn3\<lparr>dn_marker := m, dn_attest := attest\<rparr>)
                in dn4\<lparr>dn_watching := burst_taken (dn_watching dn4)\<rparr>))))"

subsection \<open>One iteration\<close>

text \<open>
  Two readings of the monotonic clock (before and after the wait for events), the wall clock, the
  walk of a rebuild, a due eviction with the memory file it reads, the watcher's queue and the number
  of its errors, the inbox, and the outcomes of the writes.
\<close>

record tick_env =
  tk_before :: nat
  tk_now :: nat
  tk_wall :: nat
  tk_found :: ignore_set
  tk_rebuild_ok :: bool
  tk_evict :: "(eviction_env \<times> site_file) option"
  tk_watch :: watch_env
  tk_queue :: "watch_event option list"
  tk_watch_ok :: bool
  tk_disconnected :: bool
  tk_burst :: burst_env
  tk_memory_enabled :: bool
  tk_inbox :: inbox
  tk_offset_ok :: bool
  tk_signals :: "nat \<Rightarrow> signal_env"
  tk_outs :: "nat \<Rightarrow> write_outcome"
  tk_sync :: sync_outcome
  tk_stop :: bool

definition rebuild_ignores :: "tick_env \<Rightarrow> daemon \<Rightarrow> daemon" where
  "rebuild_ignores tk dn = (case maybe_rebuild (wa_gitignore_dirty (dn_watching dn)) (tk_found tk) of
     (dirty, None) \<Rightarrow> dn
   | (dirty, Some fresh) \<Rightarrow>
       (case stamp (tk_before tk) dn of (wall, dn1) \<Rightarrow>
          (update_state (tk_rebuild_ok tk) (record_ignore_rebuild wall) dn1)
             \<lparr>dn_ignores := fresh, dn_watching := (dn_watching dn1)\<lparr>wa_gitignore_dirty := dirty\<rparr>\<rparr>))"

definition evict_if_due :: "daemon_env \<Rightarrow> tick_env \<Rightarrow> daemon \<Rightarrow> daemon" where
  "evict_if_due env tk dn = (case tk_evict tk of
     None \<Rightarrow> dn
   | Some (ev, memory) \<Rightarrow>
       (let dk = dn_disk dn;
            journal = (case dk_journal dk of Some b \<Rightarrow> FileBytes b | None \<Rightarrow> FileAbsent)
        in dn\<lparr>dn_disk := dk\<lparr>dk_store := snd (run_eviction_pass (de_from_str env) ev journal memory
             (FileBytes (dn_attest dn)) (FileBytes (dk_log dk)) (dk_store dk))\<rparr>\<rparr>))"

definition drain_events :: "tick_env \<Rightarrow> daemon \<Rightarrow> daemon" where
  "drain_events tk dn =
     ((update_state (tk_watch_ok tk) (record_io_failure ''<watcher>'') ^^ length (filter (\<lambda>q. q = None) (tk_queue tk))) dn)
       \<lparr>dn_watching := drain_watch_events (tk_watch tk) (dn_ignores dn) (tk_queue tk) (dn_watching dn)\<rparr>"

definition take_git_hit :: "nat \<Rightarrow> daemon \<Rightarrow> daemon" where
  "take_git_hit now dn = (if wa_git_hit (dn_watching dn)
     then dn\<lparr>dn_engine := observe_git_change (dn_engine dn) now, dn_watching := (dn_watching dn)\<lparr>wa_git_hit := False\<rparr>\<rparr>
     else dn)"

definition poll_inbox :: "daemon_env \<Rightarrow> tick_env \<Rightarrow> daemon \<Rightarrow> signal_event list \<times> daemon" where
  "poll_inbox env tk dn = (case poll (de_from_str env) (tk_offset_ok tk) (tk_inbox tk) (dn_offset dn, dk_state (dn_disk dn)) of
     (sigs, off, st') \<Rightarrow> (sigs, dn\<lparr>dn_offset := off, dn_disk := (dn_disk dn)\<lparr>dk_state := st'\<rparr>\<rparr>))"

text \<open>How an iteration ends: the loop goes on, is left for the shutdown, or fails.\<close>

datatype tick_end = GoOn | LeaveLoop | Failed string

definition loop_tick :: "daemon_env \<Rightarrow> path \<Rightarrow> tick_env \<Rightarrow> daemon \<Rightarrow> tick_end \<times> daemon" where
  "loop_tick env base tk dn =
     (let dn1 = drain_events tk (evict_if_due env tk (rebuild_ignores tk dn)) in
      if tk_disconnected tk then (LeaveLoop, dn1)
      else let now = tk_now tk;
               dn2 = take_git_hit now (dn1\<lparr>dn_clock := reanchor now (tk_wall tk) (dn_clock dn1)\<rparr>);
               dn3 = (if burst_due now (dn_watching dn2) then flush_burst env base (tk_burst tk) now dn2 else dn2)
           in case poll_inbox env tk dn3 of (sigs, dn4) \<Rightarrow>
             (case handle_signals env base (tk_memory_enabled tk) now
                     (map (\<lambda>(i, sig). (tk_signals tk i, sig)) (enumerate 0 sigs)) dn4 of
                (Inl e, dn5) \<Rightarrow> (Failed e, dn5)
              | (Inr _, dn5) \<Rightarrow>
                  (case tick (dn_engine dn5) now of (e', turns) \<Rightarrow>
                    (case persist_closed env (tk_outs tk) None turns (dn5\<lparr>dn_engine := e'\<rparr>) of
                       (Inl e, dn6) \<Rightarrow> (Failed e, dn6)
                     | (Inr _, dn6) \<Rightarrow>
                         (if tk_stop tk then LeaveLoop else GoOn, mirror_open env (tk_sync tk) dn6)))))"

text \<open>The loop, over what its iterations meet.\<close>

fun run_loop :: "daemon_env \<Rightarrow> path \<Rightarrow> tick_env list \<Rightarrow> daemon \<Rightarrow> tick_end \<times> daemon" where
  "run_loop env base [] dn = (GoOn, dn)"
| "run_loop env base (tk # tks) dn = (case loop_tick env base tk dn of
     (GoOn, dn') \<Rightarrow> run_loop env base tks dn'
   | (LeaveLoop, dn') \<Rightarrow> (LeaveLoop, dn')
   | (Failed e, dn') \<Rightarrow> (Failed e, dn'))"

subsection \<open>Start and shutdown\<close>

text \<open>
  From recovery to the first epoch record. The arguments after the recovery's: the eviction, the
  inbox of the gap, the files of the scan, the gitignore files, and the writes.
\<close>

record start_env =
  sv_recovery :: write_outcome
  sv_fresh :: string
  sv_evict :: "eviction_env \<times> site_file"
  sv_wall :: nat
  sv_elapsed :: nat
  sv_files :: "path list"
  sv_memory_enabled :: bool
  sv_ingest :: "nat \<Rightarrow> ingest_env"
  sv_inbox :: inbox
  sv_offset_ok :: bool
  sv_found :: ignore_set
  sv_log_ok :: bool
  sv_watcher_ok :: bool
  sv_armed_ok :: bool

definition start_daemon :: "daemon_env \<Rightarrow> path \<Rightarrow> bool \<Rightarrow> start_env \<Rightarrow> string \<Rightarrow> disk \<Rightarrow> (string + daemon) \<times> disk" where
  "start_daemon env base attest_stale sv attest dk =
     (case recover_orphan env (sv_recovery sv) (sv_fresh sv) dk of
        (Inl e, dk1) \<Rightarrow> (Inl e, dk1)
      | (Inr _, dk1) \<Rightarrow>
          (let journal = (case dk_journal dk1 of Some b \<Rightarrow> FileBytes b | None \<Rightarrow> FileAbsent);
               dk2 = dk1\<lparr>dk_store := snd (run_eviction_pass (de_from_str env) (fst (sv_evict sv)) journal (snd (sv_evict sv))
                   (FileBytes attest) (FileBytes (dk_log dk1)) (dk_store dk1))\<rparr>
           in case replay_pending_candidates (de_from_str env) (sv_ingest sv) (sv_offset_ok sv) (sv_memory_enabled sv) None
                     (sv_inbox sv) (dk_state dk2, dk_memories dk2) of
             (rp, st', recs') \<Rightarrow>
               (let dk3 = dk2\<lparr>dk_state := st', dk_memories := recs'\<rparr>;
                    (wall, clock) = wall_ms (sv_elapsed sv) (clock_start (sv_wall sv))
                in case append_epoch env (sv_log_ok sv) ''start'' wall (word_of_nat (rp_dropped_signals rp)) dk3 of
                     (Inl e, dk4) \<Rightarrow> (Inl e, dk4)
                   | (Inr _, dk4) \<Rightarrow>
                       if \<not> sv_watcher_ok sv then (Inl ''watcher'', dk4)
                       else (let dk5 = dk4\<lparr>dk_state := persisted (sv_armed_ok sv) (stamp_watcher_armed (dk_state dk4)) (dk_state dk4)\<rparr>
                             in (Inr \<lparr>dn_engine = new_engine, dn_recorder = recorder_scan base (sv_files sv),
                                  dn_clock = clock, dn_offset = rp_consumed rp, dn_ignores = build_ignore_set (sv_found sv),
                                  dn_watching = not_watching, dn_cache = None, dn_marker = new_marker attest_stale,
                                  dn_attest = attest, dn_disk = dk5\<rparr>, dk5)))))"

text \<open>The last burst is staged without the undo guard and without staling.\<close>

definition shutdown :: "daemon_env \<Rightarrow> path \<Rightarrow> burst_env \<Rightarrow> nat \<Rightarrow> (nat \<Rightarrow> write_outcome) \<Rightarrow> sync_outcome \<Rightarrow> nat \<Rightarrow> bool
    \<Rightarrow> 32 word \<Rightarrow> bool \<Rightarrow> daemon \<Rightarrow> (string + unit) \<times> daemon" where
  "shutdown env base bv now outs so later log_ok pid state_ok dn =
     (let dn1 = (if wa_pending (dn_watching dn) = [] then dn else stage_pending env base bv now dn) in
      case force_close (dn_engine dn1) now of (e', turns) \<Rightarrow>
        (case persist_closed env outs None turns (dn1\<lparr>dn_engine := e'\<rparr>) of
           (Inl e, dn2) \<Rightarrow> (Inl e, dn2)
         | (Inr _, dn2) \<Rightarrow>
             (let dn3 = mirror_open env so dn2 in
              case stamp later dn3 of (wall, dn4) \<Rightarrow>
                (case append_epoch env log_ok ''stop'' wall 0 (dn_disk dn4) of
                   (Inl e, dk) \<Rightarrow> (Inl e, dn4\<lparr>dn_disk := dk\<rparr>)
                 | (Inr _, dk) \<Rightarrow> (Inr (), update_state state_ok (release_lock pid) (dn4\<lparr>dn_disk := dk\<rparr>))))))"

end
