(* ===== verification/Entry_Props.thy ===== *)
theory Entry_Props
  imports Recorder_Props Engine_Props
begin

text \<open>
  What holds of every observation the recorder makes, stays true in the engine however turns are
  extended and merged, and makes every file entry of the log well formed.
\<close>

subsection \<open>Observations\<close>

definition obs_ok :: "change_obs \<Rightarrow> bool" where
  "obs_ok c \<longleftrightarrow> (co_baseline_unknown c \<longrightarrow> co_before_hash c = None)
     \<and> \<not> (co_snapshotted c \<and> co_withheld c) \<and> (co_deleted c \<longrightarrow> co_snapshotted c \<or> co_withheld c)
     \<and> utf8_valid (co_path c)"

lemma take_snapshot_marks:
  assumes "take_snapshot sha lower lk rel rs = ((after, snapshotted, withheld, cause), rs')"
  shows "\<not> (snapshotted \<and> withheld) \<and> (lk_meta lk = MetaNotFound \<longrightarrow> snapshotted \<or> withheld)"
proof -
  obtain rc s where rs: "rs = (rc, s)" by fastforce
  consider "is_secret_path lower rel" | "\<not> is_secret_path lower rel" "lk_meta lk = MetaNotFound"
    | "\<not> is_secret_path lower rel" "lk_meta lk = MetaLink"
    | "\<not> is_secret_path lower rel" "lk_meta lk \<noteq> MetaNotFound" "lk_meta lk \<noteq> MetaLink" by blast
  then show ?thesis
  proof cases
    case 3
    obtain r s1 where "put_result sha (lk_io lk) (lk_touch_ok lk) (lk_now lk) (utf8_lossy (the (lk_target lk))) s = (r, s1)"
      by fastforce
    with 3 assms show ?thesis
      by (cases "lk_target lk"; cases r) (auto simp: take_snapshot_def symlink_change_def rs)
  next
    case 4
    obtain r s1 where "put_result sha (lk_io lk) (lk_touch_ok lk) (lk_now lk) (the (lk_bytes lk)) s = (r, s1)"
      by fastforce
    with 4 assms show ?thesis
      by (cases "lk_bytes lk"; cases r) (auto simp: take_snapshot_def file_change_def rs split: if_splits)
  qed (use assms in \<open>auto simp: take_snapshot_def\<close>)
qed

lemma stage_path_obs_ok:
  assumes "list_all obs_ok (snd acc)"
  shows "list_all obs_ok (snd (stage_path sha lower base look acc p))"
proof -
  obtain rc s out where acc: "acc = ((rc, s), out)" by (metis prod.exhaust)
  show ?thesis
  proof (cases "under base p")
    case None
    with assms show ?thesis by (simp add: stage_path_def acc)
  next
    case (Some rel)
    obtain after snapshotted withheld cause rc1 s1 where
      t: "take_snapshot sha lower (look p) (rel_string rel) (rc, s) = ((after, snapshotted, withheld, cause), rc1, s1)"
      by (metis prod.exhaust)
    show ?thesis
      using assms take_snapshot_marks[OF t] Some
      by (auto simp: stage_path_def acc t Let_def obs_ok_def)
  qed
qed

lemma stage_obs_ok: "list_all obs_ok (snd (stage sha lower base look paths rs))"
proof -
  have "list_all obs_ok (snd (foldl (stage_path sha lower base look) acc paths))" if "list_all obs_ok (snd acc)" for acc
    using that
  proof (induction paths arbitrary: acc)
    case (Cons p paths)
    show ?case using Cons.IH[OF stage_path_obs_ok[OF Cons.prems]] by simp
  qed simp
  then show ?thesis by (simp add: stage_def)
qed

subsection \<open>In the engine\<close>

lemma upsert_obs_ok: "list_all obs_ok fs \<Longrightarrow> obs_ok c \<Longrightarrow> list_all obs_ok (upsert_obs fs c)"
  by (induction fs) (auto simp: obs_ok_def)

lemma upserts_obs_ok: "list_all obs_ok fs \<Longrightarrow> list_all obs_ok cs \<Longrightarrow> list_all obs_ok (foldl upsert_obs fs cs)"
  by (induction cs arbitrary: fs) (auto simp: upsert_obs_ok)

lemma merge_before_obs_ok: "list_all obs_ok fs \<Longrightarrow> obs_ok c \<Longrightarrow> list_all obs_ok (merge_before fs c)"
  by (induction fs) (auto simp: obs_ok_def)

lemma claim_files_obs_ok:
  "list_all obs_ok fs \<Longrightarrow> list_all obs_ok gs \<Longrightarrow> list_all obs_ok (fst (foldl claim_file (fs, cl) gs))"
  by (induction gs arbitrary: fs cl) (auto simp: claim_file_pair merge_before_obs_ok)

definition turn_obs_ok :: "closed_turn \<Rightarrow> bool" where
  "turn_obs_ok t \<longleftrightarrow> list_all obs_ok (ct_files t)"

lemma fold_recent_obs_ok:
  assumes "turn_obs_ok t" "list_all turn_obs_ok (te_recent_bare e)"
  shows "turn_obs_ok (snd (fold_recent_bares e t))"
proof -
  have "list_all obs_ok (concat (map ct_files (eligible_bares e t)))"
    using assms(2) by (auto simp: list_all_iff turn_obs_ok_def eligible_bares_def)
  moreover have "ct_files (snd (fold_recent_bares e t))
      = fst (foldl claim_file (ct_files t, {}) (concat (map ct_files (eligible_bares e t))))"
    using fold_bare_files[of t "{}" "eligible_bares e t"] by (simp add: fold_recent_bares_def) (metis fst_conv)
  ultimately show ?thesis using assms(1) claim_files_obs_ok by (simp add: turn_obs_ok_def)
qed

lemma closed_files [simp]: "ct_files (snd (finish e o' now b g tr)) = ot_files o'"
  "ct_files (snd (close_own_terms e o' now)) = ot_files o'" "ct_files (stop_only_turn gid now tool prompt session) = []"
  by (simp_all add: finish_def close_own_terms_def stop_only_turn_def split: source.split)

definition engine_obs_ok :: "turn_engine \<Rightarrow> bool" where
  "engine_obs_ok e \<longleftrightarrow> (case te_open e of None \<Rightarrow> True | Some o' \<Rightarrow> list_all obs_ok (ot_files o'))
     \<and> list_all turn_obs_ok (te_recent_bare e) \<and> list_all turn_obs_ok (te_pending_closed e)"

fun event_obs_ok :: "engine_event \<Rightarrow> bool" where
  "event_obs_ok (ObserveChanges gid now cs) = list_all obs_ok cs"
| "event_obs_ok _ = True"

lemma filter_ok: "list_all P xs \<Longrightarrow> list_all P (filter Q xs)"
  by (auto simp: list_all_iff)

lemma engine_move_obs_ok:
  "engine_move e ev e' out \<Longrightarrow> engine_obs_ok e \<Longrightarrow> event_obs_ok ev \<Longrightarrow> engine_obs_ok e' \<and> list_all turn_obs_ok out"
proof (induction rule: engine_move.induct)
  case (observe cs e o' gid now)
  then show ?case by (simp add: engine_obs_ok_def upserts_obs_ok)
next
  case (observe_open cs e gid now)
  then show ?case by (simp add: engine_obs_ok_def upserts_obs_ok)
next
  case (stop_bracket e o' tool base now prompt session turn gid)
  then have "turn_obs_ok base" by (simp add: engine_obs_ok_def turn_obs_ok_def)
  with stop_bracket show ?case by (simp add: engine_obs_ok_def fold_recent_obs_ok)
next
  case (stop_convert e o' base now tool prompt session turn gid)
  then have "turn_obs_ok base" by (simp add: engine_obs_ok_def turn_obs_ok_def)
  with stop_convert show ?case by (simp add: engine_obs_ok_def fold_recent_obs_ok)
next
  case (stop_idle e turn gid now tool prompt session)
  have "turn_obs_ok (stop_only_turn gid now tool prompt session)" by (simp add: turn_obs_ok_def)
  with stop_idle show ?case by (simp add: engine_obs_ok_def fold_recent_obs_ok)
next
  case (stop_other e o' prior now turn gid tool prompt session)
  have "turn_obs_ok (stop_only_turn gid now tool prompt session)" by (simp add: turn_obs_ok_def)
  moreover have "turn_obs_ok prior" using stop_other by (simp add: engine_obs_ok_def turn_obs_ok_def)
  ultimately show ?case using stop_other by (simp add: engine_obs_ok_def fold_recent_obs_ok)
qed (auto simp: engine_obs_ok_def turn_obs_ok_def filter_ok)

lemma engine_run_obs_ok:
  "run_machine engine_step e out evs = (e', out') \<Longrightarrow> engine_obs_ok e \<Longrightarrow> list_all event_obs_ok evs
    \<Longrightarrow> list_all turn_obs_ok out \<Longrightarrow> engine_obs_ok e' \<and> list_all turn_obs_ok out'"
proof (induction evs arbitrary: e out)
  case (Cons ev evs)
  obtain e1 new where s: "engine_step e ev = (e1, new)" by fastforce
  with Cons.prems engine_move_obs_ok[OF engine_step_move[OF s]]
  have "run_machine engine_step e1 (out @ new) evs = (e', out')" "engine_obs_ok e1" "list_all turn_obs_ok (out @ new)"
    by simp_all
  then show ?case using Cons.IH Cons.prems(3) by simp
qed simp

text \<open>The cause of a skip is the first observation's, although the others are the last one's.\<close>

lemma skip_cause_of_first_observation:
  "co_skip_reason (hd (upsert_obs [c] d)) = co_skip_reason c"
  "co_path d = co_path c \<Longrightarrow> co_snapshotted (hd (upsert_obs [c] d)) = co_snapshotted d"
  by simp_all

subsection \<open>In the log\<close>

definition entry_ok :: "file_entry \<Rightarrow> bool" where
  "entry_ok f \<longleftrightarrow> fe_op f \<in> {''create'', ''modify'', ''delete''}
     \<and> (fe_op f = ''create'' \<longrightarrow> fe_before f = None \<and> \<not> fe_baseline_unknown f)
     \<and> (fe_baseline_unknown f \<longrightarrow> fe_before f = None)
     \<and> \<not> (fe_skipped f \<and> fe_withheld f) \<and> (fe_op f = ''delete'' \<longrightarrow> \<not> fe_skipped f)
     \<and> fe_link_kind f \<in> {None, Some ''symlink''} \<and> fe_attribution f \<in> {None, Some ''declared'', Some ''undeclared''}
     \<and> utf8_valid (fe_path f)"

text \<open>What an entry of the log says of the observation it stands for.\<close>

definition entry_tells :: "file_entry \<Rightarrow> change_obs \<Rightarrow> bool" where
  "entry_tells f c \<longleftrightarrow> fe_path f = co_path c \<and> fe_before f = co_before_hash c
     \<and> fe_op f = (if co_deleted c then ''delete''
         else if co_before_hash c = None \<and> \<not> co_baseline_unknown c then ''create'' else ''modify'')
     \<and> fe_skipped f = (\<not> co_snapshotted c \<and> \<not> co_withheld c) \<and> fe_withheld f = co_withheld c
     \<and> fe_baseline_unknown f = co_baseline_unknown c \<and> fe_skipped_reason f = co_skip_reason c
     \<and> fe_link_kind f \<in> {None, Some ''symlink''} \<and> fe_attribution f \<in> {None, Some ''declared'', Some ''undeclared''}"

lemma entry_tells_ok: "entry_tells f c \<Longrightarrow> obs_ok c \<Longrightarrow> entry_ok f"
  by (auto simp: entry_tells_def obs_ok_def entry_ok_def)

lemma resolve_tells: "entry_tells (resolve rc c) c"
  by (simp add: entry_tells_def resolve_def)

end
