(* ===== verification/Daemon_Props.thy ===== *)
theory Daemon_Props
  imports Daemon Journal_Props Entry_Props Retention_Props Purge_Props
begin

text \<open>
  The daemon's loop as a whole: the log grows by the turns the engine emits, in order, whichever
  writes fail; and a blob leaves the store only by an eviction, which spares everything cited.
\<close>

subsection \<open>Eviction\<close>

lemma refs_in_nil [simp]: "refs_in [] = {}"
  by (simp add: refs_in_def hex_ref_def)

lemma read_or_nothing_text: "read_or_nothing (FileBytes b) = (if utf8_valid b then b else [])"
  by (simp add: read_or_nothing_def read_text_def)

text \<open>What the site cites beside the turns: journal, memories, claims, lines that are no record.\<close>

definition cited_besides :: "(string \<Rightarrow> json option) \<Rightarrow> site_file \<Rightarrow> site_file \<Rightarrow> site_file \<Rightarrow> site_file \<Rightarrow> hash set" where
  "cited_besides from_str journal memory attest log_file =
     refs_in (read_or_nothing journal) \<union> refs_in (read_or_nothing memory) \<union> refs_in (read_or_nothing attest)
     \<union> (\<Union>l \<in> {l \<in> set (lines (read_or_nothing log_file)). Option.bind (from_str (trim l)) dec_log = None}. refs_in (trim l))"

lemma extra_protected: "set (extra_protected_refs from_str journal memory attest log_file)
    = cited_besides from_str journal memory attest log_file"
proof -
  have u: "set (unparsed_refs from_str l)
      = (if Option.bind (from_str (trim l)) dec_log = None then refs_in (trim l) else {})" for l
    by (auto simp: unparsed_refs_def set_harvest split: option.splits)
  show ?thesis by (auto simp: extra_protected_refs_def cited_besides_def set_harvest u split: if_splits)
qed

lemma evicted_blobs:
  assumes "object_at (snd (run_eviction_pass from_str ev journal memory attest log_file s)) h \<noteq> object_at s h"
  shows "h \<in> hashes_of (owned_turns (load_log from_str (file_bytes log_file)))
    \<and> h \<notin> cited_besides from_str journal memory attest log_file \<and> \<not> fresh s (ee_now ev) h"
proof -
  let ?turns = "owned_turns (load_log from_str (file_bytes log_file))"
  let ?x = "cited_besides from_str journal memory attest log_file"
  have "h \<in> fst ` set (pl_victims (plan_eviction s (ee_now ev) ?turns (ee_budget ev) ?x))"
    using assms execute_changes unfolding run_eviction_pass_def Let_def extra_protected execute_plan_def by blast
  then have "h \<in> set (victim_hashes s (ee_now ev) ?turns (ee_budget ev) ?x)"
    by (simp add: victim_hashes_def)
  moreover have "hashes_of (older k ?turns) \<subseteq> hashes_of ?turns" for k
    using set_drop_subset[of k "rev ?turns"] unfolding hashes_of_def older_def by fastforce
  ultimately show ?thesis
    using plan_victims(1)[of s "ee_now ev" ?turns "ee_budget ev" ?x] by (auto simp: candidates_def Let_def)
qed

lemma get_ok_cong: "object_at s h = object_at s' h \<Longrightarrow> get_ok sha s h = get_ok sha s' h"
  by (cases "object_path h") (simp_all add: get_ok_def get_def object_at_def)

subsection \<open>The parts of an iteration\<close>

text \<open>A run of the engine on observations the recorder can make.\<close>

definition engine_path :: "turn_engine \<Rightarrow> closed_turn list \<Rightarrow> turn_engine \<Rightarrow> bool" where
  "engine_path e ts e' \<longleftrightarrow> (\<exists>evs. run_machine engine_step e [] evs = (e', ts) \<and> list_all event_obs_ok evs)"

lemma engine_path_refl [simp]: "engine_path e [] e"
  by (auto simp: engine_path_def intro: exI[of _ "[]"])

lemma engine_path_step: "engine_step e ev = (e', ts) \<Longrightarrow> event_obs_ok ev \<Longrightarrow> engine_path e ts e'"
  by (auto simp: engine_path_def intro!: exI[of _ "[ev]"])

lemma engine_path_trans: "engine_path e ts e1 \<Longrightarrow> engine_path e1 ts' e2 \<Longrightarrow> engine_path e (ts @ ts') e2"
proof -
  assume "engine_path e ts e1" "engine_path e1 ts' e2"
  then obtain evs evs' where r: "run_machine engine_step e [] evs = (e1, ts)"
    "run_machine engine_step e1 [] evs' = (e2, ts')" "list_all event_obs_ok (evs @ evs')" by (auto simp: engine_path_def)
  have "run_machine engine_step e [] (evs @ evs') = (e2, ts @ ts')"
    using run_machine_prefix[OF r(2), of ts] r(1) by (simp add: run_machine_append)
  with r(3) show ?thesis unfolding engine_path_def by blast
qed

text \<open>What a record says of the turn it was written for.\<close>

fun tells :: "log_record \<Rightarrow> closed_turn \<Rightarrow> bool" where
  "tells (Turn r) t \<longleftrightarrow> (tr_id r, tr_grade r, tr_truncated r, tr_tool r, tr_session r, tr_merges r)
       = (ct_id t, ct_grade t, ct_truncated t, ct_tool t, ct_session t, ct_merges t)
     \<and> tr_v r = SCHEMA_MAJOR \<and> list_all2 entry_tells (tr_files r) (ct_files t)"
| "tells (Epoch _) t \<longleftrightarrow> False"

lemma tells_closed_record: "tells (Turn (closed_record env rc d t p stamps)) t"
proof -
  have "entry_tells (attributed d (resolve rc c)) c" for c
    using resolve_tells[of rc c] by (simp add: attributed_def entry_tells_def split: option.split)
  then show ?thesis by (simp add: closed_record_def SCHEMA_MAJOR_def list_all2_map1 list_all2_same)
qed

lemma written_tells: "list_all2 tells (written env outs rc d ts cd) (take (length (written env outs rc d ts cd)) ts)"
proof (induction ts arbitrary: outs cd)
  case (Cons t ts)
  then show ?case
    using tells_closed_record by (simp add: Let_def written_record_def del: tells.simps)
qed simp

lemma written_length:
  "persist env outs rc d ts cd = (Inr x, cd') \<Longrightarrow> length (written env outs rc d ts cd) = length ts"
proof (induction ts arbitrary: outs cd)
  case (Cons t ts)
  define d' where "d' = (if ts = [] then d else None)"
  obtain r1 cd1 where t: "persist_turn env (outs 0) rc d' t cd = (r1, cd1)" by (metis prod.exhaust)
  note e = persist_turn_effect[OF t]
  have ok: "wo_log_ok (outs 0)"
    using Cons.prems t e(3) by (cases "wo_log_ok (outs 0)") (simp_all flip: d'_def)
  then have "persist env (\<lambda>n. outs (Suc n)) rc d ts cd1 = (Inr x, cd')"
    using Cons.prems t e(2) by (simp flip: d'_def)
  from Cons.IH[OF this] ok t show ?case by (simp add: Let_def flip: d'_def)
qed simp

text \<open>
  From one state to another the engine emits \<open>ts\<close> and \<open>recs\<close> is appended: the records of the first
  of them, of all unless a write failed; no blob is lost.
\<close>

definition goes :: "daemon_env \<Rightarrow> bool \<Rightarrow> daemon \<Rightarrow> daemon \<Rightarrow> closed_turn list \<Rightarrow> log_record list \<Rightarrow> bool" where
  "goes env ok dn dn' ts recs \<longleftrightarrow> engine_path (dn_engine dn) ts (dn_engine dn')
     \<and> dk_log (dn_disk dn') = dk_log (dn_disk dn) @ log_lines env recs
     \<and> list_all2 tells recs (take (length recs) ts) \<and> (ok \<longrightarrow> length recs = length ts)
     \<and> keeps_blobs (de_sha env) (dk_store (dn_disk dn)) (dk_store (dn_disk dn'))"

lemma keeps_blobs_trans: "keeps_blobs sha s s1 \<Longrightarrow> keeps_blobs sha s1 s2 \<Longrightarrow> keeps_blobs sha s s2"
  by (simp add: keeps_blobs_def)

lemma goes_trans:
  assumes "goes env True dn dn1 ts recs" "goes env ok dn1 dn2 ts' recs'"
  shows "goes env ok dn dn2 (ts @ ts') (recs @ recs')"
proof -
  have "list_all2 tells recs (take (length recs) ts)" "length recs = length ts"
    using assms(1) by (auto simp: goes_def)
  then have "list_all2 tells recs ts" "length recs = length ts" by simp_all
  then have "list_all2 tells (recs @ recs') (take (length (recs @ recs')) (ts @ ts'))"
    using assms(2) by (simp add: goes_def list_all2_appendI)
  then show ?thesis using assms engine_path_trans keeps_blobs_trans by (simp add: goes_def) blast
qed

text \<open>A step that leaves engine, log and store alone.\<close>

definition same_core :: "daemon \<Rightarrow> daemon \<Rightarrow> bool" where
  "same_core dn dn' \<longleftrightarrow> dn_engine dn' = dn_engine dn \<and> dk_log (dn_disk dn') = dk_log (dn_disk dn)
     \<and> dk_store (dn_disk dn') = dk_store (dn_disk dn)"

lemma goes_quiet: "same_core dn dn' \<Longrightarrow> goes env ok dn dn' [] []"
  by (simp add: goes_def same_core_def)

lemma goes_after_quiet: "same_core dn dn1 \<Longrightarrow> goes env ok dn1 dn2 ts recs \<Longrightarrow> goes env ok dn dn2 ts recs"
  by (simp add: goes_def same_core_def)

lemma goes_then_quiet: "goes env ok dn dn1 ts recs \<Longrightarrow> same_core dn1 dn2 \<Longrightarrow> goes env ok dn dn2 ts recs"
  by (simp add: goes_def same_core_def)

lemma same_core_trans: "same_core a b \<Longrightarrow> same_core b c \<Longrightarrow> same_core a c"
  by (simp add: same_core_def)

lemma stamp_core: "stamp now dn = (t, dn') \<Longrightarrow> same_core dn dn'"
  by (auto simp: stamp_def same_core_def split: prod.splits)

lemma update_state_core: "same_core dn (update_state ok f dn)"
  by (simp add: update_state_def same_core_def)

lemma update_states_core: "same_core dn ((update_state ok f ^^ n) dn)"
  by (induction n) (auto simp: same_core_def update_state_def)

lemma sync_journal_keeps: "sync_journal env so e rc (clock, cache, dk) = (c, cache', dk')
    \<Longrightarrow> dk_log dk' = dk_log dk \<and> dk_store dk' = dk_store dk"
  by (auto simp: sync_journal_def Let_def split: option.splits prod.splits if_splits)

lemma mirror_open_core: "same_core dn (mirror_open env so dn)"
proof -
  obtain c cache dk where s: "sync_journal env so (dn_engine dn) (dn_recorder dn)
      (dn_clock dn, dn_cache dn, dn_disk dn) = (c, cache, dk)" by (metis prod.exhaust)
  then show ?thesis using sync_journal_keeps[OF s] by (simp add: mirror_open_def same_core_def)
qed

lemma persist_prompt_blobs:
  assumes "persist_prompt env o' prompt dk = (p, dk')"
  shows "keeps_blobs (de_sha env) (dk_store dk) (dk_store dk')"
proof (cases prompt)
  case (Some body)
  obtain r s where r: "put_result (de_sha env) (wo_io o') (wo_touch_ok o') (wo_now o') (de_scrub env body)
      (dk_store dk) = (r, s)" by fastforce
  from put_result_keeps_blobs[OF r] Some assms r show ?thesis
    by (cases r) (auto simp: persist_prompt_def)
qed (use assms in \<open>simp add: persist_prompt_def\<close>)

lemma persist_turn_blobs:
  assumes "persist_turn env o' rc d t cd = (r, cd')"
  shows "keeps_blobs (de_sha env) (dk_store (snd cd)) (dk_store (snd cd'))"
proof -
  obtain clock dk where cd: "cd = (clock, dk)" by fastforce
  obtain prompt dk1 where p: "persist_prompt env o' (ct_prompt t) dk = (prompt, dk1)" by fastforce
  obtain stamps clock' where st: "turn_stamps t clock = (stamps, clock')" by fastforce
  show ?thesis
    using assms persist_prompt_blobs[OF p]
    by (cases rule: append_to_log_cases[of env "wo_log_ok o'" "Turn (closed_record env rc d t prompt stamps)" dk1])
      (auto simp: persist_turn_def cd p st)
qed

lemma persist_blobs:
  "persist env outs rc d ts cd = (r, cd') \<Longrightarrow> keeps_blobs (de_sha env) (dk_store (snd cd)) (dk_store (snd cd'))"
proof (induction ts arbitrary: outs cd)
  case (Cons t ts)
  obtain r1 cd1 where t: "persist_turn env (outs 0) rc (if ts = [] then d else None) t cd = (r1, cd1)"
    by (metis prod.exhaust)
  note k = persist_turn_blobs[OF t]
  show ?case
  proof (cases r1)
    case (Inl e)
    with Cons.prems t k show ?thesis by simp
  next
    case (Inr u)
    with Cons.prems t have "persist env (\<lambda>n. outs (Suc n)) rc d ts cd1 = (r, cd')" by simp
    from keeps_blobs_trans[OF k Cons.IH[OF this]] show ?thesis .
  qed
qed simp

lemma persist_closed_goes:
  assumes "persist_closed env outs d ts dn = (r, dn')" "engine_path e ts (dn_engine dn)"
  shows "\<exists>recs. goes env (r = Inr ()) (dn\<lparr>dn_engine := e\<rparr>) dn' ts recs"
proof -
  obtain c dk where p: "persist env outs (dn_recorder dn) d ts (dn_clock dn, dn_disk dn) = (r, c, dk)"
    using assms(1) by (auto simp: persist_closed_def split: prod.splits)
  then have dn': "dn' = dn\<lparr>dn_clock := c, dn_disk := dk\<rparr>" using assms(1) by (simp add: persist_closed_def)
  let ?recs = "written env outs (dn_recorder dn) d ts (dn_clock dn, dn_disk dn)"
  have "length ?recs = length ts" if "r = Inr ()" using written_length p that by blast
  then have "goes env (r = Inr ()) (dn\<lparr>dn_engine := e\<rparr>) dn' ts ?recs"
    using persist_effect[OF p] persist_blobs[OF p] assms(2) written_tells by (simp add: goes_def dn')
  then show ?thesis by blast
qed

lemma take_candidate_core: "same_core dn (take_candidate env sv sig dn)"
proof -
  define dn1 where "dn1 = (if open_turn_id (dn_engine dn) \<noteq> None then mirror_open env (sg_sync sv) dn else dn)"
  have c: "same_core dn dn1" using mirror_open_core by (simp add: dn1_def same_core_def)
  obtain a b c where "ingest_candidate (sg_ingest sv) sig (open_turn_id (dn_engine dn))
      ((dk_state (dn_disk dn), dk_state (dn_disk dn1)), dk_memories (dn_disk dn1)) = ((a, b), c)"
    by (metis prod.exhaust)
  then have "take_candidate env sv sig dn = dn1\<lparr>dn_disk := (dn_disk dn1)\<lparr>dk_state := b, dk_memories := c\<rparr>\<rparr>"
    unfolding take_candidate_def Let_def dn1_def[symmetric] by simp
  with c show ?thesis by (simp add: same_core_def)
qed

lemma apply_signal_path:
  assumes "apply_signal ok gid sig prompt now (e, st) = (ts, e', st')"
  shows "engine_path e ts e'"
proof -
  have start: "engine_path e ts e'" if "observe_start e gid now tool p s et = (e', ts)" for tool p s et
    using that engine_path_step[of e "ObserveStart gid now tool p s et"] by simp
  have stop: "engine_path e ts e'" if "observe_stop e gid now tool p s = (e', ts)" for tool p s
    using that engine_path_step[of e "ObserveStop gid now tool p s"] by simp
  from assms show ?thesis
    by (auto simp: apply_signal_def dest: start stop split: if_splits prod.splits)
qed

lemma take_boundary_goes:
  assumes "take_boundary env base sv now sig dn = (r, dn')"
  shows "\<exists>ts recs. goes env (r = Inr ()) dn dn' ts recs"
proof -
  obtain prompt model transcript where ctx: "signal_context (de_from_str env) (de_scrub env) (sg_read sv) sig
      = (prompt, model, transcript)" by (metis prod.exhaust)
  define dn1 where "dn1 = learn_model model (se_session sig) dn"
  have c: "same_core dn dn1" by (auto simp: dn1_def learn_model_def same_core_def split: option.splits)
  obtain ts e' st' where a: "apply_signal (sg_unknown_ok sv) (sg_gid sv) sig prompt now
      (dn_engine dn1, dk_state (dn_disk dn1)) = (ts, e', st')" by (metis prod.exhaust)
  define dn2 where "dn2 = dn1\<lparr>dn_engine := e', dn_disk := (dn_disk dn1)\<lparr>dk_state := st'\<rparr>\<rparr>"
  have "persist_closed env (sg_outs sv) (if is_start sig then None else resolve_declared (de_from_str env) base sig transcript)
      ts dn2 = (r, dn')"
    using assms unfolding take_boundary_def ctx Let_def prod.case dn1_def[symmetric] a dn2_def by simp
  moreover have "engine_path (dn_engine dn1) ts (dn_engine dn2)"
    using apply_signal_path[OF a] by (simp add: dn2_def)
  ultimately obtain recs where "goes env (r = Inr ()) (dn2\<lparr>dn_engine := dn_engine dn1\<rparr>) dn' ts recs"
    using persist_closed_goes by blast
  moreover have "same_core dn (dn2\<lparr>dn_engine := dn_engine dn1\<rparr>)" using c by (simp add: same_core_def dn2_def)
  ultimately show ?thesis using goes_after_quiet by blast
qed

lemma handle_signal_goes:
  assumes "handle_signal env base memory_enabled now (sv, sig) dn = (r, dn')"
  shows "\<exists>ts recs. goes env (r = Inr ()) dn dn' ts recs"
proof (cases "is_memory_candidate sig")
  case True
  then have "same_core dn dn'" using assms take_candidate_core by (auto simp: handle_signal_def same_core_def)
  then show ?thesis using goes_quiet by blast
next
  case False
  obtain dealt st' where h: "handle_emitter_turn_signal (sg_dedup_ok sv) (sg_mismatch_ok sv) (dn_engine dn) sig
      (dk_state (dn_disk dn)) = (dealt, st')" by fastforce
  define dn1 where "dn1 = dn\<lparr>dn_disk := (dn_disk dn)\<lparr>dk_state := st'\<rparr>\<rparr>"
  have c: "same_core dn dn1" by (simp add: dn1_def same_core_def)
  show ?thesis
  proof (cases "se_kind sig = None")
    case True
    then have "(if dealt then (Inr (), dn1) else take_boundary env base sv now sig dn1) = (r, dn')"
      using assms False by (cases dealt) (simp_all add: handle_signal_def h Let_def dn1_def)
    then have "(r = Inr () \<and> dn' = dn1) \<or> take_boundary env base sv now sig dn1 = (r, dn')" by (auto split: if_splits)
    then show ?thesis
    proof
      assume "r = Inr () \<and> dn' = dn1"
      then show ?thesis using goes_quiet[OF c] by blast
    next
      assume "take_boundary env base sv now sig dn1 = (r, dn')"
      then show ?thesis using take_boundary_goes goes_after_quiet[OF c] by blast
    qed
  next
    case kind: False
    then have "take_boundary env base sv now sig dn = (r, dn')" using assms False by (simp add: handle_signal_def del: not_None_eq)
    then show ?thesis by (rule take_boundary_goes)
  qed
qed

lemma handle_signals_goes:
  "handle_signals env base memory_enabled now ss dn = (r, dn') \<Longrightarrow> \<exists>ts recs. goes env (r = Inr ()) dn dn' ts recs"
proof (induction ss arbitrary: dn)
  case Nil
  then show ?case using goes_quiet[of dn dn] by (auto simp: same_core_def)
next
  case (Cons s ss)
  obtain sv sig where s: "s = (sv, sig)" by fastforce
  obtain r1 dn1 where h: "handle_signal env base memory_enabled now (sv, sig) dn = (r1, dn1)" by fastforce
  obtain ts recs where g: "goes env (r1 = Inr ()) dn dn1 ts recs" using handle_signal_goes[OF h] by blast
  show ?case
  proof (cases r1)
    case (Inl e)
    then show ?thesis using Cons.prems g by (auto simp: h s)
  next
    case (Inr u)
    then have "handle_signals env base memory_enabled now ss dn1 = (r, dn')" using Cons.prems by (simp add: h s)
    then obtain ts' recs' where "goes env (r = Inr ()) dn1 dn' ts' recs'" using Cons.IH by blast
    moreover have "goes env True dn dn1 ts recs" using g Inr by simp
    ultimately show ?thesis using goes_trans by blast
  qed
qed

lemma stage_blobs: "stage sha lower base look paths (rc, s) = ((rc', s'), obs) \<Longrightarrow> keeps_blobs sha s s'"
proof -
  assume st: "stage sha lower base look paths (rc, s) = ((rc', s'), obs)"
  have "keeps_blobs sha s (snd (fst (run_machine (stage_move sha lower base) (rc, s) [] ms)))" for ms
  proof (induction ms arbitrary: rc s rule: rev_induct)
    case (snoc m ms)
    obtain rc1 s1 out where r: "run_machine (stage_move sha lower base) (rc, s) [] ms = ((rc1, s1), out)"
      by (metis prod.exhaust)
    obtain rc2 s2 new where m: "stage_move sha lower base (rc1, s1) m = ((rc2, s2), new)" by (metis prod.exhaust)
    obtain lk q where q: "m = (lk, q)" by fastforce
    have "keeps_blobs sha s1 s2" using m unfolding q by (cases rule: stage_move_cases) simp_all
    with snoc.IH[where rc = rc and s = s] r m keeps_blobs_trans show ?case by (auto simp: run_machine_append)
  qed simp
  note kept = this[of "map (\<lambda>p. (look p, p)) paths"]
  have "fst (stage sha lower base look paths (rc, s))
      = fst (run_machine (stage_move sha lower base) (rc, s) [] (map (\<lambda>p. (look p, p)) paths))"
    by (rule stage_is_moves)
  then have "fst (run_machine (stage_move sha lower base) (rc, s) [] (map (\<lambda>p. (look p, p)) paths)) = (rc', s')"
    unfolding st by simp
  with kept show ?thesis by simp
qed

lemma stage_pending_goes: "goes env True dn (stage_pending env base bv now dn) [] []"
proof -
  obtain rc s changes where st: "stage (de_sha env) (be_lower bv) base (be_look bv) (wa_pending (dn_watching dn))
      (dn_recorder dn, dk_store (dn_disk dn)) = ((rc, s), changes)" by (metis prod.exhaust)
  obtain rc' st' where d: "drain_recorder_stats (be_stats_ok bv) (rc, dk_state (dn_disk dn)) = (rc', st')" by fastforce
  show ?thesis
    using stage_blobs[OF st] engine_path_step[of "dn_engine dn" "ObserveChanges (be_gid bv) now changes"]
      stage_obs_ok[of "de_sha env" "be_lower bv" base "be_look bv" "wa_pending (dn_watching dn)" "(dn_recorder dn, dk_store (dn_disk dn))"]
    by (simp add: stage_pending_def st d goes_def)
qed

lemma flush_burst_goes: "goes env True dn (flush_burst env base bv now dn) [] []"
proof -
  obtain wall dn1 where s1: "stamp now dn = (wall, dn1)" by fastforce
  define dn2 where "dn2 = dn1\<lparr>dn_watching := (dn_watching dn1)\<lparr>wa_pending :=
    unguarded base (undo_guard_paths (be_guard bv) wall) (wa_pending (dn_watching dn1))\<rparr>\<rparr>"
  obtain ts dn3 where s3: "stamp now dn2 = (ts, dn3)" by fastforce
  obtain m a where b: "on_batch (de_sha env) (be_map_from_str bv) (be_glob_hits bv) (be_event_line bv) (be_attest_ok bv)
      (be_map_files bv) base (wa_pending (dn_watching dn3)) ts (dn_marker dn3, dn_attest dn3) = (m, a)" by fastforce
  have "same_core dn (dn3\<lparr>dn_marker := m, dn_attest := a\<rparr>)"
    using stamp_core[OF s1] stamp_core[OF s3] by (simp add: same_core_def dn2_def)
  from goes_after_quiet[OF this stage_pending_goes]
  show ?thesis
    unfolding flush_burst_def s1 Let_def prod.case dn2_def[symmetric] s3 b
    by (rule goes_then_quiet) (simp add: same_core_def)
qed

lemma rebuild_core: "same_core dn (rebuild_ignores tk dn)"
proof -
  obtain dirty found where m: "maybe_rebuild (wa_gitignore_dirty (dn_watching dn)) (tk_found tk) = (dirty, found)"
    by fastforce
  obtain wall dn1 where s: "stamp (tk_before tk) dn = (wall, dn1)" by fastforce
  show ?thesis
    using stamp_core[OF s] update_state_core[of dn1 "tk_rebuild_ok tk" "record_ignore_rebuild wall"]
    by (cases found) (simp_all add: rebuild_ignores_def m s same_core_def)
qed

lemma drain_core: "same_core dn (drain_events tk dn)"
  using update_states_core[where ok = "tk_watch_ok tk" and f = "record_io_failure ''<watcher>''" and dn = dn]
  by (simp add: drain_events_def same_core_def)

lemma take_git_goes: "goes env True dn (take_git_hit now dn) [] []"
  using engine_path_step[of "dn_engine dn" "ObserveGit now"] by (simp add: take_git_hit_def goes_def)

lemma poll_core: "poll_inbox env tk dn = (sigs, dn') \<Longrightarrow> same_core dn dn'"
  by (auto simp: poll_inbox_def same_core_def split: prod.splits)

lemma goes_trans0: "goes env True dn dn1 [] [] \<Longrightarrow> goes env ok dn1 dn2 ts recs \<Longrightarrow> goes env ok dn dn2 ts recs"
  using goes_trans[of env dn dn1 "[]" "[]"] by fastforce

definition failed :: "tick_end \<Rightarrow> bool" where
  "failed r \<longleftrightarrow> (case r of Failed _ \<Rightarrow> True | _ \<Rightarrow> False)"

lemma failed_simps [simp]: "failed (Failed e)" "\<not> failed GoOn" "\<not> failed LeaveLoop"
  by (simp_all add: failed_def)

lemma loop_tick_goes:
  assumes "loop_tick env base tk dn = (r, dn')"
  shows "\<exists>ts recs. goes env (\<not> failed r) (evict_if_due env tk (rebuild_ignores tk dn)) dn' ts recs"
proof -
  define dn0 where "dn0 = evict_if_due env tk (rebuild_ignores tk dn)"
  define dn1 where "dn1 = drain_events tk dn0"
  define dn2 where "dn2 = take_git_hit (tk_now tk) (dn1\<lparr>dn_clock := reanchor (tk_now tk) (tk_wall tk) (dn_clock dn1)\<rparr>)"
  define dn3 where "dn3 = (if burst_due (tk_now tk) (dn_watching dn2)
      then flush_burst env base (tk_burst tk) (tk_now tk) dn2 else dn2)"
  obtain sigs dn4 where p: "poll_inbox env tk dn3 = (sigs, dn4)" by fastforce
  define ss where "ss = map (\<lambda>(i, sig). (tk_signals tk i, sig)) (enumerate 0 sigs)"
  obtain r5 dn5 where h: "handle_signals env base (tk_memory_enabled tk) (tk_now tk) ss dn4 = (r5, dn5)" by fastforce
  obtain e' turns where k: "tick (dn_engine dn5) (tk_now tk) = (e', turns)" by fastforce
  obtain r6 dn6 where c: "persist_closed env (tk_outs tk) None turns (dn5\<lparr>dn_engine := e'\<rparr>) = (r6, dn6)" by fastforce
  have core1: "same_core dn0 dn1" using drain_core by (simp add: dn1_def)
  have tick: "loop_tick env base tk dn = (if tk_disconnected tk then (LeaveLoop, dn1) else
      case r5 of Inl e \<Rightarrow> (Failed e, dn5) | Inr _ \<Rightarrow> (case r6 of Inl e \<Rightarrow> (Failed e, dn6)
        | Inr _ \<Rightarrow> (if tk_stop tk then LeaveLoop else GoOn, mirror_open env (tk_sync tk) dn6)))"
    unfolding loop_tick_def Let_def dn0_def[symmetric] dn1_def[symmetric] dn2_def[symmetric] dn3_def[symmetric] p prod.case
      ss_def[symmetric] h
    by (cases r5; cases r6) (simp_all add: k c)
  show ?thesis
  proof (cases "tk_disconnected tk")
    case True
    then show ?thesis using assms tick goes_quiet[OF core1] by (auto simp: dn0_def)
  next
    case conn: False
    have "same_core dn0 (dn1\<lparr>dn_clock := reanchor (tk_now tk) (tk_wall tk) (dn_clock dn1)\<rparr>)"
      using core1 by (simp add: same_core_def)
    then have g2: "goes env True dn0 dn2 [] []" using goes_after_quiet take_git_goes unfolding dn2_def by blast
    have "goes env True dn2 dn3 [] []"
      using flush_burst_goes goes_quiet[of dn2 dn2] by (simp add: dn3_def same_core_def)
    then have "goes env True dn0 dn3 [] []" using g2 goes_trans0 by blast
    then have g4: "goes env True dn0 dn4 [] []" using poll_core[OF p] goes_then_quiet by blast
    obtain ts recs where g5: "goes env (r5 = Inr ()) dn4 dn5 ts recs" using handle_signals_goes[OF h] by blast
    show ?thesis
    proof (cases r5)
      case (Inl e)
      then have "goes env False dn0 dn5 ts recs" using g4 g5 goes_trans0 by simp
      moreover have "r = Failed e" "dn' = dn5" using Inl assms tick conn by simp_all
      ultimately show ?thesis unfolding dn0_def by auto
    next
      case r5: (Inr u)
      then have g: "goes env True dn0 dn5 ts recs" using g4 g5 goes_trans0 by simp
      have "engine_path (dn_engine dn5) turns e'" using k engine_path_step[of "dn_engine dn5" "Tick (tk_now tk)"] by simp
      then obtain recs' where "goes env (r6 = Inr ()) dn5 dn6 turns recs'"
        using persist_closed_goes[OF c, of "dn_engine dn5"] by auto
      from goes_trans[OF g this] have g6: "goes env (r6 = Inr ()) dn0 dn6 (ts @ turns) (recs @ recs')" .
      show ?thesis
      proof (cases r6)
        case (Inl e)
        then have "r = Failed e" "dn' = dn6" using r5 assms tick conn by simp_all
        with g6 Inl show ?thesis unfolding dn0_def by auto
      next
        case (Inr u')
        then have "goes env True dn0 (mirror_open env (tk_sync tk) dn6) (ts @ turns) (recs @ recs')"
          using g6 goes_then_quiet mirror_open_core by fastforce
        moreover have "\<not> failed r" "dn' = mirror_open env (tk_sync tk) dn6" using Inr r5 assms tick conn by (cases "tk_stop tk"; simp)+
        ultimately show ?thesis unfolding dn0_def by auto
      qed
    qed
  qed
qed

lemma evict_core: "dn_engine (evict_if_due env tk dn) = dn_engine dn"
  "dk_log (dn_disk (evict_if_due env tk dn)) = dk_log (dn_disk dn)"
  by (simp_all add: evict_if_due_def Let_def split: option.split prod.split)

lemma loop_tick_logs:
  assumes "loop_tick env base tk dn = (r, dn')"
  shows "\<exists>ts recs. engine_path (dn_engine dn) ts (dn_engine dn')
    \<and> dk_log (dn_disk dn') = dk_log (dn_disk dn) @ log_lines env recs
    \<and> list_all2 tells recs (take (length recs) ts) \<and> (\<not> failed r \<longrightarrow> length recs = length ts)"
  using loop_tick_goes[OF assms] rebuild_core[of dn tk] by (simp add: goes_def evict_core same_core_def) blast

subsection \<open>The loop\<close>

lemma run_loop_logs:
  assumes "run_loop env base tks dn = (r, dn')"
  shows "\<exists>ts recs. engine_path (dn_engine dn) ts (dn_engine dn')
       \<and> dk_log (dn_disk dn') = dk_log (dn_disk dn) @ log_lines env recs
       \<and> list_all2 tells recs (take (length recs) ts) \<and> (\<not> failed r \<longrightarrow> length recs = length ts)"
  using assms
proof (induction tks arbitrary: dn)
    case Nil
    then have "engine_path (dn_engine dn) [] (dn_engine dn')
       \<and> dk_log (dn_disk dn') = dk_log (dn_disk dn) @ log_lines env []" by simp
    then show ?case by force
  next
    case (Cons tk tks)
    obtain r1 dn1 where t: "loop_tick env base tk dn = (r1, dn1)" by fastforce
    from loop_tick_logs[OF t] obtain ts recs where g: "engine_path (dn_engine dn) ts (dn_engine dn1)"
      "dk_log (dn_disk dn1) = dk_log (dn_disk dn) @ log_lines env recs"
      "list_all2 tells recs (take (length recs) ts)" "\<not> failed r1 \<Longrightarrow> length recs = length ts" by blast
    show ?case
    proof (cases r1)
      case GoOn
      then have "run_loop env base tks dn1 = (r, dn')" using Cons.prems t by simp
      from Cons.IH[OF this] obtain ts' recs' where g': "engine_path (dn_engine dn1) ts' (dn_engine dn')"
        "dk_log (dn_disk dn') = dk_log (dn_disk dn1) @ log_lines env recs'"
        "list_all2 tells recs' (take (length recs') ts')" "\<not> failed r \<Longrightarrow> length recs' = length ts'" by blast
      have len: "length recs = length ts" using g(4) GoOn by simp
      then have "list_all2 tells recs ts" using g(3) by simp
      then have "list_all2 tells (recs @ recs') (take (length (recs @ recs')) (ts @ ts'))"
        using g'(3) len by (simp add: list_all2_appendI)
      moreover have "engine_path (dn_engine dn) (ts @ ts') (dn_engine dn')"
        using engine_path_trans[OF g(1) g'(1)] .
      moreover have "dk_log (dn_disk dn') = dk_log (dn_disk dn) @ log_lines env (recs @ recs')"
        using g(2) g'(2) by simp
      moreover have "\<not> failed r \<Longrightarrow> length (recs @ recs') = length (ts @ ts')" using g'(4) len by simp
      ultimately show ?thesis by blast
    next
      case LeaveLoop
      with Cons.prems t have "r = LeaveLoop" "dn' = dn1" by simp_all
      with g LeaveLoop show ?thesis by (intro exI[of _ ts] exI[of _ recs]) simp
    next
      case (Failed e)
      with Cons.prems t have "r = Failed e" "dn' = dn1" by simp_all
      with g show ?thesis by (intro exI[of _ ts] exI[of _ recs]) simp
    qed
qed

text \<open>
  C5: the log is what the engine emitted. Whatever a run of the loop meets, the records it appends are,
  in order, those of the turns the engine emitted for some sequence of calls: of all of them, or of
  the first of them when a write failed and ended the run.
\<close>

theorem daemon_logs_what_engine_emits:
  "case run_loop env base tks dn of (r, dn') \<Rightarrow>
     \<exists>evs ts recs. run_machine engine_step (dn_engine dn) [] evs = (dn_engine dn', ts)
       \<and> dk_log (dn_disk dn') = dk_log (dn_disk dn) @ log_lines env recs
       \<and> list_all2 tells recs (take (length recs) ts) \<and> (if failed r then True else length recs = length ts)"
proof -
  obtain r dn' where r: "run_loop env base tks dn = (r, dn')" by fastforce
  from run_loop_logs[OF r] show ?thesis by (simp add: r engine_path_def) blast
qed

text \<open>A record the daemon may write.\<close>

fun record_ok :: "log_record \<Rightarrow> bool" where
  "record_ok (Turn r) \<longleftrightarrow> tr_v r = SCHEMA_MAJOR \<and> tr_grade r \<in> {''bare'', ''rich''}
     \<and> (tr_grade r = ''bare'' \<longrightarrow> tr_tool r = None \<and> tr_session r = None \<and> tr_merges r = [])
     \<and> (tr_grade r = ''rich'' \<longrightarrow> tr_tool r \<noteq> None) \<and> list_all entry_ok (tr_files r)"
| "record_ok (Epoch _) \<longleftrightarrow> False"

lemma tells_ok:
  assumes "tells r t" "honest_turn t" "turn_obs_ok t"
  shows "record_ok r"
proof (cases r)
  case (Turn u)
  have "list_all2 entry_tells (tr_files u) (ct_files t)" using assms(1) Turn by simp
  then have "list_all entry_ok (tr_files u)"
    using assms(3) unfolding turn_obs_ok_def by (induction rule: list_all2_induct) (auto simp: entry_tells_ok)
  with assms Turn show ?thesis by (auto simp: honest_turn_def bare_turn_def rich_turn_def)
qed (use assms in simp)

text \<open>
  C6: every record the loop writes is well formed, whatever the watcher, the signals and the file
  system do: of this schema, bare with no tool, session or merges or rich with a tool, and each
  entry consistent (a creation has no earlier content, a deletion is not skipped, nothing is both
  skipped and withheld, an unknown baseline has no hash).
\<close>

theorem daemon_records_well_formed:
  "\<exists>recs. dk_log (dn_disk (snd (run_loop env base tks (dn\<lparr>dn_engine := new_engine\<rparr>))))
       = dk_log (dn_disk dn) @ log_lines env recs \<and> list_all record_ok recs"
proof -
  obtain r dn' where r: "run_loop env base tks (dn\<lparr>dn_engine := new_engine\<rparr>) = (r, dn')" by fastforce
  from run_loop_logs[OF r] obtain evs ts recs where g: "run_machine engine_step new_engine [] evs = (dn_engine dn', ts)"
    "list_all event_obs_ok evs" "dk_log (dn_disk dn') = dk_log (dn_disk dn) @ log_lines env recs"
    "list_all2 tells recs (take (length recs) ts)" by (auto simp: engine_path_def)
  have "engine_obs_ok new_engine" by (simp add: engine_obs_ok_def new_engine_def)
  then have "list_all turn_obs_ok ts" using engine_run_obs_ok[OF g(1)] g(2) by simp
  moreover have "list_all honest_turn ts" using attribution.run_inv[of evs] g(1) by (simp add: inv_attr_def)
  ultimately have "list_all (\<lambda>t. honest_turn t \<and> turn_obs_ok t) (take (length recs) ts)"
    by (auto simp: list_all_iff dest: in_set_takeD)
  with g(4) have "list_all record_ok recs" by (induction rule: list_all2_induct) (auto simp: tells_ok)
  with g(3) r show ?thesis by auto
qed

text \<open>What a due eviction may take: uncited blobs of logged turns, not written since it began.\<close>

definition evictable :: "daemon_env \<Rightarrow> tick_env \<Rightarrow> daemon \<Rightarrow> hash set" where
  "evictable env tk dn = (case tk_evict tk of
     None \<Rightarrow> {}
   | Some (ev, memory) \<Rightarrow>
       hashes_of (owned_turns (logged env (dn_disk dn)))
       - cited_besides (de_from_str env) (case dk_journal (dn_disk dn) of Some b \<Rightarrow> FileBytes b | None \<Rightarrow> FileAbsent)
           memory (FileBytes (dn_attest dn)) (FileBytes (dk_log (dn_disk dn)))
       - {h. fresh (dk_store (dn_disk dn)) (ee_now ev) h})"

lemma evict_if_due_blobs:
  "{h. get_ok sha (dk_store (dn_disk (evict_if_due env tk dn))) h \<noteq> get_ok sha (dk_store (dn_disk dn)) h}
    \<subseteq> evictable env tk dn"
proof (cases "tk_evict tk")
  case (Some x)
  obtain ev memory where x: "x = (ev, memory)" by fastforce
  have f: "file_bytes (FileBytes b) = Some b" for b by (simp add: file_bytes_def)
  show ?thesis
  proof
    fix h assume "h \<in> {h. get_ok sha (dk_store (dn_disk (evict_if_due env tk dn))) h \<noteq> get_ok sha (dk_store (dn_disk dn)) h}"
    then have "object_at (dk_store (dn_disk (evict_if_due env tk dn))) h \<noteq> object_at (dk_store (dn_disk dn)) h"
      using get_ok_cong by blast
    then show "h \<in> evictable env tk dn"
      using evicted_blobs unfolding evict_if_due_def Some x by (fastforce simp: evictable_def Some x Let_def logged_def f)
  qed
qed (simp add: evict_if_due_def evictable_def)

text \<open>
  C3: in one iteration, whatever it meets, a readable blob is lost only to a due eviction, and then
  it is a snapshot of a logged turn that neither the crash journal, nor a memory, nor a claim, nor a
  line of the log that is no record cites, and that was not written since the eviction began.
\<close>

theorem loop_loses_only_evictable:
  "{h. get_ok (de_sha env) (dk_store (dn_disk dn)) h \<noteq> None
       \<and> get_ok (de_sha env) (dk_store (dn_disk (snd (loop_tick env base tk dn)))) h
         \<noteq> get_ok (de_sha env) (dk_store (dn_disk dn)) h}
    \<subseteq> evictable env tk dn"
proof
  let ?sha = "de_sha env" and ?s = "dk_store (dn_disk dn)"
  let ?dn0 = "evict_if_due env tk (rebuild_ignores tk dn)"
  obtain r dn' where t: "loop_tick env base tk dn = (r, dn')" by fastforce
  fix h assume h: "h \<in> {h. get_ok ?sha ?s h \<noteq> None \<and> get_ok ?sha (dk_store (dn_disk (snd (loop_tick env base tk dn)))) h \<noteq> get_ok ?sha ?s h}"
  have "keeps_blobs ?sha (dk_store (dn_disk ?dn0)) (dk_store (dn_disk dn'))"
    using loop_tick_goes[OF t] by (auto simp: goes_def)
  then have "get_ok ?sha (dk_store (dn_disk ?dn0)) h \<noteq> get_ok ?sha ?s h"
    using h t by (auto simp: keeps_blobs_def)
  moreover have "dk_store (dn_disk (rebuild_ignores tk dn)) = ?s" using rebuild_core by (simp add: same_core_def)
  ultimately have "h \<in> evictable env tk (rebuild_ignores tk dn)"
    using evict_if_due_blobs[of ?sha env tk "rebuild_ignores tk dn"] by auto
  moreover have "evictable env tk (rebuild_ignores tk dn) = evictable env tk dn"
  proof -
    have "dn_attest (rebuild_ignores tk dn) = dn_attest dn"
      "dk_journal (dn_disk (rebuild_ignores tk dn)) = dk_journal (dn_disk dn)"
      by (simp_all add: rebuild_ignores_def stamp_def update_state_def split: prod.split option.split)
    then show ?thesis using rebuild_core[of dn tk]
      by (cases "tk_evict tk") (auto simp: evictable_def same_core_def logged_def)
  qed
  ultimately show "h \<in> evictable env tk dn" by simp
qed

subsection \<open>A clean stop\<close>

lemma tick_drains: "te_pending_closed (fst (tick e now)) = []"
proof -
  obtain e' out where "tick e now = (e', out)" by fastforce
  from tick_move[OF this] show ?thesis
    using \<open>tick e now = (e', out)\<close> by (cases rule: engine_move.cases) simp_all
qed

lemma persist_closed_engine: "dn_engine (snd (persist_closed env outs d ts dn)) = dn_engine dn"
  by (simp add: persist_closed_def split: prod.split)

lemma loop_tick_drains:
  assumes "loop_tick env base tk dn = (r, dn')" "\<not> failed r" "te_pending_closed (dn_engine dn) = []"
  shows "te_pending_closed (dn_engine dn') = []"
proof (cases "tk_disconnected tk")
  case True
  then have "dn' = drain_events tk (evict_if_due env tk (rebuild_ignores tk dn))"
    using assms(1) by (simp add: loop_tick_def Let_def)
  then show ?thesis using assms(3) drain_core rebuild_core by (simp add: evict_core same_core_def)
next
  case False
  with assms(1,2) obtain dn5 e' turns r6 dn6 where k: "tick (dn_engine dn5) (tk_now tk) = (e', turns)"
    "persist_closed env (tk_outs tk) None turns (dn5\<lparr>dn_engine := e'\<rparr>) = (r6, dn6)"
    "dn' = mirror_open env (tk_sync tk) dn6"
    by (auto simp: loop_tick_def Let_def split: prod.splits sum.splits)
  have "dn_engine dn' = e'"
    using persist_closed_engine[of env "tk_outs tk" None turns "dn5\<lparr>dn_engine := e'\<rparr>"] mirror_open_core[of dn6] k(2,3)
    by (simp add: same_core_def)
  then show ?thesis using tick_drains[of "dn_engine dn5" "tk_now tk"] k(1) by simp
qed

lemma run_loop_drains:
  "run_loop env base tks dn = (r, dn') \<Longrightarrow> \<not> failed r \<Longrightarrow> te_pending_closed (dn_engine dn) = []
    \<Longrightarrow> te_pending_closed (dn_engine dn') = []"
proof (induction tks arbitrary: dn)
  case (Cons tk tks)
  obtain r1 dn1 where t: "loop_tick env base tk dn = (r1, dn1)" by fastforce
  with Cons.prems loop_tick_drains[OF t] Cons.IH show ?case by (cases r1) auto
qed simp

lemma force_closes: "force_close e now = (e', ts) \<Longrightarrow> te_open e' = None \<and> te_pending_closed e' = te_pending_closed e"
  by (cases "te_open e") (auto simp: force_close_def split_beta)

lemma stage_pending_pending:
  "te_pending_closed (dn_engine (stage_pending env base bv now dn)) = te_pending_closed (dn_engine dn)"
  by (simp add: stage_pending_def observe_changes_def Let_def split: prod.split option.split)

lemma append_epoch_cases:
  assumes "append_epoch env ok event wall n dk = (Inr u, dk')"
  obtains ep where "ep_event ep = event" "dk' = dk\<lparr>dk_log := dk_log dk @ log_lines env [Epoch ep]\<rparr>"
  using assms unfolding append_epoch_def
  by (cases rule: append_to_log_cases[of env ok "Epoch \<lparr>ep_v = 1, ep_event = event, ep_ts = rfc3339 wall, ep_dropped_signals = n\<rparr>" dk])
    (auto intro: that[rotated])

lemma shutdown_logs:
  assumes "shutdown env base bv now outs so later log_ok pid state_ok dn = (Inr u, dn')"
    and "te_pending_closed (dn_engine dn) = []"
  shows "\<exists>ts recs ep. engine_path (dn_engine dn) ts (dn_engine dn') \<and> ep_event ep = ''stop''
    \<and> dk_log (dn_disk dn') = dk_log (dn_disk dn) @ log_lines env (recs @ [Epoch ep])
    \<and> list_all2 tells recs ts \<and> te_open (dn_engine dn') = None \<and> te_pending_closed (dn_engine dn') = []"
proof -
  define dn1 where "dn1 = (if wa_pending (dn_watching dn) = [] then dn else stage_pending env base bv now dn)"
  have g1: "goes env True dn dn1 [] []"
    using stage_pending_goes goes_quiet[of dn dn] by (simp add: dn1_def same_core_def)
  have p1: "te_pending_closed (dn_engine dn1) = []" using assms(2) stage_pending_pending by (simp add: dn1_def)
  obtain e' turns where f: "force_close (dn_engine dn1) now = (e', turns)" by fastforce
  obtain r2 dn2 where c: "persist_closed env outs None turns (dn1\<lparr>dn_engine := e'\<rparr>) = (r2, dn2)" by fastforce
  have r2: "r2 = Inr ()"
    using assms(1) unfolding shutdown_def Let_def dn1_def[symmetric] f prod.case c by (cases r2) simp_all
  obtain wall dn4 where st: "stamp later (mirror_open env so dn2) = (wall, dn4)" by fastforce
  obtain r5 dk where a: "append_epoch env log_ok ''stop'' wall 0 (dn_disk dn4) = (r5, dk)" by fastforce
  have r5: "r5 = Inr ()" "dn' = update_state state_ok (release_lock pid) (dn4\<lparr>dn_disk := dk\<rparr>)"
    using assms(1) unfolding shutdown_def Let_def dn1_def[symmetric] f prod.case c r2 sum.case st a
    by (cases r5; simp)+
  have "engine_path (dn_engine dn1) turns e'" using engine_path_step[of "dn_engine dn1" "ForceClose now"] f by simp
  then obtain recs where "goes env True dn1 dn2 turns recs"
    using persist_closed_goes[OF c, of "dn_engine dn1"] r2 by auto
  with g1 have "goes env True dn dn2 turns recs" by (rule goes_trans0)
  then have g: "goes env True dn dn4 turns recs"
    using stamp_core[OF st] mirror_open_core goes_then_quiet same_core_trans by blast
  obtain ep where ep: "ep_event ep = ''stop''" "dk = (dn_disk dn4)\<lparr>dk_log := dk_log (dn_disk dn4) @ log_lines env [Epoch ep]\<rparr>"
    using append_epoch_cases a r5(1) by metis
  have "dn_engine dn4 = e'"
    using stamp_core[OF st] mirror_open_core[of dn2] persist_closed_engine[of env outs None turns "dn1\<lparr>dn_engine := e'\<rparr>"] c
    by (simp add: same_core_def)
  then have "dn_engine dn' = e'" "dk_log (dn_disk dn') = dk_log (dn_disk dn4) @ log_lines env [Epoch ep]"
    using ep(2) by (simp_all add: r5(2) update_state_def)
  with g ep(1) force_closes[OF f] p1 show ?thesis
    by (intro exI[of _ turns] exI[of _ recs] exI[of _ ep]) (auto simp: goes_def \<open>dn_engine dn4 = e'\<close>)
qed


end
