(* ===== verification/Dates.thy ===== *)
theory Dates
  imports Ids_Time Text "HOL-Library.Signed_Division"
begin

text \<open>
  Reading the time stamps back (agentrec-core/src/stats.rs, the same code as in cli/src/fmt.rs):
  the parsers of the standard library for decimal integers, the splitting functions of \<open>str\<close>,
  and \<open>parse_rfc3339_ms\<close>. Arithmetic on \<open>i64\<close> wraps, as release builds do.
\<close>

subsection \<open>Splitting\<close>

text \<open>\<open>str::split_once\<close> at a character.\<close>

fun split_once :: "char \<Rightarrow> string \<Rightarrow> (string \<times> string) option" where
  "split_once c [] = None"
| "split_once c (x # xs) = (if x = c then Some ([], xs)
     else map_option (\<lambda>(a, b). (x # a, b)) (split_once c xs))"

text \<open>\<open>str::splitn\<close>: at most \<open>n\<close> pieces, the last one unsplit.\<close>

fun splitn :: "nat \<Rightarrow> char \<Rightarrow> string \<Rightarrow> string list" where
  "splitn 0 c s = []"
| "splitn (Suc 0) c s = [s]"
| "splitn (Suc (Suc n)) c s = (case split_once c s of None \<Rightarrow> [s] | Some (a, b) \<Rightarrow> a # splitn (Suc n) c b)"

subsection \<open>Integers\<close>

definition digits_value :: "string \<Rightarrow> nat" where
  "digits_value ds = foldl (\<lambda>acc c. acc * 10 + (of_char c - 48)) 0 ds"

definition all_digits :: "string \<Rightarrow> bool" where
  "all_digits ds \<longleftrightarrow> ds \<noteq> [] \<and> list_all (byte_in 0x30 0x39) ds"

text \<open>\<open>str::parse\<close> for an unsigned type of \<open>w\<close> bits and for \<open>i64\<close>.\<close>

definition parse_uint :: "nat \<Rightarrow> string \<Rightarrow> nat option" where
  "parse_uint w s =
     (let ds = (case s of CHR ''+'' # r \<Rightarrow> r | _ \<Rightarrow> s) in
      if \<not> all_digits ds \<or> digits_value ds \<ge> 2 ^ w then None else Some (digits_value ds))"

definition parse_i64 :: "string \<Rightarrow> int option" where
  "parse_i64 s =
     (let (neg, ds) = (case s of CHR ''+'' # r \<Rightarrow> (False, r) | CHR ''-'' # r \<Rightarrow> (True, r) | _ \<Rightarrow> (False, s));
          n = (if neg then - int (digits_value ds) else int (digits_value ds)) in
      if \<not> all_digits ds \<or> n < - (2 ^ 63) \<or> n \<ge> 2 ^ 63 then None else Some n)"

definition i64 :: "int \<Rightarrow> int" where
  "i64 x = (x + 2 ^ 63) mod 2 ^ 64 - 2 ^ 63"

subsection \<open>Dates\<close>

definition days_from_civil :: "int \<Rightarrow> nat \<Rightarrow> nat \<Rightarrow> int" where
  "days_from_civil y0 m d =
     (let y = (if m \<le> 2 then i64 (y0 - 1) else y0);
          era = (if y \<ge> 0 then y else i64 (y - 399)) sdiv 400;
          yoe = i64 (y - era * 400);
          mp = (if m > 2 then int m - 3 else int m + 9);
          doy = (153 * mp + 2) sdiv 5 + int d - 1;
          doe = i64 (yoe * 365 + yoe sdiv 4 - yoe sdiv 100 + doy)
      in i64 (i64 (era * 146097) + doe - 719468))"

text \<open>
  The fraction is read from its first three characters, filled up with zeros. Where one of them
  is not ASCII the number does not parse either way, so taking three bytes reads the same.
\<close>

definition parse_millis :: "string \<Rightarrow> nat option" where
  "parse_millis f = (let digits = take 3 f in
     parse_uint 64 (digits @ replicate (3 - length digits) CHR ''0''))"

definition stamp_ms :: "int \<Rightarrow> nat \<Rightarrow> nat \<Rightarrow> int \<Rightarrow> int \<Rightarrow> int \<Rightarrow> nat \<Rightarrow> nat option" where
  "stamp_ms y mo d h mi se millis =
     (let days = days_from_civil y mo d;
          secs = i64 (i64 (i64 (i64 (days * 86400) + i64 (h * 3600)) + i64 (mi * 60)) + se) in
      if secs < 0 then None else Some (u64_add ((nat secs * 1000) mod 2 ^ 64) millis))"

definition parse_rfc3339_ms :: "string \<Rightarrow> nat option" where
  "parse_rfc3339_ms s0 =
     (if s0 = [] \<or> last s0 \<noteq> CHR ''Z'' then None
      else case split_once CHR ''T'' (butlast s0) of
        None \<Rightarrow> None
      | Some (date, time) \<Rightarrow>
          (case splitn 3 CHR ''-'' date of
             [ys, mos, ds] \<Rightarrow>
               (case (parse_i64 ys, parse_uint 32 mos, parse_uint 32 ds) of
                  (Some y, Some mo, Some d) \<Rightarrow>
                    (let (hms, frac) = (case split_once CHR ''.'' time of
                         Some (h, f) \<Rightarrow> (h, Some f) | None \<Rightarrow> (time, None)) in
                     case splitn 3 CHR '':'' hms of
                       [hs, mis, ses] \<Rightarrow>
                         (case (parse_i64 hs, parse_i64 mis, parse_i64 ses,
                                case frac of None \<Rightarrow> Some 0 | Some f \<Rightarrow> parse_millis f) of
                            (Some h, Some mi, Some se, Some millis) \<Rightarrow> stamp_ms y mo d h mi se millis
                          | _ \<Rightarrow> None)
                     | _ \<Rightarrow> None)
                | _ \<Rightarrow> None)
           | _ \<Rightarrow> None))"

end
