(* ===== verification/Stats.thy ===== *)
theory Stats
  imports Dates Diff_Blame Undo_Plan "HOL-Library.Product_Lexorder" "HOL-Library.Option_ord"
begin

text \<open>
  The statistics of a repository (agentrec-core/src/stats.rs): a pure fold over the ledger, the
  blob store and the working tree, with the clock as an argument. Counters of records are
  naturals, sums of bytes wrap at 64 bits; the rate is kept as the two numbers that are divided.
\<close>

definition STATS_DAY_MS :: nat where
  "STATS_DAY_MS = 86400000"

definition DEFAULT_SINCE_DAYS :: nat where
  "DEFAULT_SINCE_DAYS = 30"

definition DEFAULT_REWORK_WINDOW_DAYS :: nat where
  "DEFAULT_REWORK_WINDOW_DAYS = 7"

definition RATE_BOUND_APPROX_LOWER :: string where
  "RATE_BOUND_APPROX_LOWER = ''approx_lower''"

subsection \<open>Types\<close>

text \<open>\<open>since\<close> in milliseconds, as \<open>Duration::as_millis\<close> reads it.\<close>

record stats_options =
  so_since :: "nat option"
  so_rework_window_days :: nat

definition default_options :: stats_options where
  "default_options = \<lparr>so_since = Some (DEFAULT_SINCE_DAYS * 86400 * 1000),
     so_rework_window_days = DEFAULT_REWORK_WINDOW_DAYS\<rparr>"

record stats_window =
  sw_since :: "string option"
  sw_until :: string
  sw_rework_window_days :: nat

record turn_counts =
  tc_total :: nat
  tc_rich :: nat
  tc_bare :: nat
  tc_imported :: nat
  tc_by_tool :: "string \<rightharpoonup> nat"
  tc_by_model :: "string \<rightharpoonup> nat"

record file_churn =
  fc_path :: string
  fc_churn_bytes :: nat
  fc_dangling_refs :: nat
  fc_skipped_entries :: nat
  fc_withheld_entries :: nat

record change_share =
  cs_agent :: nat
  cs_human :: nat
  cs_unattributable :: nat
  cs_imported :: nat

record rework_rate =
  rw_measurable :: nat
  rw_reworked :: nat
  rw_rate :: "(nat \<times> nat) option"
  rw_rate_bound :: string
  rw_censored_recent :: nat
  rw_excluded_imported :: nat
  rw_gap_overlapped :: nat
  rw_excluded_unknown_mtime :: nat
  rw_unparsed_ended :: nat
  rw_undo_unevaluable_c :: nat

record stats_result =
  sr_window :: stats_window
  sr_turns :: turn_counts
  sr_files :: "file_churn list"
  sr_share :: change_share
  sr_rework :: rework_rate

subsection \<open>Predicates\<close>

definition gap_overlaps :: "gap \<Rightarrow> nat \<Rightarrow> nat \<Rightarrow> bool" where
  "gap_overlaps g start_ms end_ms = (case parse_rfc3339_ms (gap_since g) of
     None \<Rightarrow> False
   | Some since \<Rightarrow> (case gap_kind g of
       TrailingStop \<Rightarrow> since \<le> end_ms
     | _ \<Rightarrow> since \<ge> start_ms \<and> since \<le> end_ms))"

definition is_write_op :: "file_entry \<Rightarrow> bool" where
  "is_write_op e \<longleftrightarrow> fe_op e = ''create'' \<or> fe_op e = ''modify''"

definition is_git :: "turn_record \<Rightarrow> bool" where
  "is_git t \<longleftrightarrow> tr_tool t = Some ''git''"

definition is_undo :: "turn_record \<Rightarrow> bool" where
  "is_undo t \<longleftrightarrow> tr_tool t = Some ''agentrec''"

definition is_imported :: "turn_record \<Rightarrow> bool" where
  "is_imported t \<longleftrightarrow> tr_imported t = Some True"

subsection \<open>The window\<close>

type_synonym dated_turn = "turn_record \<times> nat option"

definition dated_turns :: "ledger \<Rightarrow> dated_turn list" where
  "dated_turns lg = map (\<lambda>t. (t, parse_rfc3339_ms (tr_ended t))) (ledger_turns lg)"

definition since_ms :: "stats_options \<Rightarrow> nat \<Rightarrow> nat option" where
  "since_ms opts now = map_option (\<lambda>d. now - min d u64_max) (so_since opts)"

definition in_window :: "nat option \<Rightarrow> nat option \<Rightarrow> bool" where
  "in_window lo ended = (case (lo, ended) of
     (None, _) \<Rightarrow> True
   | (Some l, Some e) \<Rightarrow> e \<ge> l
   | (Some _, None) \<Rightarrow> False)"

definition windowed_turns :: "nat option \<Rightarrow> dated_turn list \<Rightarrow> (nat \<times> dated_turn) list" where
  "windowed_turns lo ts = filter (\<lambda>(_, _, ended). in_window lo ended) (enumerate 0 ts)"

subsection \<open>Census\<close>

definition bump :: "string option \<Rightarrow> (string \<rightharpoonup> nat) \<Rightarrow> (string \<rightharpoonup> nat)" where
  "bump key m = (case key of
     None \<Rightarrow> m
   | Some k \<Rightarrow> m(k \<mapsto> (case m k of Some n \<Rightarrow> n | None \<Rightarrow> 0) + 1))"

definition count_turn :: "turn_counts \<Rightarrow> turn_record \<Rightarrow> turn_counts" where
  "count_turn c t =
     \<lparr>tc_total = tc_total c + 1,
      tc_rich = (if tr_grade t = ''rich'' then tc_rich c + 1 else tc_rich c),
      tc_bare = (if tr_grade t = ''bare'' then tc_bare c + 1 else tc_bare c),
      tc_imported = (if is_imported t then tc_imported c + 1 else tc_imported c),
      tc_by_tool = bump (tr_tool t) (tc_by_tool c),
      tc_by_model = bump (tr_model t) (tc_by_model c)\<rparr>"

definition turn_census :: "turn_record list \<Rightarrow> turn_counts" where
  "turn_census ts = foldl count_turn
     \<lparr>tc_total = 0, tc_rich = 0, tc_bare = 0, tc_imported = 0, tc_by_tool = Map.empty, tc_by_model = Map.empty\<rparr> ts"

subsection \<open>Churn\<close>

record churn =
  ch_bytes :: nat
  ch_dangling :: nat
  ch_skipped :: nat
  ch_withheld :: nat

definition no_churn :: churn where
  "no_churn = \<lparr>ch_bytes = 0, ch_dangling = 0, ch_skipped = 0, ch_withheld = 0\<rparr>"

text \<open>The size of one side: absence is zero bytes, an unresolved hash is dangling.\<close>

definition size_of :: "store \<Rightarrow> hash option \<Rightarrow> nat option" where
  "size_of s h = (case h of None \<Rightarrow> Some 0 | Some x \<Rightarrow> blob_size s x)"

definition churn_entry :: "store \<Rightarrow> churn \<Rightarrow> file_entry \<Rightarrow> churn" where
  "churn_entry s c e =
     (if fe_skipped e then c\<lparr>ch_skipped := ch_skipped c + 1\<rparr>
      else if fe_withheld e then c\<lparr>ch_withheld := ch_withheld c + 1\<rparr>
      else case (size_of s (fe_before e), size_of s (fe_after e)) of
        (Some b, Some a) \<Rightarrow> c\<lparr>ch_bytes := u64_add (ch_bytes c) (if a \<ge> b then a - b else b - a)\<rparr>
      | _ \<Rightarrow> c\<lparr>ch_dangling := ch_dangling c + 1\<rparr>)"

definition churn_step :: "store \<Rightarrow> (string \<rightharpoonup> churn) \<Rightarrow> file_entry \<Rightarrow> (string \<rightharpoonup> churn)" where
  "churn_step s = keyed_step fe_path (\<lambda>old e. churn_entry s (case old of Some c \<Rightarrow> c | None \<Rightarrow> no_churn) e)"

definition file_churn_of :: "string \<Rightarrow> churn \<Rightarrow> file_churn" where
  "file_churn_of path c = \<lparr>fc_path = path, fc_churn_bytes = ch_bytes c, fc_dangling_refs = ch_dangling c,
     fc_skipped_entries = ch_skipped c, fc_withheld_entries = ch_withheld c\<rparr>"

text \<open>The entries of the map in the order of their keys, then the ranking.\<close>

definition rank_churn :: "file_churn list \<Rightarrow> file_churn list" where
  "rank_churn fs = sort_key (\<lambda>f. (- int (fc_churn_bytes f), fc_path f)) fs"

definition churn_files :: "store \<Rightarrow> turn_record list \<Rightarrow> file_churn list" where
  "churn_files s ts =
     (let entries = concat (map tr_files ts); m = foldl (churn_step s) Map.empty entries in
      rank_churn (map (\<lambda>p. file_churn_of p (the (m p))) (sort (remdups (map fe_path entries)))))"

subsection \<open>Share of change\<close>

definition share_turn :: "change_share \<Rightarrow> turn_record \<Rightarrow> change_share" where
  "share_turn sh t = (let n = length (tr_files t) in
     if is_imported t then sh\<lparr>cs_imported := cs_imported sh + n\<rparr>
     else if tr_grade t = ''bare'' then sh\<lparr>cs_unattributable := cs_unattributable sh + n\<rparr>
     else if is_git t then sh
     else sh\<lparr>cs_agent := cs_agent sh + n\<rparr>)"

definition touch_of :: "string \<Rightarrow> nat \<times> dated_turn \<Rightarrow> (nat option \<times> nat \<times> turn_record \<times> file_entry) option" where
  "touch_of path it = (case it of (i, t, ended) \<Rightarrow>
     map_option (\<lambda>e. (ended, i, t, e)) (List.find (\<lambda>e. fe_path e = path) (rev (tr_files t))))"

text \<open>\<open>max_by_key\<close> of the time, then the position: of equal keys the last.\<close>

definition later_touch :: "(nat option \<times> nat \<times> turn_record \<times> file_entry) option
    \<Rightarrow> nat option \<times> nat \<times> turn_record \<times> file_entry
    \<Rightarrow> (nat option \<times> nat \<times> turn_record \<times> file_entry) option" where
  "later_touch best x = (case best of
     None \<Rightarrow> Some x
   | Some b \<Rightarrow> if (fst x, fst (snd x)) \<ge> (fst b, fst (snd b)) then Some x else best)"

definition latest_touch :: "dated_turn list \<Rightarrow> string \<Rightarrow> (turn_record \<times> file_entry) option" where
  "latest_touch ts path = map_option (snd \<circ> snd)
     (foldl later_touch None (List.map_filter (touch_of path) (enumerate 0 ts)))"

definition share_path :: "(string \<Rightarrow> hash option) \<Rightarrow> ledger \<Rightarrow> dated_turn list \<Rightarrow> change_share \<Rightarrow> string \<Rightarrow> change_share" where
  "share_path current lg ts sh path = (case latest_touch ts path of
     None \<Rightarrow> sh
   | Some (t, e) \<Rightarrow>
       if fe_after_synthesized e = Some True then sh
       else case fe_after e of
         None \<Rightarrow> sh
       | Some recorded \<Rightarrow>
           if current path = Some recorded then sh
           else if has_gap_after (lg_records lg) (tr_ended t)
                then sh\<lparr>cs_unattributable := cs_unattributable sh + 1\<rparr>
                else sh\<lparr>cs_human := cs_human sh + 1\<rparr>)"

definition no_share :: change_share where
  "no_share = \<lparr>cs_agent = 0, cs_human = 0, cs_unattributable = 0, cs_imported = 0\<rparr>"

definition change_shares :: "(string \<Rightarrow> hash option) \<Rightarrow> ledger \<Rightarrow> dated_turn list \<Rightarrow> turn_record list \<Rightarrow> change_share" where
  "change_shares current lg ts windowed =
     foldl (share_path current lg ts) (foldl share_turn no_share windowed)
       (sort (remdups (map fe_path (concat (map tr_files windowed)))))"

subsection \<open>Rework\<close>

definition no_rework :: rework_rate where
  "no_rework = \<lparr>rw_measurable = 0, rw_reworked = 0, rw_rate = None, rw_rate_bound = RATE_BOUND_APPROX_LOWER,
     rw_censored_recent = 0, rw_excluded_imported = 0, rw_gap_overlapped = 0,
     rw_excluded_unknown_mtime = 0, rw_unparsed_ended = 0, rw_undo_unevaluable_c = 0\<rparr>"

text \<open>What the loop reads beside the event: tree, gaps, all turns, the two limits.\<close>

record rework_env =
  re_current :: "string \<Rightarrow> hash option"
  re_gaps :: "gap list"
  re_all :: "dated_turn list"
  re_window_ms :: nat
  re_censor_cutoff :: nat

definition touched_after :: "dated_turn list \<Rightarrow> nat \<Rightarrow> nat \<Rightarrow> string \<Rightarrow> bool" where
  "touched_after ts idx t_end path = list_ex
     (\<lambda>(j, u, u_end). j \<noteq> idx \<and> (case u_end of Some ue \<Rightarrow> ue > t_end | None \<Rightarrow> False) \<and> touches u path)
     (enumerate 0 ts)"

definition unknown_mtime :: "rework_env \<Rightarrow> nat \<Rightarrow> nat \<Rightarrow> file_entry \<Rightarrow> bool" where
  "unknown_mtime env idx t_end e =
     (if \<not> touched_after (re_all env) idx t_end (fe_path e) \<and> fe_after_synthesized e \<noteq> Some True
      then case fe_after e of
        None \<Rightarrow> False
      | Some recorded \<Rightarrow>
          re_current env (fe_path e) \<noteq> Some recorded
          \<and> \<not> list_ex (\<lambda>g. case parse_rfc3339_ms (gap_since g) of Some s \<Rightarrow> s \<ge> t_end | None \<Rightarrow> False) (re_gaps env)
      else False)"

definition reworked_within :: "dated_turn list \<Rightarrow> nat \<Rightarrow> nat \<Rightarrow> nat \<Rightarrow> string \<Rightarrow> bool" where
  "reworked_within ts idx t_end win_end path = list_ex
     (\<lambda>(u, u_end). tr_grade u = ''bare''
        \<and> (case u_end of Some ue \<Rightarrow> ue \<ge> t_end \<and> ue \<le> win_end | None \<Rightarrow> False))
     (filter (\<lambda>(u, _). touches u path) (drop (idx + 1) ts))"

definition rework_entry :: "rework_env \<Rightarrow> nat \<Rightarrow> turn_record \<Rightarrow> nat
    \<Rightarrow> rework_rate \<times> (nat \<times> nat) list \<Rightarrow> file_entry \<Rightarrow> rework_rate \<times> (nat \<times> nat) list" where
  "rework_entry env idx t t_end acc e = (case acc of (rw, windows) \<Rightarrow>
     if is_imported t then (rw\<lparr>rw_excluded_imported := rw_excluded_imported rw + 1\<rparr>, windows)
     else if t_end > re_censor_cutoff env
       then (rw\<lparr>rw_censored_recent := rw_censored_recent rw + 1\<rparr>, windows)
     else if unknown_mtime env idx t_end e
       then (rw\<lparr>rw_excluded_unknown_mtime := rw_excluded_unknown_mtime rw + 1\<rparr>, windows)
     else
       (let win_end = min u64_max (t_end + re_window_ms env) in
        (rw\<lparr>rw_measurable := rw_measurable rw + 1,
            rw_gap_overlapped := (if list_ex (\<lambda>g. gap_overlaps g t_end win_end) (re_gaps env)
              then rw_gap_overlapped rw + 1 else rw_gap_overlapped rw),
            rw_reworked := (if reworked_within (re_all env) idx t_end win_end (fe_path e)
              then rw_reworked rw + 1 else rw_reworked rw)\<rparr>,
         windows @ [(t_end, win_end)])))"

definition rework_turn :: "rework_env \<Rightarrow> rework_rate \<times> (nat \<times> nat) list \<Rightarrow> nat \<times> dated_turn
    \<Rightarrow> rework_rate \<times> (nat \<times> nat) list" where
  "rework_turn env acc it = (case (acc, it) of ((rw, windows), (idx, t, ended)) \<Rightarrow>
     if tr_grade t \<noteq> ''rich'' \<or> is_git t \<or> is_undo t then acc
     else case ended of
       None \<Rightarrow> (rw\<lparr>rw_unparsed_ended := rw_unparsed_ended rw + 1\<rparr>, windows)
     | Some t_end \<Rightarrow> foldl (rework_entry env idx t t_end) acc (filter is_write_op (tr_files t)))"

definition undo_in_windows :: "(nat \<times> nat) list \<Rightarrow> dated_turn \<Rightarrow> bool" where
  "undo_in_windows windows it = (case it of (t, ended) \<Rightarrow>
     is_undo t \<and> (case ended of
       Some e \<Rightarrow> list_ex (\<lambda>(start, end'). e \<ge> start \<and> e \<le> end') windows
     | None \<Rightarrow> False))"

definition rework_rates :: "rework_env \<Rightarrow> (nat \<times> dated_turn) list \<Rightarrow> rework_rate" where
  "rework_rates env windowed = (case foldl (rework_turn env) (no_rework, []) windowed of (rw, windows) \<Rightarrow>
     rw\<lparr>rw_rate := (if rw_measurable rw > 0 then Some (rw_reworked rw, rw_measurable rw) else None),
        rw_undo_unevaluable_c := length (filter (undo_in_windows windows) (re_all env))\<rparr>)"

definition rework_env_of :: "(string \<Rightarrow> hash option) \<Rightarrow> ledger \<Rightarrow> stats_options \<Rightarrow> nat \<Rightarrow> rework_env" where
  "rework_env_of current lg opts now =
     (let window_ms = so_rework_window_days opts * STATS_DAY_MS in
      \<lparr>re_current = current, re_gaps = recording_gaps (lg_records lg), re_all = dated_turns lg,
       re_window_ms = window_ms, re_censor_cutoff = now - window_ms\<rparr>)"

subsection \<open>The result\<close>

definition compute_stats :: "(string \<Rightarrow> string) \<Rightarrow> worktree \<Rightarrow> store \<Rightarrow> ledger \<Rightarrow> stats_options \<Rightarrow> nat \<Rightarrow> stats_result" where
  "compute_stats sha w s lg opts now =
     (let ts = dated_turns lg; lo = since_ms opts now; windowed = windowed_turns lo ts;
          turns = map (fst \<circ> snd) windowed; current = read_current_hash sha w in
      \<lparr>sr_window = \<lparr>sw_since = map_option rfc3339 lo, sw_until = rfc3339 now,
                    sw_rework_window_days = so_rework_window_days opts\<rparr>,
       sr_turns = turn_census turns,
       sr_files = churn_files s turns,
       sr_share = change_shares current lg ts turns,
       sr_rework = rework_rates (rework_env_of current lg opts now) windowed\<rparr>)"

end
