(* ===== verification/Dates_Props.thy ===== *)
theory Dates_Props
  imports Dates Ids_Time_Props
begin

text \<open>The reader of time stamps inverts the writer, up to the end of the year 9999.\<close>

subsection \<open>Dates\<close>

lemma i64_exact [simp]: "- (2 ^ 63) \<le> x \<Longrightarrow> x < 2 ^ 63 \<Longrightarrow> i64 x = x"
  by (simp add: i64_def)

lemma sdiv_nonneg: "0 \<le> a \<Longrightarrow> 0 < b \<Longrightarrow> a sdiv b = a div b" for a b :: int
  by (simp add: signed_divide_int_def sgn_mult sgn_if)

text \<open>The day number of a march year, month and day, all small enough for exact arithmetic.\<close>

lemma days_from_march:
  fixes era yoe mp :: int
  assumes "0 \<le> era" "era \<le> 1000" "0 \<le> yoe" "yoe < 400" "0 \<le> mp" "mp \<le> 11" "d \<le> 31"
    and "y = (if mp < 10 then yoe + era * 400 else yoe + era * 400 + 1)"
    and "m = nat (if mp < 10 then mp + 3 else mp - 9)"
  shows "days_from_civil y m d =
    era * 146097 + (year_start yoe + ((153 * mp + 2) div 5 + int d - 1)) - 719468"
proof -
  have small: "era * 400 \<le> 400000" "0 \<le> era * 400" using assms(1,2) by auto
  have y: "(if m \<le> 2 then i64 (y - 1) else y) = yoe + era * 400" using assms small by auto
  have pos: "yoe + era * 400 \<ge> 0" using assms small by simp
  have e: "(if yoe + era * 400 \<ge> 0 then yoe + era * 400 else i64 (yoe + era * 400 - 399)) sdiv 400 = era"
    using pos assms(3,4) by (simp add: sdiv_nonneg)
  have yo: "i64 (yoe + era * 400 - era * 400) = yoe" using assms by simp
  have m: "(if m > 2 then int m - 3 else int m + 9) = mp" using assms(5,6,9) by auto
  have y4: "yoe sdiv 4 = yoe div 4" "yoe sdiv 100 = yoe div 100" using assms(3) by (simp_all add: sdiv_nonneg)
  have dy: "(153 * mp + 2) sdiv 5 = (153 * mp + 2) div 5" using assms(5) by (simp add: sdiv_nonneg)
  define doe where "doe = yoe * 365 + yoe div 4 - yoe div 100 + ((153 * mp + 2) div 5 + int d - 1)"
  have "0 \<le> (153 * mp + 2) div 5" "(153 * mp + 2) div 5 \<le> 400" using assms(5,6) by auto
  moreover have "0 \<le> yoe div 4" "yoe div 4 \<le> 100" "0 \<le> yoe div 100" "yoe div 100 \<le> 4" using assms(3,4) by auto
  ultimately have doe: "- 1000 \<le> doe" "doe \<le> 200000" using assms(3-7) by (auto simp: doe_def)
  have "0 \<le> era * 146097" "era * 146097 \<le> 146097000" using assms(1,2) by auto
  with doe have ex: "i64 doe = doe" "i64 (era * 146097) = era * 146097"
    "i64 (era * 146097 + doe - 719468) = era * 146097 + doe - 719468" by simp_all
  show ?thesis
    unfolding days_from_civil_def Let_def y e yo m y4 dy doe_def[symmetric] ex
    by (simp add: doe_def year_start_def)
qed

lemma days_of_civil:
  assumes "0 \<le> z" "z < 2932897" "civil_from_days z = (y, m, d)"
  shows "days_from_civil y m d = z"
proof -
  define doe era yoe doy mp where "doe = (z + 719468) mod 146097" and "era = (z + 719468) div 146097"
    and "yoe = year_days doe div 365" and "doy = doe - year_start yoe" and "mp = (5 * doy + 2) div 153"
  note p = civil_parts[OF assms(1), folded doe_def era_def, folded yoe_def, folded doy_def, folded mp_def]
  have md: "month_day doy - mp * 32 = doy - (153 * mp + 2) div 5 + 1" by (simp add: month_day_def mp_def)
  have z: "z = era * 146097 + doe - 719468" by (simp add: era_def doe_def)
  have era: "era \<le> 1000" using assms(2) by (simp add: era_def)
  have y: "y = (if mp < 10 then yoe + era * 400 else yoe + era * 400 + 1)"
    and m: "m = nat (if mp < 10 then mp + 3 else mp - 9)"
    and d: "d = nat (month_day doy - mp * 32)"
    using p(1) assms(3) by (auto split: if_splits)
  have d': "int d = doy - (153 * mp + 2) div 5 + 1" "d \<le> 31" using p(6,7) d md by auto
  show ?thesis
    unfolding days_from_march[OF p(10) era p(8,9,4,5) d'(2) y m] d'(1)
    by (simp add: z doy_def)
qed

subsection \<open>Numbers\<close>

lemma digit_char:
  assumes "i < 10"
  shows "of_char (dec i) = 48 + i" "byte_in 0x30 0x39 (dec i)" "dec i \<noteq> CHR ''+''" "dec i \<noteq> CHR ''-''"
    "dec i \<noteq> CHR '':''" "dec i \<noteq> CHR ''.''" "dec i \<noteq> CHR ''T''"
proof -
  have "list_all (\<lambda>i. of_char (dec i) = 48 + i \<and> byte_in 0x30 0x39 (dec i) \<and> dec i \<notin> set ''+-:.T'') [0..<10]"
    by code_simp
  with assms show "of_char (dec i) = 48 + i" "byte_in 0x30 0x39 (dec i)" "dec i \<noteq> CHR ''+''" "dec i \<noteq> CHR ''-''"
    "dec i \<noteq> CHR '':''" "dec i \<noteq> CHR ''.''" "dec i \<noteq> CHR ''T''" by (auto simp: list_all_iff)
qed

lemma set_decimal: "set (decimal n) \<subseteq> dec ` {..< 10}" "decimal n \<noteq> []"
proof (induction n rule: decimal.induct)
  case (1 n)
  case 1
  show ?case
    using "1.IH"(1) by (subst decimal.simps) (auto simp: image_iff intro: bexI[of _ "n mod 10"] bexI[of _ n])
  case 2
  show ?case by (subst decimal.simps) simp
qed

lemma set_padded: "set (padded w n) \<subseteq> dec ` {..< 10}" "padded w n \<noteq> []"
proof -
  have "CHR ''0'' \<in> dec ` {..< 10}" by (rule image_eqI[of _ _ 0]) simp_all
  then show "set (padded w n) \<subseteq> dec ` {..< 10}" "padded w n \<noteq> []"
    using set_decimal[of n] by (auto simp: padded_def)
qed

lemma padded_digit: "c \<in> set (padded w n) \<Longrightarrow> \<exists>i. i < 10 \<and> c = dec i"
  using set_padded(1)[of w n] by blast

lemma padded_free:
  "CHR ''+'' \<notin> set (padded w n)" "CHR ''-'' \<notin> set (padded w n)" "CHR '':'' \<notin> set (padded w n)"
  "CHR ''.'' \<notin> set (padded w n)" "CHR ''T'' \<notin> set (padded w n)"
  using digit_char(3-7) by (metis padded_digit)+

lemma digits_value_snoc: "digits_value (ds @ [c]) = digits_value ds * 10 + (of_char c - 48)"
  by (simp add: digits_value_def)

lemma digits_value_decimal: "digits_value (decimal n) = n"
proof (induction n rule: decimal.induct)
  case (1 n)
  show ?case
  proof (cases "n < 10")
    case True
    then show ?thesis by (subst decimal.simps) (simp add: digits_value_def digit_char(1))
  next
    case False
    with 1 show ?thesis by (subst decimal.simps) (simp add: digits_value_snoc digit_char(1))
  qed
qed

lemma digits_value_padded: "digits_value (padded w n) = n"
proof -
  have zeros: "foldl (\<lambda>acc c. acc * 10 + (of_char c - 48)) 0 (replicate k CHR ''0'') = (0 :: nat)" for k
    by (induction k) simp_all
  show ?thesis
    using digits_value_decimal[of n] by (simp add: padded_def digits_value_def zeros)
qed

lemma all_digits_padded: "all_digits (padded w n)"
  using set_padded[of w n] digit_char(2) by (auto simp: all_digits_def list_all_iff)

lemma parse_padded:
  "n < 2 ^ w \<Longrightarrow> parse_uint w (padded k n) = Some n"
  "n < 2 ^ 63 \<Longrightarrow> parse_i64 (padded k n) = Some (int n)"
proof -
  obtain c cs where p: "padded k n = c # cs" using set_padded(2)[of k n] by (cases "padded k n") auto
  with padded_free(1,2)[of k n] have c: "c \<noteq> CHR ''+''" "c \<noteq> CHR ''-''" by auto
  have sel: "(case c # cs of CHR ''+'' # r \<Rightarrow> r | _ \<Rightarrow> c # cs) = c # cs"
    "(case c # cs of CHR ''+'' # r \<Rightarrow> (False, r) | CHR ''-'' # r \<Rightarrow> (True, r) | _ \<Rightarrow> (False, c # cs)) = (False, c # cs)"
    using c by (auto split: char.splits bool.splits)
  note facts = all_digits_padded[of k n, unfolded p] digits_value_padded[of k n, unfolded p]
  show "n < 2 ^ w \<Longrightarrow> parse_uint w (padded k n) = Some n"
    unfolding parse_uint_def p Let_def sel facts(2) using facts(1) by simp
  assume "n < 2 ^ 63"
  then have "int n < 2 ^ 63" by simp
  then show "parse_i64 (padded k n) = Some (int n)"
    unfolding parse_i64_def p Let_def sel prod.case facts(2) using facts(1) by simp
qed

subsection \<open>Fields\<close>

lemma split_once_append: "c \<notin> set a \<Longrightarrow> split_once c (a @ c # b) = Some (a, b)"
  by (induction a) auto

lemma split_once_none: "c \<notin> set a \<Longrightarrow> split_once c a = None"
  by (induction a) auto

lemma splitn_three:
  "c \<notin> set a \<Longrightarrow> c \<notin> set b \<Longrightarrow> splitn 3 c (a @ c # b @ c # d) = [a, b, d]"
  by (simp add: numeral_3_eq_3 split_once_append)

lemma padded_length: "n < 10 ^ w \<Longrightarrow> 0 < w \<Longrightarrow> length (padded w n) = w"
  using decimal_numeral[of n w] by (simp add: padded_def)

lemma parse_stamp_text:
  assumes "y < 2 ^ 63" "mo < 2 ^ 32" "d < 2 ^ 32" "h < 2 ^ 63" "mi < 2 ^ 63" "se < 2 ^ 63" "f < 1000"
  shows "parse_rfc3339_ms (padded 4 y @ ''-'' @ padded 2 mo @ ''-'' @ padded 2 d @ ''T'' @ padded 2 h @ '':''
      @ padded 2 mi @ '':'' @ padded 2 se @ ''.'' @ padded 3 f @ ''Z'')
    = stamp_ms (int y) mo d (int h) (int mi) (int se) f"
proof -
  define date where "date = padded 4 y @ CHR ''-'' # padded 2 mo @ CHR ''-'' # padded 2 d"
  define hms where "hms = padded 2 h @ CHR '':'' # padded 2 mi @ CHR '':'' # padded 2 se"
  define whole where "whole = date @ CHR ''T'' # hms @ CHR ''.'' # padded 3 f"
  have joined: "padded 4 y @ ''-'' @ padded 2 mo @ ''-'' @ padded 2 d @ ''T'' @ padded 2 h @ '':''
      @ padded 2 mi @ '':'' @ padded 2 se @ ''.'' @ padded 3 f @ ''Z'' = whole @ ''Z''"
    by (simp add: whole_def date_def hms_def)
  have ends: "whole @ ''Z'' \<noteq> []" "last (whole @ ''Z'') = CHR ''Z''" "butlast (whole @ ''Z'') = whole" by simp_all
  have t: "split_once CHR ''T'' whole = Some (date, hms @ CHR ''.'' # padded 3 f)"
    unfolding whole_def by (rule split_once_append) (simp add: date_def padded_free)
  have dot: "split_once CHR ''.'' (hms @ CHR ''.'' # padded 3 f) = Some (hms, padded 3 f)"
    by (rule split_once_append) (simp add: hms_def padded_free)
  have ds: "splitn 3 CHR ''-'' date = [padded 4 y, padded 2 mo, padded 2 d]"
    unfolding date_def by (rule splitn_three) (simp_all add: padded_free)
  have ts: "splitn 3 CHR '':'' hms = [padded 2 h, padded 2 mi, padded 2 se]"
    unfolding hms_def by (rule splitn_three) (simp_all add: padded_free)
  have "length (padded 3 f) = 3" using assms(7) by (intro padded_length) simp_all
  then have fr: "parse_millis (padded 3 f) = Some f"
    using assms(7) by (simp add: parse_millis_def parse_padded(1))
  show ?thesis
    unfolding joined parse_rfc3339_ms_def
    using ends assms by (simp add: t dot ds ts fr parse_padded)
qed

text \<open>
  C40: a time stamp reads back as the time it was written for, up to the end of the year 9999:
  the readers that do arithmetic on stamps (windows of the statistics, relative times) see the
  times the writers had.
\<close>

theorem stamps_read_back:
  assumes "ms < year_10000_ms"
  shows "parse_rfc3339_ms (rfc3339 ms) = Some ms"
proof -
  define days sod where "days = ms div 1000 div 86400" and "sod = ms div 1000 mod 86400"
  obtain y m d where c: "civil_from_days (int days) = (y, m, d)" by (cases "civil_from_days (int days)")
  have days: "days < 2932897" using assms by (simp add: days_def year_10000_ms_def less_mult_imp_div_less)
  then have z: "(0 :: int) \<le> int days" "int days < 2932897" by simp_all
  note r = civil_ranges[OF z(1) c] year_four_digits[OF z c]
  have sod: "sod < 86400" by (simp add: sod_def)
  define h mi se where "h = sod div 3600" and "mi = sod mod 3600 div 60" and "se = sod mod 60"
  have clock: "h * 3600 + mi * 60 + se = sod"
  proof -
    have "sod mod 60 = sod mod 3600 mod 60" by (rule mod_mod_cancel[symmetric]) simp
    then have "mi * 60 + se = sod mod 3600" by (simp add: mi_def se_def)
    then show ?thesis using div_mult_mod_eq[of sod 3600] unfolding h_def by linarith
  qed
  have small: "h < 24" "mi < 60" "se < 60"
    using sod by (simp_all add: h_def mi_def se_def less_mult_imp_div_less)
  have joined: "parse_rfc3339_ms (rfc3339 ms) = stamp_ms (int (nat y)) m d (int h) (int mi) (int se) (ms mod 1000)"
    unfolding rfc3339_def Let_def days_def[symmetric] sod_def[symmetric] c prod.case
      h_def[symmetric] mi_def[symmetric] se_def[symmetric]
    by (rule parse_stamp_text) (use r small in auto)
  have day: "days_from_civil (int (nat y)) m d = int days" using days_of_civil[OF z c] r(1) by simp
  define secs where "secs = int days * 86400 + int h * 3600 + int mi * 60 + int se"
  have "int (h * 3600 + mi * 60 + se) = int sod" using clock by simp
  then have secs: "secs = int days * 86400 + int sod" by (simp add: secs_def)
  moreover have "days * 86400 + sod = ms div 1000" by (simp add: days_def sod_def)
  then have "int days * 86400 + int sod = int (ms div 1000)" by (metis of_nat_add of_nat_mult of_nat_numeral)
  ultimately have nat: "secs = int (ms div 1000)" by simp
  have ex: "i64 (i64 (i64 (i64 (int days * 86400) + i64 (int h * 3600)) + i64 (int mi * 60)) + int se) = secs"
    using z small by (simp add: secs_def)
  have ms: "ms < 253402300800000" using assms by (simp add: year_10000_ms_def)
  have "stamp_ms (int (nat y)) m d (int h) (int mi) (int se) (ms mod 1000)
      = Some (u64_add (ms div 1000 * 1000 mod 2 ^ 64) (ms mod 1000))"
    unfolding stamp_ms_def day Let_def ex unfolding nat by simp
  moreover have "ms div 1000 * 1000 mod 2 ^ 64 = ms div 1000 * 1000"
    using ms by (intro mod_less) (simp add: order_le_less_trans[of _ ms])
  moreover have "u64_add (ms div 1000 * 1000) (ms mod 1000) = ms" using ms by (simp add: u64_add_exact)
  ultimately show ?thesis using joined by simp
qed

theorem stamps_read_back_witness:
  "parse_rfc3339_ms (rfc3339 1709208000123) = Some 1709208000123"
  using stamps_read_back[of 1709208000123] by (simp add: year_10000_ms_def)

end
