(* ===== verification/Stats_Props.thy ===== *)
theory Stats_Props
  imports Stats Dates_Props Text
begin

text \<open>
  The honesty rules of the statistics: no event in two buckets, none dropped without being
  counted, and the churn table covers exactly the files touched.
\<close>

subsection \<open>Rework\<close>

text \<open>The events the rework rate is about, and the turns that cannot be placed in time.\<close>

definition rework_turn_ok :: "turn_record \<Rightarrow> bool" where
  "rework_turn_ok t \<longleftrightarrow> tr_grade t = ''rich'' \<and> \<not> is_git t \<and> \<not> is_undo t"

definition write_events :: "(nat \<times> dated_turn) list \<Rightarrow> file_entry list" where
  "write_events its = concat (map (\<lambda>(_, t, ended).
     if rework_turn_ok t \<and> ended \<noteq> None then filter is_write_op (tr_files t) else []) its)"

definition undated_turns :: "(nat \<times> dated_turn) list \<Rightarrow> turn_record list" where
  "undated_turns its = List.map_filter (\<lambda>(_, t, ended). if rework_turn_ok t \<and> ended = None then Some t else None) its"

definition buckets :: "rework_rate \<Rightarrow> nat" where
  "buckets rw = rw_measurable rw + rw_censored_recent rw + rw_excluded_imported rw + rw_excluded_unknown_mtime rw"

definition rework_bounds :: "rework_rate \<times> (nat \<times> nat) list \<Rightarrow> bool" where
  "rework_bounds acc \<longleftrightarrow> rw_reworked (fst acc) \<le> rw_measurable (fst acc)
     \<and> rw_gap_overlapped (fst acc) \<le> rw_measurable (fst acc)
     \<and> length (snd acc) = rw_measurable (fst acc)"

lemma rework_entry_counts:
  "buckets (fst (rework_entry env i t e acc f)) = buckets (fst acc) + 1"
  "rw_unparsed_ended (fst (rework_entry env i t e acc f)) = rw_unparsed_ended (fst acc)"
  "rework_bounds acc \<Longrightarrow> rework_bounds (rework_entry env i t e acc f)"
  by (cases acc; simp add: rework_entry_def buckets_def rework_bounds_def Let_def)+

lemma rework_entries_counts:
  "buckets (fst (foldl (rework_entry env i t e) acc fs)) = buckets (fst acc) + length fs"
  "rw_unparsed_ended (fst (foldl (rework_entry env i t e) acc fs)) = rw_unparsed_ended (fst acc)"
  "rework_bounds acc \<Longrightarrow> rework_bounds (foldl (rework_entry env i t e) acc fs)"
  by (induction fs arbitrary: acc) (simp_all add: rework_entry_counts)

lemma rework_turn_counts:
  "buckets (fst (rework_turn env acc it)) = buckets (fst acc) + length (write_events [it])"
  "rw_unparsed_ended (fst (rework_turn env acc it)) = rw_unparsed_ended (fst acc) + length (undated_turns [it])"
  "rework_bounds acc \<Longrightarrow> rework_bounds (rework_turn env acc it)"
proof -
  obtain rw ws i t e where [simp]: "acc = (rw, ws)" "it = (i, t, e)" by (metis surj_pair)
  note defs = rework_turn_def write_events_def undated_turns_def rework_turn_ok_def List.map_filter_simps
  show "buckets (fst (rework_turn env acc it)) = buckets (fst acc) + length (write_events [it])"
  proof (cases e)
    case None
    then show ?thesis by (simp add: defs buckets_def)
  next
    case (Some x)
    then show ?thesis by (simp add: defs rework_entries_counts)
  qed
  show "rw_unparsed_ended (fst (rework_turn env acc it)) = rw_unparsed_ended (fst acc) + length (undated_turns [it])"
    by (cases e) (auto simp: defs rework_entries_counts)
  show "rework_bounds acc \<Longrightarrow> rework_bounds (rework_turn env acc it)"
  proof (cases e)
    case None
    then show "rework_bounds acc \<Longrightarrow> ?thesis" by (auto simp: rework_turn_def rework_bounds_def)
  next
    case (Some x)
    then show "rework_bounds acc \<Longrightarrow> ?thesis" by (simp add: rework_turn_def rework_entries_counts)
  qed
qed

lemma rework_fold_counts:
  "buckets (fst (foldl (rework_turn env) acc its)) = buckets (fst acc) + length (write_events its)"
  "rw_unparsed_ended (fst (foldl (rework_turn env) acc its)) = rw_unparsed_ended (fst acc) + length (undated_turns its)"
  "rework_bounds acc \<Longrightarrow> rework_bounds (foldl (rework_turn env) acc its)"
proof (induction its arbitrary: acc)
  case (Cons it its)
  have "write_events (it # its) = write_events [it] @ write_events its" by (simp add: write_events_def)
  moreover have "undated_turns (it # its) = undated_turns [it] @ undated_turns its"
    by (simp add: undated_turns_def List.map_filter_simps split: option.splits)
  moreover case 1
  ultimately show ?case using Cons.IH(1) by (simp add: rework_turn_counts)
  case 2
  show ?case using Cons.IH(2) \<open>undated_turns (it # its) = _\<close> by (simp add: rework_turn_counts)
  case 3
  then show ?case using Cons.IH(3) by (simp add: rework_turn_counts)
qed (simp_all add: write_events_def undated_turns_def List.map_filter_simps)

text \<open>
  C24: the rework rate accounts for every event. Each create or modify entry of a dated rich turn
  of an agent in the window (not git, not undo) is in exactly one of the four buckets: measurable,
  too recent, imported, modification time unknown. The turns without a readable time are counted
  apart. What is reworked, and what overlaps a gap, is at most what is measurable; the rate is
  the quotient of the two counts and is absent exactly when nothing is measurable.
\<close>

theorem rework_accounts_for_events:
  defines "windowed opts now lg \<equiv> windowed_turns (since_ms opts now) (dated_turns lg)"
  shows "case sr_rework (compute_stats sha w s lg opts now) of rw \<Rightarrow>
     rw_measurable rw + rw_censored_recent rw + rw_excluded_imported rw + rw_excluded_unknown_mtime rw
       = length (write_events (windowed opts now lg))
     \<and> rw_unparsed_ended rw = length (undated_turns (windowed opts now lg))
     \<and> rw_reworked rw \<le> rw_measurable rw \<and> rw_gap_overlapped rw \<le> rw_measurable rw
     \<and> rw_rate rw = (if rw_measurable rw = 0 then None else Some (rw_reworked rw, rw_measurable rw))"
proof -
  let ?env = "rework_env_of (read_current_hash sha w) lg opts now"
  obtain rw ws where f: "foldl (rework_turn ?env) (no_rework, []) (windowed opts now lg) = (rw, ws)"
    by fastforce
  have start: "buckets no_rework = 0" "rw_unparsed_ended no_rework = 0" "rework_bounds (no_rework, [])"
    by (simp_all add: no_rework_def buckets_def rework_bounds_def)
  have "buckets rw = length (write_events (windowed opts now lg))"
    "rw_unparsed_ended rw = length (undated_turns (windowed opts now lg))" "rework_bounds (rw, ws)"
    using rework_fold_counts[where env = ?env and acc = "(no_rework, [])" and its = "windowed opts now lg"] by (simp_all add: f start)
  then show ?thesis
    using f unfolding windowed_def
    by (simp add: compute_stats_def Let_def rework_rates_def buckets_def rework_bounds_def)
qed

subsection \<open>Churn\<close>

lemma churn_map_at:
  "foldl (churn_step s) Map.empty es p = (case filter (\<lambda>e. fe_path e = p) es of
     [] \<Rightarrow> None | fs \<Rightarrow> Some (foldl (churn_entry s) no_churn fs))"
proof -
  have some: "entry_fold (\<lambda>old e. churn_entry s (case old of Some c \<Rightarrow> c | None \<Rightarrow> no_churn) e) (Some c) fs
      = Some (foldl (churn_entry s) c fs)" for c fs
    by (induction fs arbitrary: c) auto
  show ?thesis
    unfolding churn_step_def keyed_fold_entry by (auto simp: some split: list.splits)
qed

definition churn_of_path :: "store \<Rightarrow> file_entry list \<Rightarrow> string \<Rightarrow> file_churn" where
  "churn_of_path s es p = file_churn_of p (foldl (churn_entry s) no_churn (filter (\<lambda>e. fe_path e = p) es))"

text \<open>
  The churn table covers exactly the files touched in the window, each once, ranked by the
  bytes changed and then by path. The row of a file is made from all its entries and no other's:
  each is either measured by the sizes of its contents, or counted as skipped, withheld or
  dangling.
\<close>

theorem churn_table_exact:
  defines "es lg opts now \<equiv> concat (map (tr_files \<circ> fst \<circ> snd) (windowed_turns (since_ms opts now) (dated_turns lg)))"
  shows "set (sr_files (compute_stats sha w s lg opts now)) = churn_of_path s (es lg opts now) ` fe_path ` set (es lg opts now)
    \<and> distinct (map fc_path (sr_files (compute_stats sha w s lg opts now)))
    \<and> sorted (map (\<lambda>f. (- int (fc_churn_bytes f), fc_path f)) (sr_files (compute_stats sha w s lg opts now)))"
proof -
  let ?es = "es lg opts now" and ?m = "foldl (churn_step s) Map.empty (es lg opts now)"
  have es: "concat (map tr_files (map (fst \<circ> snd) (windowed_turns (since_ms opts now) (dated_turns lg)))) = ?es"
    by (simp add: es_def comp_assoc)
  have fs: "sr_files (compute_stats sha w s lg opts now) =
      rank_churn (map (\<lambda>p. file_churn_of p (the (?m p))) (sort (remdups (map fe_path ?es))))"
    unfolding compute_stats_def Let_def churn_files_def by (simp only: stats_result.select_convs es)
  have at: "file_churn_of p (the (?m p)) = churn_of_path s ?es p" if "p \<in> fe_path ` set ?es" for p
  proof -
    have "filter (\<lambda>e. fe_path e = p) ?es \<noteq> []" using that by (auto simp: filter_empty_conv)
    then show ?thesis unfolding churn_map_at churn_of_path_def by (auto split: list.splits)
  qed
  have "set (sr_files (compute_stats sha w s lg opts now)) = churn_of_path s ?es ` fe_path ` set ?es"
    unfolding fs rank_churn_def using at by (auto simp: image_image intro!: image_cong)
  moreover have "distinct (map fc_path (sr_files (compute_stats sha w s lg opts now)))"
  proof -
    have "distinct (map fc_path (map (\<lambda>p. file_churn_of p (the (?m p))) (sort (remdups (map fe_path ?es)))))"
      by (simp add: file_churn_of_def comp_def)
    then show ?thesis
      unfolding fs rank_churn_def by (simp add: distinct_map del: map_map)
  qed
  ultimately show ?thesis unfolding fs rank_churn_def by simp
qed

end
