(* ===== verification/Annotate.thy ===== *)
theory Annotate
  imports Diff_Blame
begin

text \<open>
  Attribution of blamed line ranges to turns (agentrec-core/src/annotate.rs). The ranges come
  parsed from \<open>git blame\<close>; the line diff (crate similar) is the parameter \<open>changes\<close>, with the
  index each changed line has on the new side.
\<close>

type_synonym indexed_differ = "string \<Rightarrow> string \<Rightarrow> (change_tag \<times> nat option) list"

definition LINE_PRECISION :: string where
  "LINE_PRECISION = ''best_effort''"

subsection \<open>Types\<close>

record blame_range =
  bl_path :: string
  bl_commit :: string
  bl_start_line :: nat
  bl_line_count :: nat

definition u32_max :: nat where
  "u32_max = 2 ^ 32 - 1"

definition contains_line :: "blame_range \<Rightarrow> nat \<Rightarrow> bool" where
  "contains_line r line \<longleftrightarrow>
     line \<ge> bl_start_line r \<and> line < min u32_max (bl_start_line r + bl_line_count r)"

record turn_ref =
  rf_id :: string
  rf_tool :: "string option"
  rf_model :: "string option"
  rf_ts :: string
  rf_prompt_excerpt :: "string option"

definition turn_ref_of :: "turn_record \<Rightarrow> turn_ref" where
  "turn_ref_of t = \<lparr>rf_id = tr_id t, rf_tool = tr_tool t, rf_model = tr_model t, rf_ts = tr_ended t,
     rf_prompt_excerpt = tr_prompt_excerpt t\<rparr>"

datatype unattributable_reason = GapReason | BlobEvicted

datatype attribution = ByTurns "turn_ref list" | Human | Unattributable unattributable_reason

record annotated_range =
  an_commit :: string
  an_start_line :: nat
  an_line_count :: nat
  an_attribution :: attribution

record annotated_file =
  af_path :: string
  af_ranges :: "annotated_range list"

record annotate_result =
  ar_files :: "annotated_file list"
  ar_line_precision :: string
  ar_evicted_ranges :: nat

subsection \<open>What one turn says about one path\<close>

text \<open>\<open>i as u32 + 1\<close>: the cast keeps the low 32 bits, the addition wraps.\<close>

definition inserted_lines :: "indexed_differ \<Rightarrow> string \<Rightarrow> string \<Rightarrow> nat list" where
  "inserted_lines changes old new =
     map (\<lambda>i. (i mod 2 ^ 32 + 1) mod 2 ^ 32)
       (List.map_filter snd (filter (\<lambda>c. fst c = InsertLine) (changes old new)))"

datatype path_lines = Lines "nat list" | Unresolved | Untouched

definition turn_lines_for :: "indexed_differ \<Rightarrow> (string \<Rightarrow> string) \<Rightarrow> store \<Rightarrow> turn_record \<Rightarrow> string \<Rightarrow> path_lines" where
  "turn_lines_for changes sha s t path = (case entry_for t path of
     None \<Rightarrow> Untouched
   | Some e \<Rightarrow> (case (load_text sha s (fe_before e), load_text sha s (fe_after e)) of
       (Some b, Some a) \<Rightarrow> Lines (inserted_lines changes b a)
     | _ \<Rightarrow> Unresolved))"

subsection \<open>The fold\<close>

text \<open>The inner loop: the claimants so far and whether a touching turn did not resolve.\<close>

definition claim_step :: "indexed_differ \<Rightarrow> (string \<Rightarrow> string) \<Rightarrow> store \<Rightarrow> blame_range
    \<Rightarrow> turn_ref list \<times> bool \<Rightarrow> turn_record \<Rightarrow> turn_ref list \<times> bool" where
  "claim_step changes sha s r acc t = (case acc of (claimants, unresolved) \<Rightarrow>
     (case turn_lines_for changes sha s t (bl_path r) of
        Lines ls \<Rightarrow> (if list_ex (contains_line r) ls then claimants @ [turn_ref_of t] else claimants, unresolved)
      | Unresolved \<Rightarrow> (claimants, True)
      | Untouched \<Rightarrow> (claimants, unresolved)))"

definition range_attribution :: "bool \<Rightarrow> turn_ref list \<times> bool \<Rightarrow> attribution" where
  "range_attribution any_gap acc = (case acc of (claimants, unresolved) \<Rightarrow>
     if claimants \<noteq> [] then ByTurns claimants
     else if unresolved then Unattributable BlobEvicted
     else if any_gap then Unattributable GapReason
     else Human)"

definition annotated :: "blame_range \<Rightarrow> attribution \<Rightarrow> annotated_range" where
  "annotated r a = \<lparr>an_commit = bl_commit r, an_start_line = bl_start_line r,
     an_line_count = bl_line_count r, an_attribution = a\<rparr>"

text \<open>\<open>files.iter_mut().find(..)\<close>: to the first file of that path, else a new one at the end.\<close>

fun push_range :: "string \<Rightarrow> annotated_range \<Rightarrow> annotated_file list \<Rightarrow> annotated_file list" where
  "push_range path a [] = [\<lparr>af_path = path, af_ranges = [a]\<rparr>]"
| "push_range path a (f # fs) =
     (if af_path f = path then f\<lparr>af_ranges := af_ranges f @ [a]\<rparr> # fs else f # push_range path a fs)"

definition attribute_step :: "indexed_differ \<Rightarrow> (string \<Rightarrow> string) \<Rightarrow> store \<Rightarrow> turn_record list \<Rightarrow> bool
    \<Rightarrow> annotated_file list \<times> nat \<Rightarrow> blame_range \<Rightarrow> annotated_file list \<times> nat" where
  "attribute_step changes sha s turns any_gap acc r = (case acc of (files, evicted) \<Rightarrow>
     let a = range_attribution any_gap (foldl (claim_step changes sha s r) ([], False) turns)
     in (push_range (bl_path r) (annotated r a) files,
         if a = Unattributable BlobEvicted then evicted + 1 else evicted))"

definition attribute_ranges :: "indexed_differ \<Rightarrow> (string \<Rightarrow> string) \<Rightarrow> store \<Rightarrow> ledger \<Rightarrow> blame_range list
    \<Rightarrow> annotate_result" where
  "attribute_ranges changes sha s lg ranges =
     (case foldl (attribute_step changes sha s (ledger_turns lg) (has_gap_after (lg_records lg) []))
            ([], 0) ranges of (files, evicted) \<Rightarrow>
        \<lparr>ar_files = files, ar_line_precision = LINE_PRECISION, ar_evicted_ranges = evicted\<rparr>)"

end
