(* ===== verification/Annotate_Props.thy ===== *)
theory Annotate_Props
  imports Annotate
begin

text \<open>
  What an annotation says, stated without the loops: the verdict on one range, and the grouping
  of the ranges by path.
\<close>

subsection \<open>The verdict on one range\<close>

definition wrote_in :: "indexed_differ \<Rightarrow> (string \<Rightarrow> string) \<Rightarrow> store \<Rightarrow> blame_range \<Rightarrow> turn_record \<Rightarrow> bool" where
  "wrote_in changes sha s r t = (case turn_lines_for changes sha s t (bl_path r) of
     Lines ls \<Rightarrow> (\<exists>l \<in> set ls. contains_line r l) | _ \<Rightarrow> False)"

definition unreadable :: "indexed_differ \<Rightarrow> (string \<Rightarrow> string) \<Rightarrow> store \<Rightarrow> blame_range \<Rightarrow> turn_record \<Rightarrow> bool" where
  "unreadable changes sha s r t \<longleftrightarrow> turn_lines_for changes sha s t (bl_path r) = Unresolved"

definition verdict_on :: "indexed_differ \<Rightarrow> (string \<Rightarrow> string) \<Rightarrow> store \<Rightarrow> ledger \<Rightarrow> blame_range \<Rightarrow> attribution" where
  "verdict_on changes sha s lg r =
     (let writers = filter (wrote_in changes sha s r) (ledger_turns lg) in
      if writers \<noteq> [] then ByTurns (map turn_ref_of writers)
      else if \<exists>t \<in> set (ledger_turns lg). unreadable changes sha s r t then Unattributable BlobEvicted
      else if recording_gaps (lg_records lg) \<noteq> [] \<and> (\<exists>g \<in> set (recording_gaps (lg_records lg)). gap_since g \<noteq> [])
           then Unattributable GapReason
      else Human)"

lemma claim_fold:
  "foldl (claim_step changes sha s r) (cs, u) ts =
     (cs @ map turn_ref_of (filter (wrote_in changes sha s r) ts),
      u \<or> (\<exists>t \<in> set ts. unreadable changes sha s r t))"
  by (induction ts arbitrary: cs u)
    (auto simp: claim_step_def wrote_in_def unreadable_def list_ex_iff split: path_lines.splits)

lemma any_gap_iff: "has_gap_after rs [] \<longleftrightarrow> (\<exists>g \<in> set (recording_gaps rs). gap_since g \<noteq> [])"
proof -
  have "[] < gap_since g \<longleftrightarrow> gap_since g \<noteq> []" for g :: gap by (cases "gap_since g") auto
  then show ?thesis by (simp add: has_gap_after_def list_ex_iff)
qed

lemma range_verdict:
  "range_attribution (has_gap_after (lg_records lg) []) (foldl (claim_step changes sha s r) ([], False) (ledger_turns lg))
     = verdict_on changes sha s lg r"
  by (auto simp: claim_fold range_attribution_def verdict_on_def any_gap_iff Let_def)

subsection \<open>Grouping by path\<close>

definition grouped :: "(blame_range \<Rightarrow> annotated_range) \<Rightarrow> blame_range list \<Rightarrow> annotated_file list" where
  "grouped f rs = map (\<lambda>p. \<lparr>af_path = p, af_ranges = map f (filter (\<lambda>r. bl_path r = p) rs)\<rparr>) (dedup (map bl_path rs))"

lemma push_range_new:
  "path \<notin> af_path ` set fs \<Longrightarrow> push_range path a fs = fs @ [\<lparr>af_path = path, af_ranges = [a]\<rparr>]"
  by (induction fs) auto

lemma push_range_map:
  assumes "distinct ps"
  shows "push_range path a (map (\<lambda>p. \<lparr>af_path = p, af_ranges = g p\<rparr>) ps) =
    (if path \<in> set ps then map (\<lambda>p. \<lparr>af_path = p, af_ranges = g p @ (if p = path then [a] else [])\<rparr>) ps
     else map (\<lambda>p. \<lparr>af_path = p, af_ranges = g p\<rparr>) ps @ [\<lparr>af_path = path, af_ranges = [a]\<rparr>])"
  using assms by (induction ps) (auto intro: map_cong)

lemma grouped_snoc: "push_range (bl_path r) (f r) (grouped f rs) = grouped f (rs @ [r])"
proof (cases "bl_path r \<in> set (map bl_path rs)")
  case True
  then show ?thesis
    by (auto simp: grouped_def push_range_map[OF distinct_dedup] intro!: map_cong)
next
  case False
  then have "\<forall>x \<in> set rs. bl_path x \<noteq> bl_path r" by (metis image_eqI set_map)
  then have "filter (\<lambda>x. bl_path x = bl_path r) rs = []" by (rule filter_False)
  with False show ?thesis
    by (auto simp: grouped_def push_range_map[OF distinct_dedup] intro!: map_cong)
qed

lemma attribute_fold:
  "foldl (attribute_step changes sha s (ledger_turns lg) (has_gap_after (lg_records lg) [])) ([], 0) rs =
     (grouped (\<lambda>r. annotated r (verdict_on changes sha s lg r)) rs,
      length (filter (\<lambda>r. verdict_on changes sha s lg r = Unattributable BlobEvicted) rs))"
proof (induction rs rule: rev_induct)
  case Nil
  then show ?case by (simp add: grouped_def)
next
  case (snoc r rs)
  then show ?case by (simp add: attribute_step_def range_verdict grouped_snoc[symmetric] Let_def)
qed

text \<open>
  An annotation names exactly who wrote a range. The blamed ranges come back grouped by
  path in the order the paths first occur, each range once and in order within its path. A range
  is credited to exactly the turns whose own before-to-after difference inserted a line in it;
  without such a turn it is unattributable when a turn touching the path has contents that do
  not resolve, else when the ledger has a dated recording gap, and it is called human only when
  none of these holds. The evicted counter counts exactly the ranges of the second kind.
\<close>

theorem annotation_is_exact:
  "attribute_ranges changes sha s lg ranges =
     \<lparr>ar_files = grouped (\<lambda>r. annotated r (verdict_on changes sha s lg r)) ranges,
      ar_line_precision = ''best_effort'',
      ar_evicted_ranges = length (filter (\<lambda>r. verdict_on changes sha s lg r = Unattributable BlobEvicted) ranges)\<rparr>"
  by (simp add: attribute_ranges_def attribute_fold LINE_PRECISION_def)

end
