(* ===== verification/Strings.thy ===== *)
theory Strings
  imports Text Store
begin

text \<open>
  More of the string operations of the Rust standard library: searching and splitting at a text,
  suffixes, words, and one-sided trimming, on UTF-8 bytes. Patterns are not empty.
\<close>

subsection \<open>Trimming\<close>

definition trim_start :: "string \<Rightarrow> string" where
  "trim_start s = strip_leading ws_encodings s"

definition trim_end :: "string \<Rightarrow> string" where
  "trim_end s = rev (strip_leading (map rev ws_encodings) (rev s))"

text \<open>\<open>trim_end_matches\<close> and \<open>trim_start_matches\<close> of one character.\<close>

definition trim_end_char :: "char \<Rightarrow> string \<Rightarrow> string" where
  "trim_end_char c s = rev (dropWhile (\<lambda>x. x = c) (rev s))"

definition trim_start_char :: "char \<Rightarrow> string \<Rightarrow> string" where
  "trim_start_char c s = dropWhile (\<lambda>x. x = c) s"

definition strip_suffix :: "string \<Rightarrow> string \<Rightarrow> string option" where
  "strip_suffix p s = (if ends_with s p then Some (take (length s - length p) s) else None)"

lemma strip_suffix_append [simp]: "strip_suffix p (s @ p) = Some s"
  by (auto simp: strip_suffix_def ends_with_iff)

subsection \<open>Searching\<close>

text \<open>\<open>str::find\<close> and \<open>str::rfind\<close>: the first and the last offset a text stands at.\<close>

definition str_find :: "string \<Rightarrow> string \<Rightarrow> nat option" where
  "str_find haystack p = List.find (\<lambda>i. starts_with (drop i haystack) p) [0 ..< length haystack + 1]"

definition str_rfind :: "string \<Rightarrow> string \<Rightarrow> nat option" where
  "str_rfind haystack p = List.find (\<lambda>i. starts_with (drop i haystack) p) (rev [0 ..< length haystack + 1])"

definition str_contains :: "string \<Rightarrow> string \<Rightarrow> bool" where
  "str_contains haystack p \<longleftrightarrow> str_find haystack p \<noteq> None"

lemma str_find_at:
  assumes "str_find haystack p = Some i"
  shows "haystack = take i haystack @ p @ drop (i + length p) haystack" "i + length p \<le> length haystack"
proof -
  from assms have "i \<le> length haystack" "starts_with (drop i haystack) p"
    by (auto simp: str_find_def dest!: find_Some_set)
  then obtain r where r: "drop i haystack = p @ r" by (auto simp: starts_with_iff)
  then have "length haystack - i = length p + length r" by (metis length_append length_drop)
  then show "i + length p \<le> length haystack" using \<open>i \<le> length haystack\<close> by linarith
  have "drop (length p) (drop i haystack) = r" by (simp add: r)
  then show "haystack = take i haystack @ p @ drop (i + length p) haystack"
    using r by (metis add.commute append_take_drop_id drop_drop)
qed

lemma str_find_spec: "str_find haystack p = Some i \<Longrightarrow> \<exists>pre post. haystack = pre @ p @ post \<and> length pre = i"
  using str_find_at[of haystack p i] by (metis add_leD1 length_take min.absorb2)

lemma str_contains_iff: "str_contains s p \<longleftrightarrow> (\<exists>a b. s = a @ p @ b)"
proof
  assume "str_contains s p"
  then show "\<exists>a b. s = a @ p @ b" using str_find_at(1) by (fastforce simp: str_contains_def)
next
  assume "\<exists>a b. s = a @ p @ b"
  then obtain a b where "s = a @ p @ b" by blast
  then have "starts_with (drop (length a) s) p" "length a \<in> set [0 ..< length s + 1]"
    by (auto simp: starts_with_iff)
  then show "str_contains s p" by (auto simp: str_contains_def str_find_def find_None_set)
qed

subsection \<open>Splitting\<close>

definition split_once_str :: "string \<Rightarrow> string \<Rightarrow> (string \<times> string) option" where
  "split_once_str p s = map_option (\<lambda>i. (take i s, drop (i + length p) s)) (str_find s p)"

definition rsplit_once_str :: "string \<Rightarrow> string \<Rightarrow> (string \<times> string) option" where
  "rsplit_once_str p s = map_option (\<lambda>i. (take i s, drop (i + length p) s)) (str_rfind s p)"

text \<open>\<open>str::split\<close> at a text.\<close>

function split_str :: "string \<Rightarrow> string \<Rightarrow> string list" where
  "split_str p s = (if p = [] then [s] else case str_find s p of
     None \<Rightarrow> [s] | Some i \<Rightarrow> take i s # split_str p (drop (i + length p) s))"
  by auto
termination
proof (relation "measure (\<lambda>(p, s). length s)")
  fix p s i
  assume "p \<noteq> []" "str_find s p = Some i"
  with str_find_at(2)[of s p i] show "((p, drop (i + length p) s), (p, s)) \<in> measure (\<lambda>(p, s). length s)"
    by (cases p) auto
qed simp

declare split_str.simps [simp del]

text \<open>\<open>str::split_whitespace\<close>; \<open>acc\<close> is the word being read.\<close>

function words_from :: "string \<Rightarrow> string \<Rightarrow> string list" where
  "words_from acc s = (if s = [] then (if acc = [] then [] else [acc])
     else case List.find (\<lambda>w. w \<noteq> [] \<and> starts_with s w) ws_encodings of
       Some w \<Rightarrow> (if acc = [] then [] else [acc]) @ words_from [] (drop (length w) s)
     | None \<Rightarrow> words_from (acc @ [hd s]) (tl s))"
  by auto
termination
proof (relation "measure (\<lambda>(acc, s). length s)")
  fix acc s w
  assume "s \<noteq> []" "List.find (\<lambda>w. w \<noteq> [] \<and> starts_with s w) ws_encodings = Some w"
  then have "w \<noteq> []" by (auto dest!: find_Some_set)
  with \<open>s \<noteq> []\<close> show "(([], drop (length w) s), (acc, s)) \<in> measure (\<lambda>(acc, s). length s)"
    by (cases s; cases w) auto
qed auto

declare words_from.simps [simp del]

definition split_whitespace :: "string \<Rightarrow> string list" where
  "split_whitespace s = words_from [] s"

end
