(* ===== verification/Search.thy ===== *)
theory Search
  imports View Strings
begin

text \<open>
  Search over prompts, turn metadata and paths (agentrec-core/src/search.rs). The regular
  expression engine (crate regex) is a parameter: a pattern compiles to the function that gives
  the span of the first match, or to the compiler's message.
\<close>

definition SEARCH_PAGE_SIZE :: nat where
  "SEARCH_PAGE_SIZE = 50"

record search_query =
  sq_pattern :: string
  sq_regex :: bool

definition search_fingerprint :: "search_query \<Rightarrow> string" where
  "search_fingerprint q = ''search:pattern='' @ sq_pattern q @ '';regex='' @ (if sq_regex q then ''true'' else ''false'')"

datatype matched_field = MPrompt | MTool | MModel | MPath

record search_hit =
  sh_turn_id :: string
  sh_ts :: string
  sh_field :: matched_field
  sh_snippet :: string

record search_page =
  sp_page :: "search_hit page"
  sp_dangling_prompt_refs :: nat

datatype search_error = BadPattern string | SearchCursor cursor_error

subsection \<open>Matching\<close>

type_synonym span_finder = "string \<Rightarrow> (nat \<times> nat) option"

datatype matcher = Substring string | Regex span_finder

definition compile_matcher :: "(string \<Rightarrow> string + span_finder) \<Rightarrow> search_query \<Rightarrow> search_error + matcher" where
  "compile_matcher regex q =
     (if sq_regex q then (case regex (sq_pattern q) of Inl e \<Rightarrow> Inl (BadPattern e) | Inr f \<Rightarrow> Inr (Regex f))
      else Inr (Substring (sq_pattern q)))"

fun find_in :: "matcher \<Rightarrow> string \<Rightarrow> (nat \<times> nat) option" where
  "find_in (Substring p) haystack =
     (if p = [] then None else map_option (\<lambda>s. (s, s + length p)) (str_find haystack p))"
| "find_in (Regex f) haystack = f haystack"

subsection \<open>Snippets\<close>

definition SNIPPET_CONTEXT :: nat where
  "SNIPPET_CONTEXT = 30"

definition is_char_boundary :: "string \<Rightarrow> nat \<Rightarrow> bool" where
  "is_char_boundary s i \<longleftrightarrow> i = 0 \<or> i = length s \<or> (i < length s \<and> \<not> byte_in 0x80 0xBF (s ! i))"

definition snippet_lo :: "string \<Rightarrow> nat \<Rightarrow> nat" where
  "snippet_lo haystack start =
     (case List.find (is_char_boundary haystack) (rev [0 ..< start - SNIPPET_CONTEXT + 1]) of
        Some i \<Rightarrow> i | None \<Rightarrow> 0)"

definition snippet_hi :: "string \<Rightarrow> nat \<Rightarrow> nat" where
  "snippet_hi haystack end' =
     (case List.find (is_char_boundary haystack) [min (end' + SNIPPET_CONTEXT) (length haystack) ..< length haystack + 1] of
        Some i \<Rightarrow> i | None \<Rightarrow> length haystack)"

definition snippet :: "string \<Rightarrow> nat \<Rightarrow> nat \<Rightarrow> string" where
  "snippet haystack start end' =
     drop (snippet_lo haystack start) (take (snippet_hi haystack end') haystack)"

subsection \<open>The fold\<close>

definition field_hit :: "matcher \<Rightarrow> turn_record \<Rightarrow> matched_field \<Rightarrow> string \<Rightarrow> search_hit list" where
  "field_hit m t field value = (case find_in m value of
     None \<Rightarrow> []
   | Some (s, e) \<Rightarrow> [\<lparr>sh_turn_id = tr_id t, sh_ts = tr_ended t, sh_field = field,
                     sh_snippet = snippet value s e\<rparr>])"

text \<open>The prompt of a turn: its hit, and whether its reference dangles.\<close>

definition prompt_hit :: "(string \<Rightarrow> string) \<Rightarrow> store \<Rightarrow> matcher \<Rightarrow> turn_record \<Rightarrow> search_hit list \<times> nat" where
  "prompt_hit sha s m t = (case tr_prompt_ref t of
     None \<Rightarrow> ([], 0)
   | Some h \<Rightarrow> (case get sha s h of
       Inr bytes \<Rightarrow> (if utf8_valid bytes then field_hit m t MPrompt bytes else [], 0)
     | Inl _ \<Rightarrow> ([], 1)))"

definition search_step :: "(string \<Rightarrow> string) \<Rightarrow> store \<Rightarrow> matcher \<Rightarrow> search_hit list \<times> nat \<Rightarrow> log_record
    \<Rightarrow> search_hit list \<times> nat" where
  "search_step sha s m acc r = (case (acc, r) of
     (_, Epoch _) \<Rightarrow> acc
   | ((hits, dangling), Turn t) \<Rightarrow>
       let (ph, d) = prompt_hit sha s m t in
       (hits @ ph
          @ (case tr_tool t of Some tool \<Rightarrow> field_hit m t MTool tool | None \<Rightarrow> [])
          @ (case tr_model t of Some model \<Rightarrow> field_hit m t MModel model | None \<Rightarrow> [])
          @ concat (map (\<lambda>f. field_hit m t MPath (fe_path f)) (tr_files t)),
        dangling + d))"

definition search_hits :: "(string \<Rightarrow> string) \<Rightarrow> store \<Rightarrow> matcher \<Rightarrow> ledger \<Rightarrow> search_hit list \<times> nat" where
  "search_hits sha s m lg = foldl (search_step sha s m) ([], 0) (lg_records lg)"

subsection \<open>Pages\<close>

definition search_start :: "search_hit list \<Rightarrow> search_query \<Rightarrow> cursor option \<Rightarrow> cursor_error + nat" where
  "search_start hits q cur = (case cur of
     None \<Rightarrow> Inr 0
   | Some c \<Rightarrow>
       if cu_query c \<noteq> search_fingerprint q then Inl QueryMismatch
       else case nth_index (\<lambda>h. sh_turn_id h = cu_after_id c) (cu_after_occurrence c) hits of
         None \<Rightarrow> Inl StaleCursor | Some i \<Rightarrow> Inr (i + 1))"

definition search_cursor :: "search_hit list \<Rightarrow> search_query \<Rightarrow> nat \<Rightarrow> cursor" where
  "search_cursor hits q i =
     \<lparr>cu_after_id = sh_turn_id (hits ! i),
      cu_after_occurrence = count_before (\<lambda>h. sh_turn_id h = sh_turn_id (hits ! i)) (take i hits),
      cu_query = search_fingerprint q\<rparr>"

definition compute_search :: "(string \<Rightarrow> string) \<Rightarrow> (string \<Rightarrow> string + span_finder) \<Rightarrow> store \<Rightarrow> ledger
    \<Rightarrow> search_query \<Rightarrow> nat \<Rightarrow> cursor option \<Rightarrow> search_error + search_page" where
  "compute_search sha regex s lg q page_size cur = (case compile_matcher regex q of
     Inl e \<Rightarrow> Inl e
   | Inr m \<Rightarrow> (case search_hits sha s m lg of (hits, dangling) \<Rightarrow>
       if page_size = 0 then Inl (SearchCursor ZeroLimit)
       else case search_start hits q cur of
         Inl e \<Rightarrow> Inl (SearchCursor e)
       | Inr start \<Rightarrow> Inr \<lparr>sp_page = cut_page (Some page_size) start hits (search_cursor hits q),
                          sp_dangling_prompt_refs = dangling\<rparr>))"

end
