(* ===== verification/Search_Props.thy ===== *)
theory Search_Props
  imports Search View_Props
begin

text \<open>Search finds what is there, shows it, and can be read page by page.\<close>

subsection \<open>Hits\<close>

definition turn_hits :: "(string \<Rightarrow> string) \<Rightarrow> store \<Rightarrow> matcher \<Rightarrow> turn_record \<Rightarrow> search_hit list" where
  "turn_hits sha s m t = fst (prompt_hit sha s m t)
     @ (case tr_tool t of Some tool \<Rightarrow> field_hit m t MTool tool | None \<Rightarrow> [])
     @ (case tr_model t of Some model \<Rightarrow> field_hit m t MModel model | None \<Rightarrow> [])
     @ concat (map (\<lambda>f. field_hit m t MPath (fe_path f)) (tr_files t))"

lemma search_fold:
  "foldl (search_step sha s m) (hs, d) rs =
     (hs @ concat (map (turn_hits sha s m) (List.map_filter turn_of rs)),
      d + sum_list (map (\<lambda>t. snd (prompt_hit sha s m t)) (List.map_filter turn_of rs)))"
  by (induction rs arbitrary: hs d)
    (auto simp: search_step_def turn_hits_def Let_def List.map_filter_simps
      split: log_record.splits prod.splits)

lemma search_hits_all: "fst (search_hits sha s m lg) = concat (map (turn_hits sha s m) (ledger_turns lg))"
  by (simp add: search_hits_def search_fold ledger_turns_def)

lemma snippet_bounds: "snippet_lo h i \<le> i" "j \<le> length h \<Longrightarrow> j \<le> snippet_hi h j"
  by (auto simp: snippet_lo_def snippet_hi_def split: option.splits dest!: find_Some_set)

text \<open>Both ends of a snippet are character boundaries, so cutting it does not panic.\<close>

lemma snippet_on_boundaries:
  "is_char_boundary h (snippet_lo h i)" "is_char_boundary h (snippet_hi h j)"
  by (auto simp: snippet_lo_def snippet_hi_def is_char_boundary_def split: option.splits dest!: find_Some_set)

definition shows_text :: "string \<Rightarrow> string \<Rightarrow> bool" where
  "shows_text sn p \<longleftrightarrow> (\<exists>pre post. sn = pre @ p @ post)"

lemma snippet_shows: "shows_text (snippet (pre @ p @ post) (length pre) (length pre + length p)) p"
proof -
  let ?h = "pre @ p @ post" and ?e = "length pre + length p"
  have lo: "snippet_lo ?h (length pre) \<le> length pre" by (rule snippet_bounds(1))
  have hi: "?e \<le> snippet_hi ?h ?e" by (rule snippet_bounds(2)) simp
  have "take (snippet_hi ?h ?e) ?h = pre @ p @ take (snippet_hi ?h ?e - ?e) post" using hi by simp
  then have "snippet ?h (length pre) ?e = drop (snippet_lo ?h (length pre)) pre @ p @ take (snippet_hi ?h ?e - ?e) post"
    unfolding snippet_def using lo by (simp only: drop_append) simp
  then show ?thesis unfolding shows_text_def by blast
qed

lemma field_hit_shows: "h \<in> set (field_hit (Substring p) t f v) \<Longrightarrow> shows_text (sh_snippet h) p"
proof -
  assume "h \<in> set (field_hit (Substring p) t f v)"
  then obtain i where i: "str_find v p = Some i" "sh_snippet h = snippet v i (i + length p)"
    by (cases "str_find v p") (auto simp: field_hit_def split: if_splits)
  from str_find_spec[OF i(1)] obtain pre post where v: "v = pre @ p @ post" "length pre = i" by blast
  show ?thesis using snippet_shows[of pre p post] unfolding i(2) v(1) v(2)[symmetric] .
qed

text \<open>
  Every hit shows its match. In a search for a text, the excerpt of every hit, in whichever
  field it was found, contains the text searched for, although it is cut out of the field at
  character boundaries around the match.
\<close>

theorem hits_show_the_match:
  "list_all (\<lambda>h. shows_text (sh_snippet h) p) (fst (search_hits sha s (Substring p) lg))"
proof -
  have "shows_text (sh_snippet h) p" if "h \<in> set (turn_hits sha s (Substring p) t)" for h t
    using that field_hit_shows[where h = h and t = t and p = p]
    by (auto simp: turn_hits_def prompt_hit_def split: option.splits sum.splits if_splits)
  then show ?thesis by (auto simp: search_hits_all list_all_iff)
qed

subsection \<open>Pages\<close>

lemma search_cursor_resumes:
  "i < length hits \<Longrightarrow> search_start hits q (Some (search_cursor hits q i)) = Inr (Suc i)"
  using nth_index_count[of i hits "\<lambda>h. sh_turn_id h = sh_turn_id (hits ! i)"]
  by (simp add: search_start_def search_cursor_def)

definition search_fetch :: "search_hit list \<Rightarrow> search_query \<Rightarrow> nat \<Rightarrow> cursor option \<Rightarrow> cursor_error + search_hit page" where
  "search_fetch hits q n c = map_sum id (\<lambda>start. cut_page (Some n) start hits (search_cursor hits q)) (search_start hits q c)"

interpretation search_pager: pager
  "search_fetch hits q (Suc n)" hits "Suc n" "\<lambda>c p. search_start hits q c = Inr p"
proof unfold_locales
  show "search_start hits q None = Inr 0" by (simp add: search_start_def)
  fix c p assume st: "search_start hits q c = Inr p" "p \<le> length hits"
  note cp = cut_page_spec[OF st(2) zero_less_Suc, of n "search_cursor hits q"]
  show "\<exists>next. search_fetch hits q (Suc n) c = Inr \<lparr>pg_items = take (Suc n) (drop p hits), pg_next = next\<rparr>"
    by (cases "cut_page (Some (Suc n)) p hits (search_cursor hits q)") (use cp(1) in \<open>simp add: search_fetch_def st(1)\<close>)
  fix pg assume "search_fetch hits q (Suc n) c = Inr pg"
  then have "pg_next pg = (if p + Suc n < length hits then Some (search_cursor hits q (p + Suc n - 1)) else None)"
    using cp(2) by (auto simp: search_fetch_def st(1))
  then show "if p + Suc n < length hits
      then pg_next pg \<noteq> None \<and> search_start hits q (pg_next pg) = Inr (p + Suc n) else pg_next pg = None"
    using search_cursor_resumes[of "p + n" hits q] by simp
qed simp

lemma compute_search_fetch:
  "compile_matcher regex q = Inr m \<Longrightarrow>
     map_sum id sp_page (compute_search sha regex s lg q (Suc n) c) =
     map_sum SearchCursor id (search_fetch (fst (search_hits sha s m lg)) q (Suc n) c)"
  by (auto simp: compute_search_def search_fetch_def split: prod.splits sum.splits)

text \<open>
  A search can be read page by page. With a pattern that compiles, following the cursors
  with any page size gives every hit of every turn, once, in the order of the ledger, and within
  a turn prompt, tool, model and paths.
\<close>

theorem search_pages_complete:
  assumes "compile_matcher regex q = Inr m"
  shows "all_pages (Suc (length (concat (map (turn_hits sha s m) (ledger_turns lg)))))
      (\<lambda>c. map_sum id sp_page (compute_search sha regex s lg q (Suc n) c)) None
    = Some (concat (map (turn_hits sha s m) (ledger_turns lg)))"
proof -
  have err: "all_pages k (\<lambda>c. map_sum f id (fetch c)) c = all_pages k fetch c" for k f c and fetch :: "cursor option \<Rightarrow> 'x + 'y page"
    by (induction k arbitrary: c) (auto split: sum.splits option.splits)
  show ?thesis
    unfolding compute_search_fetch[OF assms] err search_hits_all by (rule search_pager.pages_complete)
qed

theorem search_pages_complete_witness:
  "all_pages (Suc (length (concat (map (turn_hits (\<lambda>_. []) [] (Substring ''a'')) (ledger_turns
       \<lparr>lg_records = [Turn example_turn], lg_unknown_type_lines = 0, lg_unparsed_lines = 0\<rparr>)))))
     (\<lambda>c. map_sum id sp_page (compute_search (\<lambda>_. []) (\<lambda>_. Inl []) []
       \<lparr>lg_records = [Turn example_turn], lg_unknown_type_lines = 0, lg_unparsed_lines = 0\<rparr>
       \<lparr>sq_pattern = ''a'', sq_regex = False\<rparr> (Suc 0) c)) None
     = Some (concat (map (turn_hits (\<lambda>_. []) [] (Substring ''a'')) [example_turn]))"
  by (subst search_pages_complete[where m = "Substring ''a''"])
    (simp_all add: compile_matcher_def ledger_turns_def List.map_filter_simps)

end
