(* ===== verification/Config.thy ===== *)
theory Config
  imports Undo_Plan Undo_Ledger Watch
begin

text \<open>
  The configuration file (cli/src/config.rs) and the noise filter it configures
  (cli/src/noise.rs). The TOML parser, the \<open>Debug\<close> form of a text and the gitignore matcher are
  parameters; warnings are left out.
\<close>

subsection \<open>Values\<close>

datatype toml = TStr string | TInt int | TBool bool | TArr "toml list" | TOther

type_synonym toml_table = "(string \<times> toml) list"

record config =
  cf_ttl_days :: nat
  cf_store_budget_bytes :: nat
  cf_noise_globs :: "string list"
  cf_memory_enabled :: bool
  cf_memory_inject_max :: nat
  cf_mcp_destructive :: mcp_destructive
  cf_attest_stale :: bool
  cf_attest_coverage_path :: "string option"

definition MAX_STORE_BYTES :: nat where
  "MAX_STORE_BYTES = 2 * 1024 * 1024 * 1024"

definition default_config :: config where
  "default_config = \<lparr>cf_ttl_days = 90, cf_store_budget_bytes = MAX_STORE_BYTES, cf_noise_globs = [],
     cf_memory_enabled = True, cf_memory_inject_max = 5, cf_mcp_destructive = ModeOff,
     cf_attest_stale = True, cf_attest_coverage_path = None\<rparr>"

subsection \<open>Keys\<close>

fun toml_str :: "toml \<Rightarrow> string option" where
  "toml_str (TStr s) = Some s"
| "toml_str _ = None"

fun toml_integer :: "toml \<Rightarrow> int option" where
  "toml_integer (TInt n) = Some n"
| "toml_integer _ = None"

fun toml_bool :: "toml \<Rightarrow> bool option" where
  "toml_bool (TBool b) = Some b"
| "toml_bool _ = None"

fun toml_array :: "toml \<Rightarrow> toml list option" where
  "toml_array (TArr vs) = Some vs"
| "toml_array _ = None"

text \<open>A key whose value has the wanted shape overrides the default; anything else leaves it.\<close>

definition key_or :: "toml_table \<Rightarrow> string \<Rightarrow> (toml \<Rightarrow> 'a option) \<Rightarrow> 'a \<Rightarrow> 'a" where
  "key_or raw k read d = (case map_of raw k of None \<Rightarrow> d | Some v \<Rightarrow> (case read v of Some x \<Rightarrow> x | None \<Rightarrow> d))"

definition int_from :: "int \<Rightarrow> toml \<Rightarrow> nat option" where
  "int_from least v = (case toml_integer v of Some n \<Rightarrow> if n \<ge> least then Some (nat n) else None | None \<Rightarrow> None)"

definition mcp_mode :: "(string \<Rightarrow> string) \<Rightarrow> toml_table \<Rightarrow> string + mcp_destructive" where
  "mcp_mode debug raw = (case map_of raw ''mcp_destructive'' of
     None \<Rightarrow> Inr ModeOff
   | Some v \<Rightarrow>
       (let s = (case toml_str v of Some s \<Rightarrow> s | None \<Rightarrow> []) in
        if s = ''off'' then Inr ModeOff
        else if s = ''confirm'' then Inr ModeConfirm
        else if s = ''auto'' then Inr ModeAuto
        else Inl (''invalid mcp_destructive value '' @ debug s @ '': must be one of '' @
          debug ''off'' @ '', '' @ debug ''confirm'' @ '', '' @ debug ''auto'')))"

definition config_of :: "toml_table \<Rightarrow> mcp_destructive \<Rightarrow> config" where
  "config_of raw mode =
     \<lparr>cf_ttl_days = key_or raw ''ttl_days'' (int_from 0) (cf_ttl_days default_config),
      cf_store_budget_bytes = key_or raw ''store_budget_bytes'' (int_from 1) (cf_store_budget_bytes default_config),
      cf_noise_globs = key_or raw ''noise_globs'' (\<lambda>v. map_option (List.map_filter toml_str) (toml_array v)) [],
      cf_memory_enabled = key_or raw ''memory_enabled'' toml_bool True,
      cf_memory_inject_max = key_or raw ''memory_inject_max'' (int_from 0) (cf_memory_inject_max default_config),
      cf_mcp_destructive = mode,
      cf_attest_stale = key_or raw ''attest_stale'' toml_bool True,
      cf_attest_coverage_path = key_or raw ''attest_coverage_path'' (\<lambda>v. map_option Some (toml_str v)) None\<rparr>"

text \<open>\<open>file\<close> is the text of config.toml, None when it cannot be read as a regular file.\<close>

definition load_config :: "(string \<Rightarrow> string + toml_table) \<Rightarrow> (string \<Rightarrow> string) \<Rightarrow> string option \<Rightarrow> string + config" where
  "load_config toml_parse debug file = (case file of
     None \<Rightarrow> Inr default_config
   | Some t \<Rightarrow> (case toml_parse t of
       Inl e \<Rightarrow> Inl e
     | Inr raw \<Rightarrow> map_sum id (config_of raw) (mcp_mode debug raw)))"

definition load_or_default :: "(string \<Rightarrow> string + toml_table) \<Rightarrow> (string \<Rightarrow> string) \<Rightarrow> string option \<Rightarrow> config" where
  "load_or_default toml_parse debug file = (case load_config toml_parse debug file of
     Inr cfg \<Rightarrow> cfg | Inl _ \<Rightarrow> default_config)"

subsection \<open>Noise\<close>

definition read_noise_globs :: "(string \<Rightarrow> string + toml_table) \<Rightarrow> (string \<Rightarrow> string) \<Rightarrow> string option \<Rightarrow> string + string list" where
  "read_noise_globs toml_parse debug file = map_sum id cf_noise_globs (load_config toml_parse debug file)"

text \<open>
  \<open>gitignore\<close> builds the matcher from the lines (bad ones are skipped by the builder), or fails;
  a matcher says what it thinks of a relative path or of one of its parents.
\<close>

definition build_noise :: "(string list \<Rightarrow> (string \<Rightarrow> gi_match) option) \<Rightarrow> string list \<Rightarrow> (string \<Rightarrow> gi_match) option" where
  "build_noise gitignore globs = (if globs = [] then None else gitignore globs)"

definition is_noise :: "(string \<Rightarrow> gi_match) \<Rightarrow> string \<Rightarrow> bool" where
  "is_noise m p = (if is_absolute p then False else m p = GiIgnore)"

end
