(* ===== verification/Libtest.thy ===== *)
theory Libtest
  imports Strings Dates Attest Undo_Plan
begin

text \<open>
  The cargo test adapter (cli/src/attest/adapter_cargo.rs): cargo's artifact stream, the libtest
  output parser with its cross-check, the interpretation of a scoped run and of a whole run, and
  the staged single-test pipeline. Spawned programs (cargo, the test binaries), serde_json and
  the environment are parameters; the parser's diagnostic texts and the hashing of test bodies
  (crate syn) are left out.
\<close>

subsection \<open>Environment\<close>

datatype run_filter = TargetFilter string | ExactFilter string string

definition ENV_ALLOWLIST :: "string list" where
  "ENV_ALLOWLIST = [''PATH'', ''HOME'', ''CARGO_HOME'', ''RUSTUP_HOME'', ''RUSTUP_TOOLCHAIN'', ''TMPDIR'', ''TERM'']"

definition scrubbed_pairs :: "(string \<times> string) list \<Rightarrow> (string \<times> string) list" where
  "scrubbed_pairs vars = filter (\<lambda>(k, _). k \<in> set ENV_ALLOWLIST \<or> starts_with k ''LLVM_'') vars"

subsection \<open>Targets\<close>

record target_info =
  tg_package :: string
  tg_name :: string
  tg_kind :: string
  tg_src_path :: string
  tg_executable :: string

definition scope_args :: "target_info \<Rightarrow> string list" where
  "scope_args t = [''-p'', tg_package t] @
     (if tg_kind t = ''lib'' then [''--lib'']
      else if tg_kind t = ''bin'' then [''--bin'', tg_name t]
      else [''--test'', tg_name t])"

definition last_segment :: "string \<Rightarrow> string" where
  "last_segment before = last (split_on CHR ''/'' (trim_end_char CHR ''/'' before))"

definition package_name_from_id :: "string \<Rightarrow> string" where
  "package_name_from_id pid =
     (let (before, frag) = (case split_once CHR ''#'' pid of Some (b, f) \<Rightarrow> (b, f) | None \<Rightarrow> (pid, [])) in
      case split_once CHR ''@'' frag of
        Some (name, _) \<Rightarrow> name
      | None \<Rightarrow>
          if frag \<noteq> [] \<and> byte_in 0x30 0x39 (hd frag) then last_segment before
          else if frag = [] then last_segment before
          else frag)"

text \<open>The kind is the first of the array's entries, where that is text.\<close>

definition artifact_of :: "json \<Rightarrow> target_info option" where
  "artifact_of msg =
     (if Option.bind (value_get ''reason'' msg) dec_str \<noteq> Some ''compiler-artifact'' then None
      else case Option.bind (value_get ''executable'' msg) dec_str of
        None \<Rightarrow> None
      | Some exe \<Rightarrow>
          (let target = (case value_get ''target'' msg of Some t \<Rightarrow> t | None \<Rightarrow> JNull) in
           case (Option.bind (value_get ''name'' target) dec_str, Option.bind (value_get ''src_path'' target) dec_str) of
             (Some name, Some src) \<Rightarrow>
               Some \<lparr>tg_package = (case Option.bind (value_get ''package_id'' msg) dec_str of
                       Some p \<Rightarrow> package_name_from_id p | None \<Rightarrow> []),
                 tg_name = name,
                 tg_kind = (case value_get ''kind'' target of
                     Some (JArr (JStr k # _)) \<Rightarrow> k | _ \<Rightarrow> ''test''),
                 tg_src_path = src, tg_executable = exe\<rparr>
           | _ \<Rightarrow> None))"

definition target_le :: "target_info \<Rightarrow> target_info \<Rightarrow> bool" where
  "target_le a b \<longleftrightarrow> tg_name a < tg_name b \<or> (tg_name a = tg_name b \<and> tg_kind a \<le> tg_kind b)"

text \<open>\<open>sort_by\<close> is stable: an element goes behind those that are not greater.\<close>

fun insert_target :: "target_info \<Rightarrow> target_info list \<Rightarrow> target_info list" where
  "insert_target t [] = [t]"
| "insert_target t (u # us) = (if target_le u t then u # insert_target t us else t # u # us)"

definition parse_artifact_stream :: "(string \<Rightarrow> json option) \<Rightarrow> string \<Rightarrow> target_info list" where
  "parse_artifact_stream from_str stdout =
     foldl (\<lambda>ts t. insert_target t ts) []
       (List.map_filter (\<lambda>line. Option.bind (from_str line) artifact_of) (lines stdout))"

definition parse_list_output :: "string \<Rightarrow> string list" where
  "parse_list_output stdout = filter (\<lambda>n. n \<noteq> []) (map trim (List.map_filter (strip_suffix '': test'') (lines stdout)))"

text \<open>
  \<open>out.sort(); out.dedup()\<close>. \<open>list\<close> is the text a test binary prints for \<open>--list\<close>, or why it
  could not be run; the first failure ends the discovery.
\<close>

fun list_all_tests :: "(string \<Rightarrow> string + string) \<Rightarrow> target_info list \<Rightarrow> string + test_identity list" where
  "list_all_tests list [] = Inr []"
| "list_all_tests list (t # ts) = (case list (tg_executable t) of
     Inl e \<Rightarrow> Inl e
   | Inr out \<Rightarrow> map_sum id (\<lambda>rest. map (TestIdentity (tg_name t)) (parse_list_output out) @ rest)
       (list_all_tests list ts))"

definition discover :: "string + target_info list \<Rightarrow> (string \<Rightarrow> string + string) \<Rightarrow> string + test_identity list" where
  "discover build list = (case build of
     Inl e \<Rightarrow> Inl e
   | Inr ts \<Rightarrow> map_sum id (\<lambda>is. remdups (sort is)) (list_all_tests list ts))"

subsection \<open>The libtest parser\<close>

record summary =
  su_passed :: nat
  su_failed :: nat
  su_ignored :: nat

record libtest_section =
  sc_per_test :: "(string \<times> test_outcome) list"
  sc_summary :: "summary option"
  sc_parse_failed :: bool

definition parse_per_test :: "string \<Rightarrow> (string \<times> test_outcome) option" where
  "parse_per_test line = (case strip_prefix ''test '' line of
     None \<Rightarrow> None
   | Some rest \<Rightarrow> (case rsplit_once_str '' ... '' rest of
       None \<Rightarrow> None
     | Some (name, status) \<Rightarrow>
         (case map_of [(''ok'', Passed), (''FAILED'', Failed), (''ignored'', Ignored)] (trim_end status) of
            None \<Rightarrow> None
          | Some out \<Rightarrow> if name = [] \<or> CHR '' '' \<in> set name then None else Some (name, out))))"

definition counted :: "string list \<Rightarrow> nat \<Rightarrow> string \<Rightarrow> nat option" where
  "counted fs i label = (case split_once CHR '' '' (fs ! i) of
     None \<Rightarrow> None
   | Some (n, l) \<Rightarrow> if l \<noteq> label then None else parse_uint 64 n)"

definition parse_summary :: "string \<Rightarrow> summary option" where
  "parse_summary line = (case strip_prefix ''test result: '' line of
     None \<Rightarrow> None
   | Some rest \<Rightarrow>
       (case (case strip_prefix ''ok. '' rest of Some r \<Rightarrow> Some r | None \<Rightarrow> strip_prefix ''FAILED. '' rest) of
          None \<Rightarrow> None
        | Some r \<Rightarrow>
            (let fs = split_str ''; '' r in
             if length fs \<noteq> 6 then None
             else case (counted fs 0 ''passed'', counted fs 1 ''failed'', counted fs 2 ''ignored'',
                        counted fs 3 ''measured'', counted fs 4 ''filtered out'') of
               (Some p, Some f, Some i, Some _, Some _) \<Rightarrow>
                 if \<not> starts_with (fs ! 5) ''finished in '' then None
                 else Some \<lparr>su_passed = p, su_failed = f, su_ignored = i\<rparr>
             | _ \<Rightarrow> None)))"

fun tally_step :: "summary \<Rightarrow> test_outcome \<Rightarrow> summary" where
  "tally_step s Passed = s\<lparr>su_passed := su_passed s + 1\<rparr>"
| "tally_step s Failed = s\<lparr>su_failed := su_failed s + 1\<rparr>"
| "tally_step s Ignored = s\<lparr>su_ignored := su_ignored s + 1\<rparr>"

definition tally_of :: "(string \<times> test_outcome) list \<Rightarrow> summary" where
  "tally_of per_test = foldl tally_step \<lparr>su_passed = 0, su_failed = 0, su_ignored = 0\<rparr> (map snd per_test)"

definition finish_section :: "(string \<times> test_outcome) list \<Rightarrow> summary option \<Rightarrow> libtest_section" where
  "finish_section per_test su = (case su of
     None \<Rightarrow> \<lparr>sc_per_test = per_test, sc_summary = None, sc_parse_failed = True\<rparr>
   | Some s \<Rightarrow> \<lparr>sc_per_test = per_test, sc_summary = Some s, sc_parse_failed = (tally_of per_test \<noteq> s)\<rparr>)"

text \<open>Sections so far, the lines of the open one, and whether anything was recognised.\<close>

definition libtest_step :: "libtest_section list \<times> (string \<times> test_outcome) list \<times> bool \<Rightarrow> string
    \<Rightarrow> libtest_section list \<times> (string \<times> test_outcome) list \<times> bool" where
  "libtest_step acc line = (case acc of (sections, per_test, saw_any) \<Rightarrow>
     (case parse_per_test line of
        Some entry \<Rightarrow> (sections, per_test @ [entry], True)
      | None \<Rightarrow> (case parse_summary line of
          Some su \<Rightarrow> (sections @ [finish_section per_test (Some su)], [], True)
        | None \<Rightarrow> acc)))"

definition parse_libtest :: "string \<Rightarrow> libtest_section list" where
  "parse_libtest raw = (case foldl libtest_step ([], [], False) (lines raw) of (sections, per_test, saw_any) \<Rightarrow>
     if per_test \<noteq> [] \<or> \<not> saw_any then sections @ [finish_section per_test None] else sections)"

subsection \<open>Interpretation\<close>

definition untrusted :: "test_identity \<Rightarrow> recipe_invalid_cause option \<Rightarrow> structured_result" where
  "untrusted i cause = \<lparr>sr_identity = i, sr_outcome = None, sr_recipe_invalid = cause, sr_parse_failed = True, sr_raw_blob = None\<rparr>"

definition single_test_result :: "test_identity \<Rightarrow> string \<Rightarrow> structured_result" where
  "single_test_result i stdout = (case parse_libtest stdout of
     [] \<Rightarrow> untrusted i (Some CauseHarness)
   | section # rest \<Rightarrow>
       if rest \<noteq> [] then untrusted i None
       else case sc_summary section of
         None \<Rightarrow> untrusted i (Some CauseHarness)
       | Some su \<Rightarrow>
           if sc_parse_failed section then untrusted i None
           else (let total = su_passed su + su_failed su + su_ignored su in
             if total = 0 then result_recipe_invalid i CauseMissing
             else if total = 1 \<and> su_ignored su = 1
               then (result_recipe_invalid i CauseIgnored)\<lparr>sr_outcome := Some Ignored\<rparr>
             else if total = 1 \<and> su_passed su = 1 then result_outcome i Passed
             else if total = 1 \<and> su_failed su = 1 then result_outcome i Failed
             else untrusted i None))"

definition section_results :: "string \<Rightarrow> libtest_section \<Rightarrow> structured_result list" where
  "section_results target section = map (\<lambda>(name, out).
     if sc_parse_failed section
     then untrusted (TestIdentity target name) (if sc_summary section = None then Some CauseHarness else None)
     else result_outcome (TestIdentity target name) out) (sc_per_test section)"

definition bulk_results :: "string \<Rightarrow> string list \<Rightarrow> structured_result list" where
  "bulk_results stdout targets = concat (map (\<lambda>(i, section).
     section_results (if i < length targets then targets ! i else []) section) (enumerate 0 (parse_libtest stdout)))"

subsection \<open>Target names of a whole run\<close>

text \<open>
  Colour sequences: ESC, an opening bracket, digits and semicolons, an m. Anything else that
  starts with ESC ends the scan with what was read so far.
\<close>

function strip_sgr :: "string \<Rightarrow> string" where
  "strip_sgr line = (case position (\<lambda>c. c = CHR 0x1B) line of
     None \<Rightarrow> line
   | Some esc \<Rightarrow> take esc line @
       (case strip_prefix [CHR 0x1B, CHR ''[''] (drop esc line) of
          None \<Rightarrow> []
        | Some body \<Rightarrow>
            (case position (\<lambda>c. \<not> byte_in 0x30 0x39 c \<and> c \<noteq> CHR '';'') body of
               None \<Rightarrow> []
             | Some n \<Rightarrow> if body ! n \<noteq> CHR ''m'' then [] else strip_sgr (drop (n + 1) body))))"
  by auto
termination
  by (relation "measure length") (auto simp: strip_prefix_def split: if_splits dest!: position_SomeD)

declare strip_sgr.simps [simp del]

definition target_marker :: "string \<Rightarrow> string option" where
  "target_marker raw =
     (let line = trim_start (strip_sgr raw) in
      if starts_with line ''Doc-tests '' then Some ''doc-tests''
      else case strip_prefix ''Running '' line of
        None \<Rightarrow> None
      | Some rest \<Rightarrow> (case str_rfind rest ''('' of
          None \<Rightarrow> None
        | Some n \<Rightarrow>
            (let name = last (split_on CHR ''/'' (trim_end_char CHR '')'' (drop (n + 1) rest))) in
             Some (case rsplit_once_str ''-'' name of Some (a, _) \<Rightarrow> a | None \<Rightarrow> name))))"

definition section_targets :: "string \<Rightarrow> string \<Rightarrow> nat \<Rightarrow> string list" where
  "section_targets stdout stderr sections =
     (let names = List.map_filter target_marker (lines stdout @ lines stderr) in
      if length names \<noteq> sections then [] else names)"

subsection \<open>The staged run\<close>

text \<open>
  \<open>build\<close> is the outcome of building the targets, \<open>list\<close> what a binary prints for \<open>--list\<close>,
  \<open>spawn\<close> the standard output of the scoped \<open>cargo test\<close> with the given arguments.
\<close>

definition filter_identity :: "run_filter \<Rightarrow> test_identity" where
  "filter_identity f = (case f of ExactFilter t p \<Rightarrow> TestIdentity t p | TargetFilter t \<Rightarrow> TestIdentity t [])"

definition filter_target :: "run_filter \<Rightarrow> string" where
  "filter_target f = (case f of ExactFilter t _ \<Rightarrow> t | TargetFilter t \<Rightarrow> t)"

definition run_adapter :: "string + target_info list \<Rightarrow> (string \<Rightarrow> string + string) \<Rightarrow> (string list \<Rightarrow> string + string)
    \<Rightarrow> run_filter \<Rightarrow> string + structured_result list" where
  "run_adapter build list spawn f = (case build of
     Inl e \<Rightarrow> Inr [result_recipe_invalid (filter_identity f) CauseBuild]
   | Inr targets \<Rightarrow>
       (case List.find (\<lambda>t. tg_name t = filter_target f) targets of
          None \<Rightarrow> Inl ''no cargo target''
        | Some t \<Rightarrow>
            (case f of
               TargetFilter _ \<Rightarrow> map_sum id (\<lambda>out. bulk_results out [tg_name t]) (spawn (''test'' # scope_args t))
             | ExactFilter _ fn_path \<Rightarrow>
                 (case list (tg_executable t) of
                    Inl e \<Rightarrow> Inl e
                  | Inr listed \<Rightarrow>
                      if fn_path \<notin> set (parse_list_output listed)
                      then Inr [result_recipe_invalid (TestIdentity (tg_name t) fn_path) CauseMissing]
                      else map_sum id (\<lambda>out. [single_test_result (TestIdentity (tg_name t) fn_path) out])
                        (spawn (''test'' # scope_args t @ [''--'', ''--exact'', fn_path]))))))"

end
