(* ===== verification/Libtest_Props.thy ===== *)
theory Libtest_Props
  imports Libtest
begin

text \<open>
  What the parser trusts: a scoped run gives an outcome exactly when the output says so twice, in
  its one test line and in its one summary; a whole run gives outcomes only from sections whose
  lines add up to their summary.
\<close>

subsection \<open>The output as its recognised lines\<close>

text \<open>A per-test line, or a summary; everything else is noise.\<close>

definition classify_line :: "string \<Rightarrow> ((string \<times> test_outcome) + summary) option" where
  "classify_line l = (case parse_per_test l of
     Some e \<Rightarrow> Some (Inl e) | None \<Rightarrow> map_option Inr (parse_summary l))"

definition result_lines :: "string \<Rightarrow> ((string \<times> test_outcome) + summary) list" where
  "result_lines out = List.map_filter classify_line (lines out)"

fun sections_of :: "(string \<times> test_outcome) list \<Rightarrow> ((string \<times> test_outcome) + summary) list
    \<Rightarrow> libtest_section list \<times> (string \<times> test_outcome) list" where
  "sections_of es [] = ([], es)"
| "sections_of es (Inl e # is) = sections_of (es @ [e]) is"
| "sections_of es (Inr su # is) = (case sections_of [] is of (ss, r) \<Rightarrow> (finish_section es (Some su) # ss, r))"

lemma libtest_fold:
  "foldl libtest_step (ss, es, b) ls =
     (case sections_of es (List.map_filter classify_line ls) of (ss', es') \<Rightarrow>
        (ss @ ss', es', b \<or> List.map_filter classify_line ls \<noteq> []))"
proof (induction ls arbitrary: ss es b)
  case Nil
  then show ?case by (simp add: List.map_filter_simps)
next
  case (Cons l ls)
  show ?case
    by (simp add: libtest_step_def[of _ l] classify_line_def[of l] List.map_filter_simps Cons.IH split: option.splits prod.splits)
qed

lemma parse_libtest_sections:
  "parse_libtest out = (case sections_of [] (result_lines out) of (ss, es) \<Rightarrow>
     if es \<noteq> [] \<or> result_lines out = [] then ss @ [finish_section es None] else ss)"
  by (simp add: parse_libtest_def libtest_fold result_lines_def split: prod.splits)

lemma sections_of_none: "sections_of es is = ([], []) \<Longrightarrow> is = [] \<and> es = []"
proof (induction es "is" rule: sections_of.induct)
  case (2 es e "is")
  then show ?case by simp
qed (auto split: prod.splits)

lemma sections_of_one:
  "sections_of es is = ([s], []) \<Longrightarrow> \<exists>es0 su. is = map Inl es0 @ [Inr su] \<and> s = finish_section (es @ es0) (Some su)"
proof (induction es "is" rule: sections_of.induct)
  case (2 es e "is")
  then obtain es0 su where "is = map Inl es0 @ [Inr su]" "s = finish_section ((es @ [e]) @ es0) (Some su)" by auto
  then show ?case by (intro exI[of _ "e # es0"] exI[of _ su]) simp
next
  case (3 es su "is")
  then have "sections_of [] is = ([], [])" "s = finish_section es (Some su)" by (auto split: prod.splits)
  with sections_of_none[of "[]" "is"] show ?case by (intro exI[of _ "[]"] exI[of _ su]) simp
qed simp

lemma sections_of_run: "sections_of es (map Inl es0 @ [Inr su]) = ([finish_section (es @ es0) (Some su)], [])"
  by (induction es0 arbitrary: es) simp_all

lemma tally_length: "su_passed (tally_of es) + su_failed (tally_of es) + su_ignored (tally_of es) = length es"
proof -
  have "su_passed (foldl tally_step s os) + su_failed (foldl tally_step s os) + su_ignored (foldl tally_step s os)
      = su_passed s + su_failed s + su_ignored s + length os" for s os
  proof (induction os arbitrary: s)
    case (Cons q os)
    show ?case by (cases q) (simp_all add: Cons.IH)
  qed simp
  then show ?thesis by (simp add: tally_of_def)
qed

lemma tally_single: "tally_of [(n, q)] = (case q of Passed \<Rightarrow> \<lparr>su_passed = 1, su_failed = 0, su_ignored = 0\<rparr>
    | Failed \<Rightarrow> \<lparr>su_passed = 0, su_failed = 1, su_ignored = 0\<rparr> | Ignored \<Rightarrow> \<lparr>su_passed = 0, su_failed = 0, su_ignored = 1\<rparr>)"
  by (cases q) (simp_all add: tally_of_def)

lemma single_one_section:
  assumes "sr_outcome (single_test_result i out) = Some q"
  obtains s where "parse_libtest out = [s]" "\<not> sc_parse_failed s" "sc_summary s \<noteq> None"
  using assms by (auto simp: single_test_result_def untrusted_def Let_def split: list.splits if_splits option.splits)


text \<open>In a whole run an outcome is kept only from a section that adds up.\<close>

lemma bulk_outcomes_trusted:
  "list_all (\<lambda>r. sr_outcome r = None \<or> \<not> sr_parse_failed r) (bulk_results out targets)"
  by (auto simp: list_all_iff bulk_results_def section_results_def untrusted_def result_outcome_def
      split: if_splits prod.splits)

end
