(* ===== verification/Attest_Read.thy ===== *)
theory Attest_Read
  imports Stale Dates Strings
begin

text \<open>
  The verbs that read \<open>attest.jsonl\<close> and the two that put a human's word in it
  (cli/src/attest/statuscmd.rs, gatecmd.rs, reportcmd.rs, reviewcmd.rs, manualcmd.rs). Printing is
  left out: a verb is the value it prints. The maps the code iterates are ordered by claim id.
\<close>

subsection \<open>The claims in order\<close>

definition claim_ids :: "attest_event list \<Rightarrow> claim_id list" where
  "claim_ids evs = sort (remdups (map event_claim_id evs))"

definition claims_in_order :: "attest_event list \<Rightarrow> claim_state list" where
  "claims_in_order evs = List.map_filter (claim_of (fold_claims evs)) (claim_ids evs)"

subsection \<open>Labels (statuscmd.rs)\<close>

fun cause_label :: "recipe_invalid_cause \<Rightarrow> string" where
  "cause_label CauseBuild = ''build''"
| "cause_label CauseMissing = ''missing''"
| "cause_label CauseIgnored = ''ignored''"
| "cause_label CauseHarness = ''harness''"

fun status_label :: "claim_status \<Rightarrow> string" where
  "status_label SDerived = ''DERIVED''"
| "status_label SDeclared = ''DECLARED''"
| "status_label SEvidenced = ''EVIDENCED''"
| "status_label SConfirmed = ''CONFIRMED''"
| "status_label SClaimFalse = ''CLAIM_FALSE''"
| "status_label (SRecipeInvalid c) = ''RECIPE_INVALID('' @ cause_label c @ '')''"
| "status_label SFlaky = ''FLAKY''"
| "status_label (SHuman AnswerYes) = ''HUMAN(yes)''"
| "status_label (SHuman AnswerNo) = ''HUMAN(no)''"
| "status_label (SHuman AnswerSkip) = ''HUMAN(skip)''"

subsection \<open>What blocks\<close>

datatype block_reason = Refuted | ManualRejected | ManualSkipped | ManualUnanswered

definition blocking_reason :: "claim_state \<Rightarrow> block_reason option" where
  "blocking_reason c =
     (if blocks_gate (cs_status c) then Some Refuted
      else if cs_manual_severity c = Some Blocking then
        (case cs_status c of
           SHuman AnswerYes \<Rightarrow> None
         | SHuman AnswerNo \<Rightarrow> Some ManualRejected
         | SHuman AnswerSkip \<Rightarrow> Some ManualSkipped
         | _ \<Rightarrow> Some ManualUnanswered)
      else None)"

subsection \<open>Provenance\<close>

record provenance =
  pv_turn_id :: "string option"
  pv_output_blob :: "string option"
  pv_dirty :: "bool option"
  pv_last_verdict :: "string option"
  pv_replay_commit :: "string option"

definition no_provenance :: provenance where
  "no_provenance = \<lparr>pv_turn_id = None, pv_output_blob = None, pv_dirty = None, pv_last_verdict = None,
     pv_replay_commit = None\<rparr>"

fun verdict_label :: "verdict_kind \<Rightarrow> string" where
  "verdict_label VConfirmed = ''confirmed''"
| "verdict_label VClaimFalse = ''claim-false''"
| "verdict_label (VRecipeInvalid c) = ''recipe-invalid('' @ cause_label c @ '')''"
| "verdict_label VFlakyObservation = ''flaky-observation''"

definition prov_at :: "(claim_id \<rightharpoonup> provenance) \<Rightarrow> claim_id \<Rightarrow> provenance" where
  "prov_at m c = (case m c of Some p \<Rightarrow> p | None \<Rightarrow> no_provenance)"

fun provenance_step :: "(claim_id \<rightharpoonup> provenance) \<Rightarrow> attest_event \<Rightarrow> (claim_id \<rightharpoonup> provenance)" where
  "provenance_step m (Evidence ts c turn dirty blob r) =
     m(c \<mapsto> (prov_at m c)\<lparr>pv_turn_id := turn, pv_output_blob := blob, pv_dirty := Some dirty\<rparr>)"
| "provenance_step m (Verdict ts c kind commit) =
     m(c \<mapsto> (prov_at m c)\<lparr>pv_last_verdict := Some (verdict_label kind), pv_replay_commit := Some commit\<rparr>)"
| "provenance_step m _ = m"

definition provenance_of :: "attest_event list \<Rightarrow> (claim_id \<rightharpoonup> provenance)" where
  "provenance_of evs = foldl provenance_step Map.empty evs"

subsection \<open>Status\<close>

record status_counts =
  sn_derived :: nat
  sn_declared :: nat
  sn_evidenced :: nat
  sn_confirmed :: nat
  sn_claim_false :: nat
  sn_recipe_invalid :: nat
  sn_flaky :: nat
  sn_human :: nat

fun status_tally :: "status_counts \<Rightarrow> claim_status \<Rightarrow> status_counts" where
  "status_tally n SDerived = n\<lparr>sn_derived := sn_derived n + 1\<rparr>"
| "status_tally n SDeclared = n\<lparr>sn_declared := sn_declared n + 1\<rparr>"
| "status_tally n SEvidenced = n\<lparr>sn_evidenced := sn_evidenced n + 1\<rparr>"
| "status_tally n SConfirmed = n\<lparr>sn_confirmed := sn_confirmed n + 1\<rparr>"
| "status_tally n SClaimFalse = n\<lparr>sn_claim_false := sn_claim_false n + 1\<rparr>"
| "status_tally n (SRecipeInvalid _) = n\<lparr>sn_recipe_invalid := sn_recipe_invalid n + 1\<rparr>"
| "status_tally n SFlaky = n\<lparr>sn_flaky := sn_flaky n + 1\<rparr>"
| "status_tally n (SHuman _) = n\<lparr>sn_human := sn_human n + 1\<rparr>"

definition no_counts :: status_counts where
  "no_counts = \<lparr>sn_derived = 0, sn_declared = 0, sn_evidenced = 0, sn_confirmed = 0, sn_claim_false = 0,
     sn_recipe_invalid = 0, sn_flaky = 0, sn_human = 0\<rparr>"

fun dirty_step :: "(claim_id \<rightharpoonup> bool) \<Rightarrow> attest_event \<Rightarrow> (claim_id \<rightharpoonup> bool)" where
  "dirty_step m (Evidence ts c turn dirty blob r) = m(c \<mapsto> dirty)"
| "dirty_step m _ = m"

definition dirty_claims :: "attest_event list \<Rightarrow> nat" where
  "dirty_claims evs = length (filter (\<lambda>c. foldl dirty_step Map.empty evs c = Some True) (claim_ids evs))"

fun is_human_status :: "claim_status \<Rightarrow> bool" where
  "is_human_status (SHuman _) = True"
| "is_human_status _ = False"

definition manual_count :: "manual_severity \<Rightarrow> bool \<Rightarrow> claim_state list \<Rightarrow> nat" where
  "manual_count sev answered cs =
     length (filter (\<lambda>c. cs_manual_severity c = Some sev \<and> is_human_status (cs_status c) = answered) cs)"

definition cause_count :: "recipe_invalid_cause \<Rightarrow> claim_state list \<Rightarrow> nat" where
  "cause_count cause cs = length (filter (\<lambda>c. cs_status c = SRecipeInvalid cause) cs)"

record attest_status =
  as_claims :: nat
  as_counts :: status_counts
  as_stale :: nat
  as_dev_loop_only :: nat
  as_causes :: "(string \<times> nat) list"
  as_blocking_unanswered :: nat
  as_blocking_answered :: nat
  as_fyi_unanswered :: nat
  as_fyi_answered :: nat

text \<open>The causes that occur, in the order of their names.\<close>

definition attest_status_of :: "attest_event list \<Rightarrow> attest_status" where
  "attest_status_of evs =
     (let cs = claims_in_order evs in
      \<lparr>as_claims = length cs,
       as_counts = foldl status_tally no_counts (map cs_status cs),
       as_stale = length (filter is_stale cs),
       as_dev_loop_only = dirty_claims evs,
       as_causes = filter (\<lambda>(_, n). n > 0)
         (map (\<lambda>k. (cause_label k, cause_count k cs)) [CauseBuild, CauseHarness, CauseIgnored, CauseMissing]),
       as_blocking_unanswered = manual_count Blocking False cs,
       as_blocking_answered = manual_count Blocking True cs,
       as_fyi_unanswered = manual_count Fyi False cs,
       as_fyi_answered = manual_count Fyi True cs\<rparr>)"

subsection \<open>Gate (gatecmd.rs)\<close>

datatype gate_note = NoteRecipeInvalid recipe_invalid_cause | NoteFlaky | NoteStale

definition gate_notes :: "claim_state \<Rightarrow> gate_note list" where
  "gate_notes c =
     (case cs_status c of
        SRecipeInvalid cause \<Rightarrow> [NoteRecipeInvalid cause]
      | SFlaky \<Rightarrow> [NoteFlaky]
      | _ \<Rightarrow> [])
     @ (if is_stale c then [NoteStale] else [])"

record gate_report =
  gt_blocking :: "(claim_id \<times> block_reason \<times> string option) list"
  gt_advisory :: "(claim_id \<times> gate_note \<times> string option) list"
  gt_pass :: bool

definition gate_step :: "gate_report \<Rightarrow> claim_state \<Rightarrow> gate_report" where
  "gate_step g c = (case blocking_reason c of
     Some reason \<Rightarrow> g\<lparr>gt_blocking := gt_blocking g @ [(cs_claim_id c, reason, cs_manual_text c)]\<rparr>
   | None \<Rightarrow>
       if cs_manual_severity c = Some Fyi then g
       else g\<lparr>gt_advisory := gt_advisory g @ map (\<lambda>n. (cs_claim_id c, n, cs_manual_text c)) (gate_notes c)\<rparr>)"

definition gate_of :: "attest_event list \<Rightarrow> gate_report" where
  "gate_of evs =
     (let g = foldl gate_step \<lparr>gt_blocking = [], gt_advisory = [], gt_pass = False\<rparr> (claims_in_order evs)
      in g\<lparr>gt_pass := (gt_blocking g = [])\<rparr>)"

subsection \<open>Report (reportcmd.rs)\<close>

datatype range_error = SymmetricRange | NoRange | OpenRange | ReversedRange | NotARevision string

definition parse_range :: "string \<Rightarrow> range_error + string \<times> string" where
  "parse_range rng =
     (if str_contains rng ''...'' then Inl SymmetricRange
      else case split_once_str ''..'' rng of
        None \<Rightarrow> Inl NoRange
      | Some (base, head) \<Rightarrow> if base = [] \<or> head = [] then Inl OpenRange else Inr (base, head))"

text \<open>\<open>commit_time\<close> is git's answer for a revision, in milliseconds.\<close>

definition report_window :: "(string \<Rightarrow> nat option) \<Rightarrow> string option \<Rightarrow> range_error + (nat \<times> nat) option" where
  "report_window commit_time rng = (case rng of
     None \<Rightarrow> Inr None
   | Some r \<Rightarrow> (case parse_range r of
       Inl e \<Rightarrow> Inl e
     | Inr (base, head) \<Rightarrow> (case (commit_time base, commit_time head) of
         (None, _) \<Rightarrow> Inl (NotARevision base)
       | (_, None) \<Rightarrow> Inl (NotARevision head)
       | (Some lo, Some hi) \<Rightarrow> if lo > hi then Inl ReversedRange else Inr (Some (lo, hi)))))"

definition in_report :: "(nat \<times> nat) option \<Rightarrow> attest_event list \<Rightarrow> claim_id \<Rightarrow> bool" where
  "in_report win evs c = list_ex (\<lambda>e. event_claim_id e = c \<and>
     (case win of None \<Rightarrow> True | Some (lo, hi) \<Rightarrow> event_ts e \<ge> lo \<and> event_ts e \<le> hi)) evs"

record report_row =
  rr_claim :: claim_state
  rr_status :: string
  rr_stale :: bool
  rr_prov :: provenance

definition attest_report :: "(string \<Rightarrow> nat option) \<Rightarrow> string option \<Rightarrow> attest_event list \<Rightarrow> range_error + report_row list" where
  "attest_report commit_time rng evs = map_sum id (\<lambda>win.
     map (\<lambda>c. \<lparr>rr_claim = c, rr_status = status_label (cs_status c), rr_stale = is_stale c,
              rr_prov = prov_at (provenance_of evs) (cs_claim_id c)\<rparr>)
       (filter (\<lambda>c. in_report win evs (cs_claim_id c)) (claims_in_order evs)))
     (report_window commit_time rng)"

subsection \<open>Review (reviewcmd.rs)\<close>

record card =
  cd_claim_id :: claim_id
  cd_text :: string
  cd_severity :: manual_severity
  cd_status :: string
  cd_prov :: provenance
  cd_evidence_runs :: nat
  cd_verdicts :: nat
  cd_stale_events :: nat

definition needs_a_human :: "claim_state \<Rightarrow> bool" where
  "needs_a_human c \<longleftrightarrow> cs_manual_severity c = Some Blocking
     \<and> (cs_status c = SDeclared \<or> cs_status c = SHuman AnswerSkip)"

definition card_of :: "(claim_id \<rightharpoonup> provenance) \<Rightarrow> claim_state \<Rightarrow> card" where
  "card_of prov c = \<lparr>cd_claim_id = cs_claim_id c,
     cd_text = (case cs_manual_text c of Some t \<Rightarrow> t | None \<Rightarrow> []),
     cd_severity = (case cs_manual_severity c of Some s \<Rightarrow> s | None \<Rightarrow> Blocking),
     cd_status = status_label (cs_status c), cd_prov = prov_at prov (cs_claim_id c),
     cd_evidence_runs = h_evidence (cs_history c), cd_verdicts = h_verdicts (cs_history c),
     cd_stale_events = h_stale_events (cs_history c)\<rparr>"

definition cards :: "attest_event list \<Rightarrow> card list" where
  "cards evs = map (card_of (provenance_of evs)) (filter needs_a_human (claims_in_order evs))"

text \<open>
  The answers: lines of standard input, each read or failing. \<open>now\<close> gives the time and \<open>ok\<close>
  whether the append succeeds, for the event number \<open>k\<close>; the events appended so far are
  returned with how the run ended.
\<close>

datatype review_end = AllAnswered | InputEnded nat | ReviewFailed string

fun read_answer :: "(string + string) list \<Rightarrow> (string + human_answer \<times> string option \<times> (string + string) list) option" where
  "read_answer [] = None"
| "read_answer (Inl e # ls) = Some (Inl e)"
| "read_answer (Inr line # ls) =
     (if trim line = ''y'' then Some (Inr (AnswerYes, None, ls))
      else if trim line = ''n'' then
        (case ls of
           [] \<Rightarrow> Some (Inr (AnswerNo, Some [], []))
         | Inl e # _ \<Rightarrow> Some (Inl e)
         | Inr note # rest \<Rightarrow> Some (Inr (AnswerNo, Some note, rest)))
      else if trim line = ''s'' then Some (Inr (AnswerSkip, None, ls))
      else read_answer ls)"

fun review_cards :: "(nat \<Rightarrow> nat) \<Rightarrow> (nat \<Rightarrow> bool) \<Rightarrow> nat \<Rightarrow> (string + string) list \<Rightarrow> card list
    \<Rightarrow> review_end \<times> attest_event list" where
  "review_cards now ok k input [] = (AllAnswered, [])"
| "review_cards now ok k input (c # cs) = (case read_answer input of
     None \<Rightarrow> (InputEnded (length (c # cs)), [])
   | Some (Inl e) \<Rightarrow> (ReviewFailed e, [])
   | Some (Inr (answer, note, rest)) \<Rightarrow>
       if \<not> ok k then (ReviewFailed ''attest log'', [])
       else (case review_cards now ok (k + 1) rest cs of (fin, evs) \<Rightarrow>
         (fin, Human (now k) (cd_claim_id c) answer note # evs)))"

definition review :: "(nat \<Rightarrow> nat) \<Rightarrow> (nat \<Rightarrow> bool) \<Rightarrow> (string + string) list \<Rightarrow> attest_event list
    \<Rightarrow> review_end \<times> attest_event list" where
  "review now ok input evs = review_cards now ok 0 input (cards evs)"

subsection \<open>Manual claims (manualcmd.rs)\<close>

text \<open>\<open>fresh\<close> is the minted id; the result is the event to append.\<close>

definition manual_declare :: "claim_id \<Rightarrow> nat \<Rightarrow> string \<Rightarrow> manual_severity \<Rightarrow> string + attest_event" where
  "manual_declare fresh now txt sev =
     (if trim txt = [] then Inl ''--text must not be empty''
      else Inr (ManualDeclare now fresh (trim txt) sev))"

end
