(* ===== verification/Attest_Read_Props.thy ===== *)
theory Attest_Read_Props
  imports Attest_Read Attest_Props
begin

text \<open>
  What the gate blocks, in terms of the events; what a review can change; what the status counts.
\<close>

subsection \<open>A folded claim in terms of its events\<close>

fun severity_of :: "attest_event \<Rightarrow> manual_severity option" where
  "severity_of (ManualDeclare _ _ _ s) = Some s"
| "severity_of _ = None"

lemma claim_arm_id_severity:
  "cs_claim_id (claim_arm first s e) = cs_claim_id s"
  "cs_manual_severity (claim_arm first s e) = (case severity_of e of None \<Rightarrow> cs_manual_severity s | Some x \<Rightarrow> Some x)"
  by (cases e; auto simp: Let_def split: verdict_kind.splits)+

lemma entry_fold_id_severity:
  "list_all (\<lambda>e. event_claim_id e = c) es \<Longrightarrow> entry_fold claim_upd None es = Some s
     \<Longrightarrow> cs_claim_id s = c \<and> cs_manual_severity s = last_map severity_of es"
proof (induction es arbitrary: s rule: rev_induct)
  case (snoc e es)
  have s: "s = claim_upd (entry_fold claim_upd None es) e" using snoc.prems(2) by simp
  show ?case
  proof (cases "entry_fold claim_upd None es")
    case None
    then have "es = []" using entry_fold_Some[of es claim_upd None] by auto
    with s snoc.prems(1) show ?thesis
      using last_map_simps(2)[of severity_of "[]" e]
      by (simp add: claim_upd_def claim_arm_id_severity new_claim_def split: option.splits)
  next
    case (Some p)
    with snoc have "cs_claim_id p = c" "cs_manual_severity p = last_map severity_of es" by auto
    with s Some show ?thesis by (simp add: claim_upd_def claim_arm_id_severity split: option.splits)
  qed
qed simp

lemma claim_of_fields:
  assumes "claim_of (fold_claims evs) c = Some s"
  shows "cs_claim_id s = c" "cs_manual_severity s = last_map severity_of (about c evs)"
    "status_spec (about c evs) = Some (cs_status s)"
proof -
  have e: "entry_fold claim_upd None (about c evs) = Some s"
    using assms by (simp add: claim_of_def fold_claims_entry)
  have "list_all (\<lambda>e. event_claim_id e = c) (about c evs)" by (simp add: about_def list_all_iff)
  from entry_fold_id_severity[OF this e] show "cs_claim_id s = c" "cs_manual_severity s = last_map severity_of (about c evs)"
    by simp_all
  show "status_spec (about c evs) = Some (cs_status s)" using entry_fold_status[of "about c evs"] e by simp
qed

lemma claim_of_known: "c \<in> set (claim_ids evs) \<Longrightarrow> claim_of (fold_claims evs) c \<noteq> None"
proof -
  assume "c \<in> set (claim_ids evs)"
  then have "about c evs \<noteq> []" by (auto simp: claim_ids_def about_def filter_empty_conv)
  from entry_fold_Some[OF this, of claim_upd None] show ?thesis by (auto simp: claim_of_def fold_claims_entry)
qed

definition claim_at :: "attest_event list \<Rightarrow> claim_id \<Rightarrow> claim_state" where
  "claim_at evs c = the (claim_of (fold_claims evs) c)"

lemma claim_at_of: "c \<in> set (claim_ids evs) \<Longrightarrow> claim_of (fold_claims evs) c = Some (claim_at evs c)"
  using claim_of_known[of c evs] by (auto simp: claim_at_def)

lemmas claim_at_fields = claim_of_fields[OF claim_at_of]

lemma claims_in_order_map: "claims_in_order evs = map (claim_at evs) (claim_ids evs)"
proof -
  have "List.map_filter (claim_of (fold_claims evs)) cs = map (claim_at evs) cs" if "set cs \<subseteq> set (claim_ids evs)" for cs
    using that by (induction cs) (auto simp: List.map_filter_simps claim_at_of)
  then show ?thesis by (simp add: claims_in_order_def)
qed

subsection \<open>The gate\<close>

definition blocked :: "attest_event list \<Rightarrow> claim_id \<Rightarrow> bool" where
  "blocked evs c \<longleftrightarrow> list_ex refutes (about c evs)
     \<or> (last_map severity_of (about c evs) = Some Blocking \<and> status_spec (about c evs) \<noteq> Some (SHuman AnswerYes))"

lemma blocking_reason_iff:
  "c \<in> set (claim_ids evs) \<Longrightarrow> blocking_reason (claim_at evs c) \<noteq> None \<longleftrightarrow> blocked evs c"
  using claim_at_fields[of c evs] status_false_iff[of "about c evs"]
  by (auto simp: blocking_reason_def blocks_gate_def blocked_def split: claim_status.splits human_answer.splits)

lemma gate_fold:
  "gt_blocking (foldl gate_step g cs) = gt_blocking g
     @ map (\<lambda>c. (cs_claim_id c, the (blocking_reason c), cs_manual_text c)) (filter (\<lambda>c. blocking_reason c \<noteq> None) cs)"
  by (induction cs arbitrary: g) (auto simp: gate_step_def split: option.splits)

lemma filter_map_ids:
  assumes "\<And>c. c \<in> set cs \<Longrightarrow> cs_claim_id (claim_at evs c) = c"
  shows "map (\<lambda>c. cs_claim_id c) (filter P (map (claim_at evs) cs)) = filter (\<lambda>c. P (claim_at evs c)) cs"
  using assms by (induction cs) auto

lemma gate_blocking_ids: "map fst (gt_blocking (gate_of evs)) = filter (blocked evs) (claim_ids evs)"
proof -
  have "map fst (gt_blocking (gate_of evs)) =
      map (\<lambda>c. cs_claim_id c) (filter (\<lambda>c. blocking_reason c \<noteq> None) (map (claim_at evs) (claim_ids evs)))"
    by (simp add: gate_of_def Let_def gate_fold claims_in_order_map comp_def)
  also have "\<dots> = filter (\<lambda>c. blocking_reason (claim_at evs c) \<noteq> None) (claim_ids evs)"
    by (rule filter_map_ids) (rule claim_at_fields(1))
  also have "\<dots> = filter (blocked evs) (claim_ids evs)"
    by (intro filter_cong refl) (rule blocking_reason_iff)
  finally show ?thesis .
qed

lemma blocked_known: "blocked evs c \<Longrightarrow> c \<in> set (claim_ids evs)"
proof (rule ccontr)
  assume b: "blocked evs c" "c \<notin> set (claim_ids evs)"
  then have "about c evs = []" by (auto simp: about_def filter_empty_conv claim_ids_def)
  with b(1) show False by (simp add: blocked_def)
qed

text \<open>
  C18: the gate blocks exactly what it must. A release is blocked by precisely the claims that
  were ever refuted by a replay (nothing that comes later takes a refutation back) and the manual
  criteria last declared blocking whose last word is not a human yes; each is listed once, in the
  order of the ids, and the gate passes exactly when there is none.
\<close>

theorem gate_blocks_exactly:
  "map fst (gt_blocking (gate_of evs)) = filter (blocked evs) (claim_ids evs)
     \<and> set (map fst (gt_blocking (gate_of evs))) = {c. blocked evs c}
     \<and> distinct (map fst (gt_blocking (gate_of evs)))
     \<and> gt_pass (gate_of evs) = ({c. blocked evs c} = {})"
proof -
  have "set (filter (blocked evs) (claim_ids evs)) = {c. blocked evs c}" using blocked_known by auto
  moreover have "distinct (claim_ids evs)" by (simp add: claim_ids_def)
  moreover have "gt_pass (gate_of evs) = (map fst (gt_blocking (gate_of evs)) = [])"
    by (simp add: gate_of_def Let_def)
  ultimately show ?thesis unfolding gate_blocking_ids by (metis distinct_filter set_empty)
qed

subsection \<open>Review\<close>

fun human_event :: "attest_event \<Rightarrow> bool" where
  "human_event (Human _ _ _ _) = True"
| "human_event _ = False"

lemma review_cards_prefix:
  "review_cards now ok k input cs = (fin, new) \<Longrightarrow>
     map event_claim_id new = take (length new) (map cd_claim_id cs) \<and> list_all human_event new"
proof (induction cs arbitrary: k input fin new)
  case (Cons c cs)
  then show ?case
    by (auto split: option.splits sum.splits if_splits prod.splits)
qed simp

definition asked :: "attest_event list \<Rightarrow> claim_id list" where
  "asked evs = filter (\<lambda>c. needs_a_human (claim_at evs c)) (claim_ids evs)"

lemma card_ids: "map cd_claim_id (cards evs) = asked evs"
proof -
  have "map cd_claim_id (cards evs) = map (\<lambda>c. cs_claim_id c) (filter needs_a_human (map (claim_at evs) (claim_ids evs)))"
    by (simp add: cards_def claims_in_order_map card_of_def comp_def)
  then show ?thesis unfolding asked_def using filter_map_ids[of "claim_ids evs" evs needs_a_human] claim_at_fields(1) by simp
qed

lemma claim_ids_append:
  assumes "event_claim_id ` set new \<subseteq> set (claim_ids evs)"
  shows "claim_ids (evs @ new) = claim_ids evs"
proof -
  have "set (map event_claim_id (evs @ new)) = set (map event_claim_id evs)"
    using assms by (auto simp: claim_ids_def)
  then show ?thesis by (simp only: claim_ids_def sorted_list_of_set_sort_remdups[symmetric])
qed

text \<open>The claims a review answered with yes.\<close>

definition said_yes :: "attest_event list \<Rightarrow> claim_id set" where
  "said_yes new = {c. \<exists>ts nt. Human ts c AnswerYes nt \<in> set new}"

lemma about_unique:
  "distinct (map event_claim_id new) \<Longrightarrow> e \<in> set new \<Longrightarrow> about (event_claim_id e) new = [e]"
proof (induction new)
  case (Cons x xs)
  then show ?case
    by (cases "e = x") (auto simp: about_def filter_empty_conv image_iff)
qed simp

lemma humans_change_only_status:
  assumes "list_all human_event new"
  shows "list_ex refutes (about c (evs @ new)) = list_ex refutes (about c evs)"
    "last_map severity_of (about c (evs @ new)) = last_map severity_of (about c evs)"
proof -
  have h: "list_all human_event (about c new)" using assms by (auto simp: about_def list_all_iff)
  have "\<not> list_ex refutes xs" if "list_all human_event xs" for xs
    using that by (induction xs) (auto elim: human_event.elims)
  with h show "list_ex refutes (about c (evs @ new)) = list_ex refutes (about c evs)" by auto
  have "last_map severity_of (ys @ xs) = last_map severity_of ys" if "list_all human_event xs" for xs ys
    using that
  proof (induction xs rule: rev_induct)
    case (snoc x xs)
    then have "severity_of x = None" by (cases x) auto
    with snoc show ?case using last_map_simps(2)[of severity_of "ys @ xs" x] by simp
  qed simp
  with h show "last_map severity_of (about c (evs @ new)) = last_map severity_of (about c evs)" by simp
qed

lemma blocked_after_answers:
  assumes h: "list_all human_event new" and ids: "map event_claim_id new = take n (asked evs)"
  shows "blocked (evs @ new) c \<longleftrightarrow> blocked evs c \<and> c \<notin> said_yes new"
proof -
  have "distinct (asked evs)" by (simp add: asked_def claim_ids_def)
  with ids have d: "distinct (map event_claim_id new)" by simp
  have sub: "event_claim_id e \<in> set (asked evs)" if "e \<in> set new" for e
    using ids that by (metis image_eqI in_set_takeD set_map)
  show ?thesis
  proof (cases "\<exists>e \<in> set new. event_claim_id e = c")
    case False
    then have "about c new = []" by (auto simp: about_def filter_empty_conv)
    moreover have "c \<notin> said_yes new" using False by (force simp: said_yes_def)
    ultimately show ?thesis by (simp add: blocked_def)
  next
    case True
    then obtain e where e: "e \<in> set new" "event_claim_id e = c" by blast
    with h obtain ts a nt where he: "e = Human ts c a nt" by (cases e) (auto simp: list_all_iff)
    have ab: "about c new = [e]" using about_unique[OF d e(1)] e(2) by simp
    have yes: "c \<in> said_yes new \<longleftrightarrow> a = AnswerYes"
    proof
      assume "c \<in> said_yes new"
      then obtain ts' nt' where m: "Human ts' c AnswerYes nt' \<in> set new" by (auto simp: said_yes_def)
      from about_unique[OF d m] ab he show "a = AnswerYes" by simp
    qed (use e he in \<open>auto simp: said_yes_def\<close>)
    have "c \<in> set (claim_ids evs)" "needs_a_human (claim_at evs c)" using sub[OF e(1)] e(2) by (auto simp: asked_def)
    then have q: "last_map severity_of (about c evs) = Some Blocking" "\<not> list_ex refutes (about c evs)"
      "status_spec (about c evs) \<noteq> Some (SHuman AnswerYes)" "status_spec (about c evs) \<noteq> None"
      using claim_at_fields[of c evs] status_false_iff[of "about c evs"] by (auto simp: needs_a_human_def)
    then have "blocked evs c" by (simp add: blocked_def)
    moreover have "status_spec (about c (evs @ new)) = Some (SHuman a)"
    proof -
      have "status_spec (about c evs) \<noteq> Some SClaimFalse" using q(2) by (simp add: status_false_iff)
      then show ?thesis using q(4) by (auto simp: ab he status_spec_snoc split: option.splits)
    qed
    ultimately show ?thesis
      using q yes humans_change_only_status[OF h, where c = c and evs = evs] by (auto simp: blocked_def)
  qed
qed

text \<open>
  C19: a review only unblocks, and only what was answered yes. Whatever is typed, wherever the
  input ends or an append fails, the answers go to the first of the cards in order, one each, and
  after them the gate blocks exactly the claims it blocked before without those answered yes.
\<close>

theorem review_only_unblocks_yes:
  defines "new now ok input evs \<equiv> snd (review now ok input evs)"
  shows "map event_claim_id (new now ok input evs) = take (length (new now ok input evs)) (map cd_claim_id (cards evs))
    \<and> map fst (gt_blocking (gate_of (evs @ new now ok input evs)))
      = filter (\<lambda>c. c \<notin> said_yes (new now ok input evs)) (map fst (gt_blocking (gate_of evs)))"
proof -
  let ?new = "new now ok input evs"
  obtain fin where r: "review_cards now ok 0 input (cards evs) = (fin, ?new)"
    by (metis new_def prod.collapse review_def)
  note p = review_cards_prefix[OF r]
  then have ids: "map event_claim_id ?new = take (length ?new) (asked evs)" by (simp add: card_ids)
  have sub: "event_claim_id ` set ?new \<subseteq> set (claim_ids evs)"
  proof -
    have "set (map event_claim_id ?new) \<subseteq> set (asked evs)" unfolding ids by (rule set_take_subset)
    then show ?thesis by (auto simp: asked_def)
  qed
  have "filter (blocked (evs @ ?new)) (claim_ids (evs @ ?new)) =
      filter (\<lambda>c. c \<notin> said_yes ?new) (filter (blocked evs) (claim_ids evs))"
    unfolding claim_ids_append[OF sub] filter_filter
    using blocked_after_answers[OF conjunct2[OF p] ids] by (intro filter_cong refl) simp
  with p show ?thesis by (simp add: gate_blocking_ids)
qed

subsection \<open>Status\<close>

lemma status_tally_sum:
  "sn_derived n + sn_declared n + sn_evidenced n + sn_confirmed n + sn_claim_false n
     + sn_recipe_invalid n + sn_flaky n + sn_human n = k \<Longrightarrow>
   (case foldl status_tally n ss of m \<Rightarrow> sn_derived m + sn_declared m + sn_evidenced m + sn_confirmed m
     + sn_claim_false m + sn_recipe_invalid m + sn_flaky m + sn_human m) = k + length ss"
proof (induction ss arbitrary: n k)
  case (Cons s ss)
  have "(case status_tally n s of m \<Rightarrow> sn_derived m + sn_declared m + sn_evidenced m + sn_confirmed m
     + sn_claim_false m + sn_recipe_invalid m + sn_flaky m + sn_human m) = k + 1"
    using Cons.prems by (cases s) auto
  from Cons.IH[of "status_tally n s" "k + 1"] this show ?case by simp
qed simp

text \<open>Every claim is counted under one status.\<close>

lemma status_counts_every_claim:
  "(case as_counts (attest_status_of evs) of m \<Rightarrow> sn_derived m + sn_declared m + sn_evidenced m + sn_confirmed m
     + sn_claim_false m + sn_recipe_invalid m + sn_flaky m + sn_human m) = as_claims (attest_status_of evs)"
  using status_tally_sum[of no_counts 0 "map cs_status (claims_in_order evs)"]
  by (simp add: attest_status_of_def Let_def no_counts_def)

end
