(* ===== verification/Attest_Write.thy ===== *)
theory Attest_Write
  imports Attest_Read Libtest Daemon Diff_Blame
begin

text \<open>
  The verbs that write \<open>attest.jsonl\<close>: the independent replay (cli/src/attest/replaycmd.rs), the
  discovery of tests with its rename rule (derivecmd.rs) and passive evidence capture
  (capture.rs). What git, cargo and the test runs answer, the clock and minted ids are arguments.
\<close>

subsection \<open>Replay: the verdict policy\<close>

definition MAX_RUNS :: nat where
  "MAX_RUNS = 3"

datatype decision = DVerdict verdict_kind | DRetry

definition decide :: "structured_result \<Rightarrow> decision" where
  "decide r = (case sr_recipe_invalid r of
     Some cause \<Rightarrow> DVerdict (VRecipeInvalid cause)
   | None \<Rightarrow> (case sr_outcome r of
       Some Passed \<Rightarrow> DVerdict VConfirmed
     | Some test_outcome.Failed \<Rightarrow> DRetry
     | _ \<Rightarrow> DVerdict (VRecipeInvalid CauseHarness)))"

definition reconcile :: "bool \<Rightarrow> verdict_kind \<Rightarrow> verdict_kind" where
  "reconcile first_failed v = (if first_failed \<and> v = VConfirmed then VFlakyObservation else v)"

text \<open>\<open>run k\<close> is what the adapter gives for the run number \<open>k\<close>, counted from zero.\<close>

function replay_loop :: "(nat \<Rightarrow> string + structured_result list) \<Rightarrow> nat \<Rightarrow> bool \<Rightarrow> string + verdict_kind \<times> nat" where
  "replay_loop run runs any_failed = (case run runs of
     Inl e \<Rightarrow> Inl e
   | Inr [] \<Rightarrow> Inl ''adapter returned no result''
   | Inr (r # _) \<Rightarrow> (case decide r of
       DVerdict v \<Rightarrow> Inr (reconcile any_failed v, runs + 1)
     | DRetry \<Rightarrow> if runs + 1 \<ge> MAX_RUNS then Inr (VClaimFalse, runs + 1) else replay_loop run (runs + 1) True))"
  by auto
termination
  by (relation "measure (\<lambda>(run, runs, f). MAX_RUNS - runs)") auto

declare replay_loop.simps [simp del]

definition replay :: "(nat \<Rightarrow> string + structured_result list) \<Rightarrow> string + verdict_kind \<times> nat" where
  "replay run = replay_loop run 0 False"

definition describe_verdict :: "verdict_kind \<Rightarrow> string" where
  "describe_verdict v = (case v of
     VConfirmed \<Rightarrow> ''confirmed''
   | VClaimFalse \<Rightarrow> ''claim-false''
   | VFlakyObservation \<Rightarrow> ''flaky-observation''
   | VRecipeInvalid c \<Rightarrow> ''recipe-invalid (cause: '' @ cause_label c @ '')'')"

definition expected_status :: "verdict_kind \<Rightarrow> claim_status" where
  "expected_status v = (case v of
     VConfirmed \<Rightarrow> SConfirmed | VClaimFalse \<Rightarrow> SClaimFalse
   | VRecipeInvalid c \<Rightarrow> SRecipeInvalid c | VFlakyObservation \<Rightarrow> SFlaky)"

subsection \<open>Replay: the command\<close>

text \<open>
  \<open>ve_clean\<close> and \<open>ve_commit\<close> are git's answers about the tree, \<open>ve_extract\<close> whether the commit could
  be unpacked; \<open>ve_append_ok k\<close>, \<open>ve_reread_ok k\<close> and \<open>ve_now k\<close> belong to the verdict number \<open>k\<close>.
\<close>

record verify_env =
  ve_clean :: "string + unit"
  ve_commit :: "string + string"
  ve_extract :: "string + unit"
  ve_run :: "test_identity \<Rightarrow> nat \<Rightarrow> string + structured_result list"
  ve_now :: "nat \<Rightarrow> nat"
  ve_append_ok :: "nat \<Rightarrow> bool"
  ve_reread_ok :: "nat \<Rightarrow> bool"

definition wanted_claim :: "bool \<Rightarrow> string list \<Rightarrow> claim_state \<Rightarrow> bool" where
  "wanted_claim all_stale ids s = (if all_stale then is_stale s else claim_id_str (cs_claim_id s) \<in> set ids)"

definition verify_selection :: "bool \<Rightarrow> string list \<Rightarrow> attest_event list \<Rightarrow> (claim_id \<times> test_identity) list" where
  "verify_selection all_stale ids evs = List.map_filter
     (\<lambda>s. map_option (\<lambda>i. (cs_claim_id s, i)) (cs_test_identity s))
     (filter (wanted_claim all_stale ids) (claims_in_order evs))"

text \<open>The verdicts appended, and how the command ended.\<close>

fun verify_claims :: "verify_env \<Rightarrow> string \<Rightarrow> nat \<Rightarrow> (claim_id \<times> test_identity) list
    \<Rightarrow> (string + unit) \<times> attest_event list" where
  "verify_claims env commit k [] = (Inr (), [])"
| "verify_claims env commit k ((c, i) # cs) = (case replay (ve_run env i) of
     Inl e \<Rightarrow> (Inl e, [])
   | Inr (v, runs) \<Rightarrow>
       if \<not> ve_append_ok env k then (Inl ''attest log'', [])
       else (let ev = Verdict (ve_now env k) c v commit in
         if \<not> ve_reread_ok env k then (Inl ''attest log'', [ev])
         else (case verify_claims env commit (k + 1) cs of (fin, evs) \<Rightarrow> (fin, ev # evs))))"

definition verify :: "verify_env \<Rightarrow> bool \<Rightarrow> string list \<Rightarrow> attest_event list \<Rightarrow> (string + unit) \<times> attest_event list" where
  "verify env all_stale ids evs =
     (if \<not> all_stale \<and> ids = [] then (Inl ''specify --all-stale or one or more claim ids'', [])
      else case ve_clean env of
        Inl e \<Rightarrow> (Inl e, [])
      | Inr _ \<Rightarrow> (case ve_commit env of
          Inl e \<Rightarrow> (Inl e, [])
        | Inr commit \<Rightarrow>
            (let selected = verify_selection all_stale ids evs in
             if selected = [] then (Inr (), [])
             else case ve_extract env of
               Inl e \<Rightarrow> (Inl e, [])
             | Inr _ \<Rightarrow> verify_claims env commit 0 selected)))"

subsection \<open>Derive\<close>

record derive_counts =
  dc_new :: nat
  dc_renamed :: nat
  dc_rehashed :: nat
  dc_unchanged :: nat

text \<open>The keys of the identity index, in order.\<close>

definition event_identities :: "attest_event \<Rightarrow> test_identity list" where
  "event_identities e = (case e of
     Derive _ _ i _ _ \<Rightarrow> [i] | Evidence _ _ _ _ _ r \<Rightarrow> [sr_identity r] | _ \<Rightarrow> [])"

definition index_keys :: "attest_event list \<Rightarrow> test_identity list" where
  "index_keys evs = filter (\<lambda>i. claim_for (fold_claims evs) i \<noteq> None) (sort (remdups (concat (map event_identities evs))))"

definition last_hash :: "attest_event list \<Rightarrow> claim_id \<Rightarrow> string option" where
  "last_hash evs c = Option.bind (claim_of (fold_claims evs) c) cs_last_body_hash"

text \<open>The identities of the enumerated targets that this discovery no longer sees, with a hash.\<close>

definition vanished_with :: "attest_event list \<Rightarrow> test_identity list \<Rightarrow> string \<Rightarrow> (test_identity \<times> claim_id) list" where
  "vanished_with evs identities h = List.map_filter
     (\<lambda>i. case claim_for (fold_claims evs) i of
        Some c \<Rightarrow> if last_hash evs c = Some h then Some (i, c) else None | None \<Rightarrow> None)
     (filter (\<lambda>i. ti_target i \<in> set (map ti_target identities) \<and> i \<notin> set identities) (index_keys evs))"

definition new_with :: "attest_event list \<Rightarrow> test_identity list \<Rightarrow> (test_identity \<rightharpoonup> string) \<Rightarrow> string \<Rightarrow> nat" where
  "new_with evs identities hashes h =
     length (filter (\<lambda>i. claim_for (fold_claims evs) i = None \<and> hashes i = Some h) identities)"

text \<open>The donor of a new identity, unless it has been consumed.\<close>

definition donor_of :: "attest_event list \<Rightarrow> test_identity list \<Rightarrow> (test_identity \<rightharpoonup> string) \<Rightarrow> test_identity
    \<Rightarrow> (test_identity \<times> claim_id) option" where
  "donor_of evs identities hashes i = (case hashes i of
     None \<Rightarrow> None
   | Some h \<Rightarrow>
       if new_with evs identities hashes h \<noteq> 1 then None
       else case vanished_with evs identities h of [d] \<Rightarrow> Some d | _ \<Rightarrow> None)"

record derive_plan =
  dp_batch :: "attest_event list"
  dp_counts :: derive_counts
  dp_consumed :: "claim_id list"
  dp_minted :: nat

definition derive_step :: "attest_event list \<Rightarrow> test_identity list \<Rightarrow> (test_identity \<rightharpoonup> string) \<Rightarrow> nat
    \<Rightarrow> (nat \<Rightarrow> claim_id) \<Rightarrow> derive_plan \<Rightarrow> test_identity \<Rightarrow> derive_plan" where
  "derive_step evs identities hashes ts fresh p i = (case claim_for (fold_claims evs) i of
     Some c \<Rightarrow>
       if hashes i \<noteq> None \<and> hashes i \<noteq> last_hash evs c
       then p\<lparr>dp_counts := (dp_counts p)\<lparr>dc_rehashed := dc_rehashed (dp_counts p) + 1\<rparr>,
              dp_batch := dp_batch p @ [Derive ts c i (hashes i) None]\<rparr>
       else p\<lparr>dp_counts := (dp_counts p)\<lparr>dc_unchanged := dc_unchanged (dp_counts p) + 1\<rparr>\<rparr>
   | None \<Rightarrow>
       (case (case donor_of evs identities hashes i of
                Some (old_i, old_c) \<Rightarrow> if old_c \<in> set (dp_consumed p) then None else Some (old_i, old_c)
              | None \<Rightarrow> None) of
          Some (old_i, old_c) \<Rightarrow>
            p\<lparr>dp_counts := (dp_counts p)\<lparr>dc_renamed := dc_renamed (dp_counts p) + 1\<rparr>,
              dp_batch := dp_batch p @ [Derive ts old_c i (hashes i) (Some old_i)],
              dp_consumed := dp_consumed p @ [old_c]\<rparr>
        | None \<Rightarrow>
            p\<lparr>dp_counts := (dp_counts p)\<lparr>dc_new := dc_new (dp_counts p) + 1\<rparr>,
              dp_batch := dp_batch p @ [Derive ts (fresh (dp_minted p)) i (hashes i) None],
              dp_minted := dp_minted p + 1\<rparr>))"

definition plan_derives :: "attest_event list \<Rightarrow> test_identity list \<Rightarrow> (test_identity \<rightharpoonup> string) \<Rightarrow> nat
    \<Rightarrow> (nat \<Rightarrow> claim_id) \<Rightarrow> derive_plan" where
  "plan_derives evs identities hashes ts fresh = foldl (derive_step evs identities hashes ts fresh)
     \<lparr>dp_batch = [], dp_counts = \<lparr>dc_new = 0, dc_renamed = 0, dc_rehashed = 0, dc_unchanged = 0\<rparr>,
      dp_consumed = [], dp_minted = 0\<rparr> identities"

subsection \<open>Capture\<close>

record capture_report =
  cr_written :: nat
  cr_skipped_undeclared :: nat
  cr_skipped_unattributable :: nat
  cr_blob_over_cap :: bool
  cr_unattributable_sections :: nat
  cr_raw_blob :: "hash option"

definition resolve_step :: "fold_result \<Rightarrow> capture_report \<times> (claim_id \<times> structured_result) list \<Rightarrow> structured_result
    \<Rightarrow> capture_report \<times> (claim_id \<times> structured_result) list" where
  "resolve_step folded acc r = (case acc of (rep, resolved) \<Rightarrow>
     (case claim_for folded (sr_identity r) of
        Some c \<Rightarrow> (rep, resolved @ [(c, r)])
      | None \<Rightarrow>
          if ti_target (sr_identity r) = []
          then (rep\<lparr>cr_skipped_unattributable := cr_skipped_unattributable rep + 1\<rparr>, resolved)
          else (rep\<lparr>cr_skipped_undeclared := cr_skipped_undeclared rep + 1\<rparr>, resolved)))"

definition evidence_event :: "nat \<Rightarrow> string option \<Rightarrow> bool \<Rightarrow> hash option \<Rightarrow> claim_id \<times> structured_result \<Rightarrow> attest_event" where
  "evidence_event ts turn dirty blob cr = (case cr of (c, r) \<Rightarrow>
     Evidence ts c turn dirty blob (if sr_parse_failed r then r\<lparr>sr_raw_blob := blob\<rparr> else r))"

text \<open>
  \<open>put_raw\<close> stores the captured text; \<open>ok\<close> is whether the append of the batch succeeds. The result is
  the report (or the error), the events appended and the store.
\<close>

definition write_evidence :: "(string \<Rightarrow> store \<Rightarrow> put_outcome \<times> store) \<Rightarrow> bool \<Rightarrow> nat \<Rightarrow> attest_event list
    \<Rightarrow> structured_result list \<Rightarrow> string \<Rightarrow> string option \<Rightarrow> bool \<Rightarrow> nat \<Rightarrow> store
    \<Rightarrow> (string + capture_report) \<times> attest_event list \<times> store" where
  "write_evidence put_raw ok ts evs results raw turn dirty unattributable s =
     (case foldl (resolve_step (fold_claims evs))
             (\<lparr>cr_written = 0, cr_skipped_undeclared = 0, cr_skipped_unattributable = 0, cr_blob_over_cap = False,
               cr_unattributable_sections = unattributable, cr_raw_blob = None\<rparr>, []) results of
        (rep, resolved) \<Rightarrow>
          if resolved = [] \<and> unattributable = 0 then (Inr rep, [], s)
          else (case put_raw raw s of (out, s') \<Rightarrow>
            (let blob = (case out of Stored h _ _ \<Rightarrow> Some h | _ \<Rightarrow> None);
                 rep' = rep\<lparr>cr_blob_over_cap := (out = OverCap), cr_raw_blob := blob\<rparr> in
             if resolved = [] then (Inr rep', [], s')
             else if \<not> ok then (Inl ''attest log'', [], s')
             else (Inr (rep'\<lparr>cr_written := length resolved\<rparr>),
                   map (evidence_event ts turn dirty blob) resolved, s'))))"

text \<open>The open turn, from the crash journal, when a daemon holds its lock.\<close>

definition journal_turn_id :: "(string \<Rightarrow> json option) \<Rightarrow> lock_file \<Rightarrow> string option \<Rightarrow> string option" where
  "journal_turn_id from_str lock journal_text =
     (if \<not> daemon_is_running lock then None
      else Option.bind (Option.bind (Option.bind journal_text from_str) (value_get ''id'')) dec_str)"

text \<open>\<open>git\<close>: whether \<open>git status\<close> succeeded, and what it printed; None when it could not be run.\<close>

definition tree_is_dirty :: "(bool \<times> string) option \<Rightarrow> bool" where
  "tree_is_dirty git = (case git of None \<Rightarrow> True | Some (success, out) \<Rightarrow> if \<not> success then True else out \<noteq> [])"

definition str_replace :: "string \<Rightarrow> string \<Rightarrow> string \<Rightarrow> string" where
  "str_replace p r s = join r (split_str p s)"

definition runs_cargo_test :: "string \<Rightarrow> bool" where
  "runs_cargo_test part = (case split_whitespace part of
     [] \<Rightarrow> False
   | first # rest \<Rightarrow> (first = ''cargo'' \<or> ends_with first ''/cargo'')
       \<and> List.find (\<lambda>t. \<not> starts_with t ''+'') rest = Some ''test'')"

definition is_test_runner_command :: "string \<Rightarrow> bool" where
  "is_test_runner_command command =
     list_ex (\<lambda>segment. list_ex runs_cargo_test (split_on CHR '';'' (str_replace ''||'' '' ; '' segment)))
       (concat (map (split_str ''&&'') (split_on CHR '';'' (map (\<lambda>c. if c = NL then CHR '';'' else c) command))))"

definition looks_like_libtest :: "string \<Rightarrow> bool" where
  "looks_like_libtest stdout = list_ex (\<lambda>l. starts_with (trim l) ''running ''
     \<and> (ends_with (trim l) '' test'' \<or> ends_with (trim l) '' tests'')) (lines stdout)"

definition capture_output :: "(string \<Rightarrow> store \<Rightarrow> put_outcome \<times> store) \<Rightarrow> bool \<Rightarrow> nat \<Rightarrow> attest_event list
    \<Rightarrow> string \<Rightarrow> string \<Rightarrow> string option \<Rightarrow> bool \<Rightarrow> store
    \<Rightarrow> (string + capture_report) \<times> attest_event list \<times> store" where
  "capture_output put_raw ok ts evs stdout stderr turn dirty s =
     (let sections = parse_libtest stdout;
          targets = section_targets stdout stderr (length sections);
          unattributable = (if looks_like_libtest stdout
            then length (filter (\<lambda>sc. sc_parse_failed sc \<and> sc_per_test sc = []) sections) else 0)
      in write_evidence put_raw ok ts evs (bulk_results stdout targets) (stdout @ stderr) turn dirty unattributable s)"

text \<open>What the wrapper keeps of a stream: the pieces up to each line feed, made UTF-8 one by one.\<close>

function tee :: "string \<Rightarrow> string" where
  "tee s = (if s = [] then [] else case cut_line s of
     (l, Some r) \<Rightarrow> utf8_lossy (l @ [NL]) @ tee r
   | (l, None) \<Rightarrow> utf8_lossy l)"
  by auto
termination
  by (relation "measure length") (auto dest: cut_line_length[OF sym])

declare tee.simps [simp del]

text \<open>
  The wrapper: \<open>spawn\<close> gives the bytes of both streams and the exit code, None after a signal;
  \<open>capture\<close> is the capture of the kept texts.
\<close>

definition run_wrapped :: "(string list \<Rightarrow> string + string \<times> string \<times> int option) \<Rightarrow> (string \<Rightarrow> string \<Rightarrow> (string + 'r) \<times> 's)
    \<Rightarrow> 's \<Rightarrow> string list \<Rightarrow> (string + int) \<times> 's" where
  "run_wrapped spawn capture st cmd =
     (if cmd = [] then (Inl ''attest run: no command given'', st)
      else case spawn cmd of
        Inl e \<Rightarrow> (Inl e, st)
      | Inr (out, err, code) \<Rightarrow>
          (case capture (tee out) (tee err) of
             (Inl e, st') \<Rightarrow> (Inl e, st')
           | (Inr _, st') \<Rightarrow> (Inr (case code of Some n \<Rightarrow> n | None \<Rightarrow> 1), st')))"

text \<open>The payload of a tool hook: the two captured streams, when it is a test run.\<close>

definition hook_capture :: "json \<Rightarrow> (string \<times> string) option" where
  "hook_capture payload =
     (if Option.bind (value_get ''tool_name'' payload) dec_str \<noteq> Some ''Bash'' then None
      else case Option.bind (Option.bind (value_get ''tool_input'' payload) (value_get ''command'')) dec_str of
        None \<Rightarrow> None
      | Some command \<Rightarrow>
          if \<not> is_test_runner_command command then None
          else (let field = (\<lambda>name. case Option.bind (Option.bind (value_get ''tool_response'' payload) (value_get name)) dec_str of
                  Some s \<Rightarrow> s | None \<Rightarrow> [])
                in Some (field ''stdout'', field ''stderr'')))"

end
