(* ===== verification/Attest_Write_Props.thy ===== *)
theory Attest_Write_Props
  imports Attest_Write Attest_Read_Props Libtest_Props
begin

text \<open>
  The verdict policy of the replay, the rename rule of the discovery, and what a capture writes.
\<close>

subsection \<open>Verdicts\<close>

text \<open>What run number \<open>k\<close> says.\<close>

definition run_answer :: "(nat \<Rightarrow> string + structured_result list) \<Rightarrow> nat \<Rightarrow> string + decision" where
  "run_answer run k = (case run k of
     Inl e \<Rightarrow> Inl e | Inr [] \<Rightarrow> Inl ''adapter returned no result'' | Inr (r # _) \<Rightarrow> Inr (decide r))"

definition run_passes :: "(nat \<Rightarrow> string + structured_result list) \<Rightarrow> nat \<Rightarrow> bool" where
  "run_passes run k \<longleftrightarrow> run_answer run k = Inr (DVerdict VConfirmed)"

definition run_fails :: "(nat \<Rightarrow> string + structured_result list) \<Rightarrow> nat \<Rightarrow> bool" where
  "run_fails run k \<longleftrightarrow> run_answer run k = Inr DRetry"

lemma decide_cases: "decide r = DVerdict v \<Longrightarrow> v = VConfirmed \<or> (\<exists>c. v = VRecipeInvalid c)"
  by (auto simp: decide_def split: option.splits test_outcome.splits)

lemma run_answer_cases:
  obtains e where "run_answer run k = Inl e" | "run_fails run k" | "run_passes run k"
    | c where "run_answer run k = Inr (DVerdict (VRecipeInvalid c))"
proof (cases "run k")
  case (Inr rs)
  show ?thesis
  proof (cases rs)
    case (Cons r rest)
    with Inr that show ?thesis
      by (cases "decide r") (auto simp: run_answer_def run_fails_def run_passes_def dest!: decide_cases)
  qed (use Inr that in \<open>auto simp: run_answer_def\<close>)
qed (use that in \<open>auto simp: run_answer_def\<close>)

lemma replay_loop_answer:
  "replay_loop run k f = (case run_answer run k of
     Inl e \<Rightarrow> Inl e
   | Inr (DVerdict v) \<Rightarrow> Inr (reconcile f v, k + 1)
   | Inr DRetry \<Rightarrow> if k + 1 \<ge> 3 then Inr (VClaimFalse, k + 1) else replay_loop run (k + 1) True)"
  by (subst replay_loop.simps) (simp add: run_answer_def MAX_RUNS_def split: sum.splits list.splits)

text \<open>The runs that justify a verdict.\<close>

fun justified :: "(nat \<Rightarrow> string + structured_result list) \<Rightarrow> verdict_kind \<Rightarrow> bool" where
  "justified run VConfirmed = run_passes run 0"
| "justified run VClaimFalse = (run_fails run 0 \<and> run_fails run 1 \<and> run_fails run 2)"
| "justified run VFlakyObservation =
     (run_fails run 0 \<and> (run_passes run 1 \<or> (run_fails run 1 \<and> run_passes run 2)))"
| "justified run (VRecipeInvalid c) =
     (case run_answer run 0 of
        Inr DRetry \<Rightarrow> (case run_answer run 1 of
            Inr DRetry \<Rightarrow> run_answer run 2 = Inr (DVerdict (VRecipeInvalid c))
          | a \<Rightarrow> a = Inr (DVerdict (VRecipeInvalid c)))
      | a \<Rightarrow> a = Inr (DVerdict (VRecipeInvalid c)))"

lemma replay_last: "replay_loop run 2 True = (case run_answer run 2 of Inl e \<Rightarrow> Inl e
   | Inr (DVerdict v) \<Rightarrow> Inr (reconcile True v, 3) | Inr DRetry \<Rightarrow> Inr (VClaimFalse, 3))"
  by (subst replay_loop_answer) (simp split: sum.splits decision.splits)

lemma replay_second: "replay_loop run 1 True = (case run_answer run 1 of Inl e \<Rightarrow> Inl e
   | Inr (DVerdict v) \<Rightarrow> Inr (reconcile True v, 2) | Inr DRetry \<Rightarrow> replay_loop run 2 True)"
  by (subst replay_loop_answer) (simp add: numeral_2_eq_2 split: sum.splits decision.splits)

lemma replay_first: "replay run = (case run_answer run 0 of Inl e \<Rightarrow> Inl e
   | Inr (DVerdict v) \<Rightarrow> Inr (v, 1) | Inr DRetry \<Rightarrow> replay_loop run 1 True)"
  unfolding replay_def by (subst replay_loop_answer) (simp add: reconcile_def split: sum.splits decision.splits)

lemma replay_policy: "(\<exists>n. replay run = Inr (v, n)) \<longleftrightarrow> justified run v"
proof (cases rule: run_answer_cases[of run 0])
  case 2
  then have r: "replay run = replay_loop run 1 True" by (simp add: replay_first run_fails_def)
  show ?thesis
  proof (cases rule: run_answer_cases[of run 1])
    case 22: 2
    then have r2: "replay run = replay_loop run 2 True" unfolding r by (simp only: replay_second run_fails_def) simp
    show ?thesis
      using 2 22 by (cases rule: run_answer_cases[of run 2]; cases v)
        (auto simp: r2 replay_last run_fails_def run_passes_def reconcile_def)
  qed (use 2 in \<open>cases v; auto simp: r replay_second[simplified] run_fails_def run_passes_def reconcile_def\<close>)+
qed (cases v; auto simp: replay_first run_fails_def run_passes_def)+

lemma replay_runs: "replay run = Inr (v, n) \<Longrightarrow> 1 \<le> n \<and> n \<le> 3"
  by (auto simp: replay_first replay_second[simplified] replay_last split: sum.splits decision.splits)

text \<open>A verdict event whose verdict the runs of the test justify.\<close>

fun justified_event :: "verify_env \<Rightarrow> string \<Rightarrow> attest_event \<Rightarrow> test_identity \<Rightarrow> bool" where
  "justified_event env commit (Verdict ts c v rc) i = (rc = commit \<and> justified (ve_run env i) v)"
| "justified_event env commit _ i = False"

lemma verify_claims_justified:
  "verify_claims env commit k cs = (fin, new) \<Longrightarrow>
     map event_claim_id new = take (length new) (map fst cs)
     \<and> list_all2 (justified_event env commit) new (map snd (take (length new) cs))
     \<and> (if fin = Inr () then length new = length cs else True)"
proof (induction env commit k cs arbitrary: fin new rule: verify_claims.induct)
  case (2 env commit k c i cs)
  show ?case
  proof (cases "replay (ve_run env i)")
    case (Inr vr)
    obtain v runs where vr: "vr = (v, runs)" by fastforce
    then have j: "justified (ve_run env i) v" using replay_policy Inr by blast
    obtain fin' new' where r: "verify_claims env commit (k + 1) cs = (fin', new')" by fastforce
    show ?thesis
    proof (cases "ve_append_ok env k \<and> ve_reread_ok env k")
      case True
      then have ih: "map event_claim_id new' = take (length new') (map fst cs)
          \<and> list_all2 (justified_event env commit) new' (map snd (take (length new') cs))
          \<and> (if fin' = Inr () then length new' = length cs else True)"
        using 2(1)[OF Inr vr[symmetric] _ refl _ r] by blast
      have "fin = fin'" "new = Verdict (ve_now env k) c v commit # new'"
        using 2(2) True r by (auto simp: Inr vr Let_def)
      with ih j show ?thesis by simp
    qed (use 2(2) j in \<open>auto simp: Inr vr Let_def split: if_splits\<close>)
  qed (use 2(2) in auto)
qed auto

text \<open>
  C17: no claim is judged beyond its runs. The verdicts a verification appends are for the
  selected claims in order, one each, all of them unless it fails, and each is what the runs of
  the claim's test say: claim-false, which is permanent, only after three failing runs of three;
  confirmed only when the first run passes; flaky when a pass follows a failure; anything that
  is neither a pass nor a failure is recipe-invalid and ends the runs. A dirty tree, an unknown
  commit or a failed extract appends nothing.
\<close>

theorem verdicts_are_justified:
  "case verify env all_stale ids evs of (fin, new) \<Rightarrow>
     map event_claim_id new = take (length new) (map fst (verify_selection all_stale ids evs))
     \<and> (case ve_commit env of
          Inr commit \<Rightarrow> list_all2 (justified_event env commit) new
            (map snd (take (length new) (verify_selection all_stale ids evs)))
        | Inl _ \<Rightarrow> new = [])
     \<and> (if fin = Inr () then length new = length (verify_selection all_stale ids evs) else True)
     \<and> (if ve_clean env = Inr () then True else new = [])"
proof -
  obtain fin new where v: "verify env all_stale ids evs = (fin, new)" by fastforce
  have "map event_claim_id new = take (length new) (map fst (verify_selection all_stale ids evs))
     \<and> (case ve_commit env of
          Inr commit \<Rightarrow> list_all2 (justified_event env commit) new
            (map snd (take (length new) (verify_selection all_stale ids evs)))
        | Inl _ \<Rightarrow> new = [])
     \<and> (if fin = Inr () then length new = length (verify_selection all_stale ids evs) else True)
     \<and> (if ve_clean env = Inr () then True else new = [])"
    using v verify_claims_justified[of env _ 0 "verify_selection all_stale ids evs" fin new]
    by (auto simp: verify_def Let_def split: if_splits sum.splits)
  with v show ?thesis by simp
qed

subsection \<open>Capture\<close>

text \<open>The results of tests some claim owns, and the counts of the others.\<close>

definition owned_results :: "attest_event list \<Rightarrow> structured_result list \<Rightarrow> (claim_id \<times> structured_result) list" where
  "owned_results evs rs = List.map_filter
     (\<lambda>r. map_option (\<lambda>c. (c, r)) (claim_for (fold_claims evs) (sr_identity r))) rs"

lemma resolve_fold:
  "foldl (resolve_step (fold_claims evs)) (rep, resolved) rs = (rep', resolved') \<Longrightarrow>
     resolved' = resolved @ owned_results evs rs
     \<and> length resolved' + cr_skipped_undeclared rep' + cr_skipped_unattributable rep'
       = length resolved + cr_skipped_undeclared rep + cr_skipped_unattributable rep + length rs
     \<and> cr_written rep' = cr_written rep"
proof (induction rs arbitrary: rep resolved)
  case Nil
  then show ?case by (simp add: owned_results_def List.map_filter_simps)
next
  case (Cons r rs)
  obtain rep1 res1 where st: "resolve_step (fold_claims evs) (rep, resolved) r = (rep1, res1)" by fastforce
  with Cons.prems have "foldl (resolve_step (fold_claims evs)) (rep1, res1) rs = (rep', resolved')" by simp
  note ih = Cons.IH[OF this]
  show ?case
    using st ih by (cases "claim_for (fold_claims evs) (sr_identity r)")
      (auto simp: resolve_step_def owned_results_def List.map_filter_simps split: if_splits)
qed

text \<open>
  A capture accounts for every result. Each parsed result is either written as one evidence
  event of the claim that owns its test, in order, or counted as undeclared or as unattributable;
  nothing is attached to a claim that no discovery made. All events of a capture cite the one blob
  the raw output was stored under, and when the append fails there is no event at all.
\<close>

theorem capture_accounts_for_results:
  "case write_evidence put_raw ok ts evs results raw turn dirty unattributable s of (res, new, s') \<Rightarrow>
     (case res of
        Inl e \<Rightarrow> new = [] \<and> \<not> ok
      | Inr rep \<Rightarrow> new = map (evidence_event ts turn dirty (cr_raw_blob rep)) (owned_results evs results)
          \<and> cr_written rep = length new
          \<and> cr_written rep + cr_skipped_undeclared rep + cr_skipped_unattributable rep = length results)"
proof -
  obtain rep resolved where f: "foldl (resolve_step (fold_claims evs))
      (\<lparr>cr_written = 0, cr_skipped_undeclared = 0, cr_skipped_unattributable = 0, cr_blob_over_cap = False,
        cr_unattributable_sections = unattributable, cr_raw_blob = None\<rparr>, []) results = (rep, resolved)"
    by fastforce
  from resolve_fold[OF f] have r: "resolved = owned_results evs results"
    "length resolved + cr_skipped_undeclared rep + cr_skipped_unattributable rep = length results" "cr_written rep = 0"
    by auto
  obtain out st where p: "put_raw raw s = (out, st)" by fastforce
  show ?thesis
    using r by (auto simp: write_evidence_def f p Let_def)
qed

end
