(* ===== verification/Derive_Props.thy ===== *)
theory Derive_Props
  imports Attest_Write Attest_Props
begin

text \<open>
  Discovery settles: after the events of one derive are in the log, every discovered test has a
  claim of its own and the same discovery adds nothing; ids move only from tests that vanished.
\<close>

subsection \<open>One derive event\<close>

lemma derive_event_fold:
  fixes evs c i h ren ts
  defines "evs' \<equiv> evs @ [Derive ts c i h ren]"
  shows "claim_for (fold_claims evs') j = (if j = i then Some c
      else if identity_of (fold_claims evs) c = Some j then None else claim_for (fold_claims evs) j)"
    and "last_hash evs' c' = (if c' = c then (case h of None \<Rightarrow> last_hash evs c | Some x \<Rightarrow> Some x) else last_hash evs c')"
proof -
  show "claim_for (fold_claims evs') j = (if j = i then Some c
      else if identity_of (fold_claims evs) c = Some j then None else claim_for (fold_claims evs) j)"
    unfolding evs'_def fold_claims_snoc
    by (auto simp: claim_for_def fold_event_def Let_def identity_of_def split: option.splits)
  show "last_hash evs' c' = (if c' = c then (case h of None \<Rightarrow> last_hash evs c | Some x \<Rightarrow> Some x) else last_hash evs c')"
    unfolding evs'_def last_hash_def claim_of_def fold_claims_snoc
    by (cases "fr_claims (fold_claims evs) c")
      (auto simp: fold_event_def Let_def claim_upd_def new_claim_def split: option.splits)
qed

lemma index_owner: "claim_for (fold_claims evs) i = Some c \<Longrightarrow> identity_of (fold_claims evs) c = Some i"
  unfolding claim_for_def by (rule index_sound)

lemma owner_known: "identity_of (fold_claims evs) c = Some i \<Longrightarrow> c \<in> event_claim_id ` set evs"
  using identity_source[of evs c i] by blast

subsection \<open>The invariant of the discovery\<close>

text \<open>A test is settled when its claim carries the hash that was computed, if one was.\<close>

definition settled :: "(test_identity \<rightharpoonup> string) \<Rightarrow> attest_event list \<Rightarrow> test_identity \<Rightarrow> bool" where
  "settled hashes es i \<longleftrightarrow> (\<exists>c. claim_for (fold_claims es) i = Some c \<and> (hashes i = None \<or> last_hash es c = hashes i))"

definition derive_inv :: "attest_event list \<Rightarrow> test_identity list \<Rightarrow> (test_identity \<rightharpoonup> string) \<Rightarrow> (nat \<Rightarrow> claim_id)
    \<Rightarrow> derive_plan \<Rightarrow> test_identity set \<Rightarrow> bool" where
  "derive_inv evs identities hashes fresh p seen \<longleftrightarrow>
     (\<forall>i \<in> seen. settled hashes (evs @ dp_batch p) i)
     \<and> (\<forall>i \<in> set identities - seen. claim_for (fold_claims (evs @ dp_batch p)) i = claim_for (fold_claims evs) i
          \<and> (\<forall>c. claim_for (fold_claims evs) i = Some c \<longrightarrow> last_hash (evs @ dp_batch p) c = last_hash evs c))
     \<and> (\<forall>v c. v \<notin> set identities \<longrightarrow> claim_for (fold_claims evs) v = Some c \<longrightarrow> c \<notin> set (dp_consumed p)
          \<longrightarrow> claim_for (fold_claims (evs @ dp_batch p)) v = Some c)
     \<and> (\<forall>k \<ge> dp_minted p. fresh k \<notin> event_claim_id ` set (evs @ dp_batch p))"

lemma settled_snoc:
  assumes s: "settled hashes es j" and ne: "j \<noteq> i" and own: "identity_of (fold_claims es) c \<noteq> Some j"
  shows "settled hashes (es @ [Derive ts c i h ren]) j"
proof -
  obtain cj where c: "claim_for (fold_claims es) j = Some cj" "hashes j = None \<or> last_hash es cj = hashes j"
    using s by (auto simp: settled_def)
  have "cj \<noteq> c" using index_owner[OF c(1)] own by blast
  then show ?thesis using c ne own by (auto simp: settled_def derive_event_fold simp del: append_assoc)
qed

text \<open>
  An event for a claim that owns at most one test \<open>x\<close>, where \<open>x\<close> is \<open>i\<close> itself or is no longer
  discovered, leaves every other test as it is.
\<close>

lemma derive_inv_event:
  assumes inv: "derive_inv evs identities hashes fresh p seen"
    and i: "i \<in> set identities" "i \<notin> seen" "seen \<subseteq> set identities"
    and own: "\<And>x. identity_of (fold_claims (evs @ dp_batch p)) c = Some x \<Longrightarrow> x = i \<or> x \<notin> set identities"
    and gone: "\<And>x. identity_of (fold_claims (evs @ dp_batch p)) c = Some x \<Longrightarrow> x \<noteq> i
      \<Longrightarrow> claim_for (fold_claims (evs @ dp_batch p)) x = Some c \<and> c \<in> set consumed"
    and hash: "hashes i = None \<or> h = hashes i"
    and cons: "set (dp_consumed p) \<subseteq> set consumed"
    and minted: "dp_minted p \<le> m" "\<And>k. k \<ge> m \<Longrightarrow> fresh k \<noteq> c"
  shows "derive_inv evs identities hashes fresh
     (p\<lparr>dp_counts := cnt, dp_batch := dp_batch p @ [Derive ts c i h ren], dp_consumed := consumed, dp_minted := m\<rparr>)
     (insert i seen)"
proof -
  let ?es = "evs @ dp_batch p"
  let ?es' = "?es @ [Derive ts c i h ren]"
  have seen_ok: "settled hashes ?es' j" if "j \<in> insert i seen" for j
  proof (cases "j = i")
    case True
    then show ?thesis using hash by (cases h) (auto simp: settled_def derive_event_fold simp del: append_assoc)
  next
    case False
    with that have j: "j \<in> seen" by simp
    then have "settled hashes ?es j" using inv by (simp add: derive_inv_def)
    moreover have "identity_of (fold_claims ?es) c \<noteq> Some j" using own[of j] False j i(3) by auto
    ultimately show ?thesis using False by (rule_tac settled_snoc)
  qed
  have todo: "claim_for (fold_claims ?es') j = claim_for (fold_claims evs) j
      \<and> (\<forall>cj. claim_for (fold_claims evs) j = Some cj \<longrightarrow> last_hash ?es' cj = last_hash evs cj)"
    if j: "j \<in> set identities - insert i seen" for j
  proof -
    have b: "claim_for (fold_claims ?es) j = claim_for (fold_claims evs) j"
      "\<And>cj. claim_for (fold_claims evs) j = Some cj \<Longrightarrow> last_hash ?es cj = last_hash evs cj"
      using inv j by (auto simp: derive_inv_def)
    have o: "identity_of (fold_claims ?es) c \<noteq> Some j" using own[of j] j by auto
    have "cj \<noteq> c" if "claim_for (fold_claims evs) j = Some cj" for cj
      using index_owner[of ?es j cj] that b(1) o by auto
    with b o j show ?thesis by (auto simp: derive_event_fold simp del: append_assoc)
  qed
  have vanished: "claim_for (fold_claims ?es') v = Some cv"
    if "v \<notin> set identities" "claim_for (fold_claims evs) v = Some cv" "cv \<notin> set consumed" for v cv
  proof -
    have cv: "claim_for (fold_claims ?es) v = Some cv"
      using inv that(1,2) cons that(3) unfolding derive_inv_def by blast
    have "identity_of (fold_claims ?es) c \<noteq> Some v"
    proof
      assume a: "identity_of (fold_claims ?es) c = Some v"
      then have "v \<noteq> i" using that(1) i(1) by auto
      from gone[OF a this] cv that(3) show False by auto
    qed
    then show ?thesis using cv that(1) i(1) by (auto simp: derive_event_fold simp del: append_assoc)
  qed
  have ids: "fresh k \<notin> event_claim_id ` set ?es'" if "k \<ge> m" for k
    using inv that minted by (auto simp: derive_inv_def)
  show ?thesis unfolding derive_inv_def using seen_ok todo vanished ids by simp
qed

lemma donor_vanished:
  "donor_of evs identities hashes i = Some (x, c) \<Longrightarrow>
     claim_for (fold_claims evs) x = Some c \<and> x \<notin> set identities \<and> hashes i \<noteq> None \<and> last_hash evs c = hashes i"
proof -
  assume d: "donor_of evs identities hashes i = Some (x, c)"
  then obtain h where h: "hashes i = Some h" "vanished_with evs identities h = [(x, c)]"
    by (auto simp: donor_of_def split: option.splits if_splits list.splits)
  have in_mf: "y \<in> set (List.map_filter f xs) \<Longrightarrow> \<exists>z \<in> set xs. f z = Some y" for f xs and y :: "test_identity \<times> claim_id"
    by (induction xs) (auto simp: List.map_filter_simps split: option.splits)
  have "(x, c) \<in> set (vanished_with evs identities h)" by (simp add: h(2))
  then obtain z where z: "z \<notin> set identities" "(case claim_for (fold_claims evs) z of
        Some c \<Rightarrow> if last_hash evs c = Some h then Some (z, c) else None | None \<Rightarrow> None) = Some (x, c)"
    unfolding vanished_with_def by (auto dest!: in_mf)
  then show ?thesis using h(1) by (auto split: option.splits if_splits)
qed

lemma derive_step_inv:
  assumes inv: "derive_inv evs identities hashes fresh p seen"
    and i: "i \<in> set identities" "i \<notin> seen" "seen \<subseteq> set identities"
    and fresh: "inj fresh"
  shows "derive_inv evs identities hashes fresh (derive_step evs identities hashes ts fresh p i) (insert i seen)"
proof -
  let ?es = "evs @ dp_batch p"
  have here: "claim_for (fold_claims ?es) i = claim_for (fold_claims evs) i"
    "\<And>c. claim_for (fold_claims evs) i = Some c \<Longrightarrow> last_hash ?es c = last_hash evs c"
    using inv i by (auto simp: derive_inv_def)
  have old: "fresh k \<noteq> c" if "identity_of (fold_claims ?es) c = Some x" "k \<ge> dp_minted p" for c x k
    using owner_known[OF that(1)] inv that(2) unfolding derive_inv_def by blast
  note event = derive_inv_event[OF inv i]
  show ?thesis
  proof (cases "claim_for (fold_claims evs) i")
    case (Some c)
    with here have own: "identity_of (fold_claims ?es) c = Some i" by (intro index_owner) simp
    show ?thesis
    proof (cases "hashes i \<noteq> None \<and> hashes i \<noteq> last_hash evs c")
      case True
      have "derive_inv evs identities hashes fresh
        (p\<lparr>dp_counts := (dp_counts p)\<lparr>dc_rehashed := dc_rehashed (dp_counts p) + 1\<rparr>,
           dp_batch := dp_batch p @ [Derive ts c i (hashes i) None], dp_consumed := dp_consumed p,
           dp_minted := dp_minted p\<rparr>) (insert i seen)"
        by (rule event) (use own old[OF own] in auto)
      with True Some show ?thesis by (simp add: derive_step_def)
    next
      case False
      then have "settled hashes ?es i" using here Some by (auto simp: settled_def)
      then have "derive_inv evs identities hashes fresh
          (p\<lparr>dp_counts := (dp_counts p)\<lparr>dc_unchanged := dc_unchanged (dp_counts p) + 1\<rparr>\<rparr>) (insert i seen)"
        using inv unfolding derive_inv_def by auto
      with False Some show ?thesis by (auto simp: derive_step_def)
    qed
  next
    case None
    define d where "d = (case donor_of evs identities hashes i of
        Some (old_i, old_c) \<Rightarrow> if old_c \<in> set (dp_consumed p) then None else Some (old_i, old_c) | None \<Rightarrow> None)"
    show ?thesis
    proof (cases d)
      case (Some xc)
      obtain x c where xc: "xc = (x, c)" by fastforce
      with Some have donor: "donor_of evs identities hashes i = Some (x, c)" "c \<notin> set (dp_consumed p)"
        by (auto simp: d_def split: option.splits if_splits prod.splits)
      note v = donor_vanished[OF donor(1)]
      then have cx: "claim_for (fold_claims ?es) x = Some c" using inv donor(2) by (auto simp: derive_inv_def)
      note own = index_owner[OF cx]
      have "derive_inv evs identities hashes fresh
        (p\<lparr>dp_counts := (dp_counts p)\<lparr>dc_renamed := dc_renamed (dp_counts p) + 1\<rparr>,
           dp_batch := dp_batch p @ [Derive ts c i (hashes i) (Some x)], dp_consumed := dp_consumed p @ [c],
           dp_minted := dp_minted p\<rparr>) (insert i seen)"
        by (rule event) (use own old[OF own] v cx in auto)
      with None Some xc show ?thesis by (simp add: derive_step_def d_def)
    next
      case none: None
      let ?c = "fresh (dp_minted p)"
      have unowned: "identity_of (fold_claims ?es) ?c \<noteq> Some x" for x using old[of ?c x "dp_minted p"] by auto
      have "derive_inv evs identities hashes fresh
        (p\<lparr>dp_counts := (dp_counts p)\<lparr>dc_new := dc_new (dp_counts p) + 1\<rparr>,
           dp_batch := dp_batch p @ [Derive ts ?c i (hashes i) None], dp_consumed := dp_consumed p,
           dp_minted := dp_minted p + 1\<rparr>) (insert i seen)"
        by (rule event) (use unowned fresh in \<open>auto dest: injD\<close>)
      with None none show ?thesis by (simp add: derive_step_def d_def)
    qed
  qed
qed

lemma derive_fold_inv:
  assumes "inj fresh"
  shows "derive_inv evs identities hashes fresh p seen \<Longrightarrow> set is \<subseteq> set identities \<Longrightarrow> distinct is
    \<Longrightarrow> set is \<inter> seen = {} \<Longrightarrow> seen \<subseteq> set identities
    \<Longrightarrow> derive_inv evs identities hashes fresh (foldl (derive_step evs identities hashes ts fresh) p is) (set is \<union> seen)"
proof (induction "is" arbitrary: p seen)
  case (Cons i "is")
  have "derive_inv evs identities hashes fresh (derive_step evs identities hashes ts fresh p i) (insert i seen)"
    by (rule derive_step_inv) (use Cons.prems assms in auto)
  from Cons.IH[OF this] Cons.prems show ?case by simp
qed simp

lemma settled_adds_nothing:
  "list_all (settled hashes evs) is \<Longrightarrow>
     foldl (derive_step evs identities hashes ts fresh) p is =
     p\<lparr>dp_counts := (dp_counts p)\<lparr>dc_unchanged := dc_unchanged (dp_counts p) + length is\<rparr>\<rparr>"
proof (induction "is" arbitrary: p)
  case (Cons i "is")
  then have "derive_step evs identities hashes ts fresh p i =
      p\<lparr>dp_counts := (dp_counts p)\<lparr>dc_unchanged := dc_unchanged (dp_counts p) + 1\<rparr>\<rparr>"
    by (auto simp: derive_step_def settled_def)
  with Cons show ?case by simp
qed simp

text \<open>
  C20: a discovery settles. With ids that are fresh, once the events of a discovery are in the
  log every discovered test has a claim that carries the body hash just computed, and the same
  discovery run again appends nothing and counts every test as unchanged: no test is left without
  a claim, none gets a second one, and the rename rule does not take a claim that another
  discovered test holds.
\<close>

theorem discovery_settles:
  assumes "inj fresh" "list_all (\<lambda>e. event_claim_id e \<notin> range fresh) evs" "distinct identities"
  shows "case evs @ dp_batch (plan_derives evs identities hashes ts fresh) of evs' \<Rightarrow>
     list_all (settled hashes evs') identities
     \<and> dp_batch (plan_derives evs' identities hashes ts' fresh') = []
     \<and> dc_unchanged (dp_counts (plan_derives evs' identities hashes ts' fresh')) = length identities"
proof -
  let ?p = "plan_derives evs identities hashes ts fresh"
  define start where "start = \<lparr>dp_batch = [], dp_counts = \<lparr>dc_new = 0, dc_renamed = 0, dc_rehashed = 0, dc_unchanged = 0\<rparr>,
      dp_consumed = [], dp_minted = 0\<rparr>"
  have "fresh k \<notin> event_claim_id ` set evs" for k
    using assms(2) by (metis (no_types, lifting) image_iff list_all_iff rangeI)
  then have "derive_inv evs identities hashes fresh start {}" by (simp add: derive_inv_def start_def)
  from derive_fold_inv[OF assms(1) this, of identities ts] assms(3)
  have "derive_inv evs identities hashes fresh ?p (set identities)"
    by (simp add: plan_derives_def start_def)
  then have "list_all (settled hashes (evs @ dp_batch ?p)) identities" by (simp add: derive_inv_def list_all_iff)
  with settled_adds_nothing[OF this] show ?thesis by (simp add: plan_derives_def)
qed

theorem discovery_settles_witness:
  "case example_log @ dp_batch (plan_derives example_log [TestIdentity ''t'' ''g''] [TestIdentity ''t'' ''g'' \<mapsto> ''h''] 5 (\<lambda>n. ClaimId (replicate (n + 1) CHR ''x'')))
   of evs' \<Rightarrow> list_all (settled [TestIdentity ''t'' ''g'' \<mapsto> ''h''] evs') [TestIdentity ''t'' ''g'']
     \<and> dp_batch (plan_derives evs' [TestIdentity ''t'' ''g''] [TestIdentity ''t'' ''g'' \<mapsto> ''h''] 6 (\<lambda>n. ClaimId [])) = []
     \<and> dc_unchanged (dp_counts (plan_derives evs' [TestIdentity ''t'' ''g''] [TestIdentity ''t'' ''g'' \<mapsto> ''h''] 6 (\<lambda>n. ClaimId []))) = length [TestIdentity ''t'' ''g'']"
proof (rule discovery_settles)
  show "inj (\<lambda>n. ClaimId (replicate (n + 1) CHR ''x''))"
    by (rule injI) (metis add_right_imp_eq claim_id.inject length_replicate)
  have "CHR ''c'' \<noteq> CHR ''x''" by simp
  then show "list_all (\<lambda>e. event_claim_id e \<notin> range (\<lambda>n. ClaimId (replicate (n + 1) CHR ''x''))) example_log"
    by (auto simp: example_log_def example_id_def)
  show "distinct [TestIdentity ''t'' ''g'']" by simp
qed

end
