(* ===== verification/Import.thy ===== *)
theory Import
  imports Strings Scrub Undo_Plan
begin

text \<open>
  Reading Claude Code's transcripts (cli/src/importcmd.rs): what both importers share, and the
  scan of \<open>import claude --dry-run\<close>. The file system, git and serde_json are arguments; git's
  answers are taken to be the same each time it is asked, so its cache is left out.
\<close>

subsection \<open>Paths\<close>

text \<open>A \<open>Path\<close> as whether it is absolute and its components; a leading dot is one of them.\<close>

type_synonym rpath = "bool \<times> string list"

definition path_of :: "string \<Rightarrow> rpath" where
  "path_of p = (is_absolute p,
     (if \<not> is_absolute p \<and> hd (split_on CHR ''/'' p) = ''.'' then [''.''] else []) @ components p)"

fun path_join :: "rpath \<Rightarrow> rpath \<Rightarrow> rpath" where
  "path_join (a, c) (b, d) =
     (if b \<or> (\<not> a \<and> c = []) then (b, d) else (a, c @ filter (\<lambda>x. x \<noteq> ''.'') d))"

fun path_text :: "rpath \<Rightarrow> string" where
  "path_text (a, c) = (if a then ''/'' else []) @ join_with ''/'' c"

fun path_under :: "rpath \<Rightarrow> rpath \<Rightarrow> rpath option" where
  "path_under (a, c) (b, d) =
     (if \<not> a \<and> c = [] then Some (b, d)
      else if a = b \<and> starts_with d c then Some (False, drop (length c) d) else None)"

definition normal_step :: "bool \<Rightarrow> string list \<Rightarrow> string \<Rightarrow> string list" where
  "normal_step absolute out c =
     (if c = ''.'' then out
      else if c = ''..'' then
        (if out \<noteq> [] \<and> last out \<noteq> ''..'' then butlast out
         else if out = [] \<and> absolute then out
         else out @ [c])
      else out @ [c])"

fun normal_path :: "rpath \<Rightarrow> rpath" where
  "normal_path (a, c) = (a, foldl (normal_step a) [] c)"

definition has_extension :: "string \<Rightarrow> string \<Rightarrow> bool" where
  "has_extension ext name = (case rsplit_once_str ''.'' name of
     Some (stem, e) \<Rightarrow> stem \<noteq> [] \<and> e = ext | None \<Rightarrow> False)"

definition file_name :: "string \<Rightarrow> string" where
  "file_name p = (if components p = [] then [] else last (components p))"

subsection \<open>JSON values\<close>

definition json_text :: "string \<Rightarrow> json \<Rightarrow> string option" where
  "json_text k v = Option.bind (value_get k v) dec_str"

definition json_bool :: "string \<Rightarrow> json \<Rightarrow> bool option" where
  "json_bool k v = Option.bind (value_get k v) dec_bool"

text \<open>\<open>as_array\<close>, and \<open>as_object\<close> as its members in the order of their names, each once.\<close>

fun json_items :: "json \<Rightarrow> json list option" where
  "json_items (JArr js) = Some js"
| "json_items _ = None"

fun json_members :: "json \<Rightarrow> (string \<times> json) list option" where
  "json_members (JObj fs) = Some (List.map_filter (\<lambda>k. map_option (Pair k) (value_get k (JObj fs)))
     (sort (remdups (map fst fs))))"
| "json_members _ = None"

text \<open>The pieces between line feeds, as text where they are UTF-8.\<close>

definition each_raw_line :: "string \<Rightarrow> string option list" where
  "each_raw_line body = map (\<lambda>l. if utf8_valid l then Some l else None) (lines body)"

definition is_tool_result_shaped :: "json \<Rightarrow> bool" where
  "is_tool_result_shaped v =
     (case Option.bind (Option.bind (value_get ''message'' v) (value_get ''content'')) json_items of
        None \<Rightarrow> False
      | Some items \<Rightarrow> list_ex (\<lambda>i. json_text ''type'' i = Some ''tool_result'') items)"

subsection \<open>The surroundings\<close>

text \<open>
  \<open>ie_canon\<close> is \<open>canonicalize\<close>; \<open>ie_backup\<close> reads a blob of \<open>file-history\<close> by session and name;
  \<open>ie_rev_parse\<close>, \<open>ie_ls_files\<close>, \<open>ie_git_log\<close> and \<open>ie_git_show\<close> are git: success and output, None when
  it cannot be run. \<open>ie_put k\<close> is how the store call number \<open>k\<close> goes.
\<close>

record import_env =
  ie_from_str :: "string \<Rightarrow> json option"
  ie_sha :: "string \<Rightarrow> string"
  ie_lower :: "string \<Rightarrow> string"
  ie_scrub :: "string \<Rightarrow> string"
  ie_excerpt :: "string \<Rightarrow> string"
  ie_debug :: bool
  ie_canon :: "rpath \<Rightarrow> string list option"
  ie_backup :: "string \<Rightarrow> string \<Rightarrow> string option"
  ie_rev_parse :: "rpath \<Rightarrow> (bool \<times> string) option"
  ie_ls_files :: "rpath \<Rightarrow> (bool \<times> string) option"
  ie_git_log :: "rpath \<Rightarrow> string \<Rightarrow> rpath \<Rightarrow> (bool \<times> string) option"
  ie_git_show :: "rpath \<Rightarrow> string \<Rightarrow> rpath \<Rightarrow> (bool \<times> string) option"
  ie_put :: "nat \<Rightarrow> io \<times> bool \<times> nat"

definition canon_or_self :: "import_env \<Rightarrow> rpath \<Rightarrow> rpath" where
  "canon_or_self env p = (case ie_canon env p of Some c \<Rightarrow> (True, c) | None \<Rightarrow> p)"

definition path_is_under_root :: "import_env \<Rightarrow> rpath \<Rightarrow> rpath \<Rightarrow> bool" where
  "path_is_under_root env cwd root = (case (ie_canon env cwd, ie_canon env root) of
     (Some c, Some r) \<Rightarrow> starts_with c r | _ \<Rightarrow> False)"

definition NUL :: char where
  "NUL = CHR 0x00"

text \<open>\<open>GitTrackCache::load\<close>: the top level and the tracked paths.\<close>

definition git_load :: "import_env \<Rightarrow> rpath \<Rightarrow> (rpath \<times> rpath list) option" where
  "git_load env cwd = (case ie_rev_parse env cwd of
     None \<Rightarrow> None
   | Some (ok, out) \<Rightarrow>
       (let top = trim (utf8_lossy out) in
        if \<not> ok \<or> top = [] then None
        else let repo_root = canon_or_self env (path_of top) in
          (case ie_ls_files env repo_root of
             None \<Rightarrow> None
           | Some (ok', listed) \<Rightarrow>
               if \<not> ok' then None
               else Some (repo_root, map (\<lambda>s. path_of (utf8_lossy s)) (filter (\<lambda>s. s \<noteq> []) (split_on NUL listed))))))"

definition repo_root :: "import_env \<Rightarrow> rpath \<Rightarrow> rpath option" where
  "repo_root env cwd = map_option fst (git_load env (canon_or_self env cwd))"

definition is_tracked :: "import_env \<Rightarrow> rpath \<Rightarrow> string \<Rightarrow> bool" where
  "is_tracked env cwd p = (case git_load env (canon_or_self env cwd) of
     None \<Rightarrow> False
   | Some (root, tracked) \<Rightarrow>
       (case path_under root (path_of p) of Some rel \<Rightarrow> rel \<in> set tracked | None \<Rightarrow> False))"

subsection \<open>What a transcript says of its session\<close>

record transcript =
  tx_id :: "string option"
  tx_cwd :: "string option"
  tx_backups :: "string \<rightharpoonup> string"
  tx_edits :: "string \<rightharpoonup> nat"
  tx_pending :: "(string \<times> string) list"

definition normalize_backup_key :: "string \<Rightarrow> string \<Rightarrow> string" where
  "normalize_backup_key key cwd =
     (if starts_with key ''/'' then path_text (normal_path (path_of key))
      else path_text (normal_path (path_join (path_of cwd)
        (path_of (case strip_prefix ''./'' key of Some k \<Rightarrow> k | None \<Rightarrow> key)))))"

text \<open>A name that was already held for the path does not reset its count of edits.\<close>

definition record_backup :: "string \<Rightarrow> string \<Rightarrow> 'a transcript_scheme \<Rightarrow> 'a transcript_scheme" where
  "record_backup p name t = t\<lparr>tx_backups := (tx_backups t)(p \<mapsto> name),
     tx_edits := (if tx_backups t p \<noteq> Some name then (tx_edits t)(p \<mapsto> 0) else tx_edits t)\<rparr>"

definition note_id :: "json \<Rightarrow> 'a transcript_scheme \<Rightarrow> 'a transcript_scheme" where
  "note_id v t = (if tx_id t = None then t\<lparr>tx_id := json_text ''sessionId'' v\<rparr> else t)"

definition note_cwd :: "json \<Rightarrow> 'a transcript_scheme \<Rightarrow> 'a transcript_scheme" where
  "note_cwd v t = (case (tx_cwd t, json_text ''cwd'' v) of
     (None, Some cwd) \<Rightarrow>
       (foldl (\<lambda>t (key, name). record_backup (normalize_backup_key key cwd) name t) t (tx_pending t))
         \<lparr>tx_pending := [], tx_cwd := Some cwd\<rparr>
   | _ \<Rightarrow> t)"

definition harvest_backup :: "'a transcript_scheme \<Rightarrow> string \<times> json \<Rightarrow> 'a transcript_scheme" where
  "harvest_backup t m = (case m of (key, info) \<Rightarrow> (case json_text ''backupFileName'' info of
     None \<Rightarrow> t
   | Some name \<Rightarrow>
       if starts_with key ''/'' then record_backup (path_text (normal_path (path_of key))) name t
       else (case tx_cwd t of
         Some cwd \<Rightarrow> record_backup (normalize_backup_key key cwd) name t
       | None \<Rightarrow> t\<lparr>tx_pending := tx_pending t @ [(key, name)]\<rparr>)))"

definition tracked_backups :: "json \<Rightarrow> (string \<times> json) list option" where
  "tracked_backups v = Option.bind (Option.bind (value_get ''snapshot'' v) (value_get ''trackedFileBackups'')) json_members"

definition harvest_backups :: "json \<Rightarrow> 'a transcript_scheme \<Rightarrow> 'a transcript_scheme" where
  "harvest_backups v t = (case tracked_backups v of None \<Rightarrow> t | Some ms \<Rightarrow> foldl harvest_backup t ms)"

text \<open>Lines that carry backups but no result are done with.\<close>

definition bookkeeping_only :: "json \<Rightarrow> bool" where
  "bookkeeping_only v \<longleftrightarrow> tracked_backups v \<noteq> None \<and> value_get ''toolUseResult'' v = None"

definition mark_edit :: "string \<Rightarrow> 'a transcript_scheme \<Rightarrow> 'a transcript_scheme" where
  "mark_edit p t = (case tx_edits t p of Some n \<Rightarrow> t\<lparr>tx_edits := (tx_edits t)(p \<mapsto> n + 1)\<rparr> | None \<Rightarrow> t)"

definition edits_since :: "string \<Rightarrow> 'a transcript_scheme \<Rightarrow> nat" where
  "edits_since p t = (case tx_edits t p of Some n \<Rightarrow> n | None \<Rightarrow> 0)"

definition is_sidechain :: "json \<Rightarrow> bool" where
  "is_sidechain v = (json_bool ''isSidechain'' v = Some True)"

subsection \<open>The backup blob\<close>

definition is_safe_path_component :: "string \<Rightarrow> bool" where
  "is_safe_path_component s \<longleftrightarrow> s \<noteq> [] \<and> s \<noteq> ''.'' \<and> s \<noteq> ''..'' \<and> CHR ''/'' \<notin> set s \<and> CHR 0x5C \<notin> set s
     \<and> \<not> is_absolute s"

definition bytes_contain :: "string \<Rightarrow> string \<Rightarrow> bool" where
  "bytes_contain haystack needle =
     (if needle = [] then True
      else if length needle > length haystack then False
      else list_ex (\<lambda>i. take (length needle) (drop i haystack) = needle) [0 ..< length haystack - length needle + 1])"

datatype backup_refusal = UnsafePath | BlobMissing | Unverifiable

text \<open>The bytes, with whether their content was checked against the text to be replaced.\<close>

definition backup_bytes :: "import_env \<Rightarrow> string \<Rightarrow> string \<Rightarrow> string option \<Rightarrow> backup_refusal + string \<times> bool" where
  "backup_bytes env sid name old_string =
     (if \<not> is_safe_path_component sid \<or> \<not> is_safe_path_component name then Inl UnsafePath
      else case ie_backup env sid name of
        None \<Rightarrow> Inl BlobMissing
      | Some bytes \<Rightarrow> (case old_string of
          Some old \<Rightarrow>
            if old = [] then Inr (bytes, False)
            else if bytes_contain bytes old then Inr (bytes, True) else Inl Unverifiable
        | None \<Rightarrow> Inr (bytes, False)))"

subsection \<open>The dry run\<close>

text \<open>The shares of opaque calls are kept as the fractions that the report averages.\<close>

record counters =
  ct_sessions_total :: nat
  ct_importable :: nat
  ct_in_root :: nat
  ct_t1 :: nat
  ct_t15 :: nat
  ct_t15_unverified :: nat
  ct_t15_rejected_unverifiable :: nat
  ct_t15_rejected_stale :: nat
  ct_t15_blob_missing :: nat
  ct_t15_rejected_unsafe :: nat
  ct_t2_candidate :: nat
  ct_t3 :: nat
  ct_opaque :: nat
  ct_sidechain :: nat
  ct_malformed :: nat
  ct_missing_cwd :: nat
  ct_missing_result :: nat
  ct_non_utf8 :: nat
  ct_io_error :: nat
  ct_secret :: nat
  ct_opaque_shares :: "(nat \<times> nat) list"

type_synonym debug_entry = "string \<times> string \<times> string \<times> string option"

record scan = transcript +
  sn_parsed :: nat
  sn_drift :: bool
  sn_flagged :: nat
  sn_opaque :: nat
  sn_entries :: nat
  sn_counters :: counters
  sn_debug :: "debug_entry list"

definition strip_hash_prefix :: "hash \<Rightarrow> string" where
  "strip_hash_prefix h = (case strip_prefix ''sha256:'' h of Some s \<Rightarrow> s | None \<Rightarrow> h)"

definition bump_counters :: "(counters \<Rightarrow> counters) \<Rightarrow> scan \<Rightarrow> scan" where
  "bump_counters f s = s\<lparr>sn_counters := f (sn_counters s)\<rparr>"

definition push_debug :: "import_env \<Rightarrow> string \<Rightarrow> string \<Rightarrow> string \<Rightarrow> string option \<Rightarrow> scan \<Rightarrow> scan" where
  "push_debug env label p tier h s = (if ie_debug env then s\<lparr>sn_debug := sn_debug s @ [(label, p, tier, h)]\<rparr> else s)"

text \<open>The end of a rung: the entry is counted, shown and marked as an edit.\<close>

definition tiered :: "import_env \<Rightarrow> string \<Rightarrow> string \<Rightarrow> string \<Rightarrow> string option \<Rightarrow> (counters \<Rightarrow> counters) \<Rightarrow> scan \<Rightarrow> scan" where
  "tiered env label p tier h f s =
     mark_edit p (push_debug env label p tier h ((bump_counters f s)\<lparr>sn_entries := sn_entries s + 1\<rparr>))"

definition classify_t2_or_t3 :: "import_env \<Rightarrow> string \<Rightarrow> string \<Rightarrow> scan \<Rightarrow> scan" where
  "classify_t2_or_t3 env label p s =
     (if (case tx_cwd s of Some cwd \<Rightarrow> is_tracked env (path_of cwd) p | None \<Rightarrow> False)
      then push_debug env label p ''t2_candidate'' None
        ((bump_counters (\<lambda>c. c\<lparr>ct_t2_candidate := ct_t2_candidate c + 1\<rparr>) s)\<lparr>sn_entries := sn_entries s + 1\<rparr>)
      else push_debug env label p ''t3'' None
        ((bump_counters (\<lambda>c. c\<lparr>ct_t3 := ct_t3 c + 1\<rparr>) s)\<lparr>sn_entries := sn_entries s + 1\<rparr>))"

fun refusal_counter :: "backup_refusal \<Rightarrow> counters \<Rightarrow> counters" where
  "refusal_counter UnsafePath c = c\<lparr>ct_t15_rejected_unsafe := ct_t15_rejected_unsafe c + 1\<rparr>"
| "refusal_counter BlobMissing c = c\<lparr>ct_t15_blob_missing := ct_t15_blob_missing c + 1\<rparr>"
| "refusal_counter Unverifiable c = c\<lparr>ct_t15_rejected_unverifiable := ct_t15_rejected_unverifiable c + 1\<rparr>"

text \<open>The rung of the backups: the bytes, or what to count on the way to the next rung.\<close>

definition backup_rung :: "import_env \<Rightarrow> json \<Rightarrow> string \<Rightarrow> scan \<Rightarrow> (counters \<Rightarrow> counters) + string \<times> bool" where
  "backup_rung env tur p s = (case (tx_backups s p, tx_id s) of
     (Some name, Some sid) \<Rightarrow>
       if edits_since p s > 0 then Inl (\<lambda>c. c\<lparr>ct_t15_rejected_stale := ct_t15_rejected_stale c + 1\<rparr>)
       else map_sum refusal_counter id (backup_bytes env sid name (json_text ''oldString'' tur))
   | _ \<Rightarrow> Inl (\<lambda>c. c))"

definition classify_file_entry :: "import_env \<Rightarrow> string \<Rightarrow> json \<Rightarrow> string \<Rightarrow> scan \<Rightarrow> scan" where
  "classify_file_entry env label tur p s =
     (if is_secret_path (ie_lower env) p
      then tiered env label p ''secret_path'' None (\<lambda>c. c\<lparr>ct_secret := ct_secret c + 1\<rparr>) s
      else case json_text ''originalFile'' tur of
        Some orig \<Rightarrow> tiered env label p ''t1'' (Some (strip_hash_prefix (hash_bytes (ie_sha env) orig)))
          (\<lambda>c. c\<lparr>ct_t1 := ct_t1 c + 1\<rparr>) s
      | None \<Rightarrow>
          if json_text ''type'' tur = Some ''create''
          then tiered env label p ''t1'' None (\<lambda>c. c\<lparr>ct_t1 := ct_t1 c + 1\<rparr>) s
          else (case backup_rung env tur p s of
            Inr (bytes, verified) \<Rightarrow>
              tiered env label p ''t1_5'' (Some (strip_hash_prefix (hash_bytes (ie_sha env) bytes)))
                (\<lambda>c. c\<lparr>ct_t15 := ct_t15 c + 1,
                       ct_t15_unverified := ct_t15_unverified c + (if verified then 0 else 1)\<rparr>) s
          | Inl f \<Rightarrow> classify_t2_or_t3 env label p (mark_edit p (bump_counters f s))))"

text \<open>One line of a transcript; None is a line that is not UTF-8.\<close>

definition scan_value :: "import_env \<Rightarrow> string \<Rightarrow> json \<Rightarrow> scan \<Rightarrow> scan" where
  "scan_value env label v s =
     (if bookkeeping_only v then s
      else case value_get ''toolUseResult'' v of
        None \<Rightarrow>
          if is_tool_result_shaped v
          then (bump_counters (\<lambda>c. c\<lparr>ct_missing_result := ct_missing_result c + 1\<rparr>) s)\<lparr>sn_drift := True\<rparr>
          else s
      | Some tur \<Rightarrow>
          if is_sidechain v then bump_counters (\<lambda>c. c\<lparr>ct_sidechain := ct_sidechain c + 1\<rparr>) s
          else (case json_text ''filePath'' tur of
            None \<Rightarrow> (bump_counters (\<lambda>c. c\<lparr>ct_opaque := ct_opaque c + 1\<rparr>) s)
                      \<lparr>sn_opaque := sn_opaque s + 1, sn_entries := sn_entries s + 1\<rparr>
          | Some p \<Rightarrow> classify_file_entry env label tur p s))"

definition session_line :: "import_env \<Rightarrow> string \<Rightarrow> scan \<Rightarrow> string option \<Rightarrow> scan" where
  "session_line env label s outcome = (case outcome of
     None \<Rightarrow> bump_counters (\<lambda>c. c\<lparr>ct_non_utf8 := ct_non_utf8 c + 1\<rparr>) s
   | Some line \<Rightarrow>
       if trim line = [] then s
       else case ie_from_str env line of
         None \<Rightarrow> bump_counters (\<lambda>c. c\<lparr>ct_malformed := ct_malformed c + 1\<rparr>) s
       | Some v \<Rightarrow>
           scan_value env label v (harvest_backups v (note_cwd v
             ((note_id v (s\<lparr>sn_parsed := sn_parsed s + 1\<rparr>))
                \<lparr>sn_flagged := sn_flagged s + (if is_sidechain v then 1 else 0)\<rparr>))))"

definition new_scan :: "counters \<Rightarrow> debug_entry list \<Rightarrow> scan" where
  "new_scan c d = \<lparr>tx_id = None, tx_cwd = None, tx_backups = Map.empty, tx_edits = Map.empty, tx_pending = [],
     sn_parsed = 0, sn_drift = False, sn_flagged = 0, sn_opaque = 0, sn_entries = 0, sn_counters = c, sn_debug = d\<rparr>"

text \<open>What is known at the end of the file.\<close>

definition scan_end :: "import_env \<Rightarrow> rpath \<Rightarrow> scan \<Rightarrow> counters" where
  "scan_end env root s =
     (let no_cwd = (sn_parsed s > 0 \<and> tx_cwd s = None);
          c1 = (if no_cwd then (sn_counters s)\<lparr>ct_missing_cwd := ct_missing_cwd (sn_counters s) + 1\<rparr> else sn_counters s);
          drift = (sn_drift s \<or> no_cwd);
          entirely_sidechain = (sn_parsed s > 0 \<and> sn_flagged s = sn_parsed s);
          c2 = (if sn_parsed s > 0 \<and> \<not> drift \<and> \<not> entirely_sidechain
                then c1\<lparr>ct_importable := ct_importable c1 + 1\<rparr> else c1);
          c3 = (if (case tx_cwd s of Some cwd \<Rightarrow> path_is_under_root env (path_of cwd) root | None \<Rightarrow> False)
                then c2\<lparr>ct_in_root := ct_in_root c2 + 1\<rparr> else c2)
      in c3\<lparr>ct_opaque_shares := ct_opaque_shares c3 @ [(sn_opaque s, max 1 (sn_entries s))]\<rparr>)"

text \<open>A file is its name and its bytes, None when it cannot be opened as a regular file.\<close>

definition process_session_file :: "import_env \<Rightarrow> rpath \<Rightarrow> counters \<times> debug_entry list \<Rightarrow> string \<times> string option
    \<Rightarrow> counters \<times> debug_entry list" where
  "process_session_file env root acc f = (case (acc, f) of
     ((c, d), (label, None)) \<Rightarrow> (c\<lparr>ct_io_error := ct_io_error c + 1\<rparr>, d)
   | ((c, d), (label, Some body)) \<Rightarrow>
       (let s = foldl (session_line env label) (new_scan c d) (each_raw_line body) in (scan_end env root s, sn_debug s)))"

definition sidechain_line :: "import_env \<Rightarrow> counters \<Rightarrow> string option \<Rightarrow> counters" where
  "sidechain_line env c outcome = (case outcome of
     None \<Rightarrow> c\<lparr>ct_non_utf8 := ct_non_utf8 c + 1\<rparr>
   | Some line \<Rightarrow>
       if trim line = [] then c
       else case ie_from_str env line of
         None \<Rightarrow> c
       | Some v \<Rightarrow>
           if Option.bind (value_get ''toolUseResult'' v) (json_text ''filePath'') \<noteq> None
           then c\<lparr>ct_sidechain := ct_sidechain c + 1\<rparr> else c)"

definition harvest_sidechain_only :: "import_env \<Rightarrow> counters \<Rightarrow> string option \<Rightarrow> counters" where
  "harvest_sidechain_only env c body_opt = (case body_opt of
     None \<Rightarrow> c | Some body \<Rightarrow> foldl (sidechain_line env) c (each_raw_line body))"

text \<open>A project directory: its regular files, and those further down, by path.\<close>

record project_dir =
  pd_path :: string
  pd_files :: "(string \<times> string option) list"
  pd_nested :: "(string \<times> string option) list"

definition session_files :: "project_dir \<Rightarrow> (string \<times> string option) list" where
  "session_files d = sort_key fst (filter (\<lambda>(p, _). has_extension ''jsonl'' (file_name p)) (pd_files d))"

definition is_subagent_file :: "string \<Rightarrow> bool" where
  "is_subagent_file p \<longleftrightarrow> has_extension ''jsonl'' (file_name p) \<and> ''subagents'' \<in> set (components p)"

definition scan_project_dir :: "import_env \<Rightarrow> rpath \<Rightarrow> counters \<times> debug_entry list \<Rightarrow> project_dir
    \<Rightarrow> counters \<times> debug_entry list" where
  "scan_project_dir env root acc d =
     (case foldl (\<lambda>(c, dbg) f. process_session_file env root (c\<lparr>ct_sessions_total := ct_sessions_total c + 1\<rparr>, dbg) f)
             acc (session_files d) of
        (c, dbg) \<Rightarrow>
          (foldl (harvest_sidechain_only env) c (map snd (filter (\<lambda>(p, _). is_subagent_file p) (pd_nested d))), dbg))"

definition no_counters :: counters where
  "no_counters = \<lparr>ct_sessions_total = 0, ct_importable = 0, ct_in_root = 0, ct_t1 = 0, ct_t15 = 0, ct_t15_unverified = 0,
     ct_t15_rejected_unverifiable = 0, ct_t15_rejected_stale = 0, ct_t15_blob_missing = 0, ct_t15_rejected_unsafe = 0,
     ct_t2_candidate = 0, ct_t3 = 0, ct_opaque = 0, ct_sidechain = 0, ct_malformed = 0, ct_missing_cwd = 0,
     ct_missing_result = 0, ct_non_utf8 = 0, ct_io_error = 0, ct_secret = 0, ct_opaque_shares = []\<rparr>"

text \<open>What stands at the place of the transcripts.\<close>

datatype source_tree =
    NotADirectory
  | NoProjects
  | ProjectsUnreadable string
  | Projects "project_dir list"

datatype source_error = SourceMissing | LayoutMissing | ReadFailed string | NoHome | AppendFailed

definition default_source :: "string \<Rightarrow> string option \<Rightarrow> source_error + string" where
  "default_source dir home = (case home of
     Some h \<Rightarrow> if h \<noteq> [] then Inr (path_text (path_join (path_of h) (False, [dir]))) else Inl NoHome
   | None \<Rightarrow> Inl NoHome)"

definition project_dirs :: "source_tree \<Rightarrow> source_error + project_dir list" where
  "project_dirs t = (case t of
     NotADirectory \<Rightarrow> Inl SourceMissing
   | NoProjects \<Rightarrow> Inl LayoutMissing
   | ProjectsUnreadable e \<Rightarrow> Inl (ReadFailed e)
   | Projects ds \<Rightarrow> Inr (sort_key pd_path ds))"

definition source_dir :: "string \<Rightarrow> string option \<Rightarrow> string option \<Rightarrow> source_error + string" where
  "source_dir dir home given = (case given of Some s \<Rightarrow> Inr s | None \<Rightarrow> default_source dir home)"

definition run_claude_dry :: "import_env \<Rightarrow> (string \<Rightarrow> source_tree) \<Rightarrow> string option \<Rightarrow> rpath \<Rightarrow> string option
    \<Rightarrow> source_error + counters \<times> debug_entry list" where
  "run_claude_dry env tree home root given = (case source_dir ''.claude'' home given of
     Inl e \<Rightarrow> Inl e
   | Inr src \<Rightarrow> map_sum id (foldl (scan_project_dir env root) (no_counters, [])) (project_dirs (tree src)))"

end
