(* ===== verification/Import_Persist.thy ===== *)
theory Import_Persist
  imports Import Ids_Time
begin

text \<open>
  What \<open>import claude\<close> and \<open>import codex\<close> persist (cli/src/importcmd.rs, modules persist and codex):
  the turns of a transcript, the ladder that finds the bytes before an edit, the records, and the
  loop that appends them once. The fabrication oracle of debug builds is left out.
\<close>

subsection \<open>Turns of a transcript\<close>

record pending_turn =
  pt_index :: nat
  pt_prompt :: "string option"
  pt_started :: "string option"
  pt_ended :: "string option"
  pt_files :: "file_entry list"

definition new_turn :: "nat \<Rightarrow> pending_turn" where
  "new_turn n = \<lparr>pt_index = n, pt_prompt = None, pt_started = None, pt_ended = None, pt_files = []\<rparr>"

definition touch_ts :: "string \<Rightarrow> pending_turn \<Rightarrow> pending_turn" where
  "touch_ts ts t = t\<lparr>
     pt_started := (case pt_started t of Some s \<Rightarrow> if ts < s then Some ts else Some s | None \<Rightarrow> Some ts),
     pt_ended := (case pt_ended t of Some e \<Rightarrow> if ts > e then Some ts else Some e | None \<Rightarrow> Some ts)\<rparr>"

definition touch_opt :: "string option \<Rightarrow> pending_turn \<Rightarrow> pending_turn" where
  "touch_opt ts t = (case ts of Some s \<Rightarrow> touch_ts s t | None \<Rightarrow> t)"

record turns =
  tn_index :: nat
  tn_cur :: pending_turn
  tn_finished :: "pending_turn list"

definition no_turns :: turns where
  "no_turns = \<lparr>tn_index = 0, tn_cur = new_turn 0, tn_finished = []\<rparr>"

definition pending :: "pending_turn \<Rightarrow> bool" where
  "pending t \<longleftrightarrow> pt_prompt t \<noteq> None \<or> pt_files t \<noteq> []"

text \<open>A prompt ends the turn before it, unless that has neither a prompt nor files.\<close>

definition begin_turn :: "string \<Rightarrow> string option \<Rightarrow> turns \<Rightarrow> turns" where
  "begin_turn prompt ts s =
     (let s1 = (if pending (tn_cur s)
                then \<lparr>tn_index = tn_index s + 1, tn_cur = new_turn (tn_index s + 1),
                      tn_finished = tn_finished s @ [tn_cur s]\<rparr>
                else s)
      in s1\<lparr>tn_cur := touch_opt ts ((tn_cur s1)\<lparr>pt_prompt := Some prompt\<rparr>)\<rparr>)"

definition add_file :: "file_entry option \<Rightarrow> turns \<Rightarrow> turns" where
  "add_file e s = (case e of
     Some f \<Rightarrow> s\<lparr>tn_cur := (tn_cur s)\<lparr>pt_files := pt_files (tn_cur s) @ [f]\<rparr>\<rparr> | None \<Rightarrow> s)"

definition touch_turn :: "string option \<Rightarrow> turns \<Rightarrow> turns" where
  "touch_turn ts s = s\<lparr>tn_cur := touch_opt ts (tn_cur s)\<rparr>"

definition all_turns :: "turns \<Rightarrow> pending_turn list" where
  "all_turns s = tn_finished s @ (if pending (tn_cur s) then [tn_cur s] else [])"

definition is_genuine_user_prompt :: "json \<Rightarrow> bool" where
  "is_genuine_user_prompt v = (case value_get ''message'' v of
     Some (JObj fs) \<Rightarrow> json_text ''role'' (JObj fs) = Some ''user'' \<and> \<not> is_tool_result_shaped v
   | _ \<Rightarrow> False)"

definition joined_text :: "string list \<Rightarrow> string" where
  "joined_text ts = foldl (\<lambda>out t. (if out = [] then [] else out @ [NL]) @ t) [] ts"

definition extract_user_text :: "json \<Rightarrow> string option" where
  "extract_user_text v = (case Option.bind (value_get ''message'' v) (value_get ''content'') of
     None \<Rightarrow> None
   | Some c \<Rightarrow> (case dec_str c of
       Some s \<Rightarrow> if s = [] then None else Some s
     | None \<Rightarrow> (case json_items c of
         None \<Rightarrow> None
       | Some items \<Rightarrow>
           (let out = joined_text (List.map_filter
              (\<lambda>i. if json_text ''type'' i = Some ''text'' then json_text ''text'' i else None) items)
            in if out = [] then None else Some out))))"

subsection \<open>Blobs\<close>

record blobs =
  bl_store :: store
  bl_puts :: nat

definition put_next :: "import_env \<Rightarrow> string \<Rightarrow> blobs \<Rightarrow> put_outcome \<times> blobs" where
  "put_next env bs b = (case ie_put env (bl_puts b) of (io, touch_ok, now) \<Rightarrow>
     (case put_result (ie_sha env) io touch_ok now bs (bl_store b) of
        (out, s) \<Rightarrow> (out, \<lparr>bl_store = s, bl_puts = bl_puts b + 1\<rparr>)))"

text \<open>The reference of one side, or why there is none.\<close>

definition put_side :: "import_env \<Rightarrow> string option \<Rightarrow> blobs \<Rightarrow> (string + hash option) \<times> blobs" where
  "put_side env side b = (case side of
     None \<Rightarrow> (Inr None, b)
   | Some bs \<Rightarrow> (case put_next env bs b of
       (Stored h _ _, b') \<Rightarrow> (Inr (Some h), b')
     | (OverCap, b') \<Rightarrow> (Inl ''over_cap'', b')
     | (IoError _, b') \<Rightarrow> (Inl ''io_failed'', b')))"

text \<open>Both sides or neither; the second is not tried when the first fails.\<close>

definition put_sides :: "import_env \<Rightarrow> string option \<Rightarrow> string option \<Rightarrow> blobs \<Rightarrow> (string + hash option \<times> hash option) \<times> blobs" where
  "put_sides env before after b = (case put_side env before b of
     (Inl reason, b1) \<Rightarrow> (Inl reason, b1)
   | (Inr bref, b1) \<Rightarrow> (case put_side env after b1 of
       (Inl reason, b2) \<Rightarrow> (Inl reason, b2)
     | (Inr aref, b2) \<Rightarrow> (Inr (bref, aref), b2)))"

definition imported_entry :: "string \<Rightarrow> string \<Rightarrow> bool \<Rightarrow> file_entry" where
  "imported_entry p op withheld = \<lparr>fe_path = p, fe_before = None, fe_after = None, fe_op = op, fe_skipped = False,
     fe_withheld = withheld, fe_baseline_unknown = False, fe_skipped_reason = None, fe_after_synthesized = None,
     fe_link_kind = None, fe_attribution = None\<rparr>"

definition with_sides :: "file_entry \<Rightarrow> string + hash option \<times> hash option \<Rightarrow> file_entry" where
  "with_sides e r = (case r of
     Inl reason \<Rightarrow> e\<lparr>fe_skipped := True, fe_skipped_reason := Some reason\<rparr>
   | Inr (b, a) \<Rightarrow> e\<lparr>fe_before := b, fe_after := a\<rparr>)"

subsection \<open>The blob of a commit\<close>

definition bytes_find :: "string \<Rightarrow> string \<Rightarrow> nat option" where
  "bytes_find haystack needle =
     (if needle = [] \<or> length needle > length haystack then None
      else List.find (\<lambda>i. take (length needle) (drop i haystack) = needle) [0 ..< length haystack - length needle + 1])"

text \<open>Occurrences that do not overlap, from the left.\<close>

function bytes_count :: "string \<Rightarrow> string \<Rightarrow> nat" where
  "bytes_count haystack needle =
     (if needle = [] \<or> length needle > length haystack then 0
      else if take (length needle) haystack = needle then 1 + bytes_count (drop (length needle) haystack) needle
      else bytes_count (tl haystack) needle)"
  by auto
termination
proof (relation "measure (\<lambda>(h, n). length h)")
  fix h n :: string
  assume "\<not> (n = [] \<or> length n > length h)"
  then show "((drop (length n) h, n), (h, n)) \<in> measure (\<lambda>(h, n). length h)"
    and "((tl h, n), (h, n)) \<in> measure (\<lambda>(h, n). length h)"
    by (cases n; cases h; auto)+
qed simp

declare bytes_count.simps [simp del]

definition expected_old_start_line :: "json option \<Rightarrow> nat option" where
  "expected_old_start_line patch = (case Option.bind patch json_items of
     Some (hunk # _) \<Rightarrow> Option.bind (value_get ''oldStart'' hunk) dec_u64 | _ \<Rightarrow> None)"

record t2_counters =
  t2_resolved :: nat
  t2_no_commit :: nat
  t2_blob_missing :: nat
  t2_rejected_unverifiable :: nat
  t2_no_oldstring :: nat
  t2_rejected_prior_edit :: nat

definition line_of :: "string \<Rightarrow> nat \<Rightarrow> nat" where
  "line_of bytes offset = length (filter (\<lambda>c. c = NL) (take offset bytes)) + 1"

definition accept_blob :: "string option \<Rightarrow> json option \<Rightarrow> string \<Rightarrow> t2_counters \<Rightarrow> string option \<times> t2_counters" where
  "accept_blob old_string patch bytes c = (case old_string of
     Some old \<Rightarrow>
       if old = [] then (None, c\<lparr>t2_no_oldstring := t2_no_oldstring c + 1\<rparr>)
       else if bytes_count bytes old \<noteq> 1 then (None, c\<lparr>t2_rejected_unverifiable := t2_rejected_unverifiable c + 1\<rparr>)
       else if (case (bytes_find bytes old, expected_old_start_line patch) of
                  (Some offset, Some expected) \<Rightarrow> line_of bytes offset = expected | _ \<Rightarrow> True)
       then (Some bytes, c\<lparr>t2_resolved := t2_resolved c + 1\<rparr>)
       else (None, c\<lparr>t2_rejected_unverifiable := t2_rejected_unverifiable c + 1\<rparr>)
   | None \<Rightarrow> (None, c\<lparr>t2_no_oldstring := t2_no_oldstring c + 1\<rparr>))"

fun path_parent :: "rpath \<Rightarrow> rpath option" where
  "path_parent (a, c) = (if c = [] then None else Some (a, butlast c))"

definition resolve_t2_before :: "import_env \<Rightarrow> rpath \<Rightarrow> string option \<Rightarrow> string option \<Rightarrow> json option \<Rightarrow> nat
    \<Rightarrow> t2_counters \<Rightarrow> string option \<times> t2_counters" where
  "resolve_t2_before env p line_ts old_string patch prior c =
     (if prior > 0 then (None, c\<lparr>t2_rejected_prior_edit := t2_rejected_prior_edit c + 1\<rparr>)
      else case (line_ts, Option.bind (path_parent p) (repo_root env)) of
        (Some ts, Some root) \<Rightarrow> (case path_under root p of
          None \<Rightarrow> (None, c)
        | Some rel \<Rightarrow> (case ie_git_log env root ts rel of
            None \<Rightarrow> (None, c)
          | Some (ok, out) \<Rightarrow>
              (let commit = trim (utf8_lossy out) in
               if \<not> ok \<or> commit = [] then (None, c\<lparr>t2_no_commit := t2_no_commit c + 1\<rparr>)
               else case ie_git_show env root commit rel of
                 None \<Rightarrow> (None, c)
               | Some (ok', bytes) \<Rightarrow>
                   if \<not> ok' then (None, c\<lparr>t2_blob_missing := t2_blob_missing c + 1\<rparr>)
                   else accept_blob old_string patch bytes c)))
      | _ \<Rightarrow> (None, c))"

subsection \<open>One file entry\<close>

record t15_counters =
  t15_rejected_stale :: nat
  t15_rejected_unsafe :: nat
  t15_blob_missing :: nat
  t15_rejected_unverifiable :: nat

fun t15_refusal :: "backup_refusal \<Rightarrow> t15_counters \<Rightarrow> t15_counters" where
  "t15_refusal UnsafePath c = c\<lparr>t15_rejected_unsafe := t15_rejected_unsafe c + 1\<rparr>"
| "t15_refusal BlobMissing c = c\<lparr>t15_blob_missing := t15_blob_missing c + 1\<rparr>"
| "t15_refusal Unverifiable c = c\<lparr>t15_rejected_unverifiable := t15_rejected_unverifiable c + 1\<rparr>"

record session = transcript +
  ps_turns :: turns
  ps_counts :: "string \<rightharpoonup> nat"
  ps_blobs :: blobs
  ps_t2 :: t2_counters
  ps_t15 :: t15_counters
  ps_out_of_cwd :: nat

text \<open>The rung of the backups.\<close>

definition resolve_backup :: "import_env \<Rightarrow> json \<Rightarrow> string \<Rightarrow> string \<Rightarrow> session \<Rightarrow> string option \<times> t15_counters" where
  "resolve_backup env tur p name s =
     (if edits_since p s > 0 then (None, (ps_t15 s)\<lparr>t15_rejected_stale := t15_rejected_stale (ps_t15 s) + 1\<rparr>)
      else case tx_id s of
        None \<Rightarrow> (None, ps_t15 s)
      | Some sid \<Rightarrow> (case backup_bytes env sid name (json_text ''oldString'' tur) of
          Inl r \<Rightarrow> (None, t15_refusal r (ps_t15 s))
        | Inr (bytes, _) \<Rightarrow> (Some bytes, ps_t15 s)))"

text \<open>The bytes before, and the operation.\<close>

definition resolve_before :: "import_env \<Rightarrow> json \<Rightarrow> string \<Rightarrow> string option \<Rightarrow> rpath \<Rightarrow> nat \<Rightarrow> session
    \<Rightarrow> string option \<times> string \<times> session" where
  "resolve_before env tur p line_ts target prior s =
     (let t2 = (\<lambda>s. case resolve_t2_before env target line_ts (json_text ''oldString'' tur)
                            (value_get ''structuredPatch'' tur) prior (ps_t2 s) of
                  (b, c) \<Rightarrow> (b, ''modify'', s\<lparr>ps_t2 := c\<rparr>)) in
      case json_text ''originalFile'' tur of
        Some orig \<Rightarrow> (Some orig, ''modify'', mark_edit p s)
      | None \<Rightarrow>
          if json_text ''type'' tur = Some ''create'' then (None, ''create'', mark_edit p s)
          else (case tx_backups s p of
            Some name \<Rightarrow> (case resolve_backup env tur p name s of
              (Some bytes, c) \<Rightarrow> (Some bytes, ''modify'', mark_edit p (s\<lparr>ps_t15 := c\<rparr>))
            | (None, c) \<Rightarrow> t2 (mark_edit p (s\<lparr>ps_t15 := c\<rparr>)))
          | None \<Rightarrow> t2 (mark_edit p s)))"

text \<open>\<open>str::replace\<close> and \<open>replacen(.., 1)\<close>; an empty text stands before every character and at the end.\<close>

fun utf8_chars :: "string \<Rightarrow> string list" where
  "utf8_chars [] = []"
| "utf8_chars (c # cs) = (case utf8_chars cs of
     [] \<Rightarrow> [[c]]
   | w # ws \<Rightarrow> if byte_in 0x80 0xBF (hd w) then (c # w) # ws else [c] # w # ws)"

definition replace_all :: "string \<Rightarrow> string \<Rightarrow> string \<Rightarrow> string" where
  "replace_all old new s =
     (if old = [] then new @ concat (map (\<lambda>ch. ch @ new) (utf8_chars s))
      else join_with new (split_str old s))"

definition replace_first :: "string \<Rightarrow> string \<Rightarrow> string \<Rightarrow> string" where
  "replace_first old new s = (case str_find s old of
     Some i \<Rightarrow> take i s @ new @ drop (i + length old) s | None \<Rightarrow> s)"

definition after_bytes :: "json \<Rightarrow> string option \<Rightarrow> string option" where
  "after_bytes tur before = (case json_text ''content'' tur of
     Some c \<Rightarrow> Some c
   | None \<Rightarrow> (case (json_text ''oldString'' tur, json_text ''newString'' tur) of
       (Some old, Some new) \<Rightarrow>
         map_option (if json_bool ''replaceAll'' tur = Some True then replace_all old new else replace_first old new)
           (case json_text ''originalFile'' tur of
              Some orig \<Rightarrow> Some orig
            | None \<Rightarrow> (case before of Some b \<Rightarrow> if utf8_valid b then Some b else None | None \<Rightarrow> None))
     | _ \<Rightarrow> None))"

text \<open>The absolute path of an entry, and its path in the repository.\<close>

definition entry_target :: "import_env \<Rightarrow> string \<Rightarrow> rpath \<Rightarrow> rpath option" where
  "entry_target env cwd rel = map_option (\<lambda>c. normal_path (path_join (True, c) rel)) (ie_canon env (path_of cwd))"

definition entry_path :: "rpath \<Rightarrow> rpath \<Rightarrow> string option" where
  "entry_path root target = (case path_under root target of
     None \<Rightarrow> None
   | Some rel \<Rightarrow> if utf8_lossy (path_text rel) = [] then None else Some (utf8_lossy (path_text rel)))"

definition count_of :: "(string \<rightharpoonup> nat) \<Rightarrow> string \<Rightarrow> nat" where
  "count_of m k = (case m k of Some n \<Rightarrow> n | None \<Rightarrow> 0)"

definition classify_and_resolve :: "import_env \<Rightarrow> rpath \<Rightarrow> json \<Rightarrow> string \<Rightarrow> string option \<Rightarrow> session
    \<Rightarrow> file_entry option \<times> session" where
  "classify_and_resolve env root tur p line_ts s = (case tx_cwd s of
     None \<Rightarrow> (None, s)
   | Some cwd \<Rightarrow> (case path_under (path_of cwd) (path_of p) of
       None \<Rightarrow> (None, s\<lparr>ps_out_of_cwd := ps_out_of_cwd s + 1\<rparr>)
     | Some rel \<Rightarrow> (case entry_target env cwd rel of
         None \<Rightarrow> (None, s)
       | Some target \<Rightarrow>
           (let key = utf8_lossy (path_text target);
                prior = count_of (ps_counts s) key;
                s1 = s\<lparr>ps_counts := (ps_counts s)(key \<mapsto> prior + 1)\<rparr> in
            case entry_path root target of
              None \<Rightarrow> (None, s1)
            | Some path \<Rightarrow>
                if is_secret_path (ie_lower env) path
                then (Some (imported_entry path (if json_text ''type'' tur = Some ''create'' then ''create'' else ''modify'') True),
                      mark_edit p s1)
                else (case resolve_before env tur p line_ts target prior s1 of
                  (before, op, s2) \<Rightarrow>
                    (case put_sides env before (after_bytes tur before) (ps_blobs s2) of
                       (sides, b) \<Rightarrow>
                         (let e = with_sides (imported_entry path op False) sides in
                          (Some (e\<lparr>fe_after_synthesized :=
                             (if json_text ''content'' tur = None \<and> fe_after e \<noteq> None then Some True else None)\<rparr>),
                           s2\<lparr>ps_blobs := b\<rparr>))))))))"

subsection \<open>One session of Claude Code\<close>

definition persist_value :: "import_env \<Rightarrow> rpath \<Rightarrow> json \<Rightarrow> session \<Rightarrow> session" where
  "persist_value env root v s =
     (let ts = json_text ''timestamp'' v in
      if bookkeeping_only v then s
      else case (if \<not> is_sidechain v \<and> is_genuine_user_prompt v then extract_user_text v else None) of
        Some prompt \<Rightarrow> s\<lparr>ps_turns := begin_turn prompt ts (ps_turns s)\<rparr>
      | None \<Rightarrow> (case value_get ''toolUseResult'' v of
          None \<Rightarrow> s
        | Some tur \<Rightarrow>
            if is_sidechain v then s
            else (case json_text ''filePath'' tur of
              None \<Rightarrow> s
            | Some p \<Rightarrow>
                (case classify_and_resolve env root tur p ts (s\<lparr>ps_turns := touch_turn ts (ps_turns s)\<rparr>) of
                   (e, s') \<Rightarrow> s'\<lparr>ps_turns := add_file e (ps_turns s')\<rparr>))))"

definition persist_line :: "import_env \<Rightarrow> rpath \<Rightarrow> session \<Rightarrow> string option \<Rightarrow> session" where
  "persist_line env root s outcome = (case outcome of
     None \<Rightarrow> s
   | Some line \<Rightarrow>
       if trim line = [] then s
       else case ie_from_str env line of
         None \<Rightarrow> s
       | Some v \<Rightarrow> persist_value env root v (harvest_backups v (note_cwd v (note_id v s))))"

definition deterministic_turn_id :: "(string \<Rightarrow> string) \<Rightarrow> string \<Rightarrow> nat \<Rightarrow> string" where
  "deterministic_turn_id sha sid n =
     ''t_imp_'' @ take 26 (strip_hash_prefix (hash_bytes sha (sid @ '':'' @ decimal n)))"

definition prompt_of :: "import_env \<Rightarrow> string option \<Rightarrow> blobs \<Rightarrow> (hash option \<times> string option) \<times> blobs" where
  "prompt_of env prompt b = (case prompt of
     None \<Rightarrow> ((None, None), b)
   | Some t \<Rightarrow> (case put_next env (ie_scrub env t) b of
       (out, b') \<Rightarrow> (((case out of Stored h _ _ \<Rightarrow> Some h | _ \<Rightarrow> None), Some (ie_excerpt env t)), b')))"

definition imported_turn :: "import_env \<Rightarrow> string \<Rightarrow> string \<Rightarrow> string \<Rightarrow> pending_turn \<Rightarrow> blobs \<Rightarrow> turn_record \<times> blobs" where
  "imported_turn env tool root sid t b = (case prompt_of env (pt_prompt t) b of
     ((pref, brief), b') \<Rightarrow>
       (let started = (case pt_started t of Some s \<Rightarrow> s | None \<Rightarrow> ''1970-01-01T00:00:00.000Z'') in
        (\<lparr>tr_v = 1, tr_id = deterministic_turn_id (ie_sha env) sid (pt_index t), tr_grade = ''rich'', tr_truncated = False,
          tr_started = started, tr_ended = (case pt_ended t of Some e \<Rightarrow> e | None \<Rightarrow> started), tr_tool = Some tool,
          tr_model = None, tr_session = Some sid, tr_root = root, tr_prompt_ref = pref, tr_prompt_excerpt = brief,
          tr_merges = [], tr_imported = Some True, tr_files_complete = Some False, tr_origin = None,
          tr_files = pt_files t\<rparr>, b')))"

text \<open>Turns without files are left out.\<close>

fun imported_turns :: "import_env \<Rightarrow> string \<Rightarrow> string \<Rightarrow> string \<Rightarrow> pending_turn list \<Rightarrow> blobs \<Rightarrow> turn_record list \<times> blobs" where
  "imported_turns env tool root sid [] b = ([], b)"
| "imported_turns env tool root sid (t # ts) b =
     (if pt_files t = [] then imported_turns env tool root sid ts b
      else case imported_turn env tool root sid t b of (r, b1) \<Rightarrow>
        (case imported_turns env tool root sid ts b1 of (rs, b2) \<Rightarrow> (r # rs, b2)))"

text \<open>What a session that is in scope leaves: its id, when it is under the root.\<close>

definition in_scope :: "import_env \<Rightarrow> rpath \<Rightarrow> string option \<Rightarrow> string option \<Rightarrow> string option" where
  "in_scope env root cwd sid = (case Option.bind cwd (\<lambda>c. ie_canon env (path_of c)) of
     None \<Rightarrow> None
   | Some c \<Rightarrow> if path_under root (True, c) = None then None else sid)"

record import_state =
  is_blobs :: blobs
  is_t2 :: t2_counters
  is_t15 :: t15_counters
  is_out :: nat

definition start_session :: "import_state \<Rightarrow> session" where
  "start_session st = \<lparr>tx_id = None, tx_cwd = None, tx_backups = Map.empty, tx_edits = Map.empty, tx_pending = [],
     ps_turns = no_turns, ps_counts = Map.empty, ps_blobs = is_blobs st, ps_t2 = is_t2 st, ps_t15 = is_t15 st,
     ps_out_of_cwd = is_out st\<rparr>"

definition persist_session_file :: "import_env \<Rightarrow> string \<Rightarrow> rpath \<Rightarrow> import_state \<Rightarrow> string option
    \<Rightarrow> turn_record list \<times> import_state" where
  "persist_session_file env root_name root st body_opt = (case body_opt of
     None \<Rightarrow> ([], st)
   | Some body \<Rightarrow>
       (let s = foldl (persist_line env root) (start_session st) (each_raw_line body);
            st' = \<lparr>is_blobs = ps_blobs s, is_t2 = ps_t2 s, is_t15 = ps_t15 s, is_out = ps_out_of_cwd s\<rparr> in
        case in_scope env root (tx_cwd s) (tx_id s) of
          None \<Rightarrow> ([], st')
        | Some sid \<Rightarrow>
            (case imported_turns env ''claude'' root_name sid (all_turns (ps_turns s)) (ps_blobs s) of
               (rs, b) \<Rightarrow> (rs, st'\<lparr>is_blobs := b\<rparr>))))"

subsection \<open>The loop\<close>

text \<open>\<open>ok k\<close> is whether the append number \<open>k\<close> succeeds; the first that fails ends the run.\<close>

record import_run =
  ir_ids :: "string list"
  ir_dups :: nat
  ir_log :: "turn_record list"
  ir_failed :: bool

definition import_record :: "string set \<Rightarrow> (nat \<Rightarrow> bool) \<Rightarrow> import_run \<Rightarrow> turn_record \<Rightarrow> import_run" where
  "import_record existing ok r t =
     (if ir_failed r \<or> tr_id t \<in> existing then r
      else if tr_id t \<in> set (ir_ids r) then r\<lparr>ir_dups := ir_dups r + 1\<rparr>
      else if ok (length (ir_log r)) then r\<lparr>ir_ids := ir_ids r @ [tr_id t], ir_log := ir_log r @ [t]\<rparr>
      else r\<lparr>ir_ids := ir_ids r @ [tr_id t], ir_failed := True\<rparr>)"

definition import_file :: "('st \<Rightarrow> string option \<Rightarrow> turn_record list \<times> 'st) \<Rightarrow> string set \<Rightarrow> (nat \<Rightarrow> bool)
    \<Rightarrow> import_run \<times> 'st \<Rightarrow> string option \<Rightarrow> import_run \<times> 'st" where
  "import_file persist existing ok acc f = (case acc of (r, st) \<Rightarrow>
     if ir_failed r then (r, st)
     else case persist st f of (rs, st') \<Rightarrow> (foldl (import_record existing ok) r rs, st'))"

definition turn_ids :: "log_record list \<Rightarrow> string set" where
  "turn_ids rs = set (List.map_filter (\<lambda>r. case r of Turn t \<Rightarrow> Some (tr_id t) | Epoch _ \<Rightarrow> None) rs)"

definition import_files :: "('st \<Rightarrow> string option \<Rightarrow> turn_record list \<times> 'st) \<Rightarrow> log_record list \<Rightarrow> (nat \<Rightarrow> bool)
    \<Rightarrow> 'st \<Rightarrow> string option list \<Rightarrow> import_run \<times> 'st" where
  "import_files persist log ok st fs = foldl (import_file persist (turn_ids log) ok)
     (\<lparr>ir_ids = [], ir_dups = 0, ir_log = [], ir_failed = False\<rparr>, st) fs"

definition fresh_import :: "blobs \<Rightarrow> import_state" where
  "fresh_import b = \<lparr>is_blobs = b,
     is_t2 = \<lparr>t2_resolved = 0, t2_no_commit = 0, t2_blob_missing = 0, t2_rejected_unverifiable = 0, t2_no_oldstring = 0,
              t2_rejected_prior_edit = 0\<rparr>,
     is_t15 = \<lparr>t15_rejected_stale = 0, t15_rejected_unsafe = 0, t15_blob_missing = 0, t15_rejected_unverifiable = 0\<rparr>,
     is_out = 0\<rparr>"

text \<open>The result is what was done, with the error when an append failed.\<close>

definition run_claude :: "import_env \<Rightarrow> (string \<Rightarrow> source_tree) \<Rightarrow> string option \<Rightarrow> string \<Rightarrow> string option
    \<Rightarrow> log_record list \<Rightarrow> (nat \<Rightarrow> bool) \<Rightarrow> store \<Rightarrow> source_error + import_run \<times> import_state" where
  "run_claude env tree home root_name given log ok s = (case source_dir ''.claude'' home given of
     Inl e \<Rightarrow> Inl e
   | Inr src \<Rightarrow> map_sum id (\<lambda>dirs.
       import_files (persist_session_file env root_name (canon_or_self env (path_of root_name))) log ok
         (fresh_import \<lparr>bl_store = s, bl_puts = 0\<rparr>)
         (concat (map (\<lambda>d. map snd (session_files d)) dirs))) (project_dirs (tree src)))"

end
