(* ===== verification/Import_Codex.thy ===== *)
theory Import_Codex
  imports Import_Persist
begin

text \<open>
  \<open>import codex\<close> (cli/src/importcmd.rs, module codex): the scan of its rollout files and what it
  persists. Records and the appending loop are those of Import_Persist; the code has them twice.
\<close>

definition pointer_text :: "string \<Rightarrow> json \<Rightarrow> string option" where
  "pointer_text k v = Option.bind (value_get ''payload'' v) (json_text k)"

text \<open>The rollout files among the files of the walk, in the order of their paths.\<close>

definition rollout_name :: "string \<Rightarrow> bool" where
  "rollout_name n \<longleftrightarrow> starts_with n ''rollout-'' \<and> ends_with n ''.jsonl''"

definition find_rollout_files :: "(string \<times> string option) list \<Rightarrow> (string \<times> string option) list" where
  "find_rollout_files fs = sort_key (\<lambda>(p, _). components p) (filter (\<lambda>(p, _). rollout_name (file_name p)) fs)"

definition codex_cwd :: "json \<Rightarrow> string option \<Rightarrow> string option" where
  "codex_cwd v cwd =
     (if cwd = None \<and> (json_text ''type'' v = Some ''session_meta'' \<or> json_text ''type'' v = Some ''turn_context'')
      then pointer_text ''cwd'' v else cwd)"

text \<open>The changes of a patch that was applied.\<close>

definition applied_changes :: "json \<Rightarrow> (string \<times> json) list option" where
  "applied_changes v =
     (if Option.bind (value_get ''payload'' v) (json_bool ''success'') \<noteq> Some True then None
      else Option.bind (Option.bind (value_get ''payload'' v) (value_get ''changes'')) json_members)"

subsection \<open>The dry run\<close>

record codex_scan =
  xs_cwd :: "string option"
  xs_parsed :: bool
  xs_opaque :: nat
  xs_entries :: nat
  xs_counters :: counters
  xs_debug :: "debug_entry list"

definition codex_count :: "(counters \<Rightarrow> counters) \<Rightarrow> codex_scan \<Rightarrow> codex_scan" where
  "codex_count f s = s\<lparr>xs_counters := f (xs_counters s)\<rparr>"

definition codex_debug :: "import_env \<Rightarrow> debug_entry \<Rightarrow> codex_scan \<Rightarrow> codex_scan" where
  "codex_debug env e s = (if ie_debug env then s\<lparr>xs_debug := xs_debug s @ [e]\<rparr> else s)"

definition classify_codex_change :: "import_env \<Rightarrow> string \<Rightarrow> string \<times> json \<Rightarrow> codex_scan \<Rightarrow> codex_scan" where
  "classify_codex_change env label pc s = (case pc of (p, change) \<Rightarrow>
     if is_secret_path (ie_lower env) p
     then codex_debug env (label, p, ''secret_path'', None) (codex_count (\<lambda>c. c\<lparr>ct_secret := ct_secret c + 1\<rparr>) s)
     else if json_text ''type'' change = Some ''add'' \<or> json_text ''type'' change = Some ''delete''
     then codex_debug env (label, p, ''t1'',
            map_option (\<lambda>c. strip_hash_prefix (hash_bytes (ie_sha env) c)) (json_text ''content'' change))
          (codex_count (\<lambda>c. c\<lparr>ct_t1 := ct_t1 c + 1\<rparr>) s)
     else if json_text ''type'' change = Some ''update''
       \<and> (case xs_cwd s of Some cwd \<Rightarrow> is_tracked env (path_of cwd) p | None \<Rightarrow> False)
     then codex_debug env (label, p, ''t2_candidate'', None)
          (codex_count (\<lambda>c. c\<lparr>ct_t2_candidate := ct_t2_candidate c + 1\<rparr>) s)
     else codex_debug env (label, p, ''t3'', None) (codex_count (\<lambda>c. c\<lparr>ct_t3 := ct_t3 c + 1\<rparr>) s))"

definition codex_change :: "import_env \<Rightarrow> string \<Rightarrow> codex_scan \<Rightarrow> string \<times> json \<Rightarrow> codex_scan" where
  "codex_change env label s pc = classify_codex_change env label pc (s\<lparr>xs_entries := xs_entries s + 1\<rparr>)"

definition codex_value :: "import_env \<Rightarrow> string \<Rightarrow> json \<Rightarrow> codex_scan \<Rightarrow> codex_scan" where
  "codex_value env label v s =
     (if json_text ''type'' v = Some ''event_msg'' then
        (if pointer_text ''type'' v = Some ''patch_apply_end''
         then (case applied_changes v of None \<Rightarrow> s | Some cs \<Rightarrow> foldl (codex_change env label) s cs)
         else s)
      else if json_text ''type'' v = Some ''response_item''
        \<and> (pointer_text ''type'' v = Some ''function_call'' \<or> pointer_text ''type'' v = Some ''custom_tool_call'')
        \<and> pointer_text ''name'' v \<noteq> Some ''apply_patch''
      then (codex_count (\<lambda>c. c\<lparr>ct_opaque := ct_opaque c + 1\<rparr>) s)
             \<lparr>xs_opaque := xs_opaque s + 1, xs_entries := xs_entries s + 1\<rparr>
      else s)"

definition codex_line :: "import_env \<Rightarrow> string \<Rightarrow> codex_scan \<Rightarrow> string option \<Rightarrow> codex_scan" where
  "codex_line env label s outcome = (case outcome of
     None \<Rightarrow> codex_count (\<lambda>c. c\<lparr>ct_non_utf8 := ct_non_utf8 c + 1\<rparr>) s
   | Some line \<Rightarrow>
       if trim line = [] then s
       else case ie_from_str env line of
         None \<Rightarrow> codex_count (\<lambda>c. c\<lparr>ct_malformed := ct_malformed c + 1\<rparr>) s
       | Some v \<Rightarrow> codex_value env label v (s\<lparr>xs_parsed := True, xs_cwd := codex_cwd v (xs_cwd s)\<rparr>))"

definition codex_end :: "import_env \<Rightarrow> rpath \<Rightarrow> codex_scan \<Rightarrow> counters" where
  "codex_end env root s =
     (let c0 = xs_counters s;
          c1 = (if \<not> xs_parsed s then c0
                else if xs_cwd s = None then c0\<lparr>ct_missing_cwd := ct_missing_cwd c0 + 1\<rparr>
                else c0\<lparr>ct_importable := ct_importable c0 + 1\<rparr>);
          c2 = (if (case xs_cwd s of Some cwd \<Rightarrow> path_is_under_root env (path_of cwd) root | None \<Rightarrow> False)
                then c1\<lparr>ct_in_root := ct_in_root c1 + 1\<rparr> else c1)
      in c2\<lparr>ct_opaque_shares := ct_opaque_shares c2 @ [(xs_opaque s, max 1 (xs_entries s))]\<rparr>)"

definition scan_codex_file :: "import_env \<Rightarrow> rpath \<Rightarrow> counters \<times> debug_entry list \<Rightarrow> string \<times> string option
    \<Rightarrow> counters \<times> debug_entry list" where
  "scan_codex_file env root acc f = (case (acc, f) of
     ((c, d), (label, None)) \<Rightarrow> (c\<lparr>ct_sessions_total := ct_sessions_total c + 1, ct_io_error := ct_io_error c + 1\<rparr>, d)
   | ((c, d), (label, Some body)) \<Rightarrow>
       (let s = foldl (codex_line env label)
             \<lparr>xs_cwd = None, xs_parsed = False, xs_opaque = 0, xs_entries = 0,
              xs_counters = c\<lparr>ct_sessions_total := ct_sessions_total c + 1\<rparr>, xs_debug = d\<rparr> (each_raw_line body)
        in (codex_end env root s, xs_debug s)))"

text \<open>What stands at the place of the rollout files; a walk skips what it cannot read.\<close>

datatype codex_tree = CodexNotADirectory | NoSessions | Rollouts "(string \<times> string option) list"

definition codex_files :: "codex_tree \<Rightarrow> source_error + (string \<times> string option) list" where
  "codex_files t = (case t of
     CodexNotADirectory \<Rightarrow> Inl SourceMissing
   | NoSessions \<Rightarrow> Inl LayoutMissing
   | Rollouts fs \<Rightarrow> Inr (find_rollout_files fs))"

definition run_codex_dry :: "import_env \<Rightarrow> (string \<Rightarrow> codex_tree) \<Rightarrow> string option \<Rightarrow> rpath \<Rightarrow> string option
    \<Rightarrow> source_error + counters \<times> debug_entry list" where
  "run_codex_dry env tree home root given = (case source_dir ''.codex'' home given of
     Inl e \<Rightarrow> Inl e
   | Inr src \<Rightarrow> map_sum id (foldl (scan_codex_file env root) (no_counters, [])) (codex_files (tree src)))"

subsection \<open>One file entry\<close>

definition codex_target :: "import_env \<Rightarrow> string option \<Rightarrow> string \<Rightarrow> rpath" where
  "codex_target env cwd p = (case Option.bind cwd (\<lambda>c. map_option (Pair c) (path_under (path_of c) (path_of p))) of
     Some (c, rel) \<Rightarrow> (case ie_canon env (path_of c) of
       Some cc \<Rightarrow> normal_path (path_join (True, cc) rel)
     | None \<Rightarrow> normal_path (path_of p))
   | None \<Rightarrow> normal_path (path_of p))"

definition codex_rel :: "rpath \<Rightarrow> rpath \<Rightarrow> string option" where
  "codex_rel root target = (case path_under root target of
     None \<Rightarrow> None
   | Some rel \<Rightarrow> if path_text rel = [] then None else Some (utf8_lossy (path_text rel)))"

text \<open>The bytes before and after, the operation, and whether the state before is unknown.\<close>

definition codex_sides :: "json \<Rightarrow> (string option \<times> string option \<times> string \<times> bool) option" where
  "codex_sides change =
     (let known = json_text ''content'' change in
      if json_text ''type'' change = Some ''add'' then Some (None, known, ''create'', False)
      else if json_text ''type'' change = Some ''delete'' then Some (known, None, ''delete'', known = None)
      else if json_text ''type'' change = Some ''update'' then Some (None, None, ''modify'', True)
      else None)"

definition codex_op :: "json \<Rightarrow> string" where
  "codex_op change = (case json_text ''type'' change of
     Some t \<Rightarrow> if t = ''add'' then ''create'' else if t = ''delete'' then ''delete'' else ''modify''
   | None \<Rightarrow> ''modify'')"

definition resolve_codex_file_entry :: "import_env \<Rightarrow> rpath \<Rightarrow> string option \<Rightarrow> string \<Rightarrow> json \<Rightarrow> blobs \<times> nat
    \<Rightarrow> file_entry option \<times> blobs \<times> nat" where
  "resolve_codex_file_entry env root cwd p change acc = (case acc of (b, out) \<Rightarrow>
     (case codex_rel root (codex_target env cwd p) of
        None \<Rightarrow> (None, b, out + 1)
      | Some rel \<Rightarrow>
          if is_secret_path (ie_lower env) rel then (Some (imported_entry rel (codex_op change) True), b, out)
          else (case codex_sides change of
            None \<Rightarrow> (None, b, out)
          | Some (before, after, op, unknown) \<Rightarrow>
              (case put_sides env before after b of (sides, b') \<Rightarrow>
                (Some (with_sides ((imported_entry rel op False)\<lparr>fe_baseline_unknown := unknown\<rparr>) sides), b', out)))))"

subsection \<open>One session\<close>

record codex_session =
  cx_id :: "string option"
  cx_cwd :: "string option"
  cx_turns :: turns
  cx_blobs :: blobs
  cx_out :: nat

definition codex_file :: "import_env \<Rightarrow> rpath \<Rightarrow> string option \<Rightarrow> codex_session \<Rightarrow> string \<times> json \<Rightarrow> codex_session" where
  "codex_file env root ts s pc = (case pc of (p, change) \<Rightarrow>
     (case resolve_codex_file_entry env root (cx_cwd s) p change (cx_blobs s, cx_out s) of (e, b, out) \<Rightarrow>
        s\<lparr>cx_turns := add_file e (touch_turn ts (cx_turns s)), cx_blobs := b, cx_out := out\<rparr>))"

definition codex_event :: "import_env \<Rightarrow> rpath \<Rightarrow> json \<Rightarrow> codex_session \<Rightarrow> codex_session" where
  "codex_event env root v s =
     (let ts = json_text ''timestamp'' v in
      if json_text ''type'' v \<noteq> Some ''event_msg'' then s
      else if pointer_text ''type'' v = Some ''user_message'' then
        (case pointer_text ''message'' v of
           Some t \<Rightarrow> if t = [] then s else s\<lparr>cx_turns := begin_turn t ts (cx_turns s)\<rparr> | None \<Rightarrow> s)
      else if pointer_text ''type'' v = Some ''patch_apply_end'' then
        (case applied_changes v of None \<Rightarrow> s | Some cs \<Rightarrow> foldl (codex_file env root ts) s cs)
      else s)"

definition codex_persist_line :: "import_env \<Rightarrow> rpath \<Rightarrow> codex_session \<Rightarrow> string option \<Rightarrow> codex_session" where
  "codex_persist_line env root s outcome = (case outcome of
     None \<Rightarrow> s
   | Some line \<Rightarrow>
       if trim line = [] then s
       else case ie_from_str env line of
         None \<Rightarrow> s
       | Some v \<Rightarrow> codex_event env root v
           (s\<lparr>cx_id := (if cx_id s = None \<and> json_text ''type'' v = Some ''session_meta'' then pointer_text ''id'' v else cx_id s),
              cx_cwd := codex_cwd v (cx_cwd s)\<rparr>))"

definition persist_codex_file :: "import_env \<Rightarrow> rpath \<Rightarrow> blobs \<times> nat \<Rightarrow> string option \<Rightarrow> turn_record list \<times> blobs \<times> nat" where
  "persist_codex_file env root st body_opt = (case body_opt of
     None \<Rightarrow> ([], st)
   | Some body \<Rightarrow>
       (let s = foldl (codex_persist_line env root)
             \<lparr>cx_id = None, cx_cwd = None, cx_turns = no_turns, cx_blobs = fst st, cx_out = snd st\<rparr> (each_raw_line body) in
        case in_scope env root (cx_cwd s) (cx_id s) of
          None \<Rightarrow> ([], cx_blobs s, cx_out s)
        | Some sid \<Rightarrow>
            (case imported_turns env ''codex'' (utf8_lossy (path_text root)) sid (all_turns (cx_turns s)) (cx_blobs s) of
               (rs, b) \<Rightarrow> (rs, b, cx_out s))))"

definition run_codex :: "import_env \<Rightarrow> (string \<Rightarrow> codex_tree) \<Rightarrow> string option \<Rightarrow> string \<Rightarrow> string option
    \<Rightarrow> log_record list \<Rightarrow> (nat \<Rightarrow> bool) \<Rightarrow> store \<Rightarrow> source_error + import_run \<times> blobs \<times> nat" where
  "run_codex env tree home root_name given log ok s = (case source_dir ''.codex'' home given of
     Inl e \<Rightarrow> Inl e
   | Inr src \<Rightarrow> map_sum id (\<lambda>fs.
       import_files (persist_codex_file env (canon_or_self env (path_of root_name))) log ok
         (\<lparr>bl_store = s, bl_puts = 0\<rparr>, 0) (map snd fs)) (codex_files (tree src)))"

end
