(* ===== verification/Import_Props.thy ===== *)
theory Import_Props
  imports Import_Codex Store_Props "HOL-Library.Sublist"
begin

text \<open>
  Importing is resumable: whatever interrupted a run, the next one appends what is missing and
  nothing twice. Bytes before an edit are never made up. The dry run counts every entry once.
\<close>

subsection \<open>The appending loop\<close>

text \<open>The ids in the order of their first occurrence, without those already in the log.\<close>

definition fresh_ids :: "string set \<Rightarrow> string list \<Rightarrow> string list" where
  "fresh_ids existing xs = dedup (filter (\<lambda>x. x \<notin> existing) xs)"

lemma fresh_ids_snoc:
  "fresh_ids E (xs @ [x]) = fresh_ids E xs @ (if x \<in> E \<or> x \<in> set xs then [] else [x])"
  by (auto simp: fresh_ids_def)

lemma set_fresh_ids: "set (fresh_ids E xs) = set xs - E"
  by (auto simp: fresh_ids_def)

lemma distinct_fresh_ids: "distinct (fresh_ids E xs)"
  by (simp add: fresh_ids_def)

lemma fresh_ids_Un: "fresh_ids (E \<union> set a) xs = filter (\<lambda>x. x \<notin> set a) (fresh_ids E xs)"
  by (simp add: fresh_ids_def dedup_def rev_filter remdups_filter)

lemma fresh_ids_rest:
  assumes "fresh_ids E xs = a @ b"
  shows "fresh_ids (E \<union> set a) xs = b"
proof -
  from distinct_fresh_ids[of E xs] assms have "set a \<inter> set b = {}" by simp
  then have "filter (\<lambda>x. x \<notin> set a) b = b" by (auto intro: filter_True)
  with assms show ?thesis by (simp add: fresh_ids_Un)
qed

definition appended_so_far :: "string set \<Rightarrow> string list \<Rightarrow> import_run \<Rightarrow> bool" where
  "appended_so_far E xs r \<longleftrightarrow> prefix (map tr_id (ir_log r)) (fresh_ids E xs)
     \<and> (\<not> ir_failed r \<longrightarrow> map tr_id (ir_log r) = fresh_ids E xs \<and> ir_ids r = fresh_ids E xs)"

lemma import_record_appended:
  assumes "appended_so_far E xs r"
  shows "appended_so_far E (xs @ [tr_id t]) (import_record E ok r t)"
proof (cases "ir_failed r")
  case True
  with assms show ?thesis
    by (auto simp: appended_so_far_def import_record_def fresh_ids_snoc intro: prefix_order.trans)
next
  case False
  with assms have "map tr_id (ir_log r) = fresh_ids E xs" "ir_ids r = fresh_ids E xs"
    by (auto simp: appended_so_far_def)
  with False show ?thesis
    by (auto simp: appended_so_far_def import_record_def fresh_ids_snoc set_fresh_ids)
qed

lemma import_records_appended:
  "appended_so_far E xs r \<Longrightarrow> appended_so_far E (xs @ map tr_id ts) (foldl (import_record E ok) r ts)"
proof (induction ts arbitrary: xs r)
  case (Cons t ts)
  from Cons.IH[OF import_record_appended[OF Cons.prems], of t ok] show ?case by simp
qed simp

lemma appended_so_far_failed:
  "ir_failed r \<Longrightarrow> appended_so_far E xs r \<Longrightarrow> appended_so_far E (xs @ ys) r"
proof (induction ys rule: rev_induct)
  case (snoc y ys)
  then show ?case
    by (auto simp: appended_so_far_def fresh_ids_snoc append_assoc[symmetric] simp del: append_assoc
      intro: prefix_order.trans)
qed simp

lemma import_record_never_fails: "\<not> ir_failed r \<Longrightarrow> \<not> ir_failed (import_record E (\<lambda>_. True) r t)"
  by (simp add: import_record_def)

lemma import_records_never_fail: "\<not> ir_failed r \<Longrightarrow> \<not> ir_failed (foldl (import_record E (\<lambda>_. True)) r ts)"
  by (induction ts arbitrary: r) (simp_all add: import_record_never_fails)

text \<open>An importer whose turns have ids that depend on the transcript alone.\<close>

locale importer =
  fixes persist :: "'st \<Rightarrow> string option \<Rightarrow> turn_record list \<times> 'st"
    and ids :: "string option \<Rightarrow> string list"
  assumes ids_of: "map tr_id (fst (persist st f)) = ids f"
begin

lemma import_file_appended:
  assumes "appended_so_far E xs (fst acc)"
  shows "appended_so_far E (xs @ ids f) (fst (import_file persist E ok acc f))"
proof (cases acc)
  case (Pair r st)
  obtain rs st' where p: "persist st f = (rs, st')" by fastforce
  with ids_of[of st f] have "map tr_id rs = ids f" by simp
  with import_records_appended[of E xs r rs ok] appended_so_far_failed[of r E xs "ids f"] assms Pair p
  show ?thesis by (auto simp: import_file_def)
qed

lemma import_fold_appended:
  "appended_so_far E xs (fst acc)
   \<Longrightarrow> appended_so_far E (xs @ concat (map ids fs)) (fst (foldl (import_file persist E ok) acc fs))"
proof (induction fs arbitrary: xs acc)
  case (Cons f fs)
  from Cons.IH[OF import_file_appended[OF Cons.prems], of f ok] show ?case by simp
qed simp

lemma import_files_appended:
  "appended_so_far (turn_ids log) (concat (map ids fs)) (fst (import_files persist log ok st fs))"
proof -
  have "appended_so_far (turn_ids log) [] \<lparr>ir_ids = [], ir_dups = 0, ir_log = [], ir_failed = False\<rparr>"
    by (simp add: appended_so_far_def fresh_ids_def)
  with import_fold_appended[where xs = "[]" and acc = "(\<lparr>ir_ids = [], ir_dups = 0, ir_log = [], ir_failed = False\<rparr>, st)"]
  show ?thesis by (simp add: import_files_def)
qed

lemma import_files_complete: "\<not> ir_failed (fst (import_files persist log (\<lambda>_. True) st fs))"
proof -
  have "\<not> ir_failed (fst acc) \<Longrightarrow> \<not> ir_failed (fst (foldl (import_file persist E (\<lambda>_. True)) acc fs))" for acc E
    by (induction fs arbitrary: acc) (auto simp: import_file_def import_records_never_fail split: prod.splits)
  then show ?thesis by (simp add: import_files_def)
qed

lemma import_files_all:
  "map tr_id (ir_log (fst (import_files persist log (\<lambda>_. True) st fs))) = fresh_ids (turn_ids log) (concat (map ids fs))"
  using import_files_appended[of log fs "\<lambda>_. True" st] import_files_complete[of log st fs]
  by (simp add: appended_so_far_def)

end

lemma turn_ids_append: "turn_ids (log @ map Turn ts) = turn_ids log \<union> set (map tr_id ts)"
  by (force simp: turn_ids_def map_filter_def)

text \<open>Two importers of the same ids: the second finishes what the first began.\<close>

lemma importers_resume:
  assumes "importer p1 ids" "importer p2 ids" "importer p3 ids"
  shows "map tr_id (ir_log (fst (import_files p1 log ok st1 fs)))
       @ map tr_id (ir_log (fst (import_files p2 (log @ map Turn (ir_log (fst (import_files p1 log ok st1 fs)))) (\<lambda>_. True) st2 fs)))
     = map tr_id (ir_log (fst (import_files p3 log (\<lambda>_. True) st3 fs)))"
proof -
  let ?a = "map tr_id (ir_log (fst (import_files p1 log ok st1 fs)))"
  let ?F = "fresh_ids (turn_ids log) (concat (map ids fs))"
  from importer.import_files_appended[OF assms(1), of log fs ok st1]
  obtain b where "?F = ?a @ b" by (auto simp: appended_so_far_def prefix_def)
  then show ?thesis
    using fresh_ids_rest[of "turn_ids log" "concat (map ids fs)" ?a b]
    by (simp add: importer.import_files_all[OF assms(2)] importer.import_files_all[OF assms(3)] turn_ids_append)
qed

subsection \<open>Ids depend on the transcript alone\<close>

text \<open>What of the turns decides which ids are emitted.\<close>

definition turn_shape :: "pending_turn \<Rightarrow> nat \<times> bool \<times> bool" where
  "turn_shape t = (pt_index t, pt_prompt t = None, pt_files t = [])"

definition turns_shape :: "turns \<Rightarrow> nat \<times> (nat \<times> bool \<times> bool) \<times> (nat \<times> bool \<times> bool) list" where
  "turns_shape s = (tn_index s, turn_shape (tn_cur s), map turn_shape (tn_finished s))"

lemma pending_shape: "pending t = (case turn_shape t of (_, p, f) \<Rightarrow> \<not> p \<or> \<not> f)"
  by (cases "pt_prompt t") (auto simp: pending_def turn_shape_def)

lemma touch_opt_shape [simp]: "turn_shape (touch_opt ts t) = turn_shape t"
  by (simp add: touch_opt_def touch_ts_def turn_shape_def split: option.split)

lemma touch_turn_shape [simp]: "turns_shape (touch_turn ts s) = turns_shape s"
  by (simp add: touch_turn_def turns_shape_def)

lemma begin_turn_shape:
  assumes "turns_shape s = turns_shape s'"
  shows "turns_shape (begin_turn p ts s) = turns_shape (begin_turn p ts' s')"
proof -
  have b: "turn_shape (t\<lparr>pt_prompt := Some p\<rparr>) = (case turn_shape t of (i, _, f) \<Rightarrow> (i, False, f))" for t
    by (simp add: turn_shape_def)
  from assms have "pending (tn_cur s) = pending (tn_cur s')" by (simp add: pending_shape turns_shape_def)
  with assms show ?thesis by (simp add: begin_turn_def turns_shape_def b Let_def)
qed

lemma add_file_shape:
  assumes "turns_shape s = turns_shape s'" "(e = None) = (e' = None)"
  shows "turns_shape (add_file e s) = turns_shape (add_file e' s')"
  using assms by (cases e; cases e') (auto simp: add_file_def turns_shape_def turn_shape_def)

lemma all_turns_shape:
  assumes "turns_shape s = turns_shape s'"
  shows "map turn_shape (all_turns s) = map turn_shape (all_turns s')"
proof -
  from assms have "pending (tn_cur s) = pending (tn_cur s')" by (simp add: pending_shape turns_shape_def)
  with assms show ?thesis by (simp add: all_turns_def turns_shape_def)
qed

lemma imported_turn_id: "tr_id (fst (imported_turn env tool root sid t b)) = deterministic_turn_id (ie_sha env) sid (pt_index t)"
  by (simp add: imported_turn_def Let_def split: prod.split)

lemma imported_turns_ids:
  "map tr_id (fst (imported_turns env tool root sid ts b))
   = map (\<lambda>(i, _). deterministic_turn_id (ie_sha env) sid i) (filter (\<lambda>(_, _, f). \<not> f) (map turn_shape ts))"
proof (induction ts arbitrary: b)
  case (Cons t ts)
  obtain r b1 where r: "imported_turn env tool root sid t b = (r, b1)" by fastforce
  obtain rs b2 where rs: "imported_turns env tool root sid ts b1 = (rs, b2)" by fastforce
  from imported_turn_id[of env tool root sid t b] r
  have "tr_id r = deterministic_turn_id (ie_sha env) sid (pt_index t)" by simp
  with Cons.IH[of b1] Cons.IH[of b] r rs show ?case by (simp add: turn_shape_def)
qed simp

definition same_reading :: "import_env \<Rightarrow> import_env \<Rightarrow> bool" where
  "same_reading env env' \<longleftrightarrow> ie_from_str env = ie_from_str env' \<and> ie_canon env = ie_canon env'
     \<and> ie_sha env = ie_sha env' \<and> ie_lower env = ie_lower env'"

definition session_shape :: "session \<Rightarrow> string option \<times> string option \<times> nat \<times> (nat \<times> bool \<times> bool) \<times> (nat \<times> bool \<times> bool) list" where
  "session_shape s = (tx_id s, tx_cwd s, turns_shape (ps_turns s))"

lemma record_backup_shape [simp]: "session_shape (record_backup p n s) = session_shape s"
  by (simp add: record_backup_def session_shape_def)

lemma mark_edit_shape [simp]: "session_shape (mark_edit p s) = session_shape s"
  by (simp add: mark_edit_def session_shape_def split: option.split)

lemma harvest_backup_shape [simp]: "session_shape (harvest_backup s m) = session_shape s"
  by (auto simp: harvest_backup_def split: prod.split option.split) (simp_all add: session_shape_def)

lemma harvest_backups_shape [simp]: "session_shape (harvest_backups v s) = session_shape s"
proof -
  have "session_shape (foldl harvest_backup s ms) = session_shape s" for ms
    by (induction ms arbitrary: s) auto
  then show ?thesis by (simp add: harvest_backups_def split: option.split)
qed

lemma note_id_shape:
  "session_shape s = session_shape s' \<Longrightarrow> session_shape (note_id v s) = session_shape (note_id v s')"
  by (auto simp: session_shape_def note_id_def)

lemma note_cwd_shape:
  assumes "session_shape s = session_shape s'"
  shows "session_shape (note_cwd v s) = session_shape (note_cwd v s')"
proof -
  have f: "session_shape (foldl (\<lambda>t (key, name). record_backup (k key) name t) s ms) = session_shape s" for k s ms
    by (induction ms arbitrary: s) (auto split: prod.split)
  have g: "session_shape (t\<lparr>tx_pending := [], tx_cwd := Some c\<rparr>) = (case session_shape t of (i, _, x) \<Rightarrow> (i, Some c, x))" for t c
    by (simp add: session_shape_def)
  from assms have "tx_cwd s = tx_cwd s'" by (simp add: session_shape_def)
  with assms show ?thesis by (auto simp: note_cwd_def g f split: option.split)
qed

lemma resolve_before_shape [simp]: "session_shape (snd (snd (resolve_before env tur p ts target prior s))) = session_shape s"
proof -
  have u: "session_shape (s\<lparr>ps_t2 := c\<rparr>) = session_shape s" "session_shape (s\<lparr>ps_t15 := c'\<rparr>) = session_shape s" for s c c'
    by (simp_all add: session_shape_def)
  show ?thesis by (simp add: resolve_before_def Let_def u split: option.split prod.split)
qed

lemma resolve_before_parts:
  "resolve_before env tur p ts target prior s = (b, op, s') \<Longrightarrow> session_shape s' = session_shape s"
  using resolve_before_shape[of env tur p ts target prior s] by simp

lemma classify_shape [simp]: "session_shape (snd (classify_and_resolve env root tur p ts s)) = session_shape s"
proof -
  have u: "session_shape (s\<lparr>ps_counts := c\<rparr>) = session_shape s" "session_shape (s\<lparr>ps_blobs := b\<rparr>) = session_shape s"
    "session_shape (s\<lparr>ps_out_of_cwd := n\<rparr>) = session_shape s" for s c b n
    by (simp_all add: session_shape_def)
  show ?thesis
    by (auto simp: classify_and_resolve_def Let_def u dest: resolve_before_parts split: option.split prod.split)
qed

definition entry_known :: "import_env \<Rightarrow> rpath \<Rightarrow> string \<Rightarrow> string option \<Rightarrow> bool" where
  "entry_known env root p cwd \<longleftrightarrow> Option.bind (Option.bind cwd (\<lambda>c. Option.bind (path_under (path_of c) (path_of p)) (entry_target env c)))
     (entry_path root) \<noteq> None"

lemma classify_known: "(fst (classify_and_resolve env root tur p ts s) = None) = (\<not> entry_known env root p (tx_cwd s))"
  by (auto simp: classify_and_resolve_def entry_known_def Let_def split: option.split prod.split)

lemma entry_known_cong: "same_reading env env' \<Longrightarrow> entry_known env root p cwd = entry_known env' root p cwd"
  by (simp add: entry_known_def entry_target_def[abs_def] same_reading_def)

lemma session_shape_turns:
  "session_shape (s\<lparr>ps_turns := x\<rparr>) = (tx_id s, tx_cwd s, turns_shape x)"
  by (simp add: session_shape_def)

lemma persist_value_shape:
  assumes "same_reading env env'" "session_shape s = session_shape s'"
  shows "session_shape (persist_value env root v s) = session_shape (persist_value env' root v s')"
proof -
  from assms(2) have parts: "tx_id s = tx_id s'" "tx_cwd s = tx_cwd s'" "turns_shape (ps_turns s) = turns_shape (ps_turns s')"
    by (simp_all add: session_shape_def)
  have e: "session_shape (case classify_and_resolve env root tur p ts (s\<lparr>ps_turns := touch_turn ts (ps_turns s)\<rparr>) of
        (e, s1) \<Rightarrow> s1\<lparr>ps_turns := add_file e (ps_turns s1)\<rparr>)
      = session_shape (case classify_and_resolve env' root tur p ts (s'\<lparr>ps_turns := touch_turn ts (ps_turns s')\<rparr>) of
        (e, s1) \<Rightarrow> s1\<lparr>ps_turns := add_file e (ps_turns s1)\<rparr>)" for tur p ts
  proof -
    let ?t = "s\<lparr>ps_turns := touch_turn ts (ps_turns s)\<rparr>" and ?t' = "s'\<lparr>ps_turns := touch_turn ts (ps_turns s')\<rparr>"
    obtain e1 s1 where c: "classify_and_resolve env root tur p ts ?t = (e1, s1)" by fastforce
    obtain e2 s2 where c': "classify_and_resolve env' root tur p ts ?t' = (e2, s2)" by fastforce
    from c classify_shape[of env root tur p ts ?t] have s1: "session_shape s1 = session_shape ?t" by simp
    from c' classify_shape[of env' root tur p ts ?t'] have s2: "session_shape s2 = session_shape ?t'" by simp
    from c c' classify_known[of env root tur p ts ?t] classify_known[of env' root tur p ts ?t']
      entry_known_cong[OF assms(1), of root p "tx_cwd s"] parts(2)
    have "(e1 = None) = (e2 = None)" by simp
    moreover from s1 s2 parts have "session_shape s1 = session_shape s2" by (simp add: session_shape_turns)
    ultimately show ?thesis
      using add_file_shape[of "ps_turns s1" "ps_turns s2" e1 e2] by (simp add: c c' session_shape_turns) (simp add: session_shape_def)
  qed
  show ?thesis
    using e assms(2) begin_turn_shape[OF parts(3)]
    by (auto simp: persist_value_def Let_def session_shape_turns parts split: option.split)
qed

lemma persist_line_shape:
  assumes "same_reading env env'" "session_shape s = session_shape s'"
  shows "session_shape (persist_line env root s l) = session_shape (persist_line env' root s' l)"
proof -
  from assms(1) have "ie_from_str env = ie_from_str env'" by (simp add: same_reading_def)
  moreover have "session_shape (persist_value env root v (harvest_backups v (note_cwd v (note_id v s))))
      = session_shape (persist_value env' root v (harvest_backups v (note_cwd v (note_id v s'))))" for v
    by (rule persist_value_shape[OF assms(1)]) (simp add: note_cwd_shape[OF note_id_shape[OF assms(2)]])
  ultimately show ?thesis using assms(2) by (simp add: persist_line_def split: option.split)
qed

lemma persist_lines_shape:
  assumes "same_reading env env'" "session_shape s = session_shape s'"
  shows "session_shape (foldl (persist_line env root) s ls) = session_shape (foldl (persist_line env' root) s' ls)"
  using assms(2) by (induction ls arbitrary: s s') (simp_all add: persist_line_shape[OF assms(1)])

lemma in_scope_cong: "same_reading env env' \<Longrightarrow> in_scope env root cwd sid = in_scope env' root cwd sid"
  by (simp add: in_scope_def same_reading_def)

lemma claude_ids_cong:
  assumes "same_reading env env'"
  shows "map tr_id (fst (persist_session_file env name root st f)) = map tr_id (fst (persist_session_file env' name' root st' f))"
proof (cases f)
  case (Some body)
  let ?s = "foldl (persist_line env root) (start_session st) (each_raw_line body)"
  let ?s' = "foldl (persist_line env' root) (start_session st') (each_raw_line body)"
  have "session_shape (start_session st) = session_shape (start_session st')"
    by (simp add: start_session_def session_shape_def)
  from persist_lines_shape[OF assms this] have sh: "session_shape ?s = session_shape ?s'" .
  then have "turns_shape (ps_turns ?s) = turns_shape (ps_turns ?s')" by (simp add: session_shape_def)
  then have shapes: "map turn_shape (all_turns (ps_turns ?s)) = map turn_shape (all_turns (ps_turns ?s'))"
    by (rule all_turns_shape)
  have sha: "ie_sha env = ie_sha env'" using assms by (simp add: same_reading_def)
  have ids: "map tr_id (fst (imported_turns env ''claude'' name sid (all_turns (ps_turns ?s)) (ps_blobs ?s)))
      = map tr_id (fst (imported_turns env' ''claude'' name' sid (all_turns (ps_turns ?s')) (ps_blobs ?s')))" for sid
    by (simp only: imported_turns_ids shapes sha)
  from sh have "tx_cwd ?s = tx_cwd ?s'" "tx_id ?s = tx_id ?s'" by (simp_all add: session_shape_def)
  then have scope: "in_scope env root (tx_cwd ?s) (tx_id ?s) = in_scope env' root (tx_cwd ?s') (tx_id ?s')"
    by (simp only: in_scope_cong[OF assms])
  show ?thesis
  proof (cases "in_scope env' root (tx_cwd ?s') (tx_id ?s')")
    case None
    with scope show ?thesis by (simp add: persist_session_file_def Some Let_def)
  next
    case (Some sid)
    with scope ids[of sid] \<open>f = Some body\<close> show ?thesis
      by (simp add: persist_session_file_def Let_def case_prod_beta)
  qed
qed (simp add: persist_session_file_def)

definition claude_ids :: "import_env \<Rightarrow> rpath \<Rightarrow> string option \<Rightarrow> string list" where
  "claude_ids env root f = map tr_id (fst (persist_session_file env [] root (fresh_import \<lparr>bl_store = [], bl_puts = 0\<rparr>) f))"

interpretation claude: importer "persist_session_file env name root" "claude_ids env root" for env name root
  by unfold_locales (unfold claude_ids_def, rule claude_ids_cong, simp add: same_reading_def)

lemma claude_importer: "same_reading env env' \<Longrightarrow> importer (persist_session_file env' name root) (claude_ids env root)"
  unfolding claude_ids_def by unfold_locales (rule claude_ids_cong, simp add: same_reading_def)

subsection \<open>Codex\<close>

definition codex_shape :: "codex_session \<Rightarrow> string option \<times> string option \<times> nat \<times> (nat \<times> bool \<times> bool) \<times> (nat \<times> bool \<times> bool) list" where
  "codex_shape s = (cx_id s, cx_cwd s, turns_shape (cx_turns s))"

lemma codex_known:
  "(fst (resolve_codex_file_entry env root cwd p change acc) = None)
   = (case codex_rel root (codex_target env cwd p) of None \<Rightarrow> True
      | Some rel \<Rightarrow> \<not> is_secret_path (ie_lower env) rel \<and> codex_sides change = None)"
  by (auto simp: resolve_codex_file_entry_def split: option.split prod.split)

lemma codex_known_cong:
  "same_reading env env' \<Longrightarrow> (fst (resolve_codex_file_entry env root cwd p change acc) = None)
   = (fst (resolve_codex_file_entry env' root cwd p change acc') = None)"
proof -
  assume r: "same_reading env env'"
  then have canon: "ie_canon env = ie_canon env'" by (simp add: same_reading_def)
  have "codex_target env = codex_target env'" by (intro ext) (simp only: codex_target_def canon)
  moreover from r have "ie_lower env = ie_lower env'" by (simp add: same_reading_def)
  ultimately show ?thesis by (simp only: codex_known)
qed

lemma codex_file_shape:
  assumes "same_reading env env'" "codex_shape s = codex_shape s'"
  shows "codex_shape (codex_file env root ts s pc) = codex_shape (codex_file env' root ts s' pc)"
proof -
  obtain p change where pc: "pc = (p, change)" by fastforce
  obtain e b n where r: "resolve_codex_file_entry env root (cx_cwd s) p change (cx_blobs s, cx_out s) = (e, b, n)"
    by (metis prod_cases3)
  obtain e' b' n' where r': "resolve_codex_file_entry env' root (cx_cwd s') p change (cx_blobs s', cx_out s') = (e', b', n')"
    by (metis prod_cases3)
  from assms(2) have "cx_cwd s = cx_cwd s'" by (simp add: codex_shape_def)
  with codex_known_cong[OF assms(1), of root "cx_cwd s" p change "(cx_blobs s, cx_out s)" "(cx_blobs s', cx_out s')"] r r'
  have "(e = None) = (e' = None)" by simp
  moreover have c: "codex_file env root ts s pc = s\<lparr>cx_turns := add_file e (touch_turn ts (cx_turns s)), cx_blobs := b, cx_out := n\<rparr>"
    "codex_file env' root ts s' pc = s'\<lparr>cx_turns := add_file e' (touch_turn ts (cx_turns s')), cx_blobs := b', cx_out := n'\<rparr>"
    by (simp_all add: codex_file_def pc r r')
  ultimately show ?thesis
    using assms(2) add_file_shape[of "touch_turn ts (cx_turns s)" "touch_turn ts (cx_turns s')" e e']
    by (simp only: c) (simp add: codex_shape_def)
qed

lemma codex_files_shape:
  assumes "same_reading env env'" "codex_shape s = codex_shape s'"
  shows "codex_shape (foldl (codex_file env root ts) s cs) = codex_shape (foldl (codex_file env' root ts) s' cs)"
  using assms(2) by (induction cs arbitrary: s s') (simp_all add: codex_file_shape[OF assms(1)])

lemma codex_begin_shape:
  assumes "codex_shape s = codex_shape s'"
  shows "codex_shape (s\<lparr>cx_turns := begin_turn t ts (cx_turns s)\<rparr>) = codex_shape (s'\<lparr>cx_turns := begin_turn t ts (cx_turns s')\<rparr>)"
proof -
  from assms have "turns_shape (cx_turns s) = turns_shape (cx_turns s')" by (simp add: codex_shape_def)
  from begin_turn_shape[OF this] assms show ?thesis by (simp add: codex_shape_def)
qed

lemma codex_event_shape:
  assumes "same_reading env env'" "codex_shape s = codex_shape s'"
  shows "codex_shape (codex_event env root v s) = codex_shape (codex_event env' root v s')"
  using assms(2) codex_files_shape[OF assms] codex_begin_shape[OF assms(2)]
  by (simp add: codex_event_def Let_def split: option.split)

lemma codex_line_shape:
  assumes "same_reading env env'" "codex_shape s = codex_shape s'"
  shows "codex_shape (codex_persist_line env root s l) = codex_shape (codex_persist_line env' root s' l)"
proof -
  from assms(1) have "ie_from_str env = ie_from_str env'" by (simp add: same_reading_def)
  moreover have "codex_shape (codex_event env root v (s\<lparr>cx_id := i, cx_cwd := codex_cwd v (cx_cwd s)\<rparr>))
      = codex_shape (codex_event env' root v (s'\<lparr>cx_id := i, cx_cwd := codex_cwd v (cx_cwd s')\<rparr>))" for v i
    by (rule codex_event_shape[OF assms(1)]) (use assms(2) in \<open>simp add: codex_shape_def\<close>)
  moreover from assms(2) have "cx_id s = cx_id s'" by (simp add: codex_shape_def)
  ultimately show ?thesis using assms(2) by (auto simp: codex_persist_line_def split: option.split if_splits)
qed

lemma codex_lines_shape:
  assumes "same_reading env env'" "codex_shape s = codex_shape s'"
  shows "codex_shape (foldl (codex_persist_line env root) s ls) = codex_shape (foldl (codex_persist_line env' root) s' ls)"
  using assms(2) by (induction ls arbitrary: s s') (simp_all add: codex_line_shape[OF assms(1)])

lemma codex_ids_cong:
  assumes "same_reading env env'"
  shows "map tr_id (fst (persist_codex_file env root st f)) = map tr_id (fst (persist_codex_file env' root st' f))"
proof (cases f)
  case (Some body)
  let ?start = "\<lambda>st. \<lparr>cx_id = None, cx_cwd = None, cx_turns = no_turns, cx_blobs = fst st, cx_out = snd st\<rparr>"
  let ?s = "foldl (codex_persist_line env root) (?start st) (each_raw_line body)"
  let ?s' = "foldl (codex_persist_line env' root) (?start st') (each_raw_line body)"
  have "codex_shape (?start st) = codex_shape (?start st')" by (simp add: codex_shape_def)
  from codex_lines_shape[OF assms this] have sh: "codex_shape ?s = codex_shape ?s'" .
  then have "turns_shape (cx_turns ?s) = turns_shape (cx_turns ?s')" by (simp add: codex_shape_def)
  then have shapes: "map turn_shape (all_turns (cx_turns ?s)) = map turn_shape (all_turns (cx_turns ?s'))"
    by (rule all_turns_shape)
  have sha: "ie_sha env = ie_sha env'" using assms by (simp add: same_reading_def)
  have ids: "map tr_id (fst (imported_turns env ''codex'' name sid (all_turns (cx_turns ?s)) (cx_blobs ?s)))
      = map tr_id (fst (imported_turns env' ''codex'' name sid (all_turns (cx_turns ?s')) (cx_blobs ?s')))" for name sid
    by (simp only: imported_turns_ids shapes sha)
  from sh have "cx_cwd ?s = cx_cwd ?s'" "cx_id ?s = cx_id ?s'" by (simp_all add: codex_shape_def)
  then have scope: "in_scope env root (cx_cwd ?s) (cx_id ?s) = in_scope env' root (cx_cwd ?s') (cx_id ?s')"
    by (simp only: in_scope_cong[OF assms])
  show ?thesis
  proof (cases "in_scope env' root (cx_cwd ?s') (cx_id ?s')")
    case None
    with scope show ?thesis by (simp add: persist_codex_file_def Some Let_def)
  next
    case (Some sid)
    with scope ids[of _ sid] \<open>f = Some body\<close> show ?thesis
      by (simp add: persist_codex_file_def Let_def case_prod_beta)
  qed
qed (simp add: persist_codex_file_def)

definition codex_ids :: "import_env \<Rightarrow> rpath \<Rightarrow> string option \<Rightarrow> string list" where
  "codex_ids env root f = map tr_id (fst (persist_codex_file env root (\<lparr>bl_store = [], bl_puts = 0\<rparr>, 0) f))"

interpretation codex: importer "persist_codex_file env root" "codex_ids env root" for env root
  by unfold_locales (unfold codex_ids_def, rule codex_ids_cong, simp add: same_reading_def)

lemma codex_importer: "same_reading env env' \<Longrightarrow> importer (persist_codex_file env' root) (codex_ids env root)"
  unfolding codex_ids_def by unfold_locales (rule codex_ids_cong, simp add: same_reading_def)

subsection \<open>Interrupted and resumed\<close>

text \<open>Surroundings in which the transcripts and the directories read the same.\<close>

definition with_reading :: "import_env \<Rightarrow> import_env \<Rightarrow> import_env" where
  "with_reading env other = other\<lparr>ie_from_str := ie_from_str env, ie_canon := ie_canon env, ie_sha := ie_sha env,
     ie_lower := ie_lower env\<rparr>"

lemma same_reading_with [simp]: "same_reading env (with_reading env other)" "same_reading env env"
  by (simp_all add: same_reading_def with_reading_def)

lemma canon_or_self_with [simp]: "canon_or_self (with_reading env other) = canon_or_self env"
  by (simp add: canon_or_self_def[abs_def] with_reading_def)

text \<open>A run, the run after it on the log it left, and a run that did everything.\<close>

definition resumes :: "source_error + import_run \<times> 'a \<Rightarrow> (import_run \<Rightarrow> source_error + import_run \<times> 'b)
    \<Rightarrow> source_error + import_run \<times> 'c \<Rightarrow> bool" where
  "resumes first second whole = (case (first, whole) of
     (Inr (r1, _), Inr (r, _)) \<Rightarrow> (case second r1 of
        Inr (r2, _) \<Rightarrow> map tr_id (ir_log r1) @ map tr_id (ir_log r2) = map tr_id (ir_log r)
          \<and> distinct (map tr_id (ir_log r)) \<and> \<not> ir_failed r2
      | Inl _ \<Rightarrow> False)
   | (Inl e, Inl e') \<Rightarrow> e = e'
   | _ \<Rightarrow> False)"

lemma import_files_resume:
  assumes "importer p1 ids" "importer p2 ids" "importer p3 ids"
  shows "resumes (map_sum id (\<lambda>fs. import_files p1 log ok st1 (g fs)) src)
     (\<lambda>r. map_sum id (\<lambda>fs. import_files p2 (log @ map Turn (ir_log r)) (\<lambda>_. True) st2 (g fs)) src)
     (map_sum id (\<lambda>fs. import_files p3 log (\<lambda>_. True) st3 (g fs)) src)"
proof (cases src)
  case (Inr fs)
  show ?thesis
    using importers_resume[OF assms, of log ok st1 "g fs" st2 st3] importer.import_files_all[OF assms(3), of log st3 "g fs"]
      importer.import_files_complete[OF assms(2), of _ st2 "g fs"] distinct_fresh_ids
    by (simp add: resumes_def Inr case_prod_beta)
qed (simp add: resumes_def)


end
