(* ===== verification/Import_Bytes_Props.thy ===== *)
theory Import_Bytes_Props
  imports Import_Props
begin

text \<open>Bytes that an import records come from the transcript, from a backup or from a commit.\<close>

subsection \<open>Searching bytes\<close>

lemma window_at:
  assumes "take (length n) (drop i h) = n" "i + length n \<le> length h"
  shows "h = take i h @ n @ drop (i + length n) h"
  using assms by (metis add.commute append_take_drop_id drop_drop)

lemma bytes_contain_at: "bytes_contain h n \<Longrightarrow> \<exists>x y. h = x @ n @ y"
proof -
  assume c: "bytes_contain h n"
  show ?thesis
  proof (cases "n = []")
    case False
    with c obtain i where "i < length h - length n + 1" "length n \<le> length h" "take (length n) (drop i h) = n"
      by (auto simp: bytes_contain_def list_ex_iff simp del: upt_Suc split: if_splits)
    then have "i + length n \<le> length h" by linarith
    from window_at[OF \<open>take (length n) (drop i h) = n\<close> this] show ?thesis by blast
  qed auto
qed

lemma bytes_find_at:
  assumes "bytes_find h n = Some i"
  shows "h = take i h @ n @ drop (i + length n) h"
proof -
  from assms have "length n \<le> length h" "i < length h - length n + 1" "take (length n) (drop i h) = n"
    by (auto simp: bytes_find_def dest!: find_Some_set split: if_splits)
  then show ?thesis by (intro window_at) auto
qed

lemma bytes_count_0:
  assumes "n \<noteq> []" "\<And>i. i + length n \<le> length h \<Longrightarrow> take (length n) (drop i h) \<noteq> n"
  shows "bytes_count h n = 0"
  using assms
proof (induction h n rule: bytes_count.induct)
  case (1 h n)
  show ?case
  proof (cases "n = [] \<or> length n > length h")
    case False
    with "1.prems"(2)[of 0] have no: "take (length n) h \<noteq> n" by simp
    have "take (length n) (drop i (tl h)) \<noteq> n" if "i + length n \<le> length (tl h)" for i
      using "1.prems"(2)[of "Suc i"] that False by (cases h) auto
    with "1.IH"(2)[OF False no] "1.prems"(1) have "bytes_count (tl h) n = 0" by blast
    with False no show ?thesis by (subst bytes_count.simps) auto
  qed (subst bytes_count.simps, simp)
qed

lemma bytes_count_short: "n = [] \<or> length n > length h \<Longrightarrow> bytes_count h n = 0"
  by (subst bytes_count.simps) simp

text \<open>The \<open>expect\<close> in the code never fires.\<close>

lemma bytes_find_counted: "bytes_count h n \<noteq> 0 \<Longrightarrow> bytes_find h n \<noteq> None"
proof
  assume c: "bytes_count h n \<noteq> 0" and f: "bytes_find h n = None"
  have n: "n \<noteq> []" and short: "\<not> length n > length h" using c bytes_count_short[of n h] by linarith+
  with f n have "List.find (\<lambda>i. take (length n) (drop i h) = n) [0 ..< length h - length n + 1] = None"
    by (simp add: bytes_find_def)
  then have none: "\<forall>i \<in> set [0 ..< length h - length n + 1]. take (length n) (drop i h) \<noteq> n" by (simp only: find_None_set)
  have "take (length n) (drop i h) \<noteq> n" if "i + length n \<le> length h" for i
  proof -
    from that have "i \<in> set [0 ..< length h - length n + 1]" by (simp only: set_upt) auto
    with none show ?thesis by blast
  qed
  from bytes_count_0[OF n this] c show False by simp
qed

subsection \<open>Evidence\<close>

definition once_at_line :: "string \<Rightarrow> json option \<Rightarrow> string \<Rightarrow> bool" where
  "once_at_line old patch bytes \<longleftrightarrow> bytes_count bytes old = 1 \<and> (\<exists>x y. bytes = x @ old @ y
     \<and> (case expected_old_start_line patch of Some n \<Rightarrow> length (filter (\<lambda>c. c = NL) x) + 1 = n | None \<Rightarrow> True))"

definition backup_evidence :: "import_env \<Rightarrow> json \<Rightarrow> string \<Rightarrow> 'a transcript_scheme \<Rightarrow> string \<Rightarrow> bool" where
  "backup_evidence env tur p s bytes \<longleftrightarrow> (\<exists>name sid. tx_backups s p = Some name \<and> tx_id s = Some sid
     \<and> edits_since p s = 0 \<and> is_safe_path_component sid \<and> is_safe_path_component name
     \<and> ie_backup env sid name = Some bytes
     \<and> (case json_text ''oldString'' tur of Some old \<Rightarrow> \<exists>x y. bytes = x @ old @ y | None \<Rightarrow> True))"

definition commit_evidence :: "import_env \<Rightarrow> json \<Rightarrow> string option \<Rightarrow> nat \<Rightarrow> string \<Rightarrow> bool" where
  "commit_evidence env tur line_ts prior bytes \<longleftrightarrow> prior = 0 \<and> (\<exists>ts root rel out old. line_ts = Some ts
     \<and> ie_git_log env root ts rel = Some (True, out)
     \<and> ie_git_show env root (trim (utf8_lossy out)) rel = Some (True, bytes)
     \<and> json_text ''oldString'' tur = Some old \<and> old \<noteq> [] \<and> once_at_line old (value_get ''structuredPatch'' tur) bytes)"

definition before_evidence :: "import_env \<Rightarrow> json \<Rightarrow> string \<Rightarrow> string option \<Rightarrow> nat \<Rightarrow> 'a transcript_scheme \<Rightarrow> string \<Rightarrow> bool" where
  "before_evidence env tur p line_ts prior s bytes \<longleftrightarrow> json_text ''originalFile'' tur = Some bytes
     \<or> backup_evidence env tur p s bytes \<or> commit_evidence env tur line_ts prior bytes"

lemma backup_bytes_evidence:
  "backup_bytes env sid name old = Inr (bytes, v) \<Longrightarrow> is_safe_path_component sid \<and> is_safe_path_component name
     \<and> ie_backup env sid name = Some bytes \<and> (case old of Some o' \<Rightarrow> \<exists>x y. bytes = x @ o' @ y | None \<Rightarrow> True)"
  by (auto simp: backup_bytes_def bytes_contain_at split: if_splits option.splits)

lemma resolve_backup_evidence:
  assumes "resolve_backup env tur p name s = (Some bytes, c)" "tx_backups s p = Some name"
  shows "backup_evidence env tur p s bytes"
proof -
  from assms(1) obtain sid v where "edits_since p s = 0" "tx_id s = Some sid"
    "backup_bytes env sid name (json_text ''oldString'' tur) = Inr (bytes, v)"
    by (auto simp: resolve_backup_def split: if_splits option.splits sum.splits)
  with backup_bytes_evidence[OF this(3)] assms(2) show ?thesis by (auto simp: backup_evidence_def)
qed

lemma accept_blob_evidence:
  assumes "accept_blob old_string patch blob c = (Some bytes, c')"
  shows "blob = bytes \<and> (\<exists>old. old_string = Some old \<and> old \<noteq> [] \<and> once_at_line old patch bytes)"
proof -
  from assms obtain old where old: "old_string = Some old" "old \<noteq> []" "blob = bytes" "bytes_count bytes old = 1"
    by (auto simp: accept_blob_def split: option.splits if_splits)
  moreover from old(4) bytes_find_counted[of bytes old] obtain i where i: "bytes_find bytes old = Some i" by auto
  moreover from assms old i have "case expected_old_start_line patch of Some n \<Rightarrow> line_of bytes i = n | None \<Rightarrow> True"
    by (auto simp: accept_blob_def split: option.splits if_splits)
  ultimately have "once_at_line old patch bytes"
    unfolding once_at_line_def using bytes_find_at[OF i]
    by (intro conjI exI[of _ "take i bytes"] exI[of _ "drop (i + length old) bytes"])
       (auto simp: line_of_def split: option.splits)
  with old show ?thesis by blast
qed

lemma resolve_t2_evidence:
  assumes "resolve_t2_before env target line_ts (json_text ''oldString'' tur) (value_get ''structuredPatch'' tur) prior c = (Some bytes, c')"
  shows "commit_evidence env tur line_ts prior bytes"
proof -
  from assms have "prior = 0" by (auto simp: resolve_t2_before_def split: if_splits)
  moreover from assms obtain ts root rel out blob where "line_ts = Some ts"
    "ie_git_log env root ts rel = Some (True, out)" "ie_git_show env root (trim (utf8_lossy out)) rel = Some (True, blob)"
    and a: "accept_blob (json_text ''oldString'' tur) (value_get ''structuredPatch'' tur) blob c = (Some bytes, c')"
    by (auto simp: resolve_t2_before_def Let_def split: if_splits option.splits)
  moreover note accept_blob_evidence[OF a]
  ultimately show ?thesis unfolding commit_evidence_def by blast
qed

lemma resolve_before_evidence:
  assumes "resolve_before env tur p line_ts target prior s = (Some bytes, op, s')"
  shows "before_evidence env tur p line_ts prior s bytes"
  using assms unfolding before_evidence_def resolve_before_def Let_def
  by (auto dest: resolve_backup_evidence resolve_t2_evidence split: option.splits if_splits prod.splits)

subsection \<open>Entries\<close>

lemma put_result_hash: "put_result sha io t now bs s = (Stored h d n, s') \<Longrightarrow> h = hash_bytes sha bs"
  by (auto simp: put_result_def Let_def split: if_splits option.splits io.splits)

lemma put_side_hash:
  assumes "put_side env side b = (Inr (Some h), b')"
  shows "\<exists>bs. side = Some bs \<and> h = hash_bytes (ie_sha env) bs"
proof -
  from assms obtain bs d n where "side = Some bs" "put_next env bs b = (Stored h d n, b')"
    by (auto simp: put_side_def split: option.splits prod.splits put_outcome.splits)
  moreover from this(2) have "h = hash_bytes (ie_sha env) bs"
    by (auto simp: put_next_def dest!: put_result_hash split: prod.splits)
  ultimately show ?thesis by blast
qed

lemma put_sides_hash:
  assumes "put_sides env before after b = (Inr (x, y), b')"
  shows "(\<forall>h. x = Some h \<longrightarrow> (\<exists>bs. before = Some bs \<and> h = hash_bytes (ie_sha env) bs))
    \<and> (\<forall>h. y = Some h \<longrightarrow> (\<exists>bs. after = Some bs \<and> h = hash_bytes (ie_sha env) bs))"
  using assms by (auto simp: put_sides_def dest: put_side_hash split: prod.splits sum.splits)

text \<open>Where the bytes after an edit come from.\<close>

definition edited :: "json \<Rightarrow> string \<Rightarrow> string \<Rightarrow> bool" where
  "edited tur base bytes \<longleftrightarrow> (\<exists>old new. json_text ''oldString'' tur = Some old \<and> json_text ''newString'' tur = Some new
     \<and> bytes = (if json_bool ''replaceAll'' tur = Some True then replace_all old new else replace_first old new) base)"

lemma after_bytes_evidence:
  assumes "after_bytes tur before = Some bytes" "json_text ''content'' tur = None"
  shows "\<exists>base. edited tur base bytes \<and> (json_text ''originalFile'' tur = Some base \<or> before = Some base)"
proof -
  from assms obtain old new base where "json_text ''oldString'' tur = Some old" "json_text ''newString'' tur = Some new"
    "bytes = (if json_bool ''replaceAll'' tur = Some True then replace_all old new else replace_first old new) base"
    "json_text ''originalFile'' tur = Some base \<or> before = Some base"
    by (auto simp: after_bytes_def split: option.splits if_splits)
  then show ?thesis unfolding edited_def by blast
qed

text \<open>
  What an imported entry may hold, given the result in the transcript and the session before it:
  the bytes before rest on evidence, the bytes after are the recorded content or, marked, an edit
  of bytes with evidence; an entry that is withheld or skipped holds nothing.
\<close>

definition entry_justified :: "import_env \<Rightarrow> json \<Rightarrow> string \<Rightarrow> string option \<Rightarrow> session \<Rightarrow> file_entry \<Rightarrow> bool" where
  "entry_justified env tur p line_ts s e \<longleftrightarrow> (\<exists>prior.
     (case fe_before e of None \<Rightarrow> True
      | Some h \<Rightarrow> \<exists>bs. h = hash_bytes (ie_sha env) bs \<and> before_evidence env tur p line_ts prior s bs)
   \<and> (case fe_after e of None \<Rightarrow> fe_after_synthesized e = None
      | Some h \<Rightarrow> \<exists>bs. h = hash_bytes (ie_sha env) bs \<and>
          (if fe_after_synthesized e = None then json_text ''content'' tur = Some bs
           else \<exists>base. edited tur base bs \<and> before_evidence env tur p line_ts prior s base))
   \<and> (fe_withheld e \<or> fe_skipped e \<longrightarrow> fe_before e = None \<and> fe_after e = None))"

lemma before_evidence_counts: "before_evidence env tur p ts prior (s\<lparr>ps_counts := m\<rparr>) bs = before_evidence env tur p ts prior s bs"
  by (simp add: before_evidence_def backup_evidence_def edits_since_def)

lemma classify_justified:
  assumes "classify_and_resolve env root tur p ts s = (Some e, s')"
  shows "entry_justified env tur p ts s e"
proof -
  from assms obtain cwd rel target path key prior where
    c: "tx_cwd s = Some cwd" "path_under (path_of cwd) (path_of p) = Some rel" "entry_target env cwd rel = Some target"
      "entry_path root target = Some path" and kp: "key = utf8_lossy (path_text target)" "prior = count_of (ps_counts s) key"
    by (auto simp: classify_and_resolve_def Let_def split: option.splits)
  let ?s1 = "s\<lparr>ps_counts := (ps_counts s)(key \<mapsto> prior + 1)\<rparr>"
  show ?thesis
  proof (cases "is_secret_path (ie_lower env) path")
    case True
    with assms c kp have "fe_before e = None" "fe_after e = None" "fe_after_synthesized e = None"
      by (auto simp: classify_and_resolve_def Let_def imported_entry_def)
    then show ?thesis by (simp add: entry_justified_def)
  next
    case False
    obtain before op s2 where r: "resolve_before env tur p ts target prior ?s1 = (before, op, s2)" by (metis prod_cases3)
    obtain sides b where ps: "put_sides env before (after_bytes tur before) (ps_blobs s2) = (sides, b)" by fastforce
    from False assms c kp r ps have e: "e = (with_sides (imported_entry path op False) sides)\<lparr>fe_after_synthesized :=
        (if json_text ''content'' tur = None \<and> fe_after (with_sides (imported_entry path op False) sides) \<noteq> None
         then Some True else None)\<rparr>"
      by (simp add: classify_and_resolve_def Let_def)
    have ev: "before = Some bs \<Longrightarrow> before_evidence env tur p ts prior s bs" for bs
      using resolve_before_evidence[of env tur p ts target prior ?s1 bs op s2] r by (simp add: before_evidence_counts)
    show ?thesis
    proof (cases sides)
      case (Inl reason)
      with e show ?thesis by (simp add: entry_justified_def with_sides_def imported_entry_def)
    next
      case (Inr xy)
      obtain x y where xy: "xy = (x, y)" by fastforce
      with e Inr have f: "fe_before e = x" "fe_after e = y" "\<not> fe_withheld e" "\<not> fe_skipped e"
        "fe_after_synthesized e = (if json_text ''content'' tur = None \<and> y \<noteq> None then Some True else None)"
        by (simp_all add: with_sides_def imported_entry_def)
      have h: "(\<forall>h. x = Some h \<longrightarrow> (\<exists>bs. before = Some bs \<and> h = hash_bytes (ie_sha env) bs))
          \<and> (\<forall>h. y = Some h \<longrightarrow> (\<exists>bs. after_bytes tur before = Some bs \<and> h = hash_bytes (ie_sha env) bs))"
        using put_sides_hash ps Inr xy by blast
      have after: "\<exists>base. edited tur base bs \<and> before_evidence env tur p ts prior s base"
        if "after_bytes tur before = Some bs" "json_text ''content'' tur = None" for bs
        using after_bytes_evidence[OF that] ev by (auto simp: before_evidence_def)
      have content: "json_text ''content'' tur = Some bs"
        if "after_bytes tur before = Some bs" "json_text ''content'' tur \<noteq> None" for bs
        using that by (auto simp: after_bytes_def)
      have before_ok: "case x of None \<Rightarrow> True
          | Some h \<Rightarrow> \<exists>bs. h = hash_bytes (ie_sha env) bs \<and> before_evidence env tur p ts prior s bs"
        using h ev by (cases x) (simp, simp, blast)
      have after_ok: "case y of None \<Rightarrow> fe_after_synthesized e = None
          | Some h \<Rightarrow> \<exists>bs. h = hash_bytes (ie_sha env) bs \<and>
              (if fe_after_synthesized e = None then json_text ''content'' tur = Some bs
               else \<exists>base. edited tur base bs \<and> before_evidence env tur p ts prior s base)"
      proof (cases y)
        case (Some h0)
        with h obtain bs where "after_bytes tur before = Some bs" "h0 = hash_bytes (ie_sha env) bs" by blast
        moreover from after content calculation(1) Some have "if fe_after_synthesized e = None then json_text ''content'' tur = Some bs
            else \<exists>base. edited tur base bs \<and> before_evidence env tur p ts prior s base"
          by (simp add: f(5))
        ultimately show ?thesis using Some by (simp only: option.case) blast
      qed (simp add: f(5))
      show ?thesis unfolding entry_justified_def f(1) f(2)
        by (rule exI[of _ prior]) (use before_ok after_ok f(3,4) in \<open>simp only: simp_thms\<close>)
    qed
  qed
qed

subsection \<open>A whole session\<close>

definition line_value :: "import_env \<Rightarrow> string option \<Rightarrow> json option" where
  "line_value env l = Option.bind l (\<lambda>line. if trim line = [] then None else ie_from_str env line)"

definition heard :: "json \<Rightarrow> session \<Rightarrow> session" where
  "heard v s = harvest_backups v (note_cwd v (note_id v s))"

lemma persist_line_value:
  "persist_line env root s l = (case line_value env l of None \<Rightarrow> s | Some v \<Rightarrow> persist_value env root v (heard v s))"
  by (simp add: persist_line_def line_value_def heard_def split: option.split)

text \<open>The entry comes from line \<open>k\<close>: a result of the main conversation that names a path.\<close>

definition entry_from :: "import_env \<Rightarrow> rpath \<Rightarrow> import_state \<Rightarrow> string option list \<Rightarrow> file_entry \<Rightarrow> bool" where
  "entry_from env root st ls e \<longleftrightarrow> (\<exists>k v tur p. k < length ls \<and> line_value env (ls ! k) = Some v \<and> \<not> is_sidechain v
     \<and> value_get ''toolUseResult'' v = Some tur \<and> json_text ''filePath'' tur = Some p
     \<and> entry_justified env tur p (json_text ''timestamp'' v)
         (heard v (foldl (persist_line env root) (start_session st) (take k ls))) e)"

definition turn_entries :: "turns \<Rightarrow> file_entry set" where
  "turn_entries s = (\<Union>t \<in> set (tn_cur s # tn_finished s). set (pt_files t))"

lemma touch_turn_entries [simp]: "turn_entries (touch_turn ts s) = turn_entries s"
  by (simp add: turn_entries_def touch_turn_def touch_opt_def touch_ts_def split: option.split)

lemma begin_turn_entries [simp]: "turn_entries (begin_turn prompt ts s) = turn_entries s"
  by (auto simp: turn_entries_def begin_turn_def Let_def touch_opt_def touch_ts_def new_turn_def split: option.split)

lemma add_file_entries: "turn_entries (add_file e s) = turn_entries s \<union> set_option e"
  by (auto simp: turn_entries_def add_file_def split: option.split)

lemma record_backup_turns [simp]: "ps_turns (record_backup p n s) = ps_turns s"
  by (simp add: record_backup_def)

lemma heard_turns [simp]: "ps_turns (heard v s) = ps_turns s"
proof -
  have f: "ps_turns (foldl (\<lambda>t (key, name). record_backup (k key) name t) s ms) = ps_turns s" for k ms and s :: session
    by (induction ms arbitrary: s) (auto split: prod.split)
  have h: "ps_turns (harvest_backup s m) = ps_turns s" for m and s :: session
    by (auto simp: harvest_backup_def split: prod.split option.split)
  have g: "ps_turns (foldl harvest_backup s ms) = ps_turns s" for ms and s :: session
    by (induction ms arbitrary: s) (auto simp: h)
  show ?thesis
    by (auto simp: heard_def harvest_backups_def note_cwd_def note_id_def f g split: option.split)
qed

lemma classify_turns [simp]: "ps_turns (snd (classify_and_resolve env root tur p ts s)) = ps_turns s"
proof -
  have m: "ps_turns (mark_edit p s) = ps_turns s" for s :: session
    by (simp add: mark_edit_def split: option.split)
  have "ps_turns (snd (snd (resolve_before env tur p ts target prior s))) = ps_turns s" for target prior s
    by (auto simp: resolve_before_def Let_def m split: option.split prod.split)
  then have "resolve_before env tur p ts target prior s = (b, op, s') \<Longrightarrow> ps_turns s' = ps_turns s" for target prior s b op s'
    by (metis snd_conv)
  then show ?thesis
    by (auto simp: classify_and_resolve_def Let_def m split: option.split prod.split)
qed

lemma before_evidence_turns: "before_evidence env tur p ts prior (s\<lparr>ps_turns := x\<rparr>) bs = before_evidence env tur p ts prior s bs"
  by (simp add: before_evidence_def backup_evidence_def edits_since_def)

lemma entry_justified_turns: "entry_justified env tur p ts (s\<lparr>ps_turns := x\<rparr>) e = entry_justified env tur p ts s e"
  by (simp only: entry_justified_def before_evidence_turns)

lemma persist_value_entries:
  "e \<in> turn_entries (ps_turns (persist_value env root v s)) \<Longrightarrow> e \<in> turn_entries (ps_turns s)
   \<or> (\<exists>tur p. \<not> is_sidechain v \<and> value_get ''toolUseResult'' v = Some tur \<and> json_text ''filePath'' tur = Some p
        \<and> entry_justified env tur p (json_text ''timestamp'' v) s e)"
proof -
  assume e: "e \<in> turn_entries (ps_turns (persist_value env root v s))"
  let ?ts = "json_text ''timestamp'' v"
  let ?s = "s\<lparr>ps_turns := touch_turn ?ts (ps_turns s)\<rparr>"
  let ?prompt = "if \<not> is_sidechain v \<and> is_genuine_user_prompt v then extract_user_text v else None"
  show ?thesis
  proof (cases "bookkeeping_only v \<or> ?prompt \<noteq> None \<or> is_sidechain v
      \<or> Option.bind (value_get ''toolUseResult'' v) (json_text ''filePath'') = None")
    case True
    then have "turn_entries (ps_turns (persist_value env root v s)) = turn_entries (ps_turns s)"
    proof (cases ?prompt)
      case None
      show ?thesis
      proof (cases "value_get ''toolUseResult'' v")
        case (Some tur)
        with None True show ?thesis
          by (cases "json_text ''filePath'' tur") (simp_all only: persist_value_def Let_def option.case Option.bind_lunit if_True if_False simp_thms, simp_all, blast)
      qed (simp only: persist_value_def Let_def None option.case, simp)
    qed (simp only: persist_value_def Let_def option.case, simp)
    with e show ?thesis by simp
  next
    case False
    then obtain tur p where result: "\<not> is_sidechain v" "value_get ''toolUseResult'' v = Some tur" "json_text ''filePath'' tur = Some p"
      by (auto simp: bind_eq_Some_conv)
    with False have step: "persist_value env root v s = (case classify_and_resolve env root tur p ?ts ?s of
           (e, s') \<Rightarrow> s'\<lparr>ps_turns := add_file e (ps_turns s')\<rparr>)"
      by (simp add: persist_value_def Let_def)
    obtain e' s1 where c: "classify_and_resolve env root tur p ?ts ?s = (e', s1)" by fastforce
    with classify_turns[of env root tur p ?ts ?s] have "turn_entries (ps_turns s1) = turn_entries (ps_turns s)" by simp
    with e step c have "e \<in> turn_entries (ps_turns s) \<or> e' = Some e" by (auto simp: add_file_entries)
    moreover have "entry_justified env tur p ?ts s e" if "e' = Some e"
      using classify_justified[of env root tur p ?ts ?s e s1] c that by (simp add: entry_justified_turns)
    ultimately show ?thesis using result by blast
  qed
qed

lemma session_entries_from:
  "k \<le> length ls \<Longrightarrow> e \<in> turn_entries (ps_turns (foldl (persist_line env root) (start_session st) (take k ls)))
   \<Longrightarrow> entry_from env root st ls e"
proof (induction k)
  case 0
  then show ?case by (simp add: start_session_def no_turns_def new_turn_def turn_entries_def)
next
  case (Suc k)
  let ?s = "foldl (persist_line env root) (start_session st) (take k ls)"
  from Suc.prems have k: "k < length ls"
    and e: "e \<in> turn_entries (ps_turns (persist_line env root ?s (ls ! k)))"
    by (auto simp: take_Suc_conv_app_nth)
  show ?case
  proof (cases "line_value env (ls ! k)")
    case None
    with e Suc.IH k show ?thesis by (simp only: persist_line_value[of env root ?s "ls ! k"] option.case)
  next
    case (Some v)
    with e have "e \<in> turn_entries (ps_turns (persist_value env root v (heard v ?s)))"
      by (simp only: persist_line_value[of env root ?s "ls ! k"] option.case)
    from persist_value_entries[OF this] show ?thesis
    proof
      assume "e \<in> turn_entries (ps_turns (heard v ?s))"
      with Suc.IH k show ?thesis by simp
    next
      assume "\<exists>tur p. \<not> is_sidechain v \<and> value_get ''toolUseResult'' v = Some tur \<and> json_text ''filePath'' tur = Some p
          \<and> entry_justified env tur p (json_text ''timestamp'' v) (heard v ?s) e"
      with k Some show ?thesis unfolding entry_from_def by blast
    qed
  qed
qed

lemma imported_turns_files:
  "t \<in> set (fst (imported_turns env tool root sid ts b)) \<Longrightarrow> \<exists>q \<in> set ts. tr_files t = pt_files q"
proof (induction ts arbitrary: b)
  case (Cons q ts)
  obtain r b1 where r: "imported_turn env tool root sid q b = (r, b1)" by fastforce
  obtain rs b2 where rs: "imported_turns env tool root sid ts b1 = (rs, b2)" by fastforce
  from r have "tr_files r = pt_files q" by (auto simp: imported_turn_def Let_def split: prod.splits)
  with Cons.IH[of b1] Cons.IH[of b] Cons.prems r rs show ?case by (auto split: if_splits)
qed simp

lemma all_turns_entries: "q \<in> set (all_turns s) \<Longrightarrow> set (pt_files q) \<subseteq> turn_entries s"
  by (auto simp: all_turns_def turn_entries_def split: if_splits)


end
