(* ===== verification/Spec2Isabelle.thy ===== *)
theory Spec2Isabelle
  imports Engine_Props Attest_Props Records_Props Store_Props Retention_Props Blame_Props
    Undo_Ledger_Props Ids_Time_Props Scrub_Props Memory_Props Bisect_Props
    Recorder_State_Props Watch_Props Recorder_Props Signals_Props Journal_Props Stale_Props Purge_Props
    Daemon_Props Stats_Props Annotate_Props Search_Props Dates_Props Config Libtest_Props
    Attest_Read_Props Attest_Write_Props Derive_Props Import_Props Import_Bytes_Props
begin

text \<open>
  agentrec, a flight recorder for coding agents: a daemon watches a working tree, groups file
  changes into turns (bare, or rich when an agent's hooks bracket them), keeps the contents in a
  content-addressed store and appends the turns to \<open>.agentrec/log.jsonl\<close>. Everything else reads
  that log and that store: views, blame, bisection, undo, pinned memories, test claims.

  Parts, and the theories that model them (paths under src/).

  \<^item> Turn engine, agentrec-core/src/engine.rs: Engine (state and operations), Engine_Runs (any
    sequence of calls, as a \<open>machine_invariant\<close> of Prelude), Engine_Props. \<open>turn_engine\<close> is
    \<open>TurnEngine\<close>, one definition per method, each returning the state and the closed turns.
  \<^item> Records, agentrec-core/src/record.rs: Json (the values serde_json reads and writes), Records
    (record types, their codecs, the log reader, appends), Records_Props.
  \<^item> Blob store, agentrec-core/src/store.rs: Store, Store_Props. A store is an association list from
    object keys to directory entries; \<open>sha\<close> is SHA-256.
  \<^item> Retention, agentrec-core/src/retention.rs: Retention, Retention_Props.
  \<^item> Read views, agentrec-core/src/view.rs, diff.rs, text.rs: Text, View (ledger, gaps, listing,
    paging), Diff_Blame, View_Props, Blame_Props.
  \<^item> Undo, agentrec-core/src/undo_coordinator.rs and cli/src/approvecmd.rs, readcmds.rs, mcpcmd.rs:
    Undo_Ledger (events and their projections), Undo_Plan (gates, plan, one revert), Undo
    (coordinator operations), Undo_Apply (a claimed run, the commands), Undo_Props, Undo_Run_Props,
    Undo_Ledger_Props (any sequence of coordinator operations).
  \<^item> Attest claims, agentrec-core/src/attest/: Attest, Attest_Props. The commands over them,
    cli/src/attest/: Attest_Read (status, gate, report, review, manual claims), Libtest (the cargo
    test adapter with the parser of test output), Attest_Write (replay, discovery of tests, capture
    of evidence), with Attest_Read_Props, Libtest_Props, Attest_Write_Props and Derive_Props.
  \<^item> Annotations, search and statistics, agentrec-core/src/annotate.rs, search.rs, stats.rs:
    Annotate, Search, Stats, each with its _Props. Strings has the functions of \<open>str\<close> they use, Dates
    the reader of time stamps (Dates_Props).
  \<^item> Configuration and the noise filter, cli/src/config.rs, noise.rs: Config.
  \<^item> Ids and time stamps, agentrec-core/src/id.rs, time.rs: Ids_Time, Ids_Time_Props.
  \<^item> Secrets and redaction, agentrec-core/src/scrub.rs: Scrub, Scrub_Props.
  \<^item> Pinned memories, agentrec-core/src/memory.rs: Memory, Memory_Props.
  \<^item> Bisection, agentrec-core/src/bisect.rs, cli/src/bisectcmd.rs: Bisect, Bisect_Props.
  \<^item> The daemon, cli/src/daemon.rs and state.rs: Recorder_State (state.json), Watch (which events
    become pending paths), Recorder (staging a batch: entries, blobs, the latest content), Signals
    (the inbox and its effect on the engine), Journal (the crash journal, its recovery, the append
    of turns and epochs), Stale (claims a batch of writes touches), Daemon (one iteration of the
    loop, start, shutdown, any number of iterations), each with its _Props; Entry_Props says what
    the entries the engine is given look like, Daemon_Props what the whole loop does.
  \<^item> Purging, cli/src/purgecmd.rs: Purge, Purge_Props.
  \<^item> Import of foreign transcripts, cli/src/importcmd.rs: Import (paths, transcripts, backups, the
    dry run over Claude's projects), Import_Persist (the run that appends turns), Import_Codex (both
    for Codex's rollouts), Import_Props, Import_Bytes_Props.

  How they meet: the daemon drains watch events and signals, stages contents in the store, feeds
  the engine, and appends the engine's \<open>closed_turn\<close>s as \<open>turn_record\<close>s; Records says that what
  is appended is what the readers load; the views, bisection and undo read those records and the
  store; retention, purging and undo write the store, and their theorems say which blobs stay
  readable.

  What the groups of lemmas show.

  \<^item> Engine: every emitted turn is honest about its grade, no observed path is lost, a bare turn is
    absorbed at most once, a bracket never swallows what came before it.
  \<^item> Records, Attest, Ids: codecs round trip and misread nothing; ids and time stamps sort as time.
  \<^item> Store, Retention: stored blobs stay readable; eviction touches nothing pinned or referenced by
    recent turns, and meets its budget.
  \<^item> Views: gaps, census, pages that neither drop nor repeat, line blame on the newest evidence.
  \<^item> Undo: planned reverts are safe, a run loses no content and is recorded as it went, reservations
    never overlap, tokens are spent once, a claim is bound to what was previewed.
  \<^item> Memory: the fold does not depend on file order; recall returns exactly the fresh hits.
  \<^item> Bisection: verdicts rest on answers; the first bad turn is found, in few probes; a probe state
    is the recorded history.
  \<^item> Daemon: own writes never become pending; entries of a path chain; each signal is read once;
    recovery logs a journaled turn once; what is logged is what the engine emitted and is well
    formed; the loop loses only blobs that retention may evict; a clean stop records every observed
    path.
  \<^item> Attest commands: a verdict follows from runs of its test, the gate blocks exactly what it must,
    a review unblocks only what a human accepted, an outcome is read only from output that agrees
    with its own summary, a repeated discovery finds nothing to do.
  \<^item> Annotations, search, statistics: attributions are exact, hits show what was searched for, pages
    are complete, every write event is counted once; printed stamps are read back.
  \<^item> Purging: nothing is lost except by the flag that deletes; path purges remove exactly the
    matching blobs.
  \<^item> Import: an interrupted import is finished by the next one, each turn appended once; the bytes
    an imported entry holds come from its transcript, an unedited backup or a fitting commit.

  Representation. Rust strings are byte lists; \<open>u64\<close> values are naturals with explicit wrap or
  saturation where the code has it, record versions are 32-bit words; a working tree is a map from
  relative paths to nodes. Loops are recursions over lists; \<open>search\<close> in Bisect and the walks of
  Undo_Plan and Scrub terminate by a measure. No fuel is used. The one bound of the code that a
  theorem meets is the window of 50 records in which recovery looks for a journaled turn; it is a
  hypothesis there.

  Parameters stand for code outside the repository or outside HOL: SHA-256 (sha2), JSON text
  (serde_json), line diffs (similar), regular expressions (regex), \<open>canonicalize\<close>, the clock and the
  entropy source, Unicode lower-casing, \<open>f64\<close> scores, gitignore matching (ignore), and the outcome
  of each file system call; what an operation reads of the tree while it runs, and what happens to
  the files between two of its calls, is an argument of it.

  Not modelled: the operating system's watcher, services and locks, initialization and removal,
  the importers' fabrication oracle of debug builds, the instrumented builds of the coverage recorder, the hashing of test bodies, the text
  output of the commands.
\<close>

end
